(* ===== verification/Prelude.thy ===== *)
theory Prelude
  imports Main "HOL-Library.Word"
begin

text \<open>
  Shared vocabulary of the development: the exceptions the Python code raises as
  values (\<open>py_error\<close>), results that are either an exception or a value
  (\<open>'a res\<close>), the collections of simplification rules, and generic lemmas on
  lists and arithmetic used by several components.
\<close>

unbundle bit_operations_syntax

named_theorems layout_simps \<open>resolved positions of structure fields\<close>
named_theorems res_simps \<open>evaluation of results that may be exceptions\<close>
named_theorems mem_simps \<open>reads of a memory after writes\<close>

section \<open>Exceptions and results\<close>

datatype py_error =
    AssertionError
  | IndexError
  | KeyError
  | ValueError
  | AttributeError
  | MemoryError
  | UnboundLocalError
  | StopIteration
  | ZeroDivisionError
  | TypeError
  | BlockingIOError
  | FuelExhausted
  | PlainException
  | OSError
  | BufferError
  | NVMeDevicePhysicalNotFoundError
  | NVMeStatusCodeException nat string

type_synonym 'a res = "py_error + 'a"

definition bindR :: "'a res \<Rightarrow> ('a \<Rightarrow> 'b res) \<Rightarrow> 'b res" where
  "bindR m f = (case m of Inl e \<Rightarrow> Inl e | Inr x \<Rightarrow> f x)"

definition assertR :: "bool \<Rightarrow> unit res" where
  "assertR b = (if b then Inr () else Inl AssertionError)"

definition ok :: "'a res \<Rightarrow> bool" where
  "ok m = (case m of Inl e \<Rightarrow> False | Inr x \<Rightarrow> True)"

lemma bindR_simps [simp, res_simps]:
  "bindR (Inl e) f = Inl e"
  "bindR (Inr x) f = f x"
  by (simp_all add: bindR_def)

lemma assertR_simps [simp, res_simps]:
  "assertR True = Inr ()"
  "assertR False = Inl AssertionError"
  by (simp_all add: assertR_def)

lemma ok_simps [simp, res_simps]: "\<not> ok (Inl e)" "ok (Inr x)"
  by (simp_all add: ok_def)

lemma bindR_eq_Inr_iff: "bindR m f = Inr y \<longleftrightarrow> (\<exists>x. m = Inr x \<and> f x = Inr y)"
  by (cases m) auto

lemma bindR_eq_Inl_iff: "bindR m f = Inl e \<longleftrightarrow> m = Inl e \<or> (\<exists>x. m = Inr x \<and> f x = Inl e)"
  by (cases m) auto

lemma assertR_eq_Inr_iff [simp]: "assertR b = Inr u \<longleftrightarrow> b"
  by (simp add: assertR_def)

lemma assertR_eq_Inl_iff [simp]: "assertR b = Inl e \<longleftrightarrow> \<not> b \<and> e = AssertionError"
  by (auto simp: assertR_def)

lemmas res_iffs = bindR_eq_Inr_iff bindR_eq_Inl_iff

section \<open>Python lists and integers\<close>

text \<open>\<open>math.ceil(a / b)\<close> on non-negative operands.\<close>

definition ceil_div :: "nat \<Rightarrow> nat \<Rightarrow> nat" where
  "ceil_div a b = (a + b - 1) div b"

lemma ceil_div_le_iff: "0 < b \<Longrightarrow> ceil_div a b \<le> n \<longleftrightarrow> a \<le> n * b"
proof -
  assume b: "0 < b"
  have "(a + b - 1) div b \<le> n \<longleftrightarrow> a + b - 1 < Suc n * b"
    using b by (metis less_Suc_eq_le div_less_iff_less_mult)
  then show ?thesis
    using b by (auto simp: ceil_div_def)
qed

lemma ceil_div_pos: "0 < b \<Longrightarrow> 0 < a \<Longrightarrow> 0 < ceil_div a b"
  using ceil_div_le_iff [of b a 0] by auto

lemma ceil_div_bounds:
  assumes "0 < b" "0 < a"
  shows "(ceil_div a b - 1) * b < a" and "a \<le> ceil_div a b * b"
  using ceil_div_le_iff [of b a "ceil_div a b - 1"] ceil_div_le_iff [of b a "ceil_div a b"]
    ceil_div_pos [OF assms] assms by auto

lemma ceil_div_mult [simp]: "0 < b \<Longrightarrow> ceil_div (n * b) b = n"
  by (rule order_antisym) (use ceil_div_le_iff [of b "n * b" n]
      ceil_div_le_iff [of b "n * b" "ceil_div (n * b) b"] in auto)

text \<open>Removing the first equal element, as \<open>list.remove\<close> (which raises when there is none).\<close>

definition list_remove :: "'a \<Rightarrow> 'a list \<Rightarrow> 'a list res" where
  "list_remove x xs = (if x \<in> set xs then Inr (remove1 x xs) else Inl ValueError)"

lemma list_remove_Inr_iff: "list_remove x xs = Inr ys \<longleftrightarrow> x \<in> set xs \<and> ys = remove1 x xs"
  by (auto simp: list_remove_def)

text \<open>An index read that raises out of range, for indices known to be non-negative.\<close>

definition list_get :: "'a list \<Rightarrow> nat \<Rightarrow> 'a res" where
  "list_get xs i = (if i < length xs then Inr (xs ! i) else Inl IndexError)"

lemma list_get_simps [simp, res_simps]:
  "i < length xs \<Longrightarrow> list_get xs i = Inr (xs ! i)"
  "length xs \<le> i \<Longrightarrow> list_get xs i = Inl IndexError"
  by (simp_all add: list_get_def)

lemma distinct_conv_nth_less: "distinct xs \<longleftrightarrow> (\<forall>i j. i < j \<longrightarrow> j < length xs \<longrightarrow> xs ! i \<noteq> xs ! j)"
  by (auto simp: distinct_conv_nth nat_neq_iff) (metis nat_neq_iff order_less_trans)+

lemma mod_eq_within:
  fixes a b n :: nat
  assumes "a \<le> b" "b < a + n" "a mod n = b mod n"
  shows "a = b"
proof -
  from assms(1,3) have "n dvd b - a"
    using mod_eq_dvd_iff_nat [of a b n] by (metis mod_eq_dvd_iff_nat)
  moreover have "b - a < n" using assms(1,2) by simp
  ultimately have "b - a = 0" by (auto dest: dvd_imp_le)
  with assms(1) show ?thesis by simp
qed

end
