(* ===== verification/Bytes.thy ===== *)
theory Bytes
  imports Prelude
begin

text \<open>
  Bytes and memory. A ctypes object is a buffer of bytes; multi-byte integers are stored
  in little-endian order. The process memory that the driver and the simulated device share is a
  function from addresses to bytes, read and written in blocks; \<open>c_uint32\<close> and
  \<open>c_uint64\<close> objects at an address are blocks of four and eight bytes.
\<close>

type_synonym byte = "8 word"
type_synonym memory = "nat \<Rightarrow> byte"

section \<open>Little-endian integers\<close>

fun le_nat :: "byte list \<Rightarrow> nat" where
  "le_nat [] = 0"
| "le_nat (b # bs) = unat b + 256 * le_nat bs"

fun to_le :: "nat \<Rightarrow> nat \<Rightarrow> byte list" where
  "to_le 0 v = []"
| "to_le (Suc n) v = word_of_nat v # to_le n (v div 256)"

lemma length_to_le [simp]: "length (to_le n v) = n"
  by (induction n arbitrary: v) auto

lemma le_nat_less: "le_nat bs < 256 ^ length bs"
proof (induction bs)
  case (Cons b bs)
  have "unat b < 256" using unsigned_less [of b] by simp
  with Cons show ?case by simp
qed simp

lemma le_nat_to_le [simp]: "le_nat (to_le n v) = v mod 256 ^ n"
proof (induction n arbitrary: v)
  case (Suc n)
  have "v mod 256 + 256 * (v div 256 mod 256 ^ n) = v mod (256 * 256 ^ n)"
    by (simp add: mod_mult2_eq)
  with Suc show ?case by (simp add: unsigned_of_nat take_bit_eq_mod)
qed simp

lemma to_le_le_nat [simp]: "length bs = n \<Longrightarrow> to_le n (le_nat bs) = bs"
proof (induction bs arbitrary: n)
  case (Cons b bs)
  have b: "unat b < 256" using unsigned_less [of b] by simp
  have "(256 :: byte) = 0" by (rule unsigned_word_eqI) simp
  then have "(256 :: byte) * w = 0" for w by (metis mult_zero_left)
  then have "(word_of_nat (unat b + 256 * le_nat bs) :: byte) = b" by simp
  with Cons b show ?case by auto
qed simp

lemma to_le_eq_iff: "to_le n v = to_le n w \<longleftrightarrow> v mod 256 ^ n = w mod 256 ^ n"
  by (metis le_nat_to_le to_le_le_nat length_to_le)

lemma le_nat_replicate_0 [simp]: "le_nat (replicate n 0) = 0"
  by (induction n) auto

section \<open>Memory blocks\<close>

definition read_bytes :: "memory \<Rightarrow> nat \<Rightarrow> nat \<Rightarrow> byte list" where
  "read_bytes m a n = map m [a..<a + n]"

definition write_bytes :: "memory \<Rightarrow> nat \<Rightarrow> byte list \<Rightarrow> memory" where
  "write_bytes m a bs = (\<lambda>x. if a \<le> x \<and> x < a + length bs then bs ! (x - a) else m x)"

text \<open>Two blocks of memory share no byte.\<close>

definition separate :: "nat \<Rightarrow> nat \<Rightarrow> nat \<Rightarrow> nat \<Rightarrow> bool" where
  "separate a n b k \<longleftrightarrow> a + n \<le> b \<or> b + k \<le> a"

lemma separate_sym: "separate a n b k = separate b k a n"
  by (auto simp: separate_def)

lemma length_read_bytes [simp]: "length (read_bytes m a n) = n"
  by (simp add: read_bytes_def)

lemma read_bytes_nth [simp]: "i < n \<Longrightarrow> read_bytes m a n ! i = m (a + i)"
  by (simp add: read_bytes_def)

lemma read_bytes_eqI: "(\<And>x. a \<le> x \<Longrightarrow> x < a + n \<Longrightarrow> m x = m' x) \<Longrightarrow> read_bytes m a n = read_bytes m' a n"
  by (auto simp: read_bytes_def)

lemma read_write_same [simp, mem_simps]:
  "length bs = n \<Longrightarrow> read_bytes (write_bytes m a bs) a n = bs"
  by (rule nth_equalityI) (auto simp: write_bytes_def)

lemma read_write_separate [mem_simps]:
  "separate a (length bs) b n \<Longrightarrow> read_bytes (write_bytes m a bs) b n = read_bytes m b n"
  by (rule read_bytes_eqI) (auto simp: write_bytes_def separate_def)

lemma write_bytes_same [simp]:
  "length cs = length bs \<Longrightarrow> write_bytes (write_bytes m a bs) a cs = write_bytes m a cs"
  by (auto simp: write_bytes_def)

lemma write_bytes_Nil [simp]: "write_bytes m a [] = m"
  by (rule ext) (auto simp: write_bytes_def)

lemma write_bytes_outside: "x < a \<or> a + length bs \<le> x \<Longrightarrow> write_bytes m a bs x = m x"
  by (auto simp: write_bytes_def)

lemma read_bytes_append: "read_bytes m a (n + k) = read_bytes m a n @ read_bytes m (a + n) k"
  unfolding read_bytes_def map_append [symmetric]
  by (metis add.assoc le_add1 upt_add_eq_append)

section \<open>Integers in memory\<close>

definition read32 :: "memory \<Rightarrow> nat \<Rightarrow> nat" where
  "read32 m a = le_nat (read_bytes m a 4)"

definition write32 :: "memory \<Rightarrow> nat \<Rightarrow> nat \<Rightarrow> memory" where
  "write32 m a v = write_bytes m a (to_le 4 v)"

definition read64 :: "memory \<Rightarrow> nat \<Rightarrow> nat" where
  "read64 m a = le_nat (read_bytes m a 8)"

definition write64 :: "memory \<Rightarrow> nat \<Rightarrow> nat \<Rightarrow> memory" where
  "write64 m a v = write_bytes m a (to_le 8 v)"

lemma read32_less: "read32 m a < 2 ^ 32"
  using le_nat_less [of "read_bytes m a 4"] by (simp add: read32_def)

lemma read64_less: "read64 m a < 2 ^ 64"
  using le_nat_less [of "read_bytes m a 8"] by (simp add: read64_def)

lemma read32_write32 [simp, mem_simps]: "read32 (write32 m a v) a = v mod 2 ^ 32"
  by (simp add: read32_def write32_def)

lemma read64_write64 [simp, mem_simps]: "read64 (write64 m a v) a = v mod 2 ^ 64"
  by (simp add: read64_def write64_def)

lemma read32_write_separate [mem_simps]:
  "separate a (length bs) b 4 \<Longrightarrow> read32 (write_bytes m a bs) b = read32 m b"
  by (simp add: read32_def read_write_separate)

lemma read64_write_separate [mem_simps]:
  "separate a (length bs) b 8 \<Longrightarrow> read64 (write_bytes m a bs) b = read64 m b"
  by (simp add: read64_def read_write_separate)

lemma read_write32_separate [mem_simps]:
  "separate a 4 b n \<Longrightarrow> read_bytes (write32 m a v) b n = read_bytes m b n"
  by (simp add: write32_def read_write_separate)

lemma read32_write32_separate [mem_simps]:
  "separate a 4 b 4 \<Longrightarrow> read32 (write32 m a v) b = read32 m b"
  by (simp add: read32_def read_write32_separate)

lemma read_write64_separate [mem_simps]:
  "separate a 8 b n \<Longrightarrow> read_bytes (write64 m a v) b n = read_bytes m b n"
  by (simp add: write64_def read_write_separate)

lemma read64_write64_separate [mem_simps]:
  "separate a 8 b 8 \<Longrightarrow> read64 (write64 m a v) b = read64 m b"
  by (simp add: read64_def read_write64_separate)

lemma read32_zero [simp]: "read32 (\<lambda>_. 0) a = 0"
  by (simp add: read32_def read_bytes_def map_replicate_const)

end
