(* ===== verification/Ctypes.thy ===== *)
theory Ctypes
  imports Bytes
begin

text \<open>
  The part of Python's \<open>ctypes\<close> library the specification modules are written in:
  packed structures (\<open>_pack_ = 1\<close>), arrays, unions and bit fields. A layout is a value of
  type \<open>cty\<close>, read off the \<open>_fields_\<close> list of the class; a structure object is the list of its bytes.
  A resolved field is a pair of its first bit and its width in the little-endian
  integer that the bytes of the structure spell, so that a bit field and a whole
  integer field are read and written by the same two functions, \<open>getf\<close> and \<open>setf\<close>.
\<close>

section \<open>Types and sizes\<close>

datatype cty =
    UInt nat
  | Arr cty nat
  | Struct "(string \<times> cty \<times> nat option) list"
  | Union "(string \<times> cty) list"

text \<open>
  Placing the fields of a structure one after another. The state is the byte offset
  of the next free byte and, inside a run of bit fields, the size of the storage unit that
  is open (the last one placed) and the number of its bits used so far. A bit field joins the open unit when it has the
  same storage type and still fits; otherwise it opens a new unit.
\<close>

type_synonym pstate = "nat \<times> (nat \<times> nat) option"

fun place :: "pstate \<Rightarrow> nat \<times> nat option \<Rightarrow> (nat \<times> nat) \<times> pstate" where
  "place (pos, open_unit) (s, None) = ((8 * pos, 8 * s), (pos + s, None))"
| "place (pos, None) (s, Some w) = ((8 * pos, w), (pos + s, Some (s, w)))"
| "place (pos, Some (s', used)) (s, Some w) =
     (if s' = s \<and> used + w \<le> 8 * s
      then ((8 * (pos - s) + used, w), (pos, Some (s, used + w)))
      else ((8 * pos, w), (pos + s, Some (s, w))))"

fun places :: "pstate \<Rightarrow> (nat \<times> nat option) list \<Rightarrow> (nat \<times> nat) list \<times> pstate" where
  "places st [] = ([], st)"
| "places st (f # fs) =
     (let (p, st') = place st f; (ps, st'') = places st' fs in (p # ps, st''))"

fun csize :: "cty \<Rightarrow> nat" where
  "csize (UInt n) = n"
| "csize (Arr t n) = n * csize t"
| "csize (Struct fs) = fst (snd (places (0, None) (map (\<lambda>(n, t, b). (csize t, b)) fs)))"
| "csize (Union fs) = fold max (map (\<lambda>(n, t). csize t) fs) 0"

definition struct_places :: "(string \<times> cty \<times> nat option) list \<Rightarrow> (nat \<times> nat) list" where
  "struct_places fs = fst (places (0, None) (map (\<lambda>(n, t, b). (csize t, b)) fs))"

section \<open>Resolving a field\<close>

text \<open>
  An access path is a list of attribute names and array indices, as in
  \<open>regs.SQNDBS[3].CQHEAD\<close>. When a class lists a name twice the later descriptor replaces
  the earlier one, so the lookup takes the last match.
\<close>

datatype step = Fld string | Idx nat

definition last_match :: "string \<Rightarrow> (string \<times> 'a) list \<Rightarrow> 'a option" where
  "last_match n xs = map_of (rev xs) n"

fun field_at :: "cty \<Rightarrow> step list \<Rightarrow> nat \<Rightarrow> (nat \<times> nat) option" where
  "field_at t [] b = Some (b, 8 * csize t)"
| "field_at (Struct fs) (Fld n # p) b =
     (case last_match n (map2 (\<lambda>(m, t, w) q. (m, t, w, q)) fs (struct_places fs)) of
        None \<Rightarrow> None
      | Some (t, None, q) \<Rightarrow> field_at t p (b + fst q)
      | Some (t, Some w, q) \<Rightarrow> (if p = [] then Some (b + fst q, snd q) else None))"
| "field_at (Union fs) (Fld n # p) b =
     (case last_match n fs of None \<Rightarrow> None | Some t \<Rightarrow> field_at t p b)"
| "field_at (Arr t n) (Idx i # p) b =
     (if i < n then field_at t p (b + 8 * i * csize t) else None)"
| "field_at _ _ _ = None"

definition field_pos :: "cty \<Rightarrow> step list \<Rightarrow> (nat \<times> nat) option" where
  "field_pos t p = field_at t p 0"

text \<open>\<open>Class.attr.offset\<close>, in bytes.\<close>

definition offset_of :: "cty \<Rightarrow> step list \<Rightarrow> nat option" where
  "offset_of t p = map_option (\<lambda>(b, w). b div 8) (field_pos t p)"

section \<open>Reading and writing a field\<close>

definition get_bits :: "nat \<Rightarrow> nat \<Rightarrow> nat \<Rightarrow> nat" where
  "get_bits p w v = take_bit w (drop_bit p v)"

definition put_bits :: "nat \<Rightarrow> nat \<Rightarrow> nat \<Rightarrow> nat \<Rightarrow> nat" where
  "put_bits p w x v = take_bit p v OR push_bit p (take_bit w x) OR push_bit (p + w) (drop_bit (p + w) v)"

definition getf :: "nat \<times> nat \<Rightarrow> byte list \<Rightarrow> nat" where
  "getf f bs = get_bits (fst f) (snd f) (le_nat bs)"

definition setf :: "nat \<times> nat \<Rightarrow> nat \<Rightarrow> byte list \<Rightarrow> byte list" where
  "setf f x bs = to_le (length bs) (put_bits (fst f) (snd f) x (le_nat bs))"

text \<open>\<open>setattr\<close> for each keyword of a constructor call, in order.\<close>

definition set_fields :: "((nat \<times> nat) \<times> nat) list \<Rightarrow> byte list \<Rightarrow> byte list" where
  "set_fields fxs bs = fold (\<lambda>(f, x). setf f x) fxs bs"

text \<open>A new structure object is zeroed.\<close>

definition zeros :: "nat \<Rightarrow> byte list" where
  "zeros n = replicate n 0"

lemma length_zeros [simp]: "length (zeros n) = n"
  by (simp add: zeros_def)

subsection \<open>Laws of the bit ranges\<close>

definition apart :: "nat \<times> nat \<Rightarrow> nat \<times> nat \<Rightarrow> bool" where
  "apart f g \<longleftrightarrow> fst f + snd f \<le> fst g \<or> fst g + snd g \<le> fst f"

lemma apart_sym: "apart f g = apart g f"
  by (auto simp: apart_def)

lemma bit_get_bits: "bit (get_bits p w v) n \<longleftrightarrow> n < w \<and> bit v (p + n)"
  by (simp add: get_bits_def bit_take_bit_iff bit_drop_bit_eq add.commute)

lemma bit_put_bits:
  "bit (put_bits p w x v) n \<longleftrightarrow> (if p \<le> n \<and> n < p + w then bit x (n - p) else bit v n)"
  by (auto simp: put_bits_def bit_or_iff bit_take_bit_iff bit_push_bit_iff_nat bit_drop_bit_eq)

lemma get_put_bits_same [simp]: "get_bits p w (put_bits p w x v) = x mod 2 ^ w"
  by (rule bit_eqI)
    (auto simp: bit_get_bits bit_put_bits bit_take_bit_iff simp flip: take_bit_eq_mod)

lemma get_put_bits_apart:
  "apart (p, w) (q, k) \<Longrightarrow> get_bits q k (put_bits p w x v) = get_bits q k v"
  by (rule bit_eqI) (auto simp: bit_get_bits bit_put_bits apart_def)

lemma put_get_bits [simp]: "put_bits p w (get_bits p w v) v = v"
  by (rule bit_eqI) (auto simp: bit_get_bits bit_put_bits)

lemma put_put_bits_same [simp]: "put_bits p w y (put_bits p w x v) = put_bits p w y v"
  by (rule bit_eqI) (auto simp: bit_put_bits)

lemma put_bits_commute:
  "apart (p, w) (q, k) \<Longrightarrow> put_bits p w x (put_bits q k y v) = put_bits q k y (put_bits p w x v)"
  by (rule bit_eqI) (auto simp: bit_put_bits apart_def)

lemma get_bits_less: "get_bits p w v < 2 ^ w"
  by (simp add: get_bits_def)

lemma put_bits_less:
  assumes "v < 2 ^ n" "p + w \<le> n"
  shows "put_bits p w x v < 2 ^ n"
proof -
  have "take_bit n v = v" using assms(1) by (simp add: take_bit_nat_eq_self)
  then have v: "bit v k \<Longrightarrow> k < n" for k by (metis bit_take_bit_iff)
  have "take_bit n (put_bits p w x v) = put_bits p w x v"
    by (rule bit_eqI) (use v assms(2) in \<open>auto simp: bit_take_bit_iff bit_put_bits\<close>)
  then show ?thesis by (metis take_bit_nat_less_exp)
qed

subsection \<open>Laws of the fields\<close>

lemma length_setf [simp]: "length (setf f x bs) = length bs"
  by (simp add: setf_def)

lemma length_set_fields [simp]: "length (set_fields fxs bs) = length bs"
  unfolding set_fields_def by (induction fxs arbitrary: bs) (auto split: prod.splits)

definition fits :: "nat \<times> nat \<Rightarrow> byte list \<Rightarrow> bool" where
  "fits f bs \<longleftrightarrow> fst f + snd f \<le> 8 * length bs"

lemma fits_setf [simp]: "fits f (setf g x bs) = fits f bs"
  by (simp add: fits_def)

lemma le_nat_setf:
  assumes "fits f bs"
  shows "le_nat (setf f x bs) = put_bits (fst f) (snd f) x (le_nat bs)"
proof -
  have "le_nat bs < 2 ^ (8 * length bs)"
    using le_nat_less [of bs] by (simp add: power_mult)
  with assms have "put_bits (fst f) (snd f) x (le_nat bs) < 256 ^ length bs"
    using put_bits_less [of "le_nat bs" "8 * length bs"] by (simp add: fits_def power_mult)
  then show ?thesis by (simp add: setf_def)
qed

lemma getf_setf_same [simp]: "fits f bs \<Longrightarrow> getf f (setf f x bs) = x mod 2 ^ snd f"
  by (simp add: getf_def le_nat_setf)

lemma getf_setf_apart: "fits f bs \<Longrightarrow> apart f g \<Longrightarrow> getf g (setf f x bs) = getf g bs"
  by (simp add: getf_def le_nat_setf get_put_bits_apart)

lemma setf_getf [simp]: "setf f (getf f bs) bs = bs"
  by (simp add: setf_def getf_def)

lemma setf_setf_same [simp]: "fits f bs \<Longrightarrow> setf f y (setf f x bs) = setf f y bs"
  by (metis le_nat_setf length_setf put_put_bits_same setf_def)

lemma setf_commute:
  assumes "fits f bs" "fits g bs" "apart f g"
  shows "setf f x (setf g y bs) = setf g y (setf f x bs)"
proof -
  have "le_nat (setf f x (setf g y bs)) = le_nat (setf g y (setf f x bs))"
    using assms put_bits_commute [of "fst f" "snd f" "fst g" "snd g"] by (simp add: le_nat_setf)
  then show ?thesis by (metis length_setf to_le_le_nat)
qed

lemma getf_less: "getf f bs < 2 ^ snd f"
  by (simp add: getf_def get_bits_less)

lemma getf_zeros [simp]: "getf f (zeros n) = 0"
  by (simp add: getf_def zeros_def get_bits_def)

section \<open>Placement is sound\<close>

text \<open>
  Every field starts at or after the frontier of the state before it and ends at or
  before the frontier after it, so the places of a structure are in order and apart.
\<close>

definition wf_field :: "nat \<times> nat option \<Rightarrow> bool" where
  "wf_field f = (case snd f of None \<Rightarrow> True | Some w \<Rightarrow> w \<le> 8 * fst f)"

fun frontier :: "pstate \<Rightarrow> nat" where
  "frontier (pos, None) = 8 * pos"
| "frontier (pos, Some (s, u)) = 8 * (pos - s) + u"

fun pstate_ok :: "pstate \<Rightarrow> bool" where
  "pstate_ok (pos, None) = True"
| "pstate_ok (pos, Some (s, u)) = (s \<le> pos \<and> u \<le> 8 * s)"

lemma frontier_le: "pstate_ok st \<Longrightarrow> frontier st \<le> 8 * fst st"
  by (cases st rule: frontier.cases) auto

lemma place_bounds:
  assumes "place st f = (p, st')" "pstate_ok st" "wf_field f"
  shows "pstate_ok st' \<and> frontier st \<le> fst p \<and> fst p + snd p \<le> frontier st' \<and> fst st \<le> fst st'"
  using assms frontier_le [OF assms(2)]
  by (cases "(st, f)" rule: place.cases) (auto simp: wf_field_def split: if_splits)

lemma places_bounds:
  assumes "places st fs = (ps, st')" "pstate_ok st" "\<forall>f \<in> set fs. wf_field f"
  shows "pstate_ok st' \<and> frontier st \<le> frontier st' \<and>
    sorted_wrt (\<lambda>p q. fst p + snd p \<le> fst q) ps \<and>
    (\<forall>p \<in> set ps. frontier st \<le> fst p \<and> fst p + snd p \<le> frontier st')"
  using assms
proof (induction fs arbitrary: st ps)
  case Nil
  then show ?case by simp
next
  case (Cons f fs)
  obtain p st1 where p: "place st f = (p, st1)" by (metis prod.exhaust)
  obtain qs st2 where q: "places st1 fs = (qs, st2)" by (metis prod.exhaust)
  from Cons.prems p q have ps: "ps = p # qs" "st' = st2" by (auto simp: Let_def)
  from Cons.prems have wf: "wf_field f" "\<forall>f \<in> set fs. wf_field f" by auto
  have 1: "pstate_ok st1" "frontier st \<le> fst p" "fst p + snd p \<le> frontier st1"
    using place_bounds [OF p Cons.prems(2) wf(1)] by auto
  with Cons.IH [OF q [folded ps(2)] 1(1) wf(2)] show ?case unfolding ps by force
qed

lemma length_places [simp]: "length (fst (places st fs)) = length fs"
  by (induction fs arbitrary: st) (simp_all add: Let_def case_prod_beta)

definition wf_fields :: "(string \<times> cty \<times> nat option) list \<Rightarrow> bool" where
  "wf_fields fs = list_all wf_field (map (\<lambda>(n, t, b). (csize t, b)) fs)"

lemma struct_places_sound:
  assumes "wf_fields fs"
  shows "sorted_wrt (\<lambda>p q. fst p + snd p \<le> fst q) (struct_places fs)"
    and "\<forall>p \<in> set (struct_places fs). fst p + snd p \<le> 8 * csize (Struct fs)"
proof -
  let ?fs = "map (\<lambda>(n, t, b). (csize t, b)) fs"
  obtain ps st where ps: "places (0, None) ?fs = (ps, st)" by (metis prod.exhaust)
  have wf: "\<forall>f \<in> set ?fs. wf_field f" using assms by (simp only: wf_fields_def list_all_iff)
  note b = places_bounds [OF ps _ wf]
  from b have "pstate_ok st" by simp
  then have "frontier st \<le> 8 * fst st" by (rule frontier_le)
  with b ps show "sorted_wrt (\<lambda>p q. fst p + snd p \<le> fst q) (struct_places fs)"
    and "\<forall>p \<in> set (struct_places fs). fst p + snd p \<le> 8 * csize (Struct fs)"
    by (fastforce simp: struct_places_def)+
qed

lemma struct_places_apart:
  assumes "wf_fields fs" "i < length fs" "j < length fs" "i \<noteq> j"
  shows "apart (struct_places fs ! i) (struct_places fs ! j)"
proof -
  have len: "length (struct_places fs) = length fs" by (simp add: struct_places_def)
  from assms(4) consider "i < j" | "j < i" by linarith
  then show ?thesis
    using sorted_wrt_nth_less [OF struct_places_sound(1) [OF assms(1)]] assms(2,3) len
    by cases (auto simp: apart_def)
qed

text \<open>A resolved attribute of a structure is the place of one of its fields.\<close>

lemma snd_place [simp]: "snd (fst (place st (s, b))) = (case b of None \<Rightarrow> 8 * s | Some w \<Rightarrow> w)"
  by (cases "(st, (s, b))" rule: place.cases) auto

lemma places_width:
  "i < length fs \<Longrightarrow>
    snd (fst (places st fs) ! i) = (case snd (fs ! i) of None \<Rightarrow> 8 * fst (fs ! i) | Some w \<Rightarrow> w)"
proof (induction fs arbitrary: st i)
  case (Cons f fs)
  then show ?case
    by (cases i; cases f) (auto simp: Let_def case_prod_beta split: option.splits)
qed simp

lemma length_struct_places [simp]: "length (struct_places fs) = length fs"
  by (simp add: struct_places_def)

lemma struct_places_width:
  "i < length fs \<Longrightarrow> fs ! i = (n, t, b) \<Longrightarrow>
    snd (struct_places fs ! i) = (case b of None \<Rightarrow> 8 * csize t | Some w \<Rightarrow> w)"
  by (auto simp: struct_places_def places_width split: option.splits)

lemma field_pos_struct:
  assumes "field_pos (Struct fs) [Fld n] = Some f"
  shows "\<exists>i < length fs. fst (fs ! i) = n \<and> f = struct_places fs ! i"
proof -
  let ?xs = "map2 (\<lambda>(m, t, w) q. (m, t, w, q)) fs (struct_places fs)"
  obtain t w q where l: "last_match n ?xs = Some (t, w, q)"
    and f: "f = (case w of None \<Rightarrow> (fst q, 8 * csize t) | Some k \<Rightarrow> (fst q, snd q))"
    using assms by (auto simp: field_pos_def split: option.splits)
  from l have "(n, t, w, q) \<in> set ?xs"
    unfolding last_match_def by (metis map_of_SomeD set_rev)
  then obtain i where i: "i < length fs" "fs ! i = (n, t, w)" "q = struct_places fs ! i"
    by (auto simp: set_zip)
  have "f = q"
    using f struct_places_width [OF i(1,2)] i(3) by (cases w) (auto simp: prod_eq_iff)
  with i show ?thesis by auto
qed

lemma field_pos_struct_sound:
  assumes "wf_fields fs" "field_pos (Struct fs) [Fld n] = Some f"
  shows "fst f + snd f \<le> 8 * csize (Struct fs)"
    and "field_pos (Struct fs) [Fld n'] = Some g \<Longrightarrow> n \<noteq> n' \<Longrightarrow> apart f g"
proof -
  obtain i where i: "i < length fs" "fst (fs ! i) = n" "f = struct_places fs ! i"
    using field_pos_struct [OF assms(2)] by blast
  show "fst f + snd f \<le> 8 * csize (Struct fs)"
    using struct_places_sound(2) [OF assms(1)] i by (metis length_struct_places nth_mem)
  assume "field_pos (Struct fs) [Fld n'] = Some g" "n \<noteq> n'"
  then obtain j where "j < length fs" "fst (fs ! j) = n'" "g = struct_places fs ! j"
    using field_pos_struct by blast
  with i \<open>n \<noteq> n'\<close> show "apart f g"
    using struct_places_apart [OF assms(1)] by auto
qed

section \<open>Fields made of whole bytes\<close>

lemma le_nat_take_drop: "le_nat (take k (drop i bs)) = take_bit (8 * k) (drop_bit (8 * i) (le_nat bs))"
proof -
  have d: "le_nat (drop i bs) = drop_bit (8 * i) (le_nat bs)" for bs
  proof (induction i arbitrary: bs)
    case (Suc i)
    show ?case
    proof (cases bs)
      case (Cons b bs')
      have "unat b < 256" using unsigned_less [of b] by simp
      then have "(unat b + 256 * le_nat bs') div 256 = le_nat bs'" by simp
      then have "drop_bit 8 (unat b + 256 * le_nat bs') = le_nat bs'"
        by (simp add: drop_bit_eq_div)
      moreover have "drop_bit (8 * Suc i) (le_nat bs) = drop_bit (8 * i) (drop_bit 8 (le_nat bs))"
        by (simp only: drop_bit_drop_bit mult_Suc_right add.commute)
      ultimately have "drop_bit (8 * Suc i) (le_nat bs) = drop_bit (8 * i) (le_nat bs')"
        using Cons by simp
      with Suc Cons show ?thesis by simp
    qed simp
  qed simp
  have t: "le_nat (take k bs) = take_bit (8 * k) (le_nat bs)" for bs
  proof (induction k arbitrary: bs)
    case (Suc k)
    show ?case
    proof (cases bs)
      case (Cons b bs')
      have b: "unat b < 256" using unsigned_less [of b] by simp
      have "(unat b + 256 * le_nat bs') mod (256 * 2 ^ (8 * k)) =
          unat b + 256 * (le_nat bs' mod 2 ^ (8 * k))"
        using b by (simp add: mod_mult2_eq)
      with Suc Cons show ?thesis
        by (simp add: take_bit_eq_mod power_add)
    qed simp
  qed simp
  show ?thesis by (simp add: d t)
qed

lemma getf_bytes: "getf (8 * i, 8 * k) bs = le_nat (take k (drop i bs))"
  by (simp add: getf_def get_bits_def le_nat_take_drop)

lemma getf_within:
  "n + w \<le> 8 * k \<Longrightarrow> getf (8 * i + n, w) bs = getf (n, w) (take k (drop i bs))"
  by (rule bit_eqI) (auto simp: getf_def get_bits_def le_nat_take_drop bit_take_bit_iff
      bit_drop_bit_eq add.assoc add.commute add.left_commute)

end
