(* ===== verification/Registers.thy ===== *)
theory Registers
  imports Ctypes
begin

text \<open>
  Register structures (\<open>RegsStructAccess\<close> in
  \<open>lone/nvme/spec/registers/__init__.py\<close>). A register class has a layout and the
  offset of its bytes in the register space (\<open>_base_offset_\<close>, possibly unset). With accessor functions
  (\<open>_access_.get_func\<close>, \<open>_access_.set_func\<close>) a field is read by fetching the bytes of
  the whole structure one at a time, and written by a read-modify-write of the whole structure;
  the accessors and the state \<open>'d\<close> of the device behind them are parameters.
\<close>

record reg_class =
  rc_layout :: cty
  rc_base :: "nat option"

section \<open>Byte-wise access\<close>

primrec read_data :: "('d \<Rightarrow> nat \<Rightarrow> byte) \<Rightarrow> 'd \<Rightarrow> nat \<Rightarrow> nat \<Rightarrow> byte list" where
  "read_data get_func d offset 0 = []"
| "read_data get_func d offset (Suc n) = get_func d offset # read_data get_func d (offset + 1) n"

primrec write_data :: "('d \<Rightarrow> nat \<Rightarrow> byte \<Rightarrow> 'd) \<Rightarrow> 'd \<Rightarrow> nat \<Rightarrow> byte list \<Rightarrow> 'd" where
  "write_data set_func d offset [] = d"
| "write_data set_func d offset (b # bs) = write_data set_func (set_func d offset b) (offset + 1) bs"

text \<open>
  \<open>__setattr__\<close>: a name that is not a field becomes an ordinary attribute of the Python object and
  does not touch the device; a missing offset raises.
\<close>

definition reg_setattr ::
  "('d \<Rightarrow> nat \<Rightarrow> byte) \<Rightarrow> ('d \<Rightarrow> nat \<Rightarrow> byte \<Rightarrow> 'd) \<Rightarrow> reg_class \<Rightarrow> string \<Rightarrow> nat \<Rightarrow> 'd \<Rightarrow> 'd res" where
  "reg_setattr get_func set_func rc name value d =
     (case field_pos (rc_layout rc) [Fld name] of
        None \<Rightarrow> Inr d
      | Some f \<Rightarrow>
          (case rc_base rc of
             None \<Rightarrow> Inl PlainException
           | Some offset \<Rightarrow>
               let read_obj = read_data get_func d offset (csize (rc_layout rc));
                   new_obj = setf f value read_obj
               in Inr (write_data set_func d offset new_obj)))"

definition reg_getattr ::
  "('d \<Rightarrow> nat \<Rightarrow> byte) \<Rightarrow> reg_class \<Rightarrow> string \<Rightarrow> 'd \<Rightarrow> nat res" where
  "reg_getattr get_func rc name d =
     (case field_pos (rc_layout rc) [Fld name] of
        None \<Rightarrow> Inl AttributeError
      | Some f \<Rightarrow>
          (case rc_base rc of
             None \<Rightarrow> Inl PlainException
           | Some offset \<Rightarrow> Inr (getf f (read_data get_func d offset (csize (rc_layout rc))))))"

text \<open>
  Direct access (\<open>set_func\<close> unset): the object lies in memory at an address and the field is
  written in place.
\<close>

definition direct_set :: "cty \<Rightarrow> step list \<Rightarrow> nat \<Rightarrow> nat \<Rightarrow> memory \<Rightarrow> memory res" where
  "direct_set t path address value m =
     (case field_pos t path of
        None \<Rightarrow> Inl AttributeError
      | Some f \<Rightarrow> Inr (write_bytes m address (setf f value (read_bytes m address (csize t)))))"

definition direct_get :: "cty \<Rightarrow> step list \<Rightarrow> nat \<Rightarrow> memory \<Rightarrow> nat res" where
  "direct_get t path address m =
     (case field_pos t path of
        None \<Rightarrow> Inl AttributeError
      | Some f \<Rightarrow> Inr (getf f (read_bytes m address (csize t))))"

lemma length_read_data [simp]: "length (read_data g d a n) = n"
  by (induction n arbitrary: a) auto

lemma read_data_eq: "read_data get_func d a n = map (get_func d) [a..<a + n]"
  by (induction n arbitrary: a) (auto simp: upt_conv_Cons simp del: upt_Suc)

section \<open>The accessor contract\<close>

text \<open>
  What the register code relies on from a pair of accessors: a byte written is the byte
  read back, and no other byte changes.
\<close>

locale byte_access =
  fixes get_func :: "'d \<Rightarrow> nat \<Rightarrow> byte"
    and set_func :: "'d \<Rightarrow> nat \<Rightarrow> byte \<Rightarrow> 'd"
  assumes get_set_same: "get_func (set_func d a b) a = b"
    and get_set_other: "a \<noteq> a' \<Longrightarrow> get_func (set_func d a b) a' = get_func d a'"
begin

lemma get_write_data:
  "get_func (write_data set_func d a bs) x =
    (if a \<le> x \<and> x < a + length bs then bs ! (x - a) else get_func d x)"
proof (induction bs arbitrary: d a)
  case (Cons b bs)
  consider "x = a" | "x < a" | "a < x" by linarith
  then show ?case
    using Cons by cases (auto simp: get_set_same get_set_other nth_Cons')
qed auto

lemma read_write_data:
  "read_data get_func (write_data set_func d a bs) a (length bs) = bs"
  by (rule nth_equalityI) (auto simp: read_data_eq get_write_data)

lemma setattr_frame:
  assumes "reg_setattr get_func set_func rc name v d = Inr d'" "rc_base rc = Some off"
    "x < off \<or> off + csize (rc_layout rc) \<le> x"
  shows "get_func d' x = get_func d x"
  using assms by (auto simp: reg_setattr_def get_write_data Let_def split: option.splits)

lemma getattr_setattr_same:
  assumes "rc_layout rc = Struct fs" "wf_fields fs"
    "reg_setattr get_func set_func rc name v d = Inr d'"
    "field_pos (rc_layout rc) [Fld name] = Some f"
  shows "reg_getattr get_func rc name d' = Inr (v mod 2 ^ snd f)"
proof (cases "rc_base rc")
  case None
  with assms(3,4) show ?thesis by (simp add: reg_setattr_def)
next
  case (Some off)
  let ?old = "read_data get_func d off (csize (rc_layout rc))"
  from assms(3,4) Some have d': "d' = write_data set_func d off (setf f v ?old)"
    by (simp add: reg_setattr_def Let_def)
  have "read_data get_func d' off (csize (rc_layout rc)) = setf f v ?old"
    using read_write_data [of d off "setf f v ?old"] by (simp add: d')
  moreover have "fits f ?old"
    using field_pos_struct_sound(1) [OF assms(2)] assms(1,4) by (simp add: fits_def)
  ultimately show ?thesis using assms(4) Some by (simp add: reg_getattr_def)
qed

lemma getattr_setattr_other:
  assumes "rc_layout rc = Struct fs" "wf_fields fs"
    "reg_setattr get_func set_func rc name v d = Inr d'" "name \<noteq> name'"
  shows "reg_getattr get_func rc name' d' = reg_getattr get_func rc name' d"
proof (cases "\<exists>f g off. field_pos (rc_layout rc) [Fld name] = Some f \<and>
    field_pos (rc_layout rc) [Fld name'] = Some g \<and> rc_base rc = Some off")
  case False
  with assms(3) show ?thesis
    by (auto simp: reg_setattr_def reg_getattr_def split: option.splits)
next
  case True
  then obtain f g off where f: "field_pos (rc_layout rc) [Fld name] = Some f"
    and g: "field_pos (rc_layout rc) [Fld name'] = Some g" and off: "rc_base rc = Some off" by blast
  let ?old = "read_data get_func d off (csize (rc_layout rc))"
  from assms(3) f off have d': "d' = write_data set_func d off (setf f v ?old)"
    by (simp add: reg_setattr_def Let_def)
  have "read_data get_func d' off (csize (rc_layout rc)) = setf f v ?old"
    using read_write_data [of d off "setf f v ?old"] by (simp add: d')
  moreover have "fits f ?old" "apart f g"
    using field_pos_struct_sound [OF assms(2)] f g assms(1,4) by (auto simp: fits_def)
  ultimately show ?thesis using g off by (simp add: reg_getattr_def getf_setf_apart)
qed

end

text \<open>After every assignment that did not raise, also one of a plain attribute, the hook \<open>set_notify\<close> is called, if there is one.\<close>

definition reg_assign ::
  "('d \<Rightarrow> nat \<Rightarrow> byte) \<Rightarrow> ('d \<Rightarrow> nat \<Rightarrow> byte \<Rightarrow> 'd) \<Rightarrow> ('d \<Rightarrow> 'd) option \<Rightarrow> reg_class \<Rightarrow> string \<Rightarrow> nat \<Rightarrow> 'd \<Rightarrow> 'd res" where
  "reg_assign get_func set_func set_notify rc name value d =
     bindR (reg_setattr get_func set_func rc name value d) (\<lambda>d'.
     Inr (case set_notify of None \<Rightarrow> d' | Some f \<Rightarrow> f d'))"

lemma reg_assign_quiet [simp]: "reg_assign g s None = reg_setattr g s"
  by (intro ext) (simp add: reg_assign_def bindR_def split: sum.split)

section \<open>Accessors over a device file\<close>

text \<open>
  \<open>SysVfioIfc.pcie_get\<close> and \<open>pcie_set\<close>: one byte of the device file at the
  offset of the PCI configuration region. The device file is its content, as for
  \<open>pread\<close> and \<open>pwrite\<close> on plain bytes.
\<close>

record vfio_file =
  device_fd :: memory
  pci_region_offset :: nat

definition pcie_get :: "vfio_file \<Rightarrow> nat \<Rightarrow> byte" where
  "pcie_get d offset = device_fd d (pci_region_offset d + offset)"

definition pcie_set :: "vfio_file \<Rightarrow> nat \<Rightarrow> byte \<Rightarrow> vfio_file" where
  "pcie_set d offset value =
     d\<lparr>device_fd := (device_fd d)(pci_region_offset d + offset := value)\<rparr>"

interpretation vfio: byte_access pcie_get pcie_set
  by unfold_locales (auto simp: pcie_get_def pcie_set_def)

section \<open>Fields of a register\<close>

text \<open>
  Assigning a field of a register class over the VFIO accessors is an exact field update of the device: reading the
  field back gives the value modulo its width, every other field of the class reads as before,
  and no byte outside the structure changes, although the code rewrites all of its bytes.
\<close>

theorem pcie_register_field_update:
  assumes "rc_layout rc = Struct fs" "wf_fields fs"
    and "field_pos (rc_layout rc) [Fld name] = Some f" "rc_base rc = Some off"
  shows "\<exists>d'. reg_setattr pcie_get pcie_set rc name v d = Inr d' \<and>
    reg_getattr pcie_get rc name d' = Inr (v mod 2 ^ snd f) \<and>
    (\<forall>other. other \<noteq> name \<longrightarrow> reg_getattr pcie_get rc other d' = reg_getattr pcie_get rc other d) \<and>
    (\<forall>x. x < off \<or> off + csize (rc_layout rc) \<le> x \<longrightarrow> pcie_get d' x = pcie_get d x)"
proof -
  obtain d' where d': "reg_setattr pcie_get pcie_set rc name v d = Inr d'"
    using assms(3,4) by (simp add: reg_setattr_def Let_def)
  then show ?thesis
    using vfio.getattr_setattr_same [OF assms(1,2) d' assms(3)]
      vfio.getattr_setattr_other [OF assms(1,2) d'] vfio.setattr_frame [OF d' assms(4)] by metis
qed

lemma pcie_register_field_update_witness:
  "\<exists>d'. reg_setattr pcie_get pcie_set
      \<lparr>rc_layout = Struct [(''HL'', UInt 1, Some 7), (''MFD'', UInt 1, Some 1)], rc_base = Some 0x0E\<rparr>
      ''HL'' 200 \<lparr>device_fd = \<lambda>_. 255, pci_region_offset = 4096\<rparr> = Inr d' \<and>
    reg_getattr pcie_get
      \<lparr>rc_layout = Struct [(''HL'', UInt 1, Some 7), (''MFD'', UInt 1, Some 1)], rc_base = Some 0x0E\<rparr>
      ''HL'' d' = Inr 72"
  using pcie_register_field_update [of "\<lparr>rc_layout = Struct [(''HL'', UInt 1, Some 7),
      (''MFD'', UInt 1, Some 1)], rc_base = Some 0x0E\<rparr>" _ "''HL''" "(0, 7)" 14 200
      "\<lparr>device_fd = \<lambda>_. 255, pci_region_offset = 4096\<rparr>"]
  by (auto simp: wf_fields_def wf_field_def field_pos_def last_match_def struct_places_def)

end
