(* ===== verification/NvmeRegs.thy ===== *)
theory NvmeRegs
  imports Registers
begin

text \<open>
  The controller registers of the NVMe specification
  (\<open>lone/nvme/spec/registers/nvme_regs.py\<close>): one register class per nested class of
  \<open>nvme_reg_struct_factory\<close>, with the bit fields of its \<open>_fields_\<close> and its \<open>_base_offset_\<close>,
  and the structure \<open>Registers\<close> that lays them out in the memory-mapped register space. The lemmas compare the offset
  that each class declares with the offset at which ctypes places it.
\<close>

section \<open>Register classes\<close>

definition NVMe_Cap :: reg_class where
  "NVMe_Cap = \<lparr>rc_layout = Struct [
    (''MQES'', UInt 8, Some 16),
    (''CQR'', UInt 8, Some 1),
    (''AMS'', UInt 8, Some 2),
    (''RSVD_0'', UInt 8, Some 5),
    (''TO'', UInt 8, Some 8),
    (''DSTRD'', UInt 8, Some 4),
    (''NSSRS'', UInt 8, Some 1),
    (''CSS'', UInt 8, Some 8),
    (''BPS'', UInt 8, Some 1),
    (''CPS'', UInt 8, Some 2),
    (''MPSMIN'', UInt 8, Some 4),
    (''MPSMAX'', UInt 8, Some 4),
    (''PMRS'', UInt 8, Some 1),
    (''CMBS'', UInt 8, Some 1),
    (''NSSS'', UInt 8, Some 1),
    (''CRMS'', UInt 8, Some 2),
    (''RSVD_2'', UInt 8, Some 3)],
    rc_base = Some 0x0\<rparr>"

definition NVMe_Vs :: reg_class where
  "NVMe_Vs = \<lparr>rc_layout = Struct [
    (''TER'', UInt 4, Some 8),
    (''MNR'', UInt 4, Some 8),
    (''MJR'', UInt 4, Some 16)],
    rc_base = Some 0x8\<rparr>"

definition NVMe_Intms :: reg_class where
  "NVMe_Intms = \<lparr>rc_layout = Struct [
    (''IVMS'', UInt 4, None)],
    rc_base = Some 0xC\<rparr>"

definition NVMe_Intmc :: reg_class where
  "NVMe_Intmc = \<lparr>rc_layout = Struct [
    (''IVMC'', UInt 4, None)],
    rc_base = Some 0x10\<rparr>"

definition NVMe_Cc :: reg_class where
  "NVMe_Cc = \<lparr>rc_layout = Struct [
    (''EN'', UInt 4, Some 1),
    (''RSVD_0'', UInt 4, Some 3),
    (''CSS'', UInt 4, Some 3),
    (''MPS'', UInt 4, Some 4),
    (''AMS'', UInt 4, Some 3),
    (''SHN'', UInt 4, Some 2),
    (''IOSQES'', UInt 4, Some 4),
    (''IOCQES'', UInt 4, Some 4),
    (''CRIME'', UInt 4, Some 1),
    (''RSVD_2'', UInt 4, Some 7)],
    rc_base = Some 0x14\<rparr>"

definition NVMe_Csts :: reg_class where
  "NVMe_Csts = \<lparr>rc_layout = Struct [
    (''RDY'', UInt 4, Some 1),
    (''CFS'', UInt 4, Some 1),
    (''SHST'', UInt 4, Some 2),
    (''NSSRO'', UInt 4, Some 1),
    (''PP'', UInt 4, Some 1),
    (''ST'', UInt 4, Some 1),
    (''RSVD_0'', UInt 4, Some 25)],
    rc_base = Some 0x1C\<rparr>"

definition NVMe_Nssr :: reg_class where
  "NVMe_Nssr = \<lparr>rc_layout = Struct [
    (''NSSRC'', UInt 4, None)],
    rc_base = Some 0x20\<rparr>"

definition NVMe_Aqa :: reg_class where
  "NVMe_Aqa = \<lparr>rc_layout = Struct [
    (''ASQS'', UInt 4, Some 12),
    (''RSVD_0'', UInt 4, Some 4),
    (''ACQS'', UInt 4, Some 12),
    (''RSVD_1'', UInt 4, Some 4)],
    rc_base = Some 0x24\<rparr>"

definition NVMe_Asq :: reg_class where
  "NVMe_Asq = \<lparr>rc_layout = Struct [
    (''ASQB'', UInt 8, Some 52),
    (''RSVD_0'', UInt 8, Some 12)],
    rc_base = Some 0x28\<rparr>"

definition NVMe_Acq :: reg_class where
  "NVMe_Acq = \<lparr>rc_layout = Struct [
    (''ACQB'', UInt 8, Some 52),
    (''RSVD_0'', UInt 8, Some 12)],
    rc_base = Some 0x30\<rparr>"

definition NVMe_Cmbloc :: reg_class where
  "NVMe_Cmbloc = \<lparr>rc_layout = Struct [
    (''BIR'', UInt 4, Some 3),
    (''CQMMS'', UInt 4, Some 1),
    (''CQPDS'', UInt 4, Some 1),
    (''CQPMLS'', UInt 4, Some 1),
    (''CDPCILS'', UInt 4, Some 1),
    (''CDMMMS'', UInt 4, Some 1),
    (''CQDA'', UInt 4, Some 1),
    (''RSVD_0'', UInt 4, Some 3),
    (''OFST'', UInt 4, Some 20)],
    rc_base = Some 0x38\<rparr>"

definition NVMe_Cmbsz :: reg_class where
  "NVMe_Cmbsz = \<lparr>rc_layout = Struct [
    (''SQS'', UInt 4, Some 1),
    (''CQS'', UInt 4, Some 1),
    (''LISTS'', UInt 4, Some 1),
    (''RDS'', UInt 4, Some 1),
    (''WDS'', UInt 4, Some 1),
    (''RSVD_0'', UInt 4, Some 3),
    (''SZU'', UInt 4, Some 4),
    (''SZ'', UInt 4, Some 20)],
    rc_base = Some 0x3C\<rparr>"

definition NVMe_Bpinfo :: reg_class where
  "NVMe_Bpinfo = \<lparr>rc_layout = Struct [
    (''BPSZ'', UInt 4, Some 15),
    (''RSVD_0'', UInt 4, Some 9),
    (''BRS'', UInt 4, Some 2),
    (''RSVD_1'', UInt 4, Some 5),
    (''ABPID'', UInt 4, Some 1)],
    rc_base = Some 0x40\<rparr>"

definition NVMe_Bprsel :: reg_class where
  "NVMe_Bprsel = \<lparr>rc_layout = Struct [
    (''BPRSZ'', UInt 4, Some 10),
    (''BPROF'', UInt 4, Some 20),
    (''RSVD_0'', UInt 4, Some 1),
    (''BPID'', UInt 4, Some 1)],
    rc_base = Some 0x44\<rparr>"

definition NVMe_Bpmbl :: reg_class where
  "NVMe_Bpmbl = \<lparr>rc_layout = Struct [
    (''RSVD_0'', UInt 8, Some 12),
    (''BMBBA'', UInt 8, Some 52)],
    rc_base = Some 0x48\<rparr>"

definition NVMe_Cmbmsc :: reg_class where
  "NVMe_Cmbmsc = \<lparr>rc_layout = Struct [
    (''CRE'', UInt 8, Some 1),
    (''CMSE'', UInt 8, Some 1),
    (''RSVD_0'', UInt 8, Some 10),
    (''CBA'', UInt 8, Some 52)],
    rc_base = Some 0x50\<rparr>"

definition NVMe_Cmbsts :: reg_class where
  "NVMe_Cmbsts = \<lparr>rc_layout = Struct [
    (''CBAI'', UInt 4, Some 1),
    (''RSVD_0'', UInt 4, Some 31)],
    rc_base = Some 0x58\<rparr>"

definition NVMe_Cmbebs :: reg_class where
  "NVMe_Cmbebs = \<lparr>rc_layout = Struct [
    (''CMBSZU'', UInt 4, Some 4),
    (''RBB'', UInt 4, Some 1),
    (''RSVD_0'', UInt 4, Some 3),
    (''CMBWBZ'', UInt 4, Some 24)],
    rc_base = Some 0x5C\<rparr>"

definition NVMe_Cmbswtp :: reg_class where
  "NVMe_Cmbswtp = \<lparr>rc_layout = Struct [
    (''CMBSWTU'', UInt 4, Some 4),
    (''RSVD_0'', UInt 4, Some 4),
    (''CMBSWTV'', UInt 4, Some 24)],
    rc_base = Some 0x60\<rparr>"

definition NVMe_Nssd :: reg_class where
  "NVMe_Nssd = \<lparr>rc_layout = Struct [
    (''NSSC'', UInt 4, None)],
    rc_base = Some 0x64\<rparr>"

definition NVMe_Crto :: reg_class where
  "NVMe_Crto = \<lparr>rc_layout = Struct [
    (''CRWMT'', UInt 4, Some 16),
    (''CRIMT'', UInt 4, Some 16)],
    rc_base = Some 0x68\<rparr>"

definition NVMe_Pmrcap :: reg_class where
  "NVMe_Pmrcap = \<lparr>rc_layout = Struct [
    (''RSVD_0'', UInt 4, Some 3),
    (''RDS'', UInt 4, Some 1),
    (''WDS'', UInt 4, Some 1),
    (''BIR'', UInt 4, Some 3),
    (''PMRTU'', UInt 4, Some 2),
    (''PMRWBM'', UInt 4, Some 4),
    (''RSVD_1'', UInt 4, Some 2),
    (''PMRTO'', UInt 4, Some 8),
    (''CMSS'', UInt 4, Some 1),
    (''RSVD_2'', UInt 4, Some 7)],
    rc_base = Some 0xE00\<rparr>"

definition NVMe_Pmrctl :: reg_class where
  "NVMe_Pmrctl = \<lparr>rc_layout = Struct [
    (''EN'', UInt 4, Some 1),
    (''RSVD_0'', UInt 4, Some 31)],
    rc_base = Some 0xE04\<rparr>"

definition NVMe_Pmrsts :: reg_class where
  "NVMe_Pmrsts = \<lparr>rc_layout = Struct [
    (''ERR'', UInt 4, Some 8),
    (''NRDY'', UInt 4, Some 1),
    (''HSTS'', UInt 4, Some 3),
    (''CBAI'', UInt 4, Some 1),
    (''RSVD_1'', UInt 4, Some 19)],
    rc_base = Some 0xE08\<rparr>"

definition NVMe_Pmrebs :: reg_class where
  "NVMe_Pmrebs = \<lparr>rc_layout = Struct [
    (''PMRSZU'', UInt 4, Some 4),
    (''RBB'', UInt 4, Some 1),
    (''RSVD_0'', UInt 4, Some 3),
    (''PMRWBZ'', UInt 4, Some 24)],
    rc_base = Some 0xE0C\<rparr>"

definition NVMe_Pmrswtp :: reg_class where
  "NVMe_Pmrswtp = \<lparr>rc_layout = Struct [
    (''PMRSWTU'', UInt 4, Some 4),
    (''RSVD_0'', UInt 4, Some 4),
    (''PMRSWTV'', UInt 4, Some 24)],
    rc_base = Some 0xE10\<rparr>"

definition NVMe_Pmrmscl :: reg_class where
  "NVMe_Pmrmscl = \<lparr>rc_layout = Struct [
    (''RSVD_0'', UInt 8, Some 1),
    (''CMSE'', UInt 8, Some 1),
    (''RSVD_1'', UInt 8, Some 10),
    (''CBA'', UInt 8, Some 20)],
    rc_base = Some 0xE14\<rparr>"

definition NVMe_Pmrmscu :: reg_class where
  "NVMe_Pmrmscu = \<lparr>rc_layout = Struct [
    (''CBA'', UInt 8, None)],
    rc_base = Some 0xE18\<rparr>"

definition NVMe_Sqndbs :: reg_class where
  "NVMe_Sqndbs = \<lparr>rc_layout = Struct [
    (''SQTAIL'', UInt 4, None),
    (''CQHEAD'', UInt 4, None)],
    rc_base = Some 0x1000\<rparr>"

definition NVMe_Registers :: reg_class where
  "NVMe_Registers = \<lparr>rc_layout = Struct [
    (''CAP'', rc_layout NVMe_Cap, None),
    (''VS'', rc_layout NVMe_Vs, None),
    (''INTMS'', rc_layout NVMe_Intms, None),
    (''INTMC'', rc_layout NVMe_Intmc, None),
    (''CC'', rc_layout NVMe_Cc, None),
    (''RSVD_0'', UInt 4, None),
    (''CSTS'', rc_layout NVMe_Csts, None),
    (''NSSR'', rc_layout NVMe_Nssr, None),
    (''AQA'', rc_layout NVMe_Aqa, None),
    (''ASQ'', rc_layout NVMe_Asq, None),
    (''ACQ'', rc_layout NVMe_Acq, None),
    (''CMBLOC'', rc_layout NVMe_Cmbloc, None),
    (''CMBSZ'', rc_layout NVMe_Cmbsz, None),
    (''BPINFO'', rc_layout NVMe_Bpinfo, None),
    (''BPRSEL'', rc_layout NVMe_Bprsel, None),
    (''BPMBL'', rc_layout NVMe_Bpmbl, None),
    (''CMBMSC'', rc_layout NVMe_Cmbmsc, None),
    (''CMBSTS'', rc_layout NVMe_Cmbsts, None),
    (''CMBEBS'', rc_layout NVMe_Cmbebs, None),
    (''CMBSWTP'', rc_layout NVMe_Cmbswtp, None),
    (''NSSD'', rc_layout NVMe_Nssd, None),
    (''CRTO'', rc_layout NVMe_Crto, None),
    (''RSVD_1'', Arr (UInt 4) 868, None),
    (''PMRCAP'', rc_layout NVMe_Pmrcap, None),
    (''PMRCTL'', rc_layout NVMe_Pmrctl, None),
    (''PMRSTS'', rc_layout NVMe_Pmrsts, None),
    (''PMREBS'', rc_layout NVMe_Pmrebs, None),
    (''PMRSWTP'', rc_layout NVMe_Pmrswtp, None),
    (''PMRMSCL'', rc_layout NVMe_Pmrmscl, None),
    (''PMRMSCU'', rc_layout NVMe_Pmrmscu, None),
    (''RSVD_2'', Arr (UInt 4) 120, None),
    (''SQNDBS'', Arr (rc_layout NVMe_Sqndbs) 1024, None)],
    rc_base = Some 0x0\<rparr>"

lemmas NVMe_defs = NVMe_Cap_def
  NVMe_Vs_def
  NVMe_Intms_def
  NVMe_Intmc_def
  NVMe_Cc_def
  NVMe_Csts_def
  NVMe_Nssr_def
  NVMe_Aqa_def
  NVMe_Asq_def
  NVMe_Acq_def
  NVMe_Cmbloc_def
  NVMe_Cmbsz_def
  NVMe_Bpinfo_def
  NVMe_Bprsel_def
  NVMe_Bpmbl_def
  NVMe_Cmbmsc_def
  NVMe_Cmbsts_def
  NVMe_Cmbebs_def
  NVMe_Cmbswtp_def
  NVMe_Nssd_def
  NVMe_Crto_def
  NVMe_Pmrcap_def
  NVMe_Pmrctl_def
  NVMe_Pmrsts_def
  NVMe_Pmrebs_def
  NVMe_Pmrswtp_def
  NVMe_Pmrmscl_def
  NVMe_Pmrmscu_def
  NVMe_Sqndbs_def
  NVMe_Registers_def

section \<open>Offsets\<close>

text \<open>The registers of the structure by name, with the class that describes each.\<close>

definition NVMe_directory :: "(string \<times> reg_class) list" where
  "NVMe_directory = [
    (''CAP'', NVMe_Cap),
    (''VS'', NVMe_Vs),
    (''INTMS'', NVMe_Intms),
    (''INTMC'', NVMe_Intmc),
    (''CC'', NVMe_Cc),
    (''CSTS'', NVMe_Csts),
    (''NSSR'', NVMe_Nssr),
    (''AQA'', NVMe_Aqa),
    (''ASQ'', NVMe_Asq),
    (''ACQ'', NVMe_Acq),
    (''CMBLOC'', NVMe_Cmbloc),
    (''CMBSZ'', NVMe_Cmbsz),
    (''BPINFO'', NVMe_Bpinfo),
    (''BPRSEL'', NVMe_Bprsel),
    (''BPMBL'', NVMe_Bpmbl),
    (''CMBMSC'', NVMe_Cmbmsc),
    (''CMBSTS'', NVMe_Cmbsts),
    (''CMBEBS'', NVMe_Cmbebs),
    (''CMBSWTP'', NVMe_Cmbswtp),
    (''NSSD'', NVMe_Nssd),
    (''CRTO'', NVMe_Crto),
    (''PMRCAP'', NVMe_Pmrcap),
    (''PMRCTL'', NVMe_Pmrctl),
    (''PMRSTS'', NVMe_Pmrsts),
    (''PMREBS'', NVMe_Pmrebs),
    (''PMRSWTP'', NVMe_Pmrswtp),
    (''PMRMSCL'', NVMe_Pmrmscl),
    (''PMRMSCU'', NVMe_Pmrmscu)]"

lemma NVMe_sizes [layout_simps]:
  "csize (rc_layout NVMe_Cap) = 8"
  "csize (rc_layout NVMe_Vs) = 4"
  "csize (rc_layout NVMe_Intms) = 4"
  "csize (rc_layout NVMe_Intmc) = 4"
  "csize (rc_layout NVMe_Cc) = 4"
  "csize (rc_layout NVMe_Csts) = 4"
  "csize (rc_layout NVMe_Nssr) = 4"
  "csize (rc_layout NVMe_Aqa) = 4"
  "csize (rc_layout NVMe_Asq) = 8"
  "csize (rc_layout NVMe_Acq) = 8"
  "csize (rc_layout NVMe_Cmbloc) = 4"
  "csize (rc_layout NVMe_Cmbsz) = 4"
  "csize (rc_layout NVMe_Bpinfo) = 4"
  "csize (rc_layout NVMe_Bprsel) = 4"
  "csize (rc_layout NVMe_Bpmbl) = 8"
  "csize (rc_layout NVMe_Cmbmsc) = 8"
  "csize (rc_layout NVMe_Cmbsts) = 4"
  "csize (rc_layout NVMe_Cmbebs) = 4"
  "csize (rc_layout NVMe_Cmbswtp) = 4"
  "csize (rc_layout NVMe_Nssd) = 4"
  "csize (rc_layout NVMe_Crto) = 4"
  "csize (rc_layout NVMe_Pmrcap) = 4"
  "csize (rc_layout NVMe_Pmrctl) = 4"
  "csize (rc_layout NVMe_Pmrsts) = 4"
  "csize (rc_layout NVMe_Pmrebs) = 4"
  "csize (rc_layout NVMe_Pmrswtp) = 4"
  "csize (rc_layout NVMe_Pmrmscl) = 8"
  "csize (rc_layout NVMe_Pmrmscu) = 8"
  "csize (rc_layout NVMe_Sqndbs) = 8"
  by (simp_all add: NVMe_defs)

lemma NVMe_bases [layout_simps]:
  "rc_base NVMe_Cap = Some 0x0"
  "rc_base NVMe_Vs = Some 0x8"
  "rc_base NVMe_Intms = Some 0xC"
  "rc_base NVMe_Intmc = Some 0x10"
  "rc_base NVMe_Cc = Some 0x14"
  "rc_base NVMe_Csts = Some 0x1C"
  "rc_base NVMe_Nssr = Some 0x20"
  "rc_base NVMe_Aqa = Some 0x24"
  "rc_base NVMe_Asq = Some 0x28"
  "rc_base NVMe_Acq = Some 0x30"
  "rc_base NVMe_Cmbloc = Some 0x38"
  "rc_base NVMe_Cmbsz = Some 0x3C"
  "rc_base NVMe_Bpinfo = Some 0x40"
  "rc_base NVMe_Bprsel = Some 0x44"
  "rc_base NVMe_Bpmbl = Some 0x48"
  "rc_base NVMe_Cmbmsc = Some 0x50"
  "rc_base NVMe_Cmbsts = Some 0x58"
  "rc_base NVMe_Cmbebs = Some 0x5C"
  "rc_base NVMe_Cmbswtp = Some 0x60"
  "rc_base NVMe_Nssd = Some 0x64"
  "rc_base NVMe_Crto = Some 0x68"
  "rc_base NVMe_Pmrcap = Some 0xE00"
  "rc_base NVMe_Pmrctl = Some 0xE04"
  "rc_base NVMe_Pmrsts = Some 0xE08"
  "rc_base NVMe_Pmrebs = Some 0xE0C"
  "rc_base NVMe_Pmrswtp = Some 0xE10"
  "rc_base NVMe_Pmrmscl = Some 0xE14"
  "rc_base NVMe_Pmrmscu = Some 0xE18"
  "rc_base NVMe_Sqndbs = Some 0x1000"
  "rc_base NVMe_Registers = Some 0x0"
  by (simp_all add: NVMe_defs)

lemma NVMe_Registers_size: "csize (rc_layout NVMe_Registers) = 0x3000"
  by (simp add: NVMe_Registers_def NVMe_sizes)

lemma NVMe_classes_wf:
  "list_all (\<lambda>(n, rc). case rc_layout rc of Struct fs \<Rightarrow> wf_fields fs | _ \<Rightarrow> False) NVMe_directory"
  by (simp add: NVMe_directory_def NVMe_defs wf_fields_def wf_field_def)

text \<open>
  Outside the persistent memory region block, ctypes places every register of the structure
  (and so every access through the memory-mapped structure) at the offset that the class of the register declares; inside that
  block it does not: the registers from \<open>PMRCAP\<close> to \<open>PMRMSCL\<close> lie four bytes too low, because the
  reserved array before them has 868 double words where 869 are needed.
\<close>

theorem nvme_register_offsets:
  "map (\<lambda>(n, rc). (n, offset_of (rc_layout NVMe_Registers) [Fld n], rc_base rc))
     (filter (\<lambda>(n, rc). offset_of (rc_layout NVMe_Registers) [Fld n] \<noteq> rc_base rc) NVMe_directory) =
   [(''PMRCAP'', Some 0xDFC, Some 0xE00),
    (''PMRCTL'', Some 0xE00, Some 0xE04),
    (''PMRSTS'', Some 0xE04, Some 0xE08),
    (''PMREBS'', Some 0xE08, Some 0xE0C),
    (''PMRSWTP'', Some 0xE0C, Some 0xE10),
    (''PMRMSCL'', Some 0xE10, Some 0xE14)]"
  by (simp add: NVMe_directory_def NVMe_Registers_def NVMe_sizes NVMe_bases
      offset_of_def field_pos_def last_match_def struct_places_def)

lemma NVMe_SQNDBS_pos:
  "field_pos (rc_layout NVMe_Registers) [Fld ''SQNDBS''] = Some (8 * 0x1000, 8 * 0x2000)"
  by (simp add: NVMe_Registers_def NVMe_sizes field_pos_def last_match_def struct_places_def)

end
