(* ===== verification/PcieRegs.thy ===== *)
theory PcieRegs
  imports Registers
begin

text \<open>
  The PCI configuration space (\<open>lone/nvme/spec/registers/pcie_regs.py\<close>): one register class per
  nested class of \<open>pcie_reg_struct_factory\<close> with the bit fields of its \<open>_fields_\<close> and its
  \<open>_base_offset_\<close>, the header structure that lays them out, and the standard and extended capabilities.
\<close>

section \<open>Register classes\<close>

definition PCIe_Id :: reg_class where
  "PCIe_Id = \<lparr>rc_layout = Struct [
    (''VID'', UInt 4, Some 16),
    (''DID'', UInt 4, Some 16)],
    rc_base = Some 0x0\<rparr>"

definition PCIe_Cmd :: reg_class where
  "PCIe_Cmd = \<lparr>rc_layout = Struct [
    (''IOSE'', UInt 2, Some 1),
    (''MSE'', UInt 2, Some 1),
    (''BME'', UInt 2, Some 1),
    (''SCE'', UInt 2, Some 1),
    (''MWIE'', UInt 2, Some 1),
    (''VGA'', UInt 2, Some 1),
    (''PEE'', UInt 2, Some 1),
    (''RSVD_0'', UInt 2, Some 1),
    (''SEE'', UInt 2, Some 1),
    (''FBE'', UInt 2, Some 1),
    (''ID'', UInt 2, Some 1),
    (''RSVD_1'', UInt 2, Some 5)],
    rc_base = Some 0x4\<rparr>"

definition PCIe_Sts :: reg_class where
  "PCIe_Sts = \<lparr>rc_layout = Struct [
    (''RSVD_0'', UInt 2, Some 3),
    (''IS'', UInt 2, Some 1),
    (''CL'', UInt 2, Some 1),
    (''C66'', UInt 2, Some 1),
    (''RSVD_1'', UInt 2, Some 1),
    (''FBC'', UInt 2, Some 1),
    (''DPD'', UInt 2, Some 1),
    (''DEVT'', UInt 2, Some 2),
    (''STA'', UInt 2, Some 1),
    (''RTA'', UInt 2, Some 1),
    (''RMA'', UInt 2, Some 1),
    (''SSE'', UInt 2, Some 1),
    (''DPE'', UInt 2, Some 1)],
    rc_base = Some 0x6\<rparr>"

definition PCIe_Rid :: reg_class where
  "PCIe_Rid = \<lparr>rc_layout = Struct [
    (''RID'', UInt 1, None)],
    rc_base = Some 0x8\<rparr>"

definition PCIe_Cc :: reg_class where
  "PCIe_Cc = \<lparr>rc_layout = Struct [
    (''PI'', UInt 1, None),
    (''SCC'', UInt 1, None),
    (''BCC'', UInt 1, None)],
    rc_base = Some 0x9\<rparr>"

definition PCIe_Cls :: reg_class where
  "PCIe_Cls = \<lparr>rc_layout = Struct [
    (''CLS'', UInt 1, None)],
    rc_base = Some 0xC\<rparr>"

definition PCIe_Mlt :: reg_class where
  "PCIe_Mlt = \<lparr>rc_layout = Struct [
    (''MLT'', UInt 1, None)],
    rc_base = Some 0xD\<rparr>"

definition PCIe_Htype :: reg_class where
  "PCIe_Htype = \<lparr>rc_layout = Struct [
    (''HL'', UInt 1, Some 7),
    (''MFD'', UInt 1, Some 1)],
    rc_base = Some 0xE\<rparr>"

definition PCIe_Bist :: reg_class where
  "PCIe_Bist = \<lparr>rc_layout = Struct [
    (''CC'', UInt 1, Some 4),
    (''RSVD_1'', UInt 1, Some 2),
    (''SB'', UInt 1, Some 1),
    (''BC'', UInt 1, Some 1)],
    rc_base = Some 0xF\<rparr>"

definition PCIe_Bar0 :: reg_class where
  "PCIe_Bar0 = \<lparr>rc_layout = Struct [
    (''RTE'', UInt 4, Some 1),
    (''TP'', UInt 4, Some 2),
    (''PF'', UInt 4, Some 1),
    (''RSVD_1'', UInt 4, Some 10),
    (''BA'', UInt 4, Some 18)],
    rc_base = Some 0x10\<rparr>"

definition PCIe_Bar1 :: reg_class where
  "PCIe_Bar1 = \<lparr>rc_layout = Struct [
    (''BA'', UInt 4, None)],
    rc_base = Some 0x14\<rparr>"

definition PCIe_Bar2 :: reg_class where
  "PCIe_Bar2 = \<lparr>rc_layout = Struct [
    (''RTE'', UInt 4, Some 1),
    (''RSVD_1'', UInt 4, Some 13),
    (''BA'', UInt 4, Some 18)],
    rc_base = Some 0x18\<rparr>"

definition PCIe_Bar3 :: reg_class where
  "PCIe_Bar3 = \<lparr>rc_layout = Struct [
    (''VU'', UInt 4, None)],
    rc_base = Some 0x1C\<rparr>"

definition PCIe_Bar4 :: reg_class where
  "PCIe_Bar4 = \<lparr>rc_layout = Struct [
    (''VU'', UInt 4, None)],
    rc_base = Some 0x20\<rparr>"

definition PCIe_Bar5 :: reg_class where
  "PCIe_Bar5 = \<lparr>rc_layout = Struct [
    (''VU'', UInt 4, None)],
    rc_base = Some 0x24\<rparr>"

definition PCIe_Ccptr :: reg_class where
  "PCIe_Ccptr = \<lparr>rc_layout = Struct [
    (''NOT_SUPPORTED'', UInt 4, None)],
    rc_base = Some 0x28\<rparr>"

definition PCIe_Ss :: reg_class where
  "PCIe_Ss = \<lparr>rc_layout = Struct [
    (''SSVID'', UInt 2, None),
    (''SSID'', UInt 2, None)],
    rc_base = Some 0x2C\<rparr>"

definition PCIe_Erom :: reg_class where
  "PCIe_Erom = \<lparr>rc_layout = Struct [
    (''RBA'', UInt 4, None)],
    rc_base = Some 0x30\<rparr>"

definition PCIe_Cap :: reg_class where
  "PCIe_Cap = \<lparr>rc_layout = Struct [
    (''CP'', UInt 1, None)],
    rc_base = Some 0x34\<rparr>"

definition PCIe_Intr :: reg_class where
  "PCIe_Intr = \<lparr>rc_layout = Struct [
    (''ILINE'', UInt 1, None),
    (''IPIN'', UInt 1, None)],
    rc_base = Some 0x3C\<rparr>"

definition PCIe_Mgnt :: reg_class where
  "PCIe_Mgnt = \<lparr>rc_layout = Struct [
    (''GNT'', UInt 1, None)],
    rc_base = Some 0x3E\<rparr>"

definition PCIe_Mlat :: reg_class where
  "PCIe_Mlat = \<lparr>rc_layout = Struct [
    (''LAT'', UInt 1, None)],
    rc_base = Some 0x3F\<rparr>"

definition PCIe_Caps :: reg_class where
  "PCIe_Caps = \<lparr>rc_layout = Struct [
    (''DATA'', Arr (UInt 1) 4032, None)],
    rc_base = Some 0x40\<rparr>"

definition PCIe_PCICapabilityGen :: reg_class where
  "PCIe_PCICapabilityGen = \<lparr>rc_layout = Struct [
    (''CAP_ID'', UInt 1, None),
    (''NEXT_PTR'', UInt 1, None),
    (''CAP_REG'', UInt 2, None)],
    rc_base = None\<rparr>"

definition PCIe_PCICapPowerManagementInterface_Pc :: reg_class where
  "PCIe_PCICapPowerManagementInterface_Pc = \<lparr>rc_layout = Struct [
    (''VS'', UInt 2, Some 3),
    (''PMEC'', UInt 2, Some 1),
    (''RSVD_0'', UInt 2, Some 1),
    (''DSI'', UInt 2, Some 1),
    (''AUXC'', UInt 2, Some 3),
    (''D1S'', UInt 2, Some 1),
    (''D2S'', UInt 2, Some 1),
    (''PSUP'', UInt 2, Some 5)],
    rc_base = None\<rparr>"

definition PCIe_PCICapPowerManagementInterface_Pmcs :: reg_class where
  "PCIe_PCICapPowerManagementInterface_Pmcs = \<lparr>rc_layout = Struct [
    (''PS'', UInt 2, Some 2),
    (''RSVD_0'', UInt 2, Some 1),
    (''NSFRST'', UInt 2, Some 1),
    (''RSVD_1'', UInt 2, Some 4),
    (''PMEE'', UInt 2, Some 1),
    (''DSE'', UInt 2, Some 4),
    (''DSC'', UInt 2, Some 2),
    (''PMES'', UInt 2, Some 1)],
    rc_base = None\<rparr>"

definition PCIe_PCICapPowerManagementInterface :: reg_class where
  "PCIe_PCICapPowerManagementInterface = \<lparr>rc_layout = Struct [
    (''CAP_ID'', UInt 1, None),
    (''NEXT_PTR'', UInt 1, None),
    (''PC'', (rc_layout PCIe_PCICapPowerManagementInterface_Pc), None),
    (''PMCS'', (rc_layout PCIe_PCICapPowerManagementInterface_Pmcs), None)],
    rc_base = None\<rparr>"

definition PCIe_PCICapMSI_Mc :: reg_class where
  "PCIe_PCICapMSI_Mc = \<lparr>rc_layout = Struct [
    (''MSIE'', UInt 2, Some 1),
    (''MMC'', UInt 2, Some 3),
    (''MME'', UInt 2, Some 3),
    (''C64'', UInt 2, Some 1),
    (''PVM'', UInt 2, Some 1),
    (''RSVD_0'', UInt 2, Some 7)],
    rc_base = None\<rparr>"

definition PCIe_PCICapMSI_Ma :: reg_class where
  "PCIe_PCICapMSI_Ma = \<lparr>rc_layout = Struct [
    (''RSVD_0'', UInt 4, Some 2),
    (''ADDR'', UInt 4, Some 30)],
    rc_base = None\<rparr>"

definition PCIe_PCICapMSI_Mua :: reg_class where
  "PCIe_PCICapMSI_Mua = \<lparr>rc_layout = Struct [
    (''UADDR'', UInt 4, None)],
    rc_base = None\<rparr>"

definition PCIe_PCICapMSI_Md :: reg_class where
  "PCIe_PCICapMSI_Md = \<lparr>rc_layout = Struct [
    (''DATA'', UInt 2, None)],
    rc_base = None\<rparr>"

definition PCIe_PCICapMSI_Mmask :: reg_class where
  "PCIe_PCICapMSI_Mmask = \<lparr>rc_layout = Struct [
    (''MASK'', UInt 4, None)],
    rc_base = None\<rparr>"

definition PCIe_PCICapMSI_Mpend :: reg_class where
  "PCIe_PCICapMSI_Mpend = \<lparr>rc_layout = Struct [
    (''PEND'', UInt 4, None)],
    rc_base = None\<rparr>"

definition PCIe_PCICapMSI :: reg_class where
  "PCIe_PCICapMSI = \<lparr>rc_layout = Struct [
    (''CAP_ID'', UInt 1, None),
    (''NEXT_PTR'', UInt 1, None),
    (''MC'', (rc_layout PCIe_PCICapMSI_Mc), None),
    (''MA'', (rc_layout PCIe_PCICapMSI_Ma), None),
    (''MUA'', (rc_layout PCIe_PCICapMSI_Mua), None),
    (''MD'', (rc_layout PCIe_PCICapMSI_Md), None),
    (''MMASK'', (rc_layout PCIe_PCICapMSI_Mmask), None),
    (''MPEND'', (rc_layout PCIe_PCICapMSI_Mpend), None)],
    rc_base = None\<rparr>"

definition PCIe_PCICapMSIX_Mxc :: reg_class where
  "PCIe_PCICapMSIX_Mxc = \<lparr>rc_layout = Struct [
    (''TS'', UInt 2, Some 11),
    (''RSVD_0'', UInt 2, Some 3),
    (''FM'', UInt 2, Some 1),
    (''MXE'', UInt 2, Some 1)],
    rc_base = None\<rparr>"

definition PCIe_PCICapMSIX_Mtab :: reg_class where
  "PCIe_PCICapMSIX_Mtab = \<lparr>rc_layout = Struct [
    (''TBIR'', UInt 4, Some 3),
    (''TO'', UInt 4, Some 29)],
    rc_base = None\<rparr>"

definition PCIe_PCICapMSIX_Mpba :: reg_class where
  "PCIe_PCICapMSIX_Mpba = \<lparr>rc_layout = Struct [
    (''PBIR'', UInt 4, Some 3),
    (''PBAO'', UInt 4, Some 29)],
    rc_base = None\<rparr>"

definition PCIe_PCICapMSIX :: reg_class where
  "PCIe_PCICapMSIX = \<lparr>rc_layout = Struct [
    (''CAP_ID'', UInt 1, None),
    (''NEXT_PTR'', UInt 1, None),
    (''MXC'', (rc_layout PCIe_PCICapMSIX_Mxc), None),
    (''MTAB'', (rc_layout PCIe_PCICapMSIX_Mtab), None),
    (''MPBA'', (rc_layout PCIe_PCICapMSIX_Mpba), None)],
    rc_base = None\<rparr>"

definition PCIe_PCICapExpress_Pxcap :: reg_class where
  "PCIe_PCICapExpress_Pxcap = \<lparr>rc_layout = Struct [
    (''VER'', UInt 2, Some 4),
    (''DPT'', UInt 2, Some 4),
    (''SI'', UInt 2, Some 1),
    (''IMN'', UInt 2, Some 5),
    (''RSVD_0'', UInt 2, Some 2)],
    rc_base = None\<rparr>"

definition PCIe_PCICapExpress_Pxdcap :: reg_class where
  "PCIe_PCICapExpress_Pxdcap = \<lparr>rc_layout = Struct [
    (''MPS'', UInt 4, Some 3),
    (''PFS'', UInt 4, Some 2),
    (''ETFS'', UInt 4, Some 1),
    (''L0SL'', UInt 4, Some 3),
    (''L1L'', UInt 4, Some 3),
    (''RSVD_0'', UInt 4, Some 3),
    (''RER'', UInt 4, Some 1),
    (''RSVD_1'', UInt 4, Some 2),
    (''CSPLV'', UInt 4, Some 8),
    (''CSPLS'', UInt 4, Some 2),
    (''FLRC'', UInt 4, Some 1),
    (''RSVD_2'', UInt 4, Some 3)],
    rc_base = None\<rparr>"

definition PCIe_PCICapExpress_Pxdc :: reg_class where
  "PCIe_PCICapExpress_Pxdc = \<lparr>rc_layout = Struct [
    (''CERE'', UInt 2, Some 1),
    (''NFRE'', UInt 2, Some 1),
    (''FERE'', UInt 2, Some 1),
    (''URRE'', UInt 2, Some 1),
    (''ERO'', UInt 2, Some 1),
    (''MPS'', UInt 2, Some 3),
    (''ETE'', UInt 2, Some 1),
    (''PFE'', UInt 2, Some 1),
    (''APPME'', UInt 2, Some 1),
    (''ENS'', UInt 2, Some 1),
    (''MRRS'', UInt 2, Some 3),
    (''IFLR'', UInt 2, Some 1)],
    rc_base = None\<rparr>"

definition PCIe_PCICapExpress_Pxds :: reg_class where
  "PCIe_PCICapExpress_Pxds = \<lparr>rc_layout = Struct [
    (''CED'', UInt 2, Some 1),
    (''NFED'', UInt 2, Some 1),
    (''FED'', UInt 2, Some 1),
    (''URD'', UInt 2, Some 1),
    (''APD'', UInt 2, Some 1),
    (''TP'', UInt 2, Some 1),
    (''RSVD_0'', UInt 2, Some 10)],
    rc_base = None\<rparr>"

definition PCIe_PCICapExpress_Pxlcap :: reg_class where
  "PCIe_PCICapExpress_Pxlcap = \<lparr>rc_layout = Struct [
    (''SLS'', UInt 4, Some 4),
    (''MLW'', UInt 4, Some 6),
    (''ASPMS'', UInt 4, Some 2),
    (''L0SEL'', UInt 4, Some 3),
    (''L1EL'', UInt 4, Some 3),
    (''CPM'', UInt 4, Some 1),
    (''SDERC'', UInt 4, Some 1),
    (''DLLLA'', UInt 4, Some 1),
    (''LBNC'', UInt 4, Some 1),
    (''AOC'', UInt 4, Some 1),
    (''RSVD_0'', UInt 4, Some 1),
    (''PN'', UInt 4, Some 8)],
    rc_base = None\<rparr>"

definition PCIe_PCICapExpress_Pxlc :: reg_class where
  "PCIe_PCICapExpress_Pxlc = \<lparr>rc_layout = Struct [
    (''ASPMC'', UInt 2, Some 2),
    (''RSVD_0'', UInt 2, Some 1),
    (''RCB'', UInt 2, Some 1),
    (''RSVD_1'', UInt 2, Some 2),
    (''CCC'', UInt 2, Some 1),
    (''ES'', UInt 2, Some 1),
    (''ECPM'', UInt 2, Some 1),
    (''HAWD'', UInt 2, Some 1),
    (''RSVD_2'', UInt 2, Some 6)],
    rc_base = None\<rparr>"

definition PCIe_PCICapExpress_Pxls :: reg_class where
  "PCIe_PCICapExpress_Pxls = \<lparr>rc_layout = Struct [
    (''CLS'', UInt 2, Some 4),
    (''NLW'', UInt 2, Some 6),
    (''RSVD_0'', UInt 2, Some 2),
    (''SCC'', UInt 2, Some 1),
    (''RSVD_1'', UInt 2, Some 3)],
    rc_base = None\<rparr>"

definition PCIe_PCICapExpress_Pxdcap2 :: reg_class where
  "PCIe_PCICapExpress_Pxdcap2 = \<lparr>rc_layout = Struct [
    (''CTRS'', UInt 4, Some 4),
    (''CTDS'', UInt 4, Some 1),
    (''ARIFS'', UInt 4, Some 1),
    (''AORS'', UInt 4, Some 1),
    (''32AOCS'', UInt 4, Some 1),
    (''64AOCS'', UInt 4, Some 1),
    (''128CCS'', UInt 4, Some 1),
    (''NPRPR'', UInt 4, Some 1),
    (''LTRS'', UInt 4, Some 1),
    (''TPHCS'', UInt 4, Some 2),
    (''RSVD_0'', UInt 4, Some 4),
    (''OBFFS'', UInt 4, Some 2),
    (''EFFS'', UInt 4, Some 1),
    (''EETPS'', UInt 4, Some 1),
    (''MEETP'', UInt 4, Some 2),
    (''RSVD_1'', UInt 4, Some 8)],
    rc_base = None\<rparr>"

definition PCIe_PCICapExpress_Pxdc2 :: reg_class where
  "PCIe_PCICapExpress_Pxdc2 = \<lparr>rc_layout = Struct [
    (''CTA'', UInt 4, Some 4),
    (''CTD'', UInt 4, Some 1),
    (''RSVD_0'', UInt 4, Some 5),
    (''LTRME'', UInt 4, Some 1),
    (''RSVD_1'', UInt 4, Some 2),
    (''OBFFE'', UInt 4, Some 2),
    (''RSVD_2'', UInt 4, Some 16)],
    rc_base = None\<rparr>"

definition PCIe_PCICapExpress :: reg_class where
  "PCIe_PCICapExpress = \<lparr>rc_layout = Struct [
    (''CAP_ID'', UInt 1, None),
    (''NEXT_PTR'', UInt 1, None),
    (''PXCAP'', (rc_layout PCIe_PCICapExpress_Pxcap), None),
    (''PXDCAP'', (rc_layout PCIe_PCICapExpress_Pxdcap), None),
    (''PXDC'', (rc_layout PCIe_PCICapExpress_Pxdc), None),
    (''PXDS'', (rc_layout PCIe_PCICapExpress_Pxds), None),
    (''PXLCAP'', (rc_layout PCIe_PCICapExpress_Pxlcap), None),
    (''PXLC'', (rc_layout PCIe_PCICapExpress_Pxlc), None),
    (''PXLS'', (rc_layout PCIe_PCICapExpress_Pxls), None),
    (''PXDCAP2'', (rc_layout PCIe_PCICapExpress_Pxdcap2), None),
    (''PXDC2'', (rc_layout PCIe_PCICapExpress_Pxdc2), None)],
    rc_base = None\<rparr>"

definition PCIe_PCICapabilityGenExtended :: reg_class where
  "PCIe_PCICapabilityGenExtended = \<lparr>rc_layout = Struct [
    (''CAP_ID'', UInt 4, Some 16),
    (''CAP_VER'', UInt 4, Some 4),
    (''NEXT_PTR'', UInt 4, Some 12)],
    rc_base = None\<rparr>"

definition PCIe_PCICapExtendedAer_Aeruces :: reg_class where
  "PCIe_PCICapExtendedAer_Aeruces = \<lparr>rc_layout = Struct [
    (''RSVD_0'', UInt 4, Some 4),
    (''DLPES'', UInt 4, Some 1),
    (''RSVD_1'', UInt 4, Some 7),
    (''PTS'', UInt 4, Some 1),
    (''FCPES'', UInt 4, Some 1),
    (''CTS'', UInt 4, Some 1),
    (''CAS'', UInt 4, Some 1),
    (''UCS'', UInt 4, Some 1),
    (''ROS'', UInt 4, Some 1),
    (''MTS'', UInt 4, Some 1),
    (''ECRCES'', UInt 4, Some 1),
    (''URES'', UInt 4, Some 1),
    (''ACSVS'', UInt 4, Some 1),
    (''UIES'', UInt 4, Some 1),
    (''MCBTS'', UInt 4, Some 1),
    (''AOEBS'', UInt 4, Some 1),
    (''TPBES'', UInt 4, Some 1),
    (''RSVD_2'', UInt 4, Some 6)],
    rc_base = None\<rparr>"

definition PCIe_PCICapExtendedAer_Aerucem :: reg_class where
  "PCIe_PCICapExtendedAer_Aerucem = \<lparr>rc_layout = Struct [
    (''RSVD_0'', UInt 4, Some 4),
    (''DLPEM'', UInt 4, Some 1),
    (''RSVD_1'', UInt 4, Some 7),
    (''PTM'', UInt 4, Some 1),
    (''FCPEM'', UInt 4, Some 1),
    (''CTM'', UInt 4, Some 1),
    (''CAM'', UInt 4, Some 1),
    (''UCM'', UInt 4, Some 1),
    (''ROM'', UInt 4, Some 1),
    (''MTM'', UInt 4, Some 1),
    (''ECRCEM'', UInt 4, Some 1),
    (''UREM'', UInt 4, Some 1),
    (''ACSVM'', UInt 4, Some 1),
    (''UIEM'', UInt 4, Some 1),
    (''MCBTM'', UInt 4, Some 1),
    (''AOEBM'', UInt 4, Some 1),
    (''TPBEM'', UInt 4, Some 1),
    (''RSVD_2'', UInt 4, Some 6)],
    rc_base = None\<rparr>"

definition PCIe_PCICapExtendedAer_Aerucesev :: reg_class where
  "PCIe_PCICapExtendedAer_Aerucesev = \<lparr>rc_layout = Struct [
    (''RSVD_0'', UInt 4, Some 4),
    (''DLPESEV'', UInt 4, Some 1),
    (''RSVD_1'', UInt 4, Some 7),
    (''PTSEV'', UInt 4, Some 1),
    (''FCPESEV'', UInt 4, Some 1),
    (''CTSEV'', UInt 4, Some 1),
    (''CASEV'', UInt 4, Some 1),
    (''UCSEV'', UInt 4, Some 1),
    (''ROSEV'', UInt 4, Some 1),
    (''SEV'', UInt 4, Some 1),
    (''ECRCESEV'', UInt 4, Some 1),
    (''URESEV'', UInt 4, Some 1),
    (''ACSVSEV'', UInt 4, Some 1),
    (''UIESEV'', UInt 4, Some 1),
    (''SEV'', UInt 4, Some 1),
    (''AOEBSEV'', UInt 4, Some 1),
    (''TPBESEV'', UInt 4, Some 1),
    (''RSVD_2'', UInt 4, Some 6)],
    rc_base = None\<rparr>"

definition PCIe_PCICapExtendedAer_Aerces :: reg_class where
  "PCIe_PCICapExtendedAer_Aerces = \<lparr>rc_layout = Struct [
    (''RES'', UInt 4, Some 1),
    (''RSVD_0'', UInt 4, Some 5),
    (''BTS'', UInt 4, Some 1),
    (''BDS'', UInt 4, Some 1),
    (''RRS'', UInt 4, Some 1),
    (''RSVD_1'', UInt 4, Some 3),
    (''RTS'', UInt 4, Some 1),
    (''ANFES'', UInt 4, Some 1),
    (''CIES'', UInt 4, Some 1),
    (''HLOS'', UInt 4, Some 1),
    (''RSVD_2'', UInt 4, Some 16)],
    rc_base = None\<rparr>"

definition PCIe_PCICapExtendedAer_Aercem :: reg_class where
  "PCIe_PCICapExtendedAer_Aercem = \<lparr>rc_layout = Struct [
    (''REM'', UInt 4, Some 1),
    (''RSVD_0'', UInt 4, Some 5),
    (''BTM'', UInt 4, Some 1),
    (''BDM'', UInt 4, Some 1),
    (''RRM'', UInt 4, Some 1),
    (''RSVD_1'', UInt 4, Some 3),
    (''RTM'', UInt 4, Some 1),
    (''ANFEM'', UInt 4, Some 1),
    (''CIEM'', UInt 4, Some 1),
    (''HLOM'', UInt 4, Some 1),
    (''RSVD_2'', UInt 4, Some 16)],
    rc_base = None\<rparr>"

definition PCIe_PCICapExtendedAer_Aercc :: reg_class where
  "PCIe_PCICapExtendedAer_Aercc = \<lparr>rc_layout = Struct [
    (''FEP'', UInt 4, Some 5),
    (''EGC'', UInt 4, Some 1),
    (''EGE'', UInt 4, Some 1),
    (''ECC'', UInt 4, Some 1),
    (''ECE'', UInt 4, Some 1),
    (''MHRC'', UInt 4, Some 1),
    (''MHRE'', UInt 4, Some 1),
    (''TPLP'', UInt 4, Some 1),
    (''RSVD_0'', UInt 4, Some 20)],
    rc_base = None\<rparr>"

definition PCIe_PCICapExtendedAer_Aerhl :: reg_class where
  "PCIe_PCICapExtendedAer_Aerhl = \<lparr>rc_layout = Struct [
    (''HB3'', UInt 1, None),
    (''HB2'', UInt 1, None),
    (''HB1'', UInt 1, None),
    (''HB0'', UInt 1, None),
    (''HB7'', UInt 1, None),
    (''HB6'', UInt 1, None),
    (''HB5'', UInt 1, None),
    (''HB4'', UInt 1, None),
    (''HB11'', UInt 1, None),
    (''HB10'', UInt 1, None),
    (''HB9'', UInt 1, None),
    (''HB8'', UInt 1, None),
    (''HB15'', UInt 1, None),
    (''HB14'', UInt 1, None),
    (''HB13'', UInt 1, None),
    (''HB12'', UInt 1, None)],
    rc_base = None\<rparr>"

definition PCIe_PCICapExtendedAer_Aertlp :: reg_class where
  "PCIe_PCICapExtendedAer_Aertlp = \<lparr>rc_layout = Struct [
    (''TPL1B3'', UInt 1, None),
    (''TPL1B2'', UInt 1, None),
    (''TPL1B1'', UInt 1, None),
    (''TPL1B0'', UInt 1, None),
    (''TPL2B3'', UInt 1, None),
    (''TPL2B2'', UInt 1, None),
    (''TPL2B1'', UInt 1, None),
    (''TPL2B0'', UInt 1, None),
    (''TPL3B3'', UInt 1, None),
    (''TPL3B2'', UInt 1, None),
    (''TPL3B1'', UInt 1, None),
    (''TPL3B0'', UInt 1, None),
    (''TPL4B3'', UInt 1, None),
    (''TPL4B2'', UInt 1, None),
    (''TPL4B1'', UInt 1, None),
    (''TPL4B0'', UInt 1, None)],
    rc_base = None\<rparr>"

definition PCIe_PCICapExtendedAer :: reg_class where
  "PCIe_PCICapExtendedAer = \<lparr>rc_layout = Struct [
    (''CAP_ID'', UInt 4, Some 16),
    (''CAP_VER'', UInt 4, Some 4),
    (''NEXT_PTR'', UInt 4, Some 12),
    (''AERUCES'', (rc_layout PCIe_PCICapExtendedAer_Aeruces), None),
    (''AERUCEM'', (rc_layout PCIe_PCICapExtendedAer_Aerucem), None),
    (''AERUCESEV'', (rc_layout PCIe_PCICapExtendedAer_Aerucesev), None),
    (''AERCES'', (rc_layout PCIe_PCICapExtendedAer_Aerces), None),
    (''AERCEM'', (rc_layout PCIe_PCICapExtendedAer_Aercem), None),
    (''AERCC'', (rc_layout PCIe_PCICapExtendedAer_Aercc), None),
    (''AERHL'', (rc_layout PCIe_PCICapExtendedAer_Aerhl), None),
    (''AERTLP'', (rc_layout PCIe_PCICapExtendedAer_Aertlp), None)],
    rc_base = None\<rparr>"

definition PCIe_PCICapExtendeDeviceSerialNumber :: reg_class where
  "PCIe_PCICapExtendeDeviceSerialNumber = \<lparr>rc_layout = Struct [
    (''CAP_ID'', UInt 4, Some 16),
    (''CAP_VER'', UInt 4, Some 4),
    (''NEXT_PTR'', UInt 4, Some 12),
    (''SN_LOW'', UInt 4, None),
    (''SN_HIGH'', UInt 4, None)],
    rc_base = None\<rparr>"

definition PCIe_NVMePCIeRegisters :: reg_class where
  "PCIe_NVMePCIeRegisters = \<lparr>rc_layout = Struct [
    (''ID'', (rc_layout PCIe_Id), None),
    (''CMD'', (rc_layout PCIe_Cmd), None),
    (''STS'', (rc_layout PCIe_Sts), None),
    (''RID'', (rc_layout PCIe_Rid), None),
    (''CC'', (rc_layout PCIe_Cc), None),
    (''CLS'', (rc_layout PCIe_Cls), None),
    (''MLT'', (rc_layout PCIe_Mlt), None),
    (''HTYPE'', (rc_layout PCIe_Htype), None),
    (''BIST'', (rc_layout PCIe_Bist), None),
    (''BAR0'', (rc_layout PCIe_Bar0), None),
    (''BAR1'', (rc_layout PCIe_Bar1), None),
    (''BAR2'', (rc_layout PCIe_Bar2), None),
    (''BAR3'', (rc_layout PCIe_Bar3), None),
    (''BAR4'', (rc_layout PCIe_Bar4), None),
    (''BAR5'', (rc_layout PCIe_Bar5), None),
    (''CCPTR'', (rc_layout PCIe_Ccptr), None),
    (''SS'', (rc_layout PCIe_Ss), None),
    (''EROM'', (rc_layout PCIe_Erom), None),
    (''CAP'', (rc_layout PCIe_Cap), None),
    (''RSVD_0'', Arr (UInt 1) 5, None),
    (''RSVD_1'', UInt 2, None),
    (''INTR'', (rc_layout PCIe_Intr), None),
    (''MGNT'', (rc_layout PCIe_Mgnt), None),
    (''MLAT'', (rc_layout PCIe_Mlat), None),
    (''CAPS'', (rc_layout PCIe_Caps), None)],
    rc_base = Some 0x0\<rparr>"

lemmas PCIe_defs = PCIe_Id_def
  PCIe_Cmd_def
  PCIe_Sts_def
  PCIe_Rid_def
  PCIe_Cc_def
  PCIe_Cls_def
  PCIe_Mlt_def
  PCIe_Htype_def
  PCIe_Bist_def
  PCIe_Bar0_def
  PCIe_Bar1_def
  PCIe_Bar2_def
  PCIe_Bar3_def
  PCIe_Bar4_def
  PCIe_Bar5_def
  PCIe_Ccptr_def
  PCIe_Ss_def
  PCIe_Erom_def
  PCIe_Cap_def
  PCIe_Intr_def
  PCIe_Mgnt_def
  PCIe_Mlat_def
  PCIe_Caps_def
  PCIe_PCICapabilityGen_def
  PCIe_PCICapPowerManagementInterface_Pc_def
  PCIe_PCICapPowerManagementInterface_Pmcs_def
  PCIe_PCICapPowerManagementInterface_def
  PCIe_PCICapMSI_Mc_def
  PCIe_PCICapMSI_Ma_def
  PCIe_PCICapMSI_Mua_def
  PCIe_PCICapMSI_Md_def
  PCIe_PCICapMSI_Mmask_def
  PCIe_PCICapMSI_Mpend_def
  PCIe_PCICapMSI_def
  PCIe_PCICapMSIX_Mxc_def
  PCIe_PCICapMSIX_Mtab_def
  PCIe_PCICapMSIX_Mpba_def
  PCIe_PCICapMSIX_def
  PCIe_PCICapExpress_Pxcap_def
  PCIe_PCICapExpress_Pxdcap_def
  PCIe_PCICapExpress_Pxdc_def
  PCIe_PCICapExpress_Pxds_def
  PCIe_PCICapExpress_Pxlcap_def
  PCIe_PCICapExpress_Pxlc_def
  PCIe_PCICapExpress_Pxls_def
  PCIe_PCICapExpress_Pxdcap2_def
  PCIe_PCICapExpress_Pxdc2_def
  PCIe_PCICapExpress_def
  PCIe_PCICapabilityGenExtended_def
  PCIe_PCICapExtendedAer_Aeruces_def
  PCIe_PCICapExtendedAer_Aerucem_def
  PCIe_PCICapExtendedAer_Aerucesev_def
  PCIe_PCICapExtendedAer_Aerces_def
  PCIe_PCICapExtendedAer_Aercem_def
  PCIe_PCICapExtendedAer_Aercc_def
  PCIe_PCICapExtendedAer_Aerhl_def
  PCIe_PCICapExtendedAer_Aertlp_def
  PCIe_PCICapExtendedAer_def
  PCIe_PCICapExtendeDeviceSerialNumber_def
  PCIe_NVMePCIeRegisters_def

section \<open>Sizes and offsets\<close>

lemma PCIe_sizes [layout_simps]:
  "csize (rc_layout PCIe_Id) = 4"
  "csize (rc_layout PCIe_Cmd) = 2"
  "csize (rc_layout PCIe_Sts) = 2"
  "csize (rc_layout PCIe_Rid) = 1"
  "csize (rc_layout PCIe_Cc) = 3"
  "csize (rc_layout PCIe_Cls) = 1"
  "csize (rc_layout PCIe_Mlt) = 1"
  "csize (rc_layout PCIe_Htype) = 1"
  "csize (rc_layout PCIe_Bist) = 1"
  "csize (rc_layout PCIe_Bar0) = 4"
  "csize (rc_layout PCIe_Bar1) = 4"
  "csize (rc_layout PCIe_Bar2) = 4"
  "csize (rc_layout PCIe_Bar3) = 4"
  "csize (rc_layout PCIe_Bar4) = 4"
  "csize (rc_layout PCIe_Bar5) = 4"
  "csize (rc_layout PCIe_Ccptr) = 4"
  "csize (rc_layout PCIe_Ss) = 4"
  "csize (rc_layout PCIe_Erom) = 4"
  "csize (rc_layout PCIe_Cap) = 1"
  "csize (rc_layout PCIe_Intr) = 2"
  "csize (rc_layout PCIe_Mgnt) = 1"
  "csize (rc_layout PCIe_Mlat) = 1"
  "csize (rc_layout PCIe_Caps) = 4032"
  "csize (rc_layout PCIe_PCICapabilityGen) = 4"
  "csize (rc_layout PCIe_PCICapPowerManagementInterface_Pc) = 2"
  "csize (rc_layout PCIe_PCICapPowerManagementInterface_Pmcs) = 2"
  "csize (rc_layout PCIe_PCICapPowerManagementInterface) = 6"
  "csize (rc_layout PCIe_PCICapMSI_Mc) = 2"
  "csize (rc_layout PCIe_PCICapMSI_Ma) = 4"
  "csize (rc_layout PCIe_PCICapMSI_Mua) = 4"
  "csize (rc_layout PCIe_PCICapMSI_Md) = 2"
  "csize (rc_layout PCIe_PCICapMSI_Mmask) = 4"
  "csize (rc_layout PCIe_PCICapMSI_Mpend) = 4"
  "csize (rc_layout PCIe_PCICapMSI) = 22"
  "csize (rc_layout PCIe_PCICapMSIX_Mxc) = 2"
  "csize (rc_layout PCIe_PCICapMSIX_Mtab) = 4"
  "csize (rc_layout PCIe_PCICapMSIX_Mpba) = 4"
  "csize (rc_layout PCIe_PCICapMSIX) = 12"
  "csize (rc_layout PCIe_PCICapExpress_Pxcap) = 2"
  "csize (rc_layout PCIe_PCICapExpress_Pxdcap) = 4"
  "csize (rc_layout PCIe_PCICapExpress_Pxdc) = 2"
  "csize (rc_layout PCIe_PCICapExpress_Pxds) = 2"
  "csize (rc_layout PCIe_PCICapExpress_Pxlcap) = 4"
  "csize (rc_layout PCIe_PCICapExpress_Pxlc) = 2"
  "csize (rc_layout PCIe_PCICapExpress_Pxls) = 2"
  "csize (rc_layout PCIe_PCICapExpress_Pxdcap2) = 4"
  "csize (rc_layout PCIe_PCICapExpress_Pxdc2) = 4"
  "csize (rc_layout PCIe_PCICapExpress) = 28"
  "csize (rc_layout PCIe_PCICapabilityGenExtended) = 4"
  "csize (rc_layout PCIe_PCICapExtendedAer_Aeruces) = 4"
  "csize (rc_layout PCIe_PCICapExtendedAer_Aerucem) = 4"
  "csize (rc_layout PCIe_PCICapExtendedAer_Aerucesev) = 4"
  "csize (rc_layout PCIe_PCICapExtendedAer_Aerces) = 4"
  "csize (rc_layout PCIe_PCICapExtendedAer_Aercem) = 4"
  "csize (rc_layout PCIe_PCICapExtendedAer_Aercc) = 4"
  "csize (rc_layout PCIe_PCICapExtendedAer_Aerhl) = 16"
  "csize (rc_layout PCIe_PCICapExtendedAer_Aertlp) = 16"
  "csize (rc_layout PCIe_PCICapExtendedAer) = 60"
  "csize (rc_layout PCIe_PCICapExtendeDeviceSerialNumber) = 12"
  by (simp_all add: PCIe_defs)

lemma PCIe_bases [layout_simps]:
  "rc_base PCIe_Id = Some 0x0"
  "rc_base PCIe_Cmd = Some 0x4"
  "rc_base PCIe_Sts = Some 0x6"
  "rc_base PCIe_Rid = Some 0x8"
  "rc_base PCIe_Cc = Some 0x9"
  "rc_base PCIe_Cls = Some 0xC"
  "rc_base PCIe_Mlt = Some 0xD"
  "rc_base PCIe_Htype = Some 0xE"
  "rc_base PCIe_Bist = Some 0xF"
  "rc_base PCIe_Bar0 = Some 0x10"
  "rc_base PCIe_Bar1 = Some 0x14"
  "rc_base PCIe_Bar2 = Some 0x18"
  "rc_base PCIe_Bar3 = Some 0x1C"
  "rc_base PCIe_Bar4 = Some 0x20"
  "rc_base PCIe_Bar5 = Some 0x24"
  "rc_base PCIe_Ccptr = Some 0x28"
  "rc_base PCIe_Ss = Some 0x2C"
  "rc_base PCIe_Erom = Some 0x30"
  "rc_base PCIe_Cap = Some 0x34"
  "rc_base PCIe_Intr = Some 0x3C"
  "rc_base PCIe_Mgnt = Some 0x3E"
  "rc_base PCIe_Mlat = Some 0x3F"
  "rc_base PCIe_Caps = Some 0x40"
  "rc_base PCIe_PCICapabilityGen = None"
  "rc_base PCIe_PCICapPowerManagementInterface_Pc = None"
  "rc_base PCIe_PCICapPowerManagementInterface_Pmcs = None"
  "rc_base PCIe_PCICapPowerManagementInterface = None"
  "rc_base PCIe_PCICapMSI_Mc = None"
  "rc_base PCIe_PCICapMSI_Ma = None"
  "rc_base PCIe_PCICapMSI_Mua = None"
  "rc_base PCIe_PCICapMSI_Md = None"
  "rc_base PCIe_PCICapMSI_Mmask = None"
  "rc_base PCIe_PCICapMSI_Mpend = None"
  "rc_base PCIe_PCICapMSI = None"
  "rc_base PCIe_PCICapMSIX_Mxc = None"
  "rc_base PCIe_PCICapMSIX_Mtab = None"
  "rc_base PCIe_PCICapMSIX_Mpba = None"
  "rc_base PCIe_PCICapMSIX = None"
  "rc_base PCIe_PCICapExpress_Pxcap = None"
  "rc_base PCIe_PCICapExpress_Pxdcap = None"
  "rc_base PCIe_PCICapExpress_Pxdc = None"
  "rc_base PCIe_PCICapExpress_Pxds = None"
  "rc_base PCIe_PCICapExpress_Pxlcap = None"
  "rc_base PCIe_PCICapExpress_Pxlc = None"
  "rc_base PCIe_PCICapExpress_Pxls = None"
  "rc_base PCIe_PCICapExpress_Pxdcap2 = None"
  "rc_base PCIe_PCICapExpress_Pxdc2 = None"
  "rc_base PCIe_PCICapExpress = None"
  "rc_base PCIe_PCICapabilityGenExtended = None"
  "rc_base PCIe_PCICapExtendedAer_Aeruces = None"
  "rc_base PCIe_PCICapExtendedAer_Aerucem = None"
  "rc_base PCIe_PCICapExtendedAer_Aerucesev = None"
  "rc_base PCIe_PCICapExtendedAer_Aerces = None"
  "rc_base PCIe_PCICapExtendedAer_Aercem = None"
  "rc_base PCIe_PCICapExtendedAer_Aercc = None"
  "rc_base PCIe_PCICapExtendedAer_Aerhl = None"
  "rc_base PCIe_PCICapExtendedAer_Aertlp = None"
  "rc_base PCIe_PCICapExtendedAer = None"
  "rc_base PCIe_PCICapExtendeDeviceSerialNumber = None"
  "rc_base PCIe_NVMePCIeRegisters = Some 0x0"
  by (simp_all add: PCIe_defs)

text \<open>The registers of the header by name, with the class that describes each.\<close>

definition PCIe_directory :: "(string \<times> reg_class) list" where
  "PCIe_directory = [
    (''ID'', PCIe_Id),
    (''CMD'', PCIe_Cmd),
    (''STS'', PCIe_Sts),
    (''RID'', PCIe_Rid),
    (''CC'', PCIe_Cc),
    (''CLS'', PCIe_Cls),
    (''MLT'', PCIe_Mlt),
    (''HTYPE'', PCIe_Htype),
    (''BIST'', PCIe_Bist),
    (''BAR0'', PCIe_Bar0),
    (''BAR1'', PCIe_Bar1),
    (''BAR2'', PCIe_Bar2),
    (''BAR3'', PCIe_Bar3),
    (''BAR4'', PCIe_Bar4),
    (''BAR5'', PCIe_Bar5),
    (''CCPTR'', PCIe_Ccptr),
    (''SS'', PCIe_Ss),
    (''EROM'', PCIe_Erom),
    (''CAP'', PCIe_Cap),
    (''INTR'', PCIe_Intr),
    (''MGNT'', PCIe_Mgnt),
    (''MLAT'', PCIe_Mlat),
    (''CAPS'', PCIe_Caps)]"

lemma PCIe_classes_wf:
  "list_all (\<lambda>(n, rc). case rc_layout rc of Struct fs \<Rightarrow> wf_fields fs | _ \<Rightarrow> False) PCIe_directory"
  by (simp add: PCIe_directory_def PCIe_defs wf_fields_def wf_field_def)

text \<open>
  Every register of the configuration header lies where its class says: ctypes places each field of the header
  structure at the offset that the accessor path uses, and the whole structure fills the 4096 bytes of
  the configuration space. So direct access and access through byte accessors reach the same bytes.
\<close>

theorem pcie_register_offsets:
  "map (\<lambda>(n, rc). offset_of (rc_layout PCIe_NVMePCIeRegisters) [Fld n]) PCIe_directory =
     map (\<lambda>(n, rc). rc_base rc) PCIe_directory \<and>
   csize (rc_layout PCIe_NVMePCIeRegisters) = 4096"
  by (simp add: PCIe_directory_def PCIe_NVMePCIeRegisters_def PCIe_sizes PCIe_bases
      offset_of_def field_pos_def last_match_def struct_places_def)

end
