(* ===== verification/PciCapabilities.thy ===== *)
theory PciCapabilities
  imports PcieRegs
begin

text \<open>
  The capability lists of a PCI device (\<open>PCIeRegisters.init_capabilities\<close> in
  \<open>lone/nvme/spec/registers/pcie_regs.py\<close>): the tables from capability identifiers to register
  classes, the walk along the next pointers, first from the pointer of the header and then from
  0x100, and the offsets that \<open>set_offsets\<close> gives to the registers of a capability. The walk has fuel, because a
  device whose list is cyclic keeps it going for ever.
\<close>

section \<open>Capability classes\<close>

datatype cap_type =
    PCICapabilityGen
  | PCICapPowerManagementInterface
  | PCICapMSI
  | PCICapMSIX
  | PCICapExpress
  | PCICapabilityGenExtended
  | PCICapExtendedAer
  | PCICapExtendeDeviceSerialNumber

fun cap_class :: "cap_type \<Rightarrow> reg_class" where
  "cap_class PCICapabilityGen = PCIe_PCICapabilityGen"
| "cap_class PCICapPowerManagementInterface = PCIe_PCICapPowerManagementInterface"
| "cap_class PCICapMSI = PCIe_PCICapMSI"
| "cap_class PCICapMSIX = PCIe_PCICapMSIX"
| "cap_class PCICapExpress = PCIe_PCICapExpress"
| "cap_class PCICapabilityGenExtended = PCIe_PCICapabilityGenExtended"
| "cap_class PCICapExtendedAer = PCIe_PCICapExtendedAer"
| "cap_class PCICapExtendeDeviceSerialNumber = PCIe_PCICapExtendeDeviceSerialNumber"

definition PCIeCapabilityIdTable :: "cap_type list" where
  "PCIeCapabilityIdTable =
     [PCICapabilityGen, PCICapPowerManagementInterface] @ replicate 3 PCICapabilityGen @
     [PCICapMSI] @ replicate 10 PCICapabilityGen @ [PCICapExpress, PCICapMSIX] @
     replicate 238 PCICapabilityGen"

definition PCIeCapabilityExtIdTable :: "cap_type list" where
  "PCIeCapabilityExtIdTable =
     [PCICapabilityGen, PCICapExtendedAer] @ replicate 1 PCICapabilityGen @
     [PCICapExtendeDeviceSerialNumber] @ replicate 251 PCICapabilityGenExtended"

text \<open>
  \<open>set_offsets\<close>: the offsets of the registers of a capability that the class sets, by
  field name; a register that is not listed keeps no offset.
\<close>

fun set_offsets :: "cap_type \<Rightarrow> nat \<Rightarrow> (string \<times> nat) list" where
  "set_offsets PCICapPowerManagementInterface base = [(''PC'', base + 2), (''PMCS'', base + 4)]"
| "set_offsets PCICapMSI base = [(''MC'', base + 2)]"
| "set_offsets PCICapMSIX base = [(''MXC'', base + 2), (''MTAB'', base + 4), (''MPBA'', base + 8)]"
| "set_offsets PCICapExpress base =
     [(''PXCAP'', base + 2), (''PXDCAP'', base + 4), (''PXDC'', base + 8), (''PXDS'', base + 10),
      (''PXLCAP'', base + 12), (''PXLC'', base + 16), (''PXLS'', base + 18), (''PXDCAP2'', base + 20),
      (''PXDC2'', base + 24)]"
| "set_offsets _ base = []"

record capability =
  cap_type :: cap_type
  base_offset :: nat

section \<open>The walk\<close>

definition cap_field ::
  "('d \<Rightarrow> nat \<Rightarrow> byte) \<Rightarrow> 'd \<Rightarrow> cap_type \<Rightarrow> nat \<Rightarrow> string \<Rightarrow> nat res" where
  "cap_field get_func d ct p name = reg_getattr get_func ((cap_class ct)\<lparr>rc_base := Some p\<rparr>) name d"

definition find_capability :: "('d \<Rightarrow> nat \<Rightarrow> byte) \<Rightarrow> 'd \<Rightarrow> nat \<Rightarrow> capability res" where
  "find_capability get_func d p =
     (if p < 0x100
      then bindR (cap_field get_func d PCICapabilityGen p ''CAP_ID'') (\<lambda>cap_id.
           bindR (list_get PCIeCapabilityIdTable cap_id) (\<lambda>ct.
             Inr \<lparr>cap_type = ct, base_offset = p\<rparr>))
      else bindR (cap_field get_func d PCICapabilityGenExtended p ''CAP_ID'') (\<lambda>cap_id.
           bindR (list_get PCIeCapabilityExtIdTable cap_id) (\<lambda>ct.
             Inr \<lparr>cap_type = ct, base_offset = p\<rparr>)))"

fun walk_capabilities ::
  "nat \<Rightarrow> ('d \<Rightarrow> nat \<Rightarrow> byte) \<Rightarrow> 'd \<Rightarrow> nat \<Rightarrow> capability list \<Rightarrow> capability list res option" where
  "walk_capabilities 0 get_func d p caps = None"
| "walk_capabilities (Suc fuel) get_func d p caps =
     (if p = 0 then Some (Inr caps)
      else case find_capability get_func d p of
        Inl e \<Rightarrow> Some (Inl e)
      | Inr c \<Rightarrow>
          let caps' = (if cap_type c = PCICapabilityGen \<or> cap_type c = PCICapabilityGenExtended
                       then caps else caps @ [c])
          in (case cap_field get_func d (cap_type c) p ''NEXT_PTR'' of
                Inl e \<Rightarrow> Some (Inl e)
              | Inr next_cap_ptr \<Rightarrow> walk_capabilities fuel get_func d next_cap_ptr caps'))"

definition init_capabilities ::
  "nat \<Rightarrow> ('d \<Rightarrow> nat \<Rightarrow> byte) \<Rightarrow> 'd \<Rightarrow> capability list res option" where
  "init_capabilities fuel get_func d =
     (case reg_getattr get_func PCIe_Cap ''CP'' d of
        Inl e \<Rightarrow> Some (Inl e)
      | Inr cp \<Rightarrow>
          (case walk_capabilities fuel get_func d cp [] of
             None \<Rightarrow> None
           | Some (Inl e) \<Rightarrow> Some (Inl e)
           | Some (Inr caps) \<Rightarrow> walk_capabilities fuel get_func d 0x100 caps))"

section \<open>What the walk reads\<close>

lemma cap_positions [simp]:
  "field_pos (rc_layout (cap_class ct)) [Fld ''CAP_ID''] = Some
     (if ct \<in> {PCICapabilityGenExtended, PCICapExtendedAer, PCICapExtendeDeviceSerialNumber}
      then (0, 16) else (0, 8))"
  "field_pos (rc_layout (cap_class ct)) [Fld ''NEXT_PTR''] = Some
     (if ct \<in> {PCICapabilityGenExtended, PCICapExtendedAer, PCICapExtendeDeviceSerialNumber}
      then (20, 12) else (8, 8))"
  by (cases ct; simp add: PCIe_defs field_pos_def last_match_def struct_places_def)+

lemma cap_sizes [simp]: "4 \<le> csize (rc_layout (cap_class ct))"
  by (cases ct) (simp_all add: PCIe_sizes)

definition is_ext :: "cap_type \<Rightarrow> bool" where
  "is_ext ct \<longleftrightarrow> ct \<in> {PCICapabilityGenExtended, PCICapExtendedAer, PCICapExtendeDeviceSerialNumber}"

lemma read_data_prefix:
  assumes "4 \<le> n"
  shows "take 4 (read_data g d p n) = [g d p, g d (p + 1), g d (p + 2), g d (p + 3)]"
proof -
  have "take 4 (read_data g d p n) = map (g d) [p..<p + 4]"
    using assms by (simp add: read_data_eq take_map)
  then show ?thesis by (simp add: upt_conv_Cons numeral_eq_Suc)
qed

lemma cap_field_bytes:
  "cap_field g d ct p ''CAP_ID'' =
     Inr (if is_ext ct then unat (g d p) + 256 * unat (g d (p + 1)) else unat (g d p))"
  "cap_field g d ct p ''NEXT_PTR'' =
     Inr (if is_ext ct then unat (g d (p + 2)) div 16 + 16 * unat (g d (p + 3))
          else unat (g d (p + 1)))"
proof -
  let ?bs = "read_data g d p (csize (rc_layout (cap_class ct)))"
  have pre: "take 4 ?bs = [g d p, g d (p + 1), g d (p + 2), g d (p + 3)]"
    by (rule read_data_prefix) simp
  have four: "getf (n, w) ?bs = getf (n, w) (take 4 ?bs)" if "n + w \<le> 32" for n w
    using getf_within [of n w 4 0 ?bs] that by simp
  have lt: "unat (g d x) < 256" for x
    by (rule order.strict_trans2 [OF unsigned_less]) simp
  have "getf (0, 8) ?bs = unat (g d p)" "getf (8, 8) ?bs = unat (g d (p + 1))"
    "getf (0, 16) ?bs = unat (g d p) + 256 * unat (g d (p + 1))"
    using four [of 0 8] four [of 8 8] four [of 0 16] getf_bytes [of 0 1 "take 4 ?bs"]
      getf_bytes [of 1 1 "take 4 ?bs"] getf_bytes [of 0 2 "take 4 ?bs"]
    by (simp_all add: pre)
  moreover have "getf (20, 12) ?bs = unat (g d (p + 2)) div 16 + 16 * unat (g d (p + 3))"
  proof -
    have "getf (20, 12) ?bs = getf (4, 12) [g d (p + 2), g d (p + 3)]"
      using four [of 20 12] getf_within [of 4 12 2 2 "take 4 ?bs"] by (simp add: pre)
    also have "\<dots> = take_bit 12 ((unat (g d (p + 2)) + 256 * unat (g d (p + 3))) div 16)"
      by (simp add: getf_def get_bits_def drop_bit_eq_div)
    also have "(unat (g d (p + 2)) + 256 * unat (g d (p + 3))) div 16 =
        unat (g d (p + 2)) div 16 + 16 * unat (g d (p + 3))" by simp
    finally show ?thesis using lt [of "p + 2"] lt [of "p + 3"] by (simp add: take_bit_eq_mod)
  qed
  ultimately show "cap_field g d ct p ''CAP_ID'' =
       Inr (if is_ext ct then unat (g d p) + 256 * unat (g d (p + 1)) else unat (g d p))"
    "cap_field g d ct p ''NEXT_PTR'' =
       Inr (if is_ext ct then unat (g d (p + 2)) div 16 + 16 * unat (g d (p + 3))
          else unat (g d (p + 1)))"
    by (simp_all add: cap_field_def reg_getattr_def is_ext_def)
qed

definition std_type :: "nat \<Rightarrow> cap_type" where
  "std_type i = (if i = 1 then PCICapPowerManagementInterface else if i = 5 then PCICapMSI
     else if i = 0x10 then PCICapExpress else if i = 0x11 then PCICapMSIX else PCICapabilityGen)"

definition ext_type :: "nat \<Rightarrow> cap_type" where
  "ext_type i = (if i = 1 then PCICapExtendedAer else if i = 3 then PCICapExtendeDeviceSerialNumber
     else if i = 0 \<or> i = 2 then PCICapabilityGen else PCICapabilityGenExtended)"

lemma table_lookup:
  "i < 256 \<Longrightarrow> list_get PCIeCapabilityIdTable i = Inr (std_type i)"
  "list_get PCIeCapabilityExtIdTable i = (if i < 255 then Inr (ext_type i) else Inl IndexError)"
  by (auto simp: list_get_def PCIeCapabilityIdTable_def PCIeCapabilityExtIdTable_def std_type_def
      ext_type_def nth_append nth_Cons')

definition ext_id :: "(nat \<Rightarrow> byte) \<Rightarrow> nat \<Rightarrow> nat" where
  "ext_id g p = unat (g p) + 256 * unat (g (p + 1))"

definition ext_next :: "(nat \<Rightarrow> byte) \<Rightarrow> nat \<Rightarrow> nat" where
  "ext_next g p = unat (g (p + 2)) div 16 + 16 * unat (g (p + 3))"

lemma find_capability_eq:
  "find_capability g d p =
     (if p < 0x100 then Inr \<lparr>cap_type = std_type (unat (g d p)), base_offset = p\<rparr>
      else if ext_id (g d) p < 255 then Inr \<lparr>cap_type = ext_type (ext_id (g d) p), base_offset = p\<rparr>
      else Inl IndexError)"
proof -
  have "unat (g d p) < 256" by (rule order.strict_trans2 [OF unsigned_less]) simp
  then show ?thesis
    by (simp add: find_capability_def cap_field_bytes is_ext_def table_lookup ext_id_def)
qed

section \<open>Capability lists as the PCI specification lays them out\<close>

text \<open>
  \<open>chain d p cs\<close>: from address \<open>p\<close>, the device's bytes hold the linked list \<open>cs\<close> of capabilities (address
  and identifier), in the standard format below 0x100 and in the extended format from there on.
\<close>

fun chain :: "(nat \<Rightarrow> byte) \<Rightarrow> nat \<Rightarrow> (nat \<times> nat) list \<Rightarrow> bool" where
  "chain g p [] \<longleftrightarrow> p = 0"
| "chain g p ((q, i) # cs) \<longleftrightarrow> q = p \<and> p \<noteq> 0 \<and>
     (if p < 0x100 then unat (g p) = i \<and> chain g (unat (g (p + 1))) cs
      else ext_id g p = i \<and> chain g (ext_next g p) cs)"

fun known_type :: "nat \<times> nat \<Rightarrow> cap_type option" where
  "known_type (p, i) =
     (if p < 0x100
      then (if i = 0x01 then Some PCICapPowerManagementInterface
            else if i = 0x05 then Some PCICapMSI
            else if i = 0x10 then Some PCICapExpress
            else if i = 0x11 then Some PCICapMSIX else None)
      else (if i = 0x0001 then Some PCICapExtendedAer
            else if i = 0x0003 then Some PCICapExtendeDeviceSerialNumber else None))"

definition known_caps :: "(nat \<times> nat) list \<Rightarrow> capability list" where
  "known_caps cs = concat (map (\<lambda>(p, i). case known_type (p, i) of
     None \<Rightarrow> [] | Some ct \<Rightarrow> [\<lparr>cap_type = ct, base_offset = p\<rparr>]) cs)"

definition ext_ids_ok :: "(nat \<times> nat) list \<Rightarrow> bool" where
  "ext_ids_ok cs \<longleftrightarrow> list_all (\<lambda>(p, i). p < 0x100 \<or> i \<notin> {0, 2} \<and> i < 255) cs"

lemma known_caps_Cons: "known_caps (c # cs) = known_caps [c] @ known_caps cs"
  by (simp add: known_caps_def)

lemma walk_std:
  assumes "0 < p" "p < 0x100"
  shows "walk_capabilities (Suc n) g d p caps =
    walk_capabilities n g d (unat (g d (p + 1))) (caps @ known_caps [(p, unat (g d p))])"
  using assms by (simp add: find_capability_eq cap_field_bytes Let_def std_type_def is_ext_def known_caps_def)

lemma walk_ext:
  assumes "0x100 \<le> p" "ext_id (g d) p \<notin> {0, 2}" "ext_id (g d) p < 255"
  shows "walk_capabilities (Suc n) g d p caps =
    walk_capabilities n g d (ext_next (g d) p) (caps @ known_caps [(p, ext_id (g d) p)])"
  using assms
  by (simp add: find_capability_eq cap_field_bytes Let_def ext_type_def is_ext_def known_caps_def ext_next_def)

lemma walk_chain:
  assumes "chain (g d) p cs" "ext_ids_ok cs" "length cs < fuel"
  shows "walk_capabilities fuel g d p caps = Some (Inr (caps @ known_caps cs))"
  using assms
proof (induction cs arbitrary: p fuel caps)
  case Nil
  then show ?case by (cases fuel) (auto simp: known_caps_def)
next
  case (Cons c cs)
  obtain i where c: "c = (p, i)" "0 < p" using Cons.prems(1) by (cases c) auto
  obtain n where n: "fuel = Suc n" "length cs < n" using Cons.prems(3) by (cases fuel) auto
  note cons = known_caps_Cons [of c cs]
  show ?case
  proof (cases "p < 0x100")
    case True
    with Cons.prems c have "chain (g d) (unat (g d (p + 1))) cs" "i = unat (g d p)" "ext_ids_ok cs"
      by (auto simp: ext_ids_ok_def)
    with Cons.IH [of "unat (g d (p + 1))" n] n c True cons show ?thesis
      by (simp add: walk_std del: walk_capabilities.simps)
  next
    case False
    with Cons.prems c have "chain (g d) (ext_next (g d) p) cs" "i = ext_id (g d) p" "ext_ids_ok cs"
      "ext_id (g d) p \<notin> {0, 2}" "ext_id (g d) p < 255"
      by (auto simp: ext_ids_ok_def)
    with Cons.IH [of "ext_next (g d) p" n] n c False cons show ?thesis
      by (simp add: walk_ext del: walk_capabilities.simps)
  qed
qed

lemma header_cp: "reg_getattr g PCIe_Cap ''CP'' d = Inr (unat (g d 0x34))"
  by (simp add: reg_getattr_def PCIe_Cap_def field_pos_def last_match_def struct_places_def
      getf_bytes [of 0 1, simplified])


text \<open>A device with a power management, an MSI-X and a vendor capability, and the AER capability at 0x100.\<close>

definition example_config :: "nat \<Rightarrow> byte" where
  "example_config x = (case map_of [(0x34, 0x40), (0x40, 0x01), (0x41, 0x50), (0x50, 0x09), (0x51, 0x60),
     (0x60, 0x11), (0x100, 0x01)] x of None \<Rightarrow> 0 | Some b \<Rightarrow> b)"


text \<open>
  The walk trusts the device: with a standard capability whose next pointer is its own address, no amount of fuel is
  enough, so \<open>init_capabilities\<close> does not return.
\<close>

theorem init_capabilities_self_loop:
  assumes "0 < unat (g d 0x34)" "g d (unat (g d 0x34) + 1) = g d 0x34"
  shows "init_capabilities fuel g d = None"
proof -
  let ?p = "unat (g d 0x34)"
  have p: "?p < 0x100" by (rule order.strict_trans2 [OF unsigned_less]) simp
  have "walk_capabilities fuel g d ?p caps = None" for caps
    using assms p by (induction fuel arbitrary: caps) (simp_all only: walk_std walk_capabilities.simps(1))
  then show ?thesis by (simp add: init_capabilities_def header_cp)
qed

lemma init_capabilities_self_loop_witness:
  "init_capabilities 1000 (\<lambda>_ x. if x = 0x34 \<or> x = 0x41 then 0x40 else 0) () = None"
  by (rule init_capabilities_self_loop) simp_all

text \<open>
  The table of extended capabilities holds the class of a standard capability at
  identifier 2 (a virtual channel): the next pointer of such a capability is then read from the upper byte of its
  identifier, which is 0, and every extended capability behind it is lost, whatever its own pointer says.
\<close>

theorem init_capabilities_loses_after_virtual_channel:
  assumes "chain (g d) (unat (g d 0x34)) std" "ext_ids_ok std" "length std + 2 < fuel"
    and "g d 0x100 = 2" "g d 0x101 = 0"
  shows "init_capabilities fuel g d = Some (Inr (known_caps std))"
proof -
  obtain n where n: "fuel = Suc (Suc n)" using assms(3) by (metis Suc_lessE add_2_eq_Suc')
  have "walk_capabilities fuel g d 0x100 caps = Some (Inr caps)" for caps
    using assms(4,5) by (simp add: n find_capability_eq ext_id_def ext_type_def cap_field_bytes is_ext_def Let_def)
  then show ?thesis
    using assms by (simp add: init_capabilities_def header_cp walk_chain)
qed

lemma init_capabilities_loses_after_virtual_channel_witness:
  "init_capabilities 9 (\<lambda>_ x. if x = 0x100 then 2 else if x = 0x103 then 0x20
     else if x = 0x200 then 1 else 0) () = Some (Inr [])"
  using init_capabilities_loses_after_virtual_channel [of "\<lambda>_ x. if x = 0x100 then 2 else
      if x = 0x103 then 0x20 else if x = 0x200 then 1 else 0" "()" "[]" 9]
  by (simp add: ext_ids_ok_def known_caps_def)

section \<open>Offsets inside a capability\<close>

text \<open>
  Every offset that \<open>set_offsets\<close> hands to a register of a capability is the address at which ctypes places
  that register in the capability, so both kinds of access agree.
\<close>

theorem set_offsets_correct:
  "map (\<lambda>(n, off). Some off) (set_offsets ct base) =
   map (\<lambda>(n, off). map_option ((+) base) (offset_of (rc_layout (cap_class ct)) [Fld n])) (set_offsets ct base)"
  by (cases ct) (simp_all add: PCIe_defs offset_of_def field_pos_def last_match_def struct_places_def)

end
