(* ===== verification/Structures.thy ===== *)
theory Structures
  imports Ctypes
begin

text \<open>
  The queue entry structures (\<open>lone/nvme/spec/structures/__init__.py\<close>): the common part
  of a submission queue entry, the generic 64-byte command and the 16-byte completion queue entry,
  each as a ctypes layout, with the positions of the fields the queues and the device read and
  write, proved against the layouts.
\<close>

section \<open>Layouts\<close>

definition DptrPrp :: cty where
  "DptrPrp = Struct [(''PRP1'', UInt 8, None), (''PRP2'', UInt 8, None)]"

definition DptrSgl :: cty where
  "DptrSgl = Struct [(''SGL1'', Arr (UInt 8) 2, None)]"

definition Dptr :: cty where
  "Dptr = Union [(''PRP'', DptrPrp), (''SGL'', DptrSgl)]"

definition SQECommon_fields :: "(string \<times> cty \<times> nat option) list" where
  "SQECommon_fields = [
    (''OPC'', UInt 4, Some 8),
    (''FUSE'', UInt 4, Some 2),
    (''RSVD_0'', UInt 4, Some 4),
    (''PSDT'', UInt 4, Some 2),
    (''CID'', UInt 4, Some 16),
    (''NSID'', UInt 4, None),
    (''DW2'', UInt 4, None),
    (''DW3'', UInt 4, None),
    (''MPTR'', UInt 8, None),
    (''DPTR'', Dptr, None)]"

text \<open>A subclass of \<open>SQECommon\<close> appends its own fields.\<close>

definition SQE :: "(string \<times> cty \<times> nat option) list \<Rightarrow> cty" where
  "SQE fs = Struct (SQECommon_fields @ fs)"

definition Generic :: cty where
  "Generic = SQE [
    (''DW10'', UInt 4, None),
    (''DW11'', UInt 4, None),
    (''DW12'', UInt 4, None),
    (''DW13'', UInt 4, None),
    (''DW14'', UInt 4, None),
    (''DW15'', UInt 4, None)]"

definition CQE_Sf :: cty where
  "CQE_Sf = Struct [
    (''P'', UInt 2, Some 1),
    (''SC'', UInt 2, Some 8),
    (''SCT'', UInt 2, Some 3),
    (''CRD'', UInt 2, Some 2),
    (''M'', UInt 2, Some 1),
    (''DNR'', UInt 2, Some 1)]"

definition CQE :: cty where
  "CQE = Struct [
    (''CMD_SPEC'', UInt 4, None),
    (''RSVD_0'', UInt 4, None),
    (''SQHD'', UInt 4, Some 16),
    (''SQID'', UInt 4, Some 16),
    (''CID'', UInt 2, None),
    (''SF'', CQE_Sf, None)]"

section \<open>Sizes and positions\<close>

lemma sizes [layout_simps]:
  "csize Dptr = 16" "csize CQE_Sf = 2" "csize CQE = 16" "csize Generic = 64"
  by (simp_all add: Dptr_def DptrPrp_def DptrSgl_def CQE_Sf_def CQE_def Generic_def SQE_def
      SQECommon_fields_def)

definition CQE_CMD_SPEC :: "nat \<times> nat" where "CQE_CMD_SPEC = (0, 32)"
definition CQE_SQHD :: "nat \<times> nat" where "CQE_SQHD = (64, 16)"
definition CQE_SQID :: "nat \<times> nat" where "CQE_SQID = (80, 16)"
definition CQE_CID :: "nat \<times> nat" where "CQE_CID = (96, 16)"
definition CQE_P :: "nat \<times> nat" where "CQE_P = (112, 1)"
definition CQE_SC :: "nat \<times> nat" where "CQE_SC = (113, 8)"
definition CQE_SCT :: "nat \<times> nat" where "CQE_SCT = (121, 3)"

definition SQE_OPC :: "nat \<times> nat" where "SQE_OPC = (0, 8)"
definition SQE_CID :: "nat \<times> nat" where "SQE_CID = (16, 16)"
definition SQE_NSID :: "nat \<times> nat" where "SQE_NSID = (32, 32)"
definition SQE_PRP1 :: "nat \<times> nat" where "SQE_PRP1 = (192, 64)"
definition SQE_PRP2 :: "nat \<times> nat" where "SQE_PRP2 = (256, 64)"

lemmas CQE_pos_defs = CQE_CMD_SPEC_def CQE_SQHD_def CQE_SQID_def CQE_CID_def CQE_P_def CQE_SC_def CQE_SCT_def

lemmas SQE_pos_defs = SQE_OPC_def SQE_CID_def SQE_NSID_def SQE_PRP1_def SQE_PRP2_def

lemma CQE_positions:
  "field_pos CQE [Fld ''CMD_SPEC''] = Some CQE_CMD_SPEC"
  "field_pos CQE [Fld ''SQHD''] = Some CQE_SQHD"
  "field_pos CQE [Fld ''SQID''] = Some CQE_SQID"
  "field_pos CQE [Fld ''CID''] = Some CQE_CID"
  "field_pos CQE [Fld ''SF'', Fld ''P''] = Some CQE_P"
  "field_pos CQE [Fld ''SF'', Fld ''SC''] = Some CQE_SC"
  "field_pos CQE [Fld ''SF'', Fld ''SCT''] = Some CQE_SCT"
  by (simp_all add: CQE_pos_defs CQE_def CQE_Sf_def field_pos_def last_match_def struct_places_def)

lemma SQE_positions:
  "field_pos Generic [Fld ''OPC''] = Some SQE_OPC"
  "field_pos Generic [Fld ''CID''] = Some SQE_CID"
  "field_pos Generic [Fld ''NSID''] = Some SQE_NSID"
  "field_pos Generic [Fld ''DPTR'', Fld ''PRP'', Fld ''PRP1''] = Some SQE_PRP1"
  "field_pos Generic [Fld ''DPTR'', Fld ''PRP'', Fld ''PRP2''] = Some SQE_PRP2"
  by (simp_all add: SQE_pos_defs Generic_def SQE_def SQECommon_fields_def Dptr_def
      DptrPrp_def DptrSgl_def field_pos_def last_match_def struct_places_def)

lemma CQE_fits [simp]:
  assumes "length bs = 16"
  shows "fits CQE_CMD_SPEC bs" and "fits CQE_SQHD bs"
    and "fits CQE_SQID bs" and "fits CQE_CID bs" and "fits CQE_P bs" and "fits CQE_SC bs" and "fits CQE_SCT bs"
  using assms by (simp_all add: fits_def CQE_pos_defs)

lemma SQE_fits [simp]:
  assumes "length bs = 64"
  shows "fits SQE_OPC bs" and "fits SQE_CID bs" and "fits SQE_NSID bs" and "fits SQE_PRP1 bs" and "fits SQE_PRP2 bs"
  using assms by (simp_all add: fits_def SQE_pos_defs)

lemma CQE_widths [simp]:
  "snd CQE_CMD_SPEC = 32" "snd CQE_SQHD = 16" "snd CQE_SQID = 16" "snd CQE_CID = 16" "snd CQE_P = 1" "snd CQE_SC = 8" "snd CQE_SCT = 3"
  by (simp_all add: CQE_pos_defs)

lemma SQE_widths [simp]:
  "snd SQE_OPC = 8" "snd SQE_CID = 16" "snd SQE_NSID = 32" "snd SQE_PRP1 = 64" "snd SQE_PRP2 = 64"
  by (simp_all add: SQE_pos_defs)

lemma CQE_apart [simp]:
  "apart CQE_CMD_SPEC CQE_SQHD" "apart CQE_CMD_SPEC CQE_SQID" "apart CQE_CMD_SPEC CQE_CID"
  "apart CQE_CMD_SPEC CQE_P" "apart CQE_CMD_SPEC CQE_SC" "apart CQE_CMD_SPEC CQE_SCT"
  "apart CQE_SQHD CQE_CMD_SPEC" "apart CQE_SQHD CQE_SQID" "apart CQE_SQHD CQE_CID"
  "apart CQE_SQHD CQE_P" "apart CQE_SQHD CQE_SC" "apart CQE_SQHD CQE_SCT"
  "apart CQE_SQID CQE_CMD_SPEC" "apart CQE_SQID CQE_SQHD" "apart CQE_SQID CQE_CID"
  "apart CQE_SQID CQE_P" "apart CQE_SQID CQE_SC" "apart CQE_SQID CQE_SCT"
  "apart CQE_CID CQE_CMD_SPEC" "apart CQE_CID CQE_SQHD" "apart CQE_CID CQE_SQID"
  "apart CQE_CID CQE_P" "apart CQE_CID CQE_SC" "apart CQE_CID CQE_SCT"
  "apart CQE_P CQE_CMD_SPEC" "apart CQE_P CQE_SQHD" "apart CQE_P CQE_SQID"
  "apart CQE_P CQE_CID" "apart CQE_P CQE_SC" "apart CQE_P CQE_SCT"
  "apart CQE_SC CQE_CMD_SPEC" "apart CQE_SC CQE_SQHD" "apart CQE_SC CQE_SQID"
  "apart CQE_SC CQE_CID" "apart CQE_SC CQE_P" "apart CQE_SC CQE_SCT"
  "apart CQE_SCT CQE_CMD_SPEC" "apart CQE_SCT CQE_SQHD" "apart CQE_SCT CQE_SQID"
  "apart CQE_SCT CQE_CID" "apart CQE_SCT CQE_P" "apart CQE_SCT CQE_SC"
  by (simp_all add: apart_def CQE_pos_defs)

lemma SQE_apart [simp]:
  "apart SQE_OPC SQE_CID" "apart SQE_OPC SQE_NSID" "apart SQE_OPC SQE_PRP1"
  "apart SQE_OPC SQE_PRP2" "apart SQE_CID SQE_OPC" "apart SQE_CID SQE_NSID"
  "apart SQE_CID SQE_PRP1" "apart SQE_CID SQE_PRP2" "apart SQE_NSID SQE_OPC"
  "apart SQE_NSID SQE_CID" "apart SQE_NSID SQE_PRP1" "apart SQE_NSID SQE_PRP2"
  "apart SQE_PRP1 SQE_OPC" "apart SQE_PRP1 SQE_CID" "apart SQE_PRP1 SQE_NSID"
  "apart SQE_PRP1 SQE_PRP2" "apart SQE_PRP2 SQE_OPC" "apart SQE_PRP2 SQE_CID"
  "apart SQE_PRP2 SQE_NSID" "apart SQE_PRP2 SQE_PRP1"
  by (simp_all add: apart_def SQE_pos_defs)

end
