(* ===== verification/Ring_Buffer.thy ===== *)
theory Ring_Buffer
  imports Bytes
begin

text \<open>
  Ring arithmetic and the contract of a bounded queue. Indices run below the number of
  slots \<open>n\<close> and wrap to 0. The locale \<open>bounded_fifo\<close> states what a ring shared by a
  producer and a consumer promises, and its lemma \<open>fifo\<close> what every client of such a ring obtains.
\<close>

section \<open>Indices of a ring\<close>

definition ring_succ :: "nat \<Rightarrow> nat \<Rightarrow> nat" where
  "ring_succ n i = (if i + 1 = n then 0 else i + 1)"

text \<open>The number of slots from \<open>h\<close> up to \<open>t\<close>, and the slot \<open>d\<close> steps after \<open>h\<close>.\<close>

definition ring_dist :: "nat \<Rightarrow> nat \<Rightarrow> nat \<Rightarrow> nat" where
  "ring_dist n h t = (if h \<le> t then t - h else n - h + t)"

definition ring_nth :: "nat \<Rightarrow> nat \<Rightarrow> nat \<Rightarrow> nat" where
  "ring_nth n h d = (if h + d < n then h + d else h + d - n)"

lemma ring_succ_less [simp]: "i < n \<Longrightarrow> ring_succ n i < n"
  by (auto simp: ring_succ_def)

lemma ring_dist_less: "h < n \<Longrightarrow> t < n \<Longrightarrow> ring_dist n h t < n"
  by (auto simp: ring_dist_def)

lemma ring_dist_0_iff: "h < n \<Longrightarrow> t < n \<Longrightarrow> ring_dist n h t = 0 \<longleftrightarrow> h = t"
  by (auto simp: ring_dist_def)

lemma ring_nth_less [simp]: "h < n \<Longrightarrow> d < n \<Longrightarrow> ring_nth n h d < n"
  by (auto simp: ring_nth_def)

lemma ring_nth_0 [simp]: "h < n \<Longrightarrow> ring_nth n h 0 = h"
  by (auto simp: ring_nth_def)

lemma ring_nth_dist: "h < n \<Longrightarrow> t < n \<Longrightarrow> ring_nth n h (ring_dist n h t) = t"
  by (auto simp: ring_nth_def ring_dist_def)

lemma ring_dist_nth: "h < n \<Longrightarrow> d < n \<Longrightarrow> ring_dist n h (ring_nth n h d) = d"
  by (auto simp: ring_nth_def ring_dist_def)

lemma ring_nth_succ: "h < n \<Longrightarrow> Suc d < n \<Longrightarrow> ring_nth n (ring_succ n h) d = ring_nth n h (Suc d)"
  by (auto simp: ring_nth_def ring_succ_def)

lemma ring_succ_eq_iff:
  "h < n \<Longrightarrow> t < n \<Longrightarrow> ring_succ n t = h \<longleftrightarrow> ring_dist n h t = n - 1"
  by (auto simp: ring_succ_def ring_dist_def)

lemma ring_dist_succ_tail:
  "h < n \<Longrightarrow> t < n \<Longrightarrow> ring_succ n t \<noteq> h \<Longrightarrow> ring_dist n h (ring_succ n t) = Suc (ring_dist n h t)"
  by (auto simp: ring_succ_def ring_dist_def split: if_splits)

lemma ring_dist_succ_head:
  "h < n \<Longrightarrow> t < n \<Longrightarrow> h \<noteq> t \<Longrightarrow> ring_dist n h t = Suc (ring_dist n (ring_succ n h) t)"
  by (auto simp: ring_succ_def ring_dist_def split: if_splits)

text \<open>The slots from head to tail, in order.\<close>

definition ring_slots :: "nat \<Rightarrow> nat \<Rightarrow> nat \<Rightarrow> nat list" where
  "ring_slots n h t = map (ring_nth n h) [0..<ring_dist n h t]"

lemma length_ring_slots [simp]: "length (ring_slots n h t) = ring_dist n h t"
  by (simp add: ring_slots_def)

lemma ring_slots_same [simp]: "ring_slots n h h = []"
  by (simp add: ring_slots_def ring_dist_def)

lemma set_ring_slots_less: "h < n \<Longrightarrow> t < n \<Longrightarrow> i \<in> set (ring_slots n h t) \<Longrightarrow> i < n"
  by (auto simp: ring_slots_def intro!: ring_nth_less intro: less_trans [OF _ ring_dist_less])

lemma ring_slots_succ_tail:
  "h < n \<Longrightarrow> t < n \<Longrightarrow> ring_succ n t \<noteq> h \<Longrightarrow> ring_slots n h (ring_succ n t) = ring_slots n h t @ [t]"
  by (simp add: ring_slots_def ring_dist_succ_tail ring_nth_dist)

lemma ring_slots_succ_head:
  assumes "h < n" "t < n" "h \<noteq> t"
  shows "ring_slots n h t = h # ring_slots n (ring_succ n h) t"
proof -
  let ?d = "ring_dist n (ring_succ n h) t"
  have d: "ring_dist n h t = Suc ?d" using ring_dist_succ_head assms by blast
  have "Suc ?d < n" using ring_dist_less [of h n t] assms d by simp
  then have "map (ring_nth n h) [Suc 0..<Suc ?d] = map (ring_nth n (ring_succ n h)) [0..<?d]"
    by (auto simp: map_Suc_upt [symmetric] ring_nth_succ assms simp del: upt_Suc)
  then show ?thesis
    using assms by (simp add: ring_slots_def d upt_conv_Cons del: upt_Suc)
qed

lemma in_ring_slots_iff:
  assumes "h < n" "t < n" "i < n"
  shows "i \<in> set (ring_slots n h t) \<longleftrightarrow> ring_dist n h i < ring_dist n h t"
proof
  assume "i \<in> set (ring_slots n h t)"
  then obtain d where "d < ring_dist n h t" "i = ring_nth n h d" by (auto simp: ring_slots_def)
  with ring_dist_less [OF assms(1,2)] show "ring_dist n h i < ring_dist n h t"
    using assms by (simp add: ring_dist_nth)
next
  assume "ring_dist n h i < ring_dist n h t"
  with assms show "i \<in> set (ring_slots n h t)"
    by (auto simp: ring_slots_def image_iff ring_nth_dist intro!: bexI [of _ "ring_dist n h i"])
qed

lemma tail_notin_ring_slots: "h < n \<Longrightarrow> t < n \<Longrightarrow> t \<notin> set (ring_slots n h t)"
  by (simp add: in_ring_slots_iff)

section \<open>The contract of a bounded queue\<close>

text \<open>
  \<open>contents s\<close> are the entries that have been put and not yet taken, oldest first; \<open>room s\<close> is the
  producer's own test for a free slot, which may be conservative. Putting an entry stores it
  as \<open>stored e\<close> (a completion queue overwrites its phase tag).
\<close>

locale bounded_fifo =
  fixes inv :: "'s \<Rightarrow> bool"
    and contents :: "'s \<Rightarrow> 'e list"
    and room :: "'s \<Rightarrow> bool"
    and valid :: "'e \<Rightarrow> bool"
    and stored :: "'e \<Rightarrow> 'e"
    and put :: "'s \<Rightarrow> 'e \<Rightarrow> 's res"
    and take_entry :: "'s \<Rightarrow> ('e \<times> 's) option"
    and capacity :: "'s \<Rightarrow> nat"
  assumes put_room: "inv s \<Longrightarrow> room s \<Longrightarrow> valid e \<Longrightarrow>
      \<exists>s'. put s e = Inr s' \<and> inv s' \<and> contents s' = contents s @ [stored e]"
    and put_full: "inv s \<Longrightarrow> \<not> room s \<Longrightarrow> put s e = Inl AssertionError"
    and take_empty: "inv s \<Longrightarrow> contents s = [] \<Longrightarrow> take_entry s = None"
    and take_some: "inv s \<Longrightarrow> contents s = e # es \<Longrightarrow>
      \<exists>s'. take_entry s = Some (e, s') \<and> inv s' \<and> contents s' = es"
    and bounded: "inv s \<Longrightarrow> length (contents s) \<le> capacity s"
begin

lemma put_inv: "inv s \<Longrightarrow> valid e \<Longrightarrow> put s e = Inr s' \<Longrightarrow>
    inv s' \<and> contents s' = contents s @ [stored e]"
  using put_room [of s e] put_full [of s e] by (cases "room s") auto

lemma take_inv:
  assumes "inv s" "take_entry s = Some (e, s')"
  shows "inv s'" "contents s = e # contents s'"
proof -
  have "contents s \<noteq> []" using take_empty assms by fastforce
  then obtain x xs where "contents s = x # xs" by (cases "contents s") auto
  with take_some [OF assms(1)] assms(2) show "inv s'" "contents s = e # contents s'" by auto
qed

lemma take_None_iff: "inv s \<Longrightarrow> take_entry s = None \<longleftrightarrow> contents s = []"
  using take_empty take_some by (cases "contents s") fastforce+

end

text \<open>
  A run of a shared ring: the producer's puts and the consumer's takes in any interleaving. A
  take that finds nothing is a poll without a result; a put on a full ring stops the run.
\<close>

datatype 'e ring_op = Put 'e | Take

fun ring_run ::
  "('s \<Rightarrow> 'e \<Rightarrow> 's res) \<Rightarrow> ('s \<Rightarrow> ('e \<times> 's) option) \<Rightarrow> 's \<Rightarrow> 'e ring_op list \<Rightarrow> ('e list \<times> 's) res" where
  "ring_run put tk s [] = Inr ([], s)"
| "ring_run put tk s (Put e # ops) = bindR (put s e) (\<lambda>s'. ring_run put tk s' ops)"
| "ring_run put tk s (Take # ops) =
     (case tk s of
        None \<Rightarrow> ring_run put tk s ops
      | Some (e, s') \<Rightarrow> bindR (ring_run put tk s' ops) (\<lambda>(es, s''). Inr (e # es, s'')))"

fun puts_of :: "'e ring_op list \<Rightarrow> 'e list" where
  "puts_of [] = []"
| "puts_of (Put e # ops) = e # puts_of ops"
| "puts_of (Take # ops) = puts_of ops"

context bounded_fifo
begin

text \<open>
  In any interleaving, the entries taken followed by the entries left are the entries present at the start followed
  by the entries put: nothing is lost, duplicated or reordered.
\<close>

lemma fifo:
  assumes "inv s" "\<forall>e \<in> set (puts_of ops). valid e" "ring_run put take_entry s ops = Inr (taken, s')"
  shows "inv s' \<and> taken @ contents s' = contents s @ map stored (puts_of ops)"
  using assms
proof (induction ops arbitrary: s taken)
  case Nil
  then show ?case by simp
next
  case (Cons op ops)
  show ?case
  proof (cases op)
    case (Put e)
    with Cons.prems obtain s1 where s1: "put s e = Inr s1"
      and run: "ring_run put take_entry s1 ops = Inr (taken, s')"
      by (auto simp: res_iffs)
    have "inv s1 \<and> contents s1 = contents s @ [stored e]"
      using put_inv [of s e s1] Cons.prems(1,2) Put s1 by simp
    with Cons.IH [of s1 taken] Cons.prems(2) Put run show ?thesis by simp
  next
    case Take
    show ?thesis
    proof (cases "take_entry s")
      case None
      with Cons Take show ?thesis by auto
    next
      case (Some p)
      obtain e s1 where p: "p = (e, s1)" by fastforce
      note t = take_inv [OF Cons.prems(1) Some [unfolded p]]
      from Cons.prems(3) Take Some p obtain es where
        run: "ring_run put take_entry s1 ops = Inr (es, s')" and "taken = e # es"
        by (auto simp: res_iffs)
      with Cons.IH [OF t(1) _ run] Cons.prems(2) Take t(2) show ?thesis by simp
    qed
  qed
qed

text \<open>The only way a run stops early is a put on a ring without room.\<close>

lemma run_error:
  assumes "inv s" "\<forall>e \<in> set (puts_of ops). valid e" "ring_run put take_entry s ops = Inl err"
  shows "err = AssertionError"
  using assms
proof (induction ops arbitrary: s)
  case (Cons op ops)
  show ?case
  proof (cases op)
    case (Put e)
    show ?thesis
    proof (cases "put s e")
      case (Inl a)
      with Cons.prems Put show ?thesis using put_room [of s e] put_full [of s e] by (cases "room s") auto
    next
      case (Inr s1)
      with Cons.IH [of s1] Cons.prems Put put_inv [of s e s1] show ?thesis by simp
    qed
  next
    case Take
    with Cons take_inv [OF Cons.prems(1)] show ?thesis
      by (cases "take_entry s") (auto simp: res_iffs)
  qed
qed simp

lemma run_cases:
  assumes "inv s" "\<forall>e \<in> set (puts_of ops). valid e"
  shows "case ring_run put take_entry s ops of
      Inl err \<Rightarrow> err = AssertionError
    | Inr (taken, s') \<Rightarrow> inv s' \<and> taken @ contents s' = contents s @ map stored (puts_of ops)"
  using fifo [OF assms] run_error [OF assms] by (auto split: sum.splits)

lemma put_cases:
  assumes "inv s" "valid e"
  shows "case put s e of
      Inl err \<Rightarrow> err = AssertionError \<and> \<not> room s
    | Inr s' \<Rightarrow> room s \<and> inv s' \<and> contents s' = contents s @ [stored e]"
  using put_room [OF assms(1) _ assms(2)] put_full [OF assms(1)] by (cases "room s") auto

end

end
