(* ===== verification/Queues.thy ===== *)
theory Queues
  imports Structures Ring_Buffer
begin

text \<open>
  Submission and completion queues (\<open>lone/nvme/spec/queues.py\<close>). A queue lies in the
  memory that the host and the device share: its slots at \<open>base_address\<close>, its head
  and tail in 32-bit cells. One of the two cells is a doorbell register that both sides see, the other belongs to
  the Python object alone. Every operation takes the memory and returns the memory it leaves.
\<close>

section \<open>Head and tail cells: \<open>NVMeHeadTail\<close>\<close>

record head_tail =
  ht_entries :: nat
  ht_address :: nat

definition ht_value :: "memory \<Rightarrow> head_tail \<Rightarrow> nat" where
  "ht_value m h = read32 m (ht_address h)"

definition ht_set :: "memory \<Rightarrow> head_tail \<Rightarrow> nat \<Rightarrow> memory" where
  "ht_set m h value = write32 m (ht_address h) value"

definition ht_advance :: "memory \<Rightarrow> head_tail \<Rightarrow> memory" where
  "ht_advance m h =
     (let new_value = ht_value m h + 1;
          new_value = (if new_value = ht_entries h then 0 else new_value)
      in write32 m (ht_address h) new_value)"

definition ht_peek :: "memory \<Rightarrow> head_tail \<Rightarrow> nat" where
  "ht_peek m h =
     (let value = ht_value m h + 1 in if value = ht_entries h then 0 else value)"

section \<open>Queues: \<open>NVMeQueue\<close>\<close>

record nvme_queue =
  base_address :: nat
  entries :: nat
  entry_size :: nat
  qid :: nat
  head :: head_tail
  tail :: head_tail

definition is_full :: "memory \<Rightarrow> 'a nvme_queue_scheme \<Rightarrow> bool" where
  "is_full m q \<longleftrightarrow> ht_peek m (tail q) = ht_value m (head q)"

definition num_entries :: "memory \<Rightarrow> 'a nvme_queue_scheme \<Rightarrow> int" where
  "num_entries m q =
     (let t = ht_value m (tail q); h = ht_value m (head q) in
      if ht_peek m (tail q) = h then int (entries q) - 1
      else if t = h then 0
      else if t > h then int t - int h
      else (int (entries q) - int h) + int t)"

text \<open>The address of a slot, as the four accesses of the module compute it.\<close>

definition slot :: "'a nvme_queue_scheme \<Rightarrow> nat \<Rightarrow> nat" where
  "slot q i = base_address q + i * entry_size q"

section \<open>Submission queues: \<open>NVMeSubmissionQueue\<close>\<close>

text \<open>
  The constructor allocates a zeroed 32-bit object for the head; \<open>own\<close> is its address.
\<close>

definition new_submission_queue ::
  "memory \<Rightarrow> nat \<Rightarrow> nat \<Rightarrow> nat \<Rightarrow> nat \<Rightarrow> nat \<Rightarrow> nat \<Rightarrow> memory \<times> nvme_queue" where
  "new_submission_queue m own base n esize qid' dbt_addr =
     (write32 m own 0,
      \<lparr>base_address = base, entries = n, entry_size = esize, qid = qid',
       head = \<lparr>ht_entries = n, ht_address = own\<rparr>,
       tail = \<lparr>ht_entries = n, ht_address = dbt_addr\<rparr>\<rparr>)"

definition sq_post_command :: "memory \<Rightarrow> 'a nvme_queue_scheme \<Rightarrow> byte list \<Rightarrow> memory res" where
  "sq_post_command m q command =
     bindR (assertR (\<not> is_full m q)) (\<lambda>_.
       let next_slot_addr = slot q (ht_value m (tail q));
           m = write_bytes m next_slot_addr (take (entry_size q) command)
       in Inr (ht_advance m (tail q)))"

text \<open>
  \<open>get_command\<close> returns a command object that lies over the slot: its address.
\<close>

definition sq_get_command :: "memory \<Rightarrow> 'a nvme_queue_scheme \<Rightarrow> nat option \<times> memory" where
  "sq_get_command m q =
     (if num_entries m q = 0 then (None, m)
      else let next_slot_addr = slot q (ht_value m (head q))
           in (Some next_slot_addr, ht_advance m (head q)))"

section \<open>Completion queues: \<open>NVMeCompletionQueue\<close>\<close>

record completion_queue = nvme_queue +
  int_vector :: "nat option"
  phase :: nat

definition new_completion_queue ::
  "memory \<Rightarrow> nat \<Rightarrow> nat \<Rightarrow> nat \<Rightarrow> nat \<Rightarrow> nat \<Rightarrow> nat \<Rightarrow> nat option \<Rightarrow> memory \<times> completion_queue" where
  "new_completion_queue m own base n esize qid' dbh_addr iv =
     (write32 m own 0,
      \<lparr>base_address = base, entries = n, entry_size = esize, qid = qid',
       head = \<lparr>ht_entries = n, ht_address = dbh_addr\<rparr>,
       tail = \<lparr>ht_entries = n, ht_address = own\<rparr>,
       int_vector = iv, phase = 1\<rparr>)"

definition get_next_completion :: "memory \<Rightarrow> completion_queue \<Rightarrow> nat" where
  "get_next_completion m q = slot q (ht_value m (head q))"

definition consume_completion :: "memory \<Rightarrow> completion_queue \<Rightarrow> memory \<times> completion_queue" where
  "consume_completion m q =
     (let m = ht_advance m (head q)
      in (m, if ht_value m (head q) = 0
             then q\<lparr>phase := (if phase q = 1 then 0 else 1)\<rparr> else q))"

definition post_completion :: "memory \<Rightarrow> completion_queue \<Rightarrow> byte list \<Rightarrow> memory res" where
  "post_completion m q cqe =
     bindR (assertR (\<not> is_full m q)) (\<lambda>_.
       let next_slot_addr = slot q (ht_value m (tail q));
           phase_bit = getf CQE_P (read_bytes m next_slot_addr 16);
           cqe = setf CQE_P (if phase_bit = 1 then 0 else 1) cqe;
           m = write_bytes m next_slot_addr (take (entry_size q) cqe)
       in Inr (ht_advance m (tail q)))"

section \<open>Cells and slots\<close>

lemma ht_value_write_separate [mem_simps]:
  "separate a (length bs) (ht_address h) 4 \<Longrightarrow> ht_value (write_bytes m a bs) h = ht_value m h"
  by (simp add: ht_value_def read32_write_separate)

lemma ht_peek_eq: "ht_entries h = n \<Longrightarrow> ht_peek m h = ring_succ n (ht_value m h)"
  by (simp add: ht_peek_def ring_succ_def Let_def)

lemma ht_advance_eq: "ht_entries h = n \<Longrightarrow> ht_advance m h = write32 m (ht_address h) (ring_succ n (ht_value m h))"
  by (simp add: ht_advance_def ring_succ_def Let_def)

lemma ht_value_advance:
  assumes "ht_entries h = n" "ht_value m h < n" "n \<le> 2 ^ 32"
  shows "ht_value (ht_advance m h) h = ring_succ n (ht_value m h)"
proof -
  have "ring_succ n (ht_value m h) < 2 ^ 32"
    using ring_succ_less [OF assms(2)] assms(3) by simp
  then show ?thesis
    by (simp add: ht_advance_eq [OF assms(1)]) (simp add: ht_value_def)
qed

lemma ht_value_advance_separate [mem_simps]:
  "separate (ht_address h) 4 (ht_address h') 4 \<Longrightarrow> ht_value (ht_advance m h) h' = ht_value m h'"
  by (simp add: ht_value_def ht_advance_def Let_def read32_write32_separate)

lemma read_bytes_advance_separate [mem_simps]:
  "separate (ht_address h) 4 a k \<Longrightarrow> read_bytes (ht_advance m h) a k = read_bytes m a k"
  by (simp add: ht_advance_def Let_def read_write32_separate)

lemma ht_value_set [simp]: "ht_value (ht_set m h v) h = v mod 2 ^ 32"
  by (simp add: ht_value_def ht_set_def)

lemma ht_value_set_separate [mem_simps]:
  "separate (ht_address h) 4 (ht_address h') 4 \<Longrightarrow> ht_value (ht_set m h v) h' = ht_value m h'"
  by (simp add: ht_value_def ht_set_def read32_write32_separate)

text \<open>The slots of a queue as a region; a cell outside the region is apart from every slot.\<close>

definition outside :: "'a nvme_queue_scheme \<Rightarrow> head_tail \<Rightarrow> bool" where
  "outside q h \<longleftrightarrow> separate (base_address q) (entries q * entry_size q) (ht_address h) 4"

lemma slot_region: "i < n \<Longrightarrow> i * s + s \<le> n * (s::nat)"
  by (metis Suc_leI add.commute mult_Suc mult_le_mono1)

lemma slot_outside:
  assumes "outside q h" "i < entries q"
  shows "separate (slot q i) (entry_size q) (ht_address h) 4"
    and "separate (ht_address h) 4 (slot q i) (entry_size q)"
  using assms slot_region [OF assms(2), of "entry_size q"]
  by (auto simp: outside_def separate_def slot_def)

lemma slots_separate:
  assumes "i \<noteq> j"
  shows "separate (slot q i) (entry_size q) (slot q j) (entry_size q)"
proof -
  consider "i < j" | "j < i" using assms by linarith
  then show ?thesis
    using slot_region [of i j "entry_size q"] slot_region [of j i "entry_size q"]
    by cases (auto simp: separate_def slot_def)
qed

section \<open>Occupancy\<close>

definition queue_ok :: "memory \<Rightarrow> 'a nvme_queue_scheme \<Rightarrow> bool" where
  "queue_ok m q \<longleftrightarrow> ht_entries (head q) = entries q \<and> ht_entries (tail q) = entries q \<and>
     entries q \<le> 2 ^ 32 \<and> ht_value m (head q) < entries q \<and> ht_value m (tail q) < entries q"

lemma is_full_iff:
  "queue_ok m q \<Longrightarrow>
    is_full m q \<longleftrightarrow> ring_succ (entries q) (ht_value m (tail q)) = ht_value m (head q)"
  by (simp add: is_full_def queue_ok_def ht_peek_eq)

lemma num_entries_dist:
  assumes "queue_ok m q"
  shows "num_entries m q = int (ring_dist (entries q) (ht_value m (head q)) (ht_value m (tail q)))"
proof -
  have p: "ht_peek m (tail q) = ring_succ (entries q) (ht_value m (tail q))"
    using assms by (simp add: queue_ok_def ht_peek_eq)
  show ?thesis
    using assms unfolding num_entries_def p
    by (auto simp: queue_ok_def ring_succ_def ring_dist_def Let_def)
qed

text \<open>
  With head and tail below the number of entries, \<open>num_entries\<close> is the distance from head to tail around the
  ring, it lies between 0 and \<open>entries - 1\<close>, and \<open>is_full\<close> holds exactly when it is \<open>entries - 1\<close>.
\<close>

theorem num_entries_correct:
  assumes "queue_ok m q"
  shows "num_entries m q =
           (int (ht_value m (tail q)) - int (ht_value m (head q))) mod int (entries q) \<and>
         (is_full m q \<longleftrightarrow> num_entries m q = int (entries q) - 1)"
proof -
  let ?h = "ht_value m (head q)" and ?t = "ht_value m (tail q)" and ?n = "entries q"
  have lt: "?h < ?n" "?t < ?n" using assms by (auto simp: queue_ok_def)
  have "(int ?t - int ?h) mod int ?n = (if ?h \<le> ?t then int ?t - int ?h else int ?t - int ?h + int ?n)"
  proof (cases "?h \<le> ?t")
    case True
    with lt show ?thesis by (simp add: mod_pos_pos_trivial)
  next
    case False
    have "(int ?t - int ?h) mod int ?n = (int ?t - int ?h + int ?n) mod int ?n" by simp
    also have "\<dots> = int ?t - int ?h + int ?n"
      using False lt by (intro mod_pos_pos_trivial) auto
    finally show ?thesis using False by simp
  qed
  then have "num_entries m q = (int ?t - int ?h) mod int ?n"
    using lt by (auto simp: num_entries_dist [OF assms] ring_dist_def)
  moreover have "is_full m q \<longleftrightarrow> num_entries m q = int ?n - 1"
    using lt by (auto simp: num_entries_dist [OF assms] is_full_iff [OF assms] ring_succ_eq_iff)
  ultimately show ?thesis by blast
qed

lemma num_entries_correct_witness:
  "num_entries (write32 (\<lambda>_. 0) 4 3) \<lparr>base_address = 64, entries = 5, entry_size = 64, qid = 1,
     head = \<lparr>ht_entries = 5, ht_address = 4\<rparr>, tail = \<lparr>ht_entries = 5, ht_address = 16\<rparr>\<rparr> = 2"
proof -
  have "ht_value (write32 (\<lambda>_. 0) 4 3) \<lparr>ht_entries = 5, ht_address = 4\<rparr> = 3"
    "ht_value (write32 (\<lambda>_. 0) 4 3) \<lparr>ht_entries = 5, ht_address = 16\<rparr> = 0"
    by (simp_all add: ht_value_def read32_write32_separate separate_def read32_zero)
  then show ?thesis
    by (subst num_entries_correct [THEN conjunct1]) (simp_all add: queue_ok_def)
qed

end
