(* ===== verification/Queue_Contracts.thy ===== *)
theory Queue_Contracts
  imports Queues
begin

text \<open>
  Each queue as the two sides use it. A submission queue: the host posts through its own queue object
  and the device fetches through another object over the same slots and the
  same tail doorbell. A completion queue: the device posts, the host polls the phase tag of the slot at
  its head. Both satisfy the contract \<open>bounded_fifo\<close>; the phase-tag protocol is the
  invariant \<open>cq_inv\<close>.
\<close>

section \<open>Submission queues\<close>

type_synonym sq_link = "memory \<times> nvme_queue \<times> nvme_queue"

definition sq_linked :: "nvme_queue \<Rightarrow> nvme_queue \<Rightarrow> bool" where
  "sq_linked hq dq \<longleftrightarrow>
     base_address dq = base_address hq \<and> entries dq = entries hq \<and>
     entry_size hq = 64 \<and> entry_size dq = 64 \<and> tail dq = tail hq \<and>
     outside hq (tail hq) \<and> outside hq (head hq) \<and> outside hq (head dq) \<and>
     separate (ht_address (tail hq)) 4 (ht_address (head hq)) 4 \<and>
     separate (ht_address (tail hq)) 4 (ht_address (head dq)) 4 \<and>
     separate (ht_address (head hq)) 4 (ht_address (head dq)) 4"

text \<open>
  The host's view of the head lags behind the device's: everything the device has still to fetch, the
  host still counts as occupied.
\<close>

definition sq_inv :: "sq_link \<Rightarrow> bool" where
  "sq_inv = (\<lambda>(m, hq, dq). sq_linked hq dq \<and> queue_ok m hq \<and> queue_ok m dq \<and>
     ring_dist (entries hq) (ht_value m (head dq)) (ht_value m (tail hq))
       \<le> ring_dist (entries hq) (ht_value m (head hq)) (ht_value m (tail hq)))"

definition sq_contents :: "sq_link \<Rightarrow> byte list list" where
  "sq_contents = (\<lambda>(m, hq, dq). map (\<lambda>i. read_bytes m (slot hq i) 64)
     (ring_slots (entries hq) (ht_value m (head dq)) (ht_value m (tail dq))))"

definition sq_room :: "sq_link \<Rightarrow> bool" where
  "sq_room = (\<lambda>(m, hq, dq). \<not> is_full m hq)"

definition sq_put :: "sq_link \<Rightarrow> byte list \<Rightarrow> sq_link res" where
  "sq_put = (\<lambda>(m, hq, dq) e. bindR (sq_post_command m hq e) (\<lambda>m. Inr (m, hq, dq)))"

definition sq_take :: "sq_link \<Rightarrow> (byte list \<times> sq_link) option" where
  "sq_take = (\<lambda>(m, hq, dq).
     (case sq_get_command m dq of
        (None, m) \<Rightarrow> None
      | (Some a, m) \<Rightarrow> Some (read_bytes m a 64, (m, hq, dq))))"

lemma sq_post_command_eq:
  assumes "\<not> is_full m hq" "length e = 64" "entry_size hq = 64"
  shows "sq_post_command m hq e =
    Inr (ht_advance (write_bytes m (slot hq (ht_value m (tail hq))) e) (tail hq))"
  using assms by (simp add: sq_post_command_def Let_def)

lemma sq_post_room:
  assumes inv: "sq_inv (m, hq, dq)" and room: "\<not> is_full m hq" and e: "length e = 64"
  shows "\<exists>m'. sq_post_command m hq e = Inr m' \<and> sq_inv (m', hq, dq) \<and>
    sq_contents (m', hq, dq) = sq_contents (m, hq, dq) @ [e]"
proof -
  let ?n = "entries hq" and ?t = "ht_value m (tail hq)"
    and ?hh = "ht_value m (head hq)" and ?dh = "ht_value m (head dq)"
  let ?m1 = "write_bytes m (slot hq ?t) e" and ?m' = "ht_advance (write_bytes m (slot hq ?t) e) (tail hq)"
  from inv have link: "sq_linked hq dq" and ok: "queue_ok m hq" "queue_ok m dq"
    and lag: "ring_dist ?n ?dh ?t \<le> ring_dist ?n ?hh ?t" by (auto simp: sq_inv_def)
  from link have shared: "base_address dq = base_address hq" "entries dq = ?n" "tail dq = tail hq"
    "entry_size hq = 64" by (auto simp: sq_linked_def)
  have lt: "?t < ?n" "?hh < ?n" "?dh < ?n" and ents: "ht_entries (tail hq) = ?n" "?n \<le> 2 ^ 32"
    using ok shared by (auto simp: queue_ok_def)
  have nf: "ring_succ ?n ?t \<noteq> ?hh" using room is_full_iff [OF ok(1)] by simp
  then have nf': "ring_succ ?n ?t \<noteq> ?dh"
    using lag lt ring_dist_less [of ?hh ?n ?t] by (auto simp: ring_succ_eq_iff)
  have sep: "separate (slot hq ?t) 64 (ht_address h) 4" if "outside hq h" for h
    using slot_outside(1) [OF that lt(1)] shared(4) by simp
  have out: "outside hq (tail hq)" "outside hq (head hq)" "outside hq (head dq)"
    using link by (auto simp: sq_linked_def)
  have v1: "ht_value ?m1 h = ht_value m h" if "outside hq h" for h
    using sep [OF that] e by (simp add: ht_value_write_separate)
  have vt: "ht_value ?m' (tail hq) = ring_succ ?n ?t"
    using ht_value_advance [OF ents(1), of ?m1] v1 [OF out(1)] lt ents(2) by simp
  have vh: "ht_value ?m' (head hq) = ?hh" "ht_value ?m' (head dq) = ?dh"
    using link v1 out by (auto simp: sq_linked_def ht_value_advance_separate)
  have "sq_inv (?m', hq, dq)"
    using link ok vt vh shared lt lag nf nf'
    by (auto simp: sq_inv_def queue_ok_def ring_dist_succ_tail)
  moreover have "read_bytes ?m' (slot hq i) 64 = (if i = ?t then e else read_bytes m (slot hq i) 64)"
    if "i < ?n" for i
  proof -
    have "read_bytes ?m' (slot hq i) 64 = read_bytes ?m1 (slot hq i) 64"
      using slot_outside(2) [OF out(1) that] shared(4) by (simp add: read_bytes_advance_separate)
    then show ?thesis
      using slots_separate [of ?t i hq] e shared(4) by (auto simp: read_write_separate)
  qed
  then have "sq_contents (?m', hq, dq) = sq_contents (m, hq, dq) @ [e]"
    using vt vh shared lt nf' set_ring_slots_less [OF lt(3,1)] tail_notin_ring_slots [OF lt(3,1)]
    by (auto simp: sq_contents_def ring_slots_succ_tail)
  ultimately show ?thesis
    using sq_post_command_eq [OF room e shared(4)] by blast
qed

lemma sq_take_None:
  assumes "sq_inv (m, hq, dq)" "sq_contents (m, hq, dq) = []"
  shows "sq_take (m, hq, dq) = None"
proof -
  from assms have ok: "queue_ok m dq" and "entries dq = entries hq"
    by (auto simp: sq_inv_def sq_linked_def)
  with assms(2) have "num_entries m dq = 0"
    by (simp add: sq_contents_def num_entries_dist [OF ok] ring_slots_def)
  then show ?thesis by (simp add: sq_take_def sq_get_command_def)
qed

lemma sq_take_Some:
  assumes inv: "sq_inv (m, hq, dq)" and c: "sq_contents (m, hq, dq) = e # es"
  shows "\<exists>s'. sq_take (m, hq, dq) = Some (e, s') \<and> sq_inv s' \<and> sq_contents s' = es"
proof -
  let ?n = "entries hq" and ?t = "ht_value m (tail hq)"
    and ?hh = "ht_value m (head hq)" and ?dh = "ht_value m (head dq)"
  let ?m' = "ht_advance m (head dq)"
  from inv have link: "sq_linked hq dq" and ok: "queue_ok m hq" "queue_ok m dq"
    and lag: "ring_dist ?n ?dh ?t \<le> ring_dist ?n ?hh ?t" by (auto simp: sq_inv_def)
  from link have shared: "base_address dq = base_address hq" "entries dq = ?n" "tail dq = tail hq"
    "entry_size hq = 64" "entry_size dq = 64" by (auto simp: sq_linked_def)
  have lt: "?t < ?n" "?hh < ?n" "?dh < ?n" and ents: "ht_entries (head dq) = ?n" "?n \<le> 2 ^ 32"
    using ok shared by (auto simp: queue_ok_def)
  have ne: "?dh \<noteq> ?t" using c shared by (auto simp: sq_contents_def)
  have slots: "ring_slots ?n ?dh ?t = ?dh # ring_slots ?n (ring_succ ?n ?dh) ?t"
    using ring_slots_succ_head [OF lt(3,1) ne] .
  have e: "e = read_bytes m (slot hq ?dh) 64"
    and es: "es = map (\<lambda>i. read_bytes m (slot hq i) 64) (ring_slots ?n (ring_succ ?n ?dh) ?t)"
    using c shared slots by (auto simp: sq_contents_def)
  have "num_entries m dq \<noteq> 0"
    using ne lt shared by (simp add: num_entries_dist [OF ok(2)] ring_dist_0_iff)
  then have get: "sq_get_command m dq = (Some (slot hq ?dh), ?m')"
    using shared by (simp add: sq_get_command_def slot_def)
  have vd: "ht_value ?m' (head dq) = ring_succ ?n ?dh"
    using ht_value_advance [OF ents(1) lt(3) ents(2)] .
  have v: "ht_value ?m' (tail hq) = ?t" "ht_value ?m' (head hq) = ?hh"
    using link by (auto simp: sq_linked_def ht_value_advance_separate separate_sym)
  have r: "read_bytes ?m' (slot hq i) 64 = read_bytes m (slot hq i) 64" if "i < ?n" for i
    using slot_outside(2) [of hq "head dq" i] that link shared(4)
    by (auto simp: sq_linked_def read_bytes_advance_separate)
  have "sq_inv (?m', hq, dq)"
    using link ok vd v shared lt lag ring_dist_succ_head [OF lt(3,1) ne]
    by (auto simp: sq_inv_def queue_ok_def)
  moreover have "sq_contents (?m', hq, dq) = es"
    using vd v shared es r set_ring_slots_less [OF ring_succ_less [OF lt(3)] lt(1)]
    by (auto simp: sq_contents_def)
  ultimately show ?thesis using get r [OF lt(3)] e by (simp add: sq_take_def)
qed

interpretation sq: bounded_fifo sq_inv sq_contents sq_room "\<lambda>e. length e = 64" "\<lambda>e. e"
  sq_put sq_take "\<lambda>(m, hq, dq). entries hq - 1"
proof unfold_locales
  fix st :: sq_link and e :: "byte list"
  obtain m hq dq where st: "st = (m, hq, dq)" by (cases st) auto
  show "\<exists>s'. sq_put st e = Inr s' \<and> sq_inv s' \<and> sq_contents s' = sq_contents st @ [e]"
    if "sq_inv st" "sq_room st" "length e = 64"
    using sq_post_room [of m hq dq e] that by (auto simp: st sq_put_def sq_room_def)
  show "sq_put st e = Inl AssertionError" if "sq_inv st" "\<not> sq_room st"
    using that by (auto simp: st sq_put_def sq_room_def sq_post_command_def)
  show "sq_take st = None" if "sq_inv st" "sq_contents st = []"
    using sq_take_None that by (simp add: st)
  show "\<exists>s'. sq_take st = Some (e, s') \<and> sq_inv s' \<and> sq_contents s' = es"
    if "sq_inv st" "sq_contents st = e # es" for es
    using sq_take_Some that by (simp add: st)
  show "length (sq_contents st) \<le> (case st of (m, hq, dq) \<Rightarrow> entries hq - 1)" if "sq_inv st"
    using that ring_dist_less [of "ht_value m (head dq)" "entries hq" "ht_value m (tail hq)"]
    by (auto simp: st sq_contents_def sq_inv_def sq_linked_def queue_ok_def)
qed

text \<open>
  The host learns the device's head from a completion (\<open>command.sq.head.set(cqe.SQHD)\<close>). With the head that the device has
  just reported, the host's view becomes exact and the contents do not change.
\<close>

lemma sq_ack:
  assumes inv: "sq_inv (m, hq, dq)"
  defines "m' \<equiv> ht_set m (head hq) (ht_value m (head dq))"
  shows "sq_inv (m', hq, dq)" "sq_contents (m', hq, dq) = sq_contents (m, hq, dq)"
    "num_entries m' hq = int (length (sq_contents (m', hq, dq)))"
proof -
  let ?n = "entries hq"
  from inv have link: "sq_linked hq dq" and ok: "queue_ok m hq" "queue_ok m dq"
    by (auto simp: sq_inv_def)
  from link have shared: "entries dq = ?n" "tail dq = tail hq" "entry_size hq = 64"
    by (auto simp: sq_linked_def)
  have vh: "ht_value m' (head hq) = ht_value m (head dq)"
    using ok shared by (auto simp: m'_def queue_ok_def)
  have v: "ht_value m' (tail hq) = ht_value m (tail hq)" "ht_value m' (head dq) = ht_value m (head dq)"
    using link by (auto simp: m'_def sq_linked_def ht_value_set_separate separate_sym)
  have r: "read_bytes m' (slot hq i) 64 = read_bytes m (slot hq i) 64" if "i < ?n" for i
    using slot_outside(2) [of hq "head hq" i] that link shared
    by (auto simp: m'_def ht_set_def sq_linked_def read_write32_separate)
  show inv': "sq_inv (m', hq, dq)"
    using link ok shared vh v by (auto simp: sq_inv_def queue_ok_def)
  show "sq_contents (m', hq, dq) = sq_contents (m, hq, dq)"
    using ok shared v r set_ring_slots_less [of "ht_value m (head dq)" ?n "ht_value m (tail hq)"]
    by (auto simp: sq_contents_def queue_ok_def)
  show "num_entries m' hq = int (length (sq_contents (m', hq, dq)))"
    using inv' shared vh v by (auto simp: sq_inv_def sq_contents_def num_entries_dist)
qed

section \<open>Completion queues and the phase tag\<close>

type_synonym cq_link = "memory \<times> completion_queue \<times> completion_queue"

definition cq_linked :: "completion_queue \<Rightarrow> completion_queue \<Rightarrow> bool" where
  "cq_linked hc dc \<longleftrightarrow>
     base_address dc = base_address hc \<and> entries dc = entries hc \<and>
     entry_size hc = 16 \<and> entry_size dc = 16 \<and> head dc = head hc \<and>
     ht_entries (head hc) = entries hc \<and> ht_entries (tail dc) = entries hc \<and> entries hc \<le> 2 ^ 32 \<and>
     outside hc (head hc) \<and> outside hc (tail dc) \<and>
     separate (ht_address (head hc)) 4 (ht_address (tail dc)) 4"

text \<open>
  The tag that the host expects in a slot the next time it gets there: its current phase from the head
  to the end of the ring, the other one before the head. A slot carries the expected tag exactly when it
  holds a completion the host has not consumed.
\<close>

definition expected_phase :: "nat \<Rightarrow> nat \<Rightarrow> nat \<Rightarrow> nat" where
  "expected_phase ph h i = (if h \<le> i then ph else 1 - ph)"

definition slot_phase :: "memory \<Rightarrow> 'a nvme_queue_scheme \<Rightarrow> nat \<Rightarrow> nat" where
  "slot_phase m q i = getf CQE_P (read_bytes m (slot q i) 16)"

definition cq_inv :: "cq_link \<Rightarrow> bool" where
  "cq_inv = (\<lambda>(m, hc, dc). cq_linked hc dc \<and> phase hc \<le> 1 \<and>
     (let n = entries hc; h = ht_value m (head hc); t = ht_value m (tail dc) in
      h < n \<and> t < n \<and>
      (\<forall>i < n. slot_phase m hc i = expected_phase (phase hc) h i \<longleftrightarrow> i \<in> set (ring_slots n h t))))"

definition untagged :: "byte list \<Rightarrow> byte list" where
  "untagged cqe = setf CQE_P 0 cqe"

definition cq_contents :: "cq_link \<Rightarrow> byte list list" where
  "cq_contents = (\<lambda>(m, hc, dc). map (\<lambda>i. untagged (read_bytes m (slot hc i) 16))
     (ring_slots (entries hc) (ht_value m (head hc)) (ht_value m (tail dc))))"

definition cq_room :: "cq_link \<Rightarrow> bool" where
  "cq_room = (\<lambda>(m, hc, dc). \<not> is_full m dc)"

definition cq_put :: "cq_link \<Rightarrow> byte list \<Rightarrow> cq_link res" where
  "cq_put = (\<lambda>(m, hc, dc) e. bindR (post_completion m dc e) (\<lambda>m. Inr (m, hc, dc)))"

text \<open>
  The host's poll, as \<open>get_completion\<close> does it: the completion is there when its phase tag
  equals the phase of the queue; consuming it moves the head.
\<close>

definition cq_poll :: "memory \<Rightarrow> completion_queue \<Rightarrow> byte list option" where
  "cq_poll m hc =
     (let cqe = read_bytes m (get_next_completion m hc) 16
      in if getf CQE_P cqe = phase hc then Some cqe else None)"

definition cq_take :: "cq_link \<Rightarrow> (byte list \<times> cq_link) option" where
  "cq_take = (\<lambda>(m, hc, dc).
     (case cq_poll m hc of
        None \<Rightarrow> None
      | Some cqe \<Rightarrow> let (m, hc) = consume_completion m hc in Some (untagged cqe, (m, hc, dc))))"

lemma getf_P_le_1: "getf CQE_P bs \<le> 1"
  using getf_less [of CQE_P bs] by simp

lemma slot_phase_le_1: "slot_phase m q i \<le> 1"
  unfolding slot_phase_def by (rule getf_P_le_1)

lemma untagged_setf: "length cqe = 16 \<Longrightarrow> untagged (setf CQE_P v cqe) = untagged cqe"
  by (simp add: untagged_def)

lemma queue_ok_cq:
  "cq_inv (m, hc, dc) \<Longrightarrow> queue_ok m dc"
  by (auto simp: cq_inv_def cq_linked_def queue_ok_def Let_def)

lemma cq_post_room:
  assumes inv: "cq_inv (m, hc, dc)" and room: "\<not> is_full m dc" and e: "length e = 16"
  shows "\<exists>m'. post_completion m dc e = Inr m' \<and> cq_inv (m', hc, dc) \<and>
    cq_contents (m', hc, dc) = cq_contents (m, hc, dc) @ [untagged e]"
proof -
  let ?n = "entries hc" and ?t = "ht_value m (tail dc)" and ?h = "ht_value m (head hc)"
  let ?tag = "if slot_phase m hc ?t = 1 then 0 else 1 :: nat"
  let ?e = "setf CQE_P ?tag e"
  let ?m1 = "write_bytes m (slot hc ?t) ?e" and ?m' = "ht_advance (write_bytes m (slot hc ?t) ?e) (tail dc)"
  from inv have link: "cq_linked hc dc" and ph: "phase hc \<le> 1" and lt: "?h < ?n" "?t < ?n"
    and tags: "\<And>i. i < ?n \<Longrightarrow> slot_phase m hc i = expected_phase (phase hc) ?h i \<longleftrightarrow>
      i \<in> set (ring_slots ?n ?h ?t)"
    by (auto simp: cq_inv_def Let_def)
  from link have shared: "base_address dc = base_address hc" "entries dc = ?n" "head dc = head hc"
    "entry_size hc = 16" "entry_size dc = 16" and ents: "ht_entries (tail dc) = ?n" "?n \<le> 2 ^ 32"
    and out: "outside hc (head hc)" "outside hc (tail dc)"
    by (auto simp: cq_linked_def)
  have nf: "ring_succ ?n ?t \<noteq> ?h" using room is_full_iff [OF queue_ok_cq [OF inv]] shared by simp
  have post: "post_completion m dc e = Inr ?m'"
    using room e shared by (simp add: post_completion_def Let_def slot_def slot_phase_def)
  have v1: "ht_value ?m1 h = ht_value m h" if "outside hc h" for h
    using slot_outside(1) [OF that lt(2)] shared(4) e by (simp add: ht_value_write_separate)
  have vt: "ht_value ?m' (tail dc) = ring_succ ?n ?t"
    using ht_value_advance [OF ents(1), of ?m1] v1 [OF out(2)] lt ents(2) by simp
  have vh: "ht_value ?m' (head hc) = ?h"
    using link v1 out by (auto simp: cq_linked_def ht_value_advance_separate separate_sym)
  have r: "read_bytes ?m' (slot hc i) 16 = (if i = ?t then ?e else read_bytes m (slot hc i) 16)"
    if "i < ?n" for i
  proof -
    have "read_bytes ?m' (slot hc i) 16 = read_bytes ?m1 (slot hc i) 16"
      using slot_outside(2) [OF out(2) that] shared(4) by (simp add: read_bytes_advance_separate)
    then show ?thesis
      using slots_separate [of ?t i hc] e shared(4) by (auto simp: read_write_separate)
  qed
  have tag: "slot_phase ?m' hc i = (if i = ?t then ?tag else slot_phase m hc i)" if "i < ?n" for i
    using r [OF that] e by (simp add: slot_phase_def)
  have slots: "ring_slots ?n ?h (ring_succ ?n ?t) = ring_slots ?n ?h ?t @ [?t]"
    using ring_slots_succ_tail [OF lt nf] .
  have "slot_phase m hc ?t \<noteq> expected_phase (phase hc) ?h ?t"
    using tags [OF lt(2)] tail_notin_ring_slots [OF lt] by blast
  then have new: "?tag = expected_phase (phase hc) ?h ?t"
    using ph slot_phase_le_1 [of m hc ?t] by (auto simp: expected_phase_def split: if_splits)
  have "cq_inv (?m', hc, dc)"
    using link ph lt vt vh tag tags slots new by (auto simp: cq_inv_def Let_def)
  moreover have "cq_contents (?m', hc, dc) = cq_contents (m, hc, dc) @ [untagged e]"
    using vt vh slots r lt set_ring_slots_less [OF lt] tail_notin_ring_slots [OF lt] e
    by (auto simp: cq_contents_def untagged_setf)
  ultimately show ?thesis using post by blast
qed

lemma cq_poll_iff:
  assumes "cq_inv (m, hc, dc)"
  shows "cq_poll m hc = None \<longleftrightarrow> cq_contents (m, hc, dc) = []"
proof -
  let ?n = "entries hc" and ?t = "ht_value m (tail dc)" and ?h = "ht_value m (head hc)"
  from assms have lt: "?h < ?n" "?t < ?n" and
    "slot_phase m hc ?h = phase hc \<longleftrightarrow> ?h \<in> set (ring_slots ?n ?h ?t)"
    by (auto simp: cq_inv_def Let_def expected_phase_def)
  moreover have "?h \<in> set (ring_slots ?n ?h ?t) \<longleftrightarrow> ring_slots ?n ?h ?t \<noteq> []"
    using ring_slots_succ_head [OF lt] by (cases "?h = ?t") auto
  ultimately show ?thesis
    by (simp add: cq_poll_def get_next_completion_def slot_phase_def cq_contents_def Let_def)
qed

lemma consume_completion_eq:
  assumes "cq_linked hc dc" "ht_value m (head hc) < entries hc"
  defines "h' \<equiv> ring_succ (entries hc) (ht_value m (head hc))"
  shows "consume_completion m hc =
    (ht_advance m (head hc),
     hc\<lparr>phase := (if h' = 0 then (if phase hc = 1 then 0 else 1) else phase hc)\<rparr>)"
  using assms ht_value_advance [of "head hc" "entries hc" m]
  by (auto simp: consume_completion_def cq_linked_def Let_def)

lemma expected_phase_consume:
  assumes "ph \<le> 1" "h < n" "i < n" "i \<noteq> h"
  shows "expected_phase (if ring_succ n h = 0 then (if ph = 1 then 0 else 1) else ph) (ring_succ n h) i =
    expected_phase ph h i"
  using assms by (auto simp: expected_phase_def ring_succ_def)

lemma expected_phase_consumed:
  assumes "ph \<le> 1" "h < n"
  shows "expected_phase (if ring_succ n h = 0 then (if ph = 1 then 0 else 1) else ph) (ring_succ n h) h \<noteq> ph"
  using assms by (auto simp: expected_phase_def ring_succ_def)

lemma cq_take_Some:
  assumes inv: "cq_inv (m, hc, dc)" and c: "cq_contents (m, hc, dc) = e # es"
  shows "\<exists>s'. cq_take (m, hc, dc) = Some (e, s') \<and> cq_inv s' \<and> cq_contents s' = es"
proof -
  let ?n = "entries hc" and ?t = "ht_value m (tail dc)" and ?h = "ht_value m (head hc)"
  let ?h' = "ring_succ ?n ?h"
  let ?ph = "if ?h' = 0 then (if phase hc = 1 then 0 else 1) else phase hc"
  let ?m' = "ht_advance m (head hc)" and ?hc' = "hc\<lparr>phase := ?ph\<rparr>"
  from inv have link: "cq_linked hc dc" and ph: "phase hc \<le> 1" and lt: "?h < ?n" "?t < ?n"
    and tags: "\<And>i. i < ?n \<Longrightarrow> slot_phase m hc i = expected_phase (phase hc) ?h i \<longleftrightarrow>
      i \<in> set (ring_slots ?n ?h ?t)"
    by (auto simp: cq_inv_def Let_def)
  from link have shared: "entry_size hc = 16" "ht_entries (head hc) = ?n" "?n \<le> 2 ^ 32"
    and out: "outside hc (head hc)"
    by (auto simp: cq_linked_def)
  have ne: "?h \<noteq> ?t" using c by (auto simp: cq_contents_def)
  note slots = ring_slots_succ_head [OF lt ne]
  have e: "e = untagged (read_bytes m (slot hc ?h) 16)"
    and es: "es = map (\<lambda>i. untagged (read_bytes m (slot hc i) 16)) (ring_slots ?n ?h' ?t)"
    using c slots by (auto simp: cq_contents_def)
  have "slot_phase m hc ?h = phase hc"
    using tags [OF lt(1)] slots by (simp add: expected_phase_def)
  then have take: "cq_take (m, hc, dc) = Some (e, (?m', ?hc', dc))"
    using consume_completion_eq [OF link lt(1)] e
    by (simp add: cq_take_def cq_poll_def get_next_completion_def slot_phase_def Let_def)
  have vh: "ht_value ?m' (head hc) = ?h'"
    using ht_value_advance [OF shared(2) lt(1) shared(3)] .
  have vt: "ht_value ?m' (tail dc) = ?t"
    using link by (simp add: cq_linked_def ht_value_advance_separate)
  have r: "read_bytes ?m' (slot hc i) 16 = read_bytes m (slot hc i) 16" if "i < ?n" for i
    using slot_outside(2) [OF out that] shared by (simp add: read_bytes_advance_separate)
  have "slot_phase ?m' ?hc' i = expected_phase ?ph ?h' i \<longleftrightarrow> i \<in> set (ring_slots ?n ?h' ?t)"
    if i: "i < ?n" for i
  proof -
    have sp: "slot_phase ?m' ?hc' i = slot_phase m hc i"
      using r [OF i] by (simp add: slot_phase_def slot_def)
    have h: "?h \<notin> set (ring_slots ?n ?h' ?t)"
      using in_ring_slots_iff [OF ring_succ_less [OF lt(1)] lt(2) lt(1)]
        ring_dist_succ_head [OF lt ne] lt ring_dist_less [OF lt]
      by (auto simp: ring_dist_def ring_succ_def split: if_splits)
    show ?thesis
    proof (cases "i = ?h")
      case True
      with h sp tags [OF i] slots expected_phase_consumed [OF ph lt(1)] show ?thesis
        by (simp add: expected_phase_def)
    next
      case False
      with sp tags [OF i] slots expected_phase_consume [OF ph lt(1) i False] show ?thesis by simp
    qed
  qed
  then have "cq_inv (?m', ?hc', dc)"
    using link ph lt vh vt by (auto simp: cq_inv_def cq_linked_def outside_def Let_def)
  moreover have "cq_contents (?m', ?hc', dc) = es"
    using es vh vt r set_ring_slots_less [OF ring_succ_less [OF lt(1)] lt(2)]
    by (auto simp: cq_contents_def slot_def)
  ultimately show ?thesis using take by blast
qed

interpretation cq: bounded_fifo cq_inv cq_contents cq_room "\<lambda>e. length e = 16" untagged
  cq_put cq_take "\<lambda>(m, hc, dc). entries hc - 1"
proof unfold_locales
  fix st :: cq_link and e :: "byte list"
  obtain m hc dc where st: "st = (m, hc, dc)" by (cases st) auto
  show "\<exists>s'. cq_put st e = Inr s' \<and> cq_inv s' \<and> cq_contents s' = cq_contents st @ [untagged e]"
    if "cq_inv st" "cq_room st" "length e = 16"
    using cq_post_room [of m hc dc e] that by (auto simp: st cq_put_def cq_room_def)
  show "cq_put st e = Inl AssertionError" if "cq_inv st" "\<not> cq_room st"
    using that by (auto simp: st cq_put_def cq_room_def post_completion_def)
  show "cq_take st = None" if "cq_inv st" "cq_contents st = []"
    using cq_poll_iff [of m hc dc] that by (simp add: st cq_take_def)
  show "\<exists>s'. cq_take st = Some (e, s') \<and> cq_inv s' \<and> cq_contents s' = es"
    if "cq_inv st" "cq_contents st = e # es" for es
    using cq_take_Some that by (simp add: st)
  show "length (cq_contents st) \<le> (case st of (m, hc, dc) \<Rightarrow> entries hc - 1)" if "cq_inv st"
    using that ring_dist_less [of "ht_value m (head hc)" "entries hc" "ht_value m (tail dc)"]
    by (auto simp: st cq_contents_def cq_inv_def Let_def)
qed

section \<open>Fresh queues\<close>

text \<open>Cells of four bytes that lie apart from each other and from a region of memory.\<close>

definition cells_apart :: "nat \<Rightarrow> nat \<Rightarrow> nat list \<Rightarrow> bool" where
  "cells_apart base len cs \<longleftrightarrow>
     list_all (\<lambda>c. separate base len c 4) cs \<and> sorted_wrt (\<lambda>a b. separate a 4 b 4) cs"

text \<open>
  A submission queue that host and device have just created over the same memory and a cleared
  doorbell satisfies the contract and is empty.
\<close>

lemma sq_inv_new:
  assumes "new_submission_queue m hown base n 64 q dbt = (m1, hq)"
    and "new_submission_queue m1 down base n 64 q dbt = (m2, dq)"
    and "cells_apart base (n * 64) [dbt, hown, down]" "0 < n" "n \<le> 2 ^ 32" "read32 m dbt = 0"
  shows "sq_inv (m2, hq, dq) \<and> sq_contents (m2, hq, dq) = []"
proof -
  from assms(1,2) have m: "m1 = write32 m hown 0" "m2 = write32 m1 down 0"
    and q: "hq = \<lparr>base_address = base, entries = n, entry_size = 64, qid = q,
       head = \<lparr>ht_entries = n, ht_address = hown\<rparr>, tail = \<lparr>ht_entries = n, ht_address = dbt\<rparr>\<rparr>"
      "dq = hq\<lparr>head := \<lparr>ht_entries = n, ht_address = down\<rparr>\<rparr>"
    by (auto simp: new_submission_queue_def)
  from assms(3) have sep: "separate dbt 4 hown 4" "separate dbt 4 down 4" "separate hown 4 down 4"
    and out: "separate base (n * 64) dbt 4" "separate base (n * 64) hown 4" "separate base (n * 64) down 4"
    by (auto simp: cells_apart_def)
  have "read32 m2 dbt = 0" "read32 m2 hown = 0" "read32 m2 down = 0"
    using sep assms(6) by (auto simp: m read32_write32_separate separate_sym)
  then show ?thesis
    using sep out assms(4,5)
    by (simp add: sq_inv_def sq_linked_def queue_ok_def outside_def q ht_value_def ring_dist_def
        sq_contents_def)
qed

text \<open>
  A completion queue that host and device have just created over cleared slots and a cleared doorbell
  satisfies the phase-tag invariant and is empty: the host's first phase is 1 and no slot carries it.
\<close>

lemma cq_inv_new:
  assumes "new_completion_queue m hown base n 16 q dbh iv = (m1, hc)"
    and "new_completion_queue m1 down base n 16 q dbh iv' = (m2, dc)"
    and "cells_apart base (n * 16) [dbh, hown, down]" "0 < n" "n \<le> 2 ^ 32" "read32 m dbh = 0"
    and "read_bytes m base (n * 16) = zeros (n * 16)"
  shows "cq_inv (m2, hc, dc) \<and> cq_contents (m2, hc, dc) = []"
proof -
  from assms(1,2) have m: "m1 = write32 m hown 0" "m2 = write32 m1 down 0"
    and q: "base_address hc = base" "base_address dc = base" "entries hc = n" "entries dc = n"
      "entry_size hc = 16" "entry_size dc = 16" "head hc = \<lparr>ht_entries = n, ht_address = dbh\<rparr>"
      "head dc = head hc" "tail dc = \<lparr>ht_entries = n, ht_address = down\<rparr>" "phase hc = 1"
    by (auto simp: new_completion_queue_def)
  from assms(3) have sep: "separate dbh 4 hown 4" "separate dbh 4 down 4" "separate hown 4 down 4"
    and out: "separate base (n * 16) dbh 4" "separate base (n * 16) hown 4" "separate base (n * 16) down 4"
    by (auto simp: cells_apart_def)
  have cells: "read32 m2 dbh = 0" "read32 m2 down = 0"
    using sep assms(6) by (auto simp: m read32_write32_separate separate_sym)
  have link: "cq_linked hc dc"
    using sep out assms(4,5) by (simp add: cq_linked_def q outside_def)
  have "slot_phase m2 hc i = 0" if i: "i < n" for i
  proof -
    have r: "separate a 4 (slot hc i) 16" if "separate base (n * 16) a 4" for a
      using that slot_region [OF i, of 16] by (auto simp: slot_def q separate_def)
    have "read_bytes m2 (slot hc i) 16 = read_bytes m (slot hc i) 16"
      using r out by (simp add: m read_write32_separate)
    also have "\<dots> = take 16 (drop (i * 16) (read_bytes m base (n * 16)))"
      using slot_region [OF i, of 16]
      by (intro nth_equalityI) (auto simp: slot_def q add.assoc)
    also have "\<dots> = zeros 16"
      using slot_region [OF i, of 16] assms(7) by (simp add: zeros_def min_def)
    finally show ?thesis by (simp add: slot_phase_def)
  qed
  then show ?thesis
    using link cells assms(4) by (simp add: cq_inv_def q ht_value_def expected_phase_def cq_contents_def)
qed

text \<open>Four-entry queues over a zeroed memory, with the doorbell at 0 and the slots at 4096.\<close>

definition example_sq :: sq_link where
  "example_sq = (let (m, hq) = new_submission_queue (\<lambda>_. 0) 4 4096 4 64 1 0;
                     (m, dq) = new_submission_queue m 8 4096 4 64 1 0 in (m, hq, dq))"

definition example_cq :: cq_link where
  "example_cq = (let (m, hc) = new_completion_queue (\<lambda>_. 0) 4 4096 4 16 1 0 None;
                     (m, dc) = new_completion_queue m 8 4096 4 16 1 0 None in (m, hc, dc))"

lemma example_sq: "sq_inv example_sq \<and> sq_contents example_sq = []"
proof -
  obtain m1 hq where a: "new_submission_queue (\<lambda>_. 0) 4 4096 4 64 1 0 = (m1, hq)"
    by (metis prod.exhaust)
  obtain m2 dq where b: "new_submission_queue m1 8 4096 4 64 1 0 = (m2, dq)"
    by (metis prod.exhaust)
  have "cells_apart 4096 (4 * 64) [0, 4, 8]" by (simp add: cells_apart_def separate_def)
  then show ?thesis
    unfolding example_sq_def Let_def a b prod.case using sq_inv_new [OF a b] by simp
qed

lemma example_cq: "cq_inv example_cq \<and> cq_contents example_cq = []"
proof -
  obtain m1 hc where a: "new_completion_queue (\<lambda>_. 0) 4 4096 4 16 1 0 None = (m1, hc)"
    by (metis prod.exhaust)
  obtain m2 dc where b: "new_completion_queue m1 8 4096 4 16 1 0 None = (m2, dc)"
    by (metis prod.exhaust)
  have "cells_apart 4096 (4 * 16) [0, 4, 8]" by (simp add: cells_apart_def separate_def)
  moreover have "read_bytes (\<lambda>_. 0) 4096 (4 * 16) = zeros (4 * 16)"
    by (rule nth_equalityI) (auto simp: zeros_def)
  ultimately show ?thesis
    unfolding example_cq_def Let_def a b prod.case using cq_inv_new [OF a b] by simp
qed

lemma example_sq_room: "sq_room example_sq"
  by (simp add: example_sq_def new_submission_queue_def sq_room_def is_full_def ht_peek_def
      ht_value_def read32_write32_separate separate_def)

lemma example_cq_room: "cq_room example_cq"
  by (simp add: example_cq_def new_completion_queue_def cq_room_def is_full_def ht_peek_def
      ht_value_def read32_write32_separate separate_def)

lemma example_sq_post:
  assumes "length e = 64"
  shows "\<exists>s. sq_put example_sq e = Inr s \<and> sq_inv s \<and> sq_contents s = [e]"
  using sq.put_room [of example_sq e] example_sq example_sq_room assms by auto

lemma example_cq_post:
  assumes "length e = 16"
  shows "\<exists>s. cq_put example_cq e = Inr s \<and> cq_inv s \<and> cq_contents s = [untagged e]"
  using cq.put_room [of example_cq e] example_cq example_cq_room assms by auto

section \<open>What the two sides obtain\<close>

text \<open>
  Property C1. However the host's posts and the device's fetches interleave, the commands the device fetches followed by
  those still in the ring are the commands the host posted, whole and in order; the only error is the
  assertion of a post that finds the ring full.
\<close>

theorem sq_fifo:
  assumes "sq_inv s" "\<forall>e \<in> set (puts_of ops). length e = 64"
  shows "case ring_run sq_put sq_take s ops of
      Inl err \<Rightarrow> err = AssertionError
    | Inr (fetched, s') \<Rightarrow> sq_inv s' \<and> fetched @ sq_contents s' = sq_contents s @ puts_of ops"
  using sq.run_cases [OF assms] unfolding map_ident .

lemma sq_fifo_witness:
  "\<exists>s'. ring_run sq_put sq_take example_sq [Put (replicate 64 1), Take] = Inr ([replicate 64 1], s') \<and>
     sq_inv s' \<and> [replicate 64 1] @ sq_contents s' = sq_contents example_sq @ [replicate 64 1]"
proof -
  let ?e = "replicate 64 1 :: byte list"
  obtain s1 where s1: "sq_put example_sq ?e = Inr s1" "sq_inv s1" "sq_contents s1 = [?e]"
    using example_sq_post [of ?e] by auto
  obtain s2 where s2: "sq_take s1 = Some (?e, s2)"
    using sq.take_some [OF s1(2,3)] by auto
  have run: "ring_run sq_put sq_take example_sq [Put ?e, Take] = Inr ([?e], s2)"
    using s1 s2 by simp
  show ?thesis
    using sq_fifo [of example_sq "[Put ?e, Take]"] example_sq run by auto
qed

text \<open>
  Property C2. However the device's completions and the host's polls interleave, the host consumes exactly the completions
  posted, in order, each once: the phase tag never makes it read a stale slot or miss a fresh one.
\<close>

theorem cq_fifo:
  assumes "cq_inv s" "\<forall>e \<in> set (puts_of ops). length e = 16"
  shows "case ring_run cq_put cq_take s ops of
      Inl err \<Rightarrow> err = AssertionError
    | Inr (consumed, s') \<Rightarrow>
        cq_inv s' \<and> consumed @ cq_contents s' = cq_contents s @ map untagged (puts_of ops)"
  using cq.run_cases [OF assms] .

lemma cq_fifo_witness:
  "\<exists>s'. ring_run cq_put cq_take example_cq [Take, Put (replicate 16 1), Take, Take] =
       Inr ([untagged (replicate 16 1)], s') \<and>
     cq_inv s' \<and> [untagged (replicate 16 1)] @ cq_contents s' =
       cq_contents example_cq @ [untagged (replicate 16 1)]"
proof -
  let ?e = "replicate 16 1 :: byte list"
  obtain s1 where s1: "cq_put example_cq ?e = Inr s1" "cq_inv s1" "cq_contents s1 = [untagged ?e]"
    using example_cq_post [of ?e] by auto
  obtain s2 where s2: "cq_take s1 = Some (untagged ?e, s2)" "cq_inv s2" "cq_contents s2 = []"
    using cq.take_some [OF s1(2,3)] by auto
  have run: "ring_run cq_put cq_take example_cq [Take, Put ?e, Take, Take] = Inr ([untagged ?e], s2)"
    using s1 s2 example_cq cq.take_empty [of example_cq] cq.take_empty [of s2] by simp
  show ?thesis
    using cq_fifo [of example_cq "[Take, Put ?e, Take, Take]"] example_cq run by auto
qed

text \<open>
  Posting a completion succeeds exactly while fewer than \<open>entries - 1\<close> completions wait for the host; it then
  appends the entry, with the phase tag the host waits for, and otherwise it raises and changes nothing.
\<close>

theorem cq_post_exact:
  assumes "cq_inv (m, hc, dc)" "length e = 16"
  shows "case cq_put (m, hc, dc) e of
      Inl err \<Rightarrow> err = AssertionError \<and> length (cq_contents (m, hc, dc)) = entries hc - 1
    | Inr s' \<Rightarrow> length (cq_contents (m, hc, dc)) < entries hc - 1 \<and> cq_inv s' \<and>
        cq_contents s' = cq_contents (m, hc, dc) @ [untagged e]"
proof -
  have "cq_room (m, hc, dc) \<longleftrightarrow> length (cq_contents (m, hc, dc)) \<noteq> entries hc - 1"
    using assms(1) is_full_iff [of m dc]
      ring_succ_eq_iff [of "ht_value m (head hc)" "entries hc" "ht_value m (tail dc)"]
    by (auto simp: cq_room_def cq_inv_def cq_linked_def cq_contents_def queue_ok_def Let_def)
  with cq.put_cases [OF assms] cq.bounded [OF assms(1)] show ?thesis
    by (auto split: sum.splits)
qed

lemma cq_post_exact_witness:
  "\<exists>s'. cq_put example_cq (replicate 16 1) = Inr s' \<and> cq_contents s' = [untagged (replicate 16 1)]"
proof -
  obtain m hc dc where eq: "example_cq = (m, hc, dc)" by (cases example_cq) auto
  obtain s1 where s1: "cq_put example_cq (replicate 16 1) = Inr s1"
    using example_cq_post [of "replicate 16 1"] by auto
  with cq_post_exact [of m hc dc "replicate 16 1"] example_cq show ?thesis by (auto simp: eq)
qed

text \<open>
  When the host stores the head that the device reports in a completion, its own count of occupied
  submission slots becomes exactly the number of commands the device has still to fetch, and no command is lost.
\<close>

theorem sq_head_report:
  assumes "sq_inv (m, hq, dq)"
  shows "let m' = ht_set m (head hq) (ht_value m (head dq)) in
    sq_inv (m', hq, dq) \<and> sq_contents (m', hq, dq) = sq_contents (m, hq, dq) \<and>
    num_entries m' hq = int (length (sq_contents (m, hq, dq)))"
  using sq_ack [OF assms] by (simp add: Let_def)

lemma sq_head_report_witness:
  "\<exists>m hq dq. example_sq = (m, hq, dq) \<and>
    num_entries (ht_set m (head hq) (ht_value m (head dq))) hq = 0"
proof -
  obtain m hq dq where eq: "example_sq = (m, hq, dq)" by (cases example_sq) auto
  show ?thesis using sq_head_report [of m hq dq] example_sq by (simp add: eq Let_def)
qed

end
