(* ===== verification/Queue_Manager.thy ===== *)
theory Queue_Manager
  imports Queues "HOL-Library.AList"
begin

text \<open>
  The queue manager (\<open>QueueMgr\<close> in \<open>lone/nvme/spec/queues.py\<close>): the dictionary from
  pairs of identifiers to pairs of queue objects, in insertion order, the lists of I/O queue
  identifiers and the round-robin index. The queue objects are type parameters: the host and the simulator store
  references to different objects.
\<close>

type_synonym ('sq, 'cq) queue_dict = "((nat \<times> nat) \<times> ('sq option \<times> 'cq option)) list"

record ('sq, 'cq) queue_mgr =
  nvme_queues :: "('sq, 'cq) queue_dict"
  io_sqids :: "nat list"
  io_sqid_index :: nat
  io_cqids :: "nat list"

definition new_queue_mgr :: "('sq, 'cq) queue_mgr" where
  "new_queue_mgr = \<lparr>nvme_queues = [], io_sqids = [], io_sqid_index = 0, io_cqids = []\<rparr>"

section \<open>Operations\<close>

definition io_keys :: "('sq, 'cq) queue_dict \<Rightarrow> (nat \<times> nat) list" where
  "io_keys d = filter (\<lambda>(sqid, cqid). sqid \<noteq> 0 \<and> cqid \<noteq> 0) (map fst d)"

definition qm_add :: "nat \<Rightarrow> 'sq \<Rightarrow> nat \<Rightarrow> 'cq \<Rightarrow> ('sq, 'cq) queue_mgr \<Rightarrow> ('sq, 'cq) queue_mgr" where
  "qm_add sqid sq cqid cq qm =
     (let d = AList.update (sqid, cqid) (Some sq, Some cq) (nvme_queues qm)
      in qm\<lparr>nvme_queues := d, io_sqids := map fst (io_keys d), io_cqids := map snd (io_keys d)\<rparr>)"

fun remove_cq_loop ::
  "nat \<Rightarrow> ('sq, 'cq) queue_dict \<Rightarrow> nat list \<Rightarrow> (('sq, 'cq) queue_dict \<times> nat list) res" where
  "remove_cq_loop rem_cqid [] cqids = Inr ([], cqids)"
| "remove_cq_loop rem_cqid (((sqid, cqid), (sq, cq)) # rest) cqids =
     (if cqid = rem_cqid
      then bindR (assertR (sq = None)) (\<lambda>_.
           bindR (if cqid \<noteq> 0 then list_remove cqid cqids else Inr cqids) (\<lambda>cqids.
           bindR (remove_cq_loop rem_cqid rest cqids) (\<lambda>(d, cqids).
             Inr (((sqid, cqid), (sq, None)) # d, cqids))))
      else bindR (remove_cq_loop rem_cqid rest cqids) (\<lambda>(d, cqids).
             Inr (((sqid, cqid), (sq, cq)) # d, cqids)))"

definition qm_remove_cq :: "nat \<Rightarrow> ('sq, 'cq) queue_mgr \<Rightarrow> ('sq, 'cq) queue_mgr res" where
  "qm_remove_cq rem_cqid qm =
     bindR (remove_cq_loop rem_cqid (nvme_queues qm) (io_cqids qm)) (\<lambda>(d, cqids).
       Inr (qm\<lparr>nvme_queues := filter (\<lambda>(k, v). \<not> (fst v = None \<and> snd v = None)) d, io_cqids := cqids\<rparr>))"

fun remove_sq_loop ::
  "nat \<Rightarrow> ('sq, 'cq) queue_dict \<Rightarrow> nat list \<Rightarrow> (('sq, 'cq) queue_dict \<times> nat list) res" where
  "remove_sq_loop rem_sqid [] sqids = Inr ([], sqids)"
| "remove_sq_loop rem_sqid (((sqid, cqid), (sq, cq)) # rest) sqids =
     (if sqid = rem_sqid
      then bindR (if sqid \<noteq> 0 then list_remove sqid sqids else Inr sqids) (\<lambda>sqids.
           bindR (remove_sq_loop rem_sqid rest sqids) (\<lambda>(d, sqids).
             Inr (((sqid, cqid), (None, cq)) # d, sqids)))
      else bindR (remove_sq_loop rem_sqid rest sqids) (\<lambda>(d, sqids).
             Inr (((sqid, cqid), (sq, cq)) # d, sqids)))"

definition qm_remove_sq :: "nat \<Rightarrow> ('sq, 'cq) queue_mgr \<Rightarrow> ('sq, 'cq) queue_mgr res" where
  "qm_remove_sq rem_sqid qm =
     bindR (remove_sq_loop rem_sqid (nvme_queues qm) (io_sqids qm)) (\<lambda>(d, sqids).
       Inr (qm\<lparr>nvme_queues := d, io_sqids := sqids\<rparr>))"

definition qm_get_cqs :: "('sq, 'cq) queue_mgr \<Rightarrow> 'cq option list" where
  "qm_get_cqs qm = map (\<lambda>(k, v). snd v) (nvme_queues qm)"

definition qm_all_cqids :: "('sq, 'cq) queue_mgr \<Rightarrow> nat list" where
  "qm_all_cqids qm = [0] @ io_cqids qm"

text \<open>Reading an attribute of a completion queue that has been removed raises.\<close>

fun collect_vectors :: "('cq \<Rightarrow> 'v) \<Rightarrow> 'cq option list \<Rightarrow> 'v list res" where
  "collect_vectors int_vec [] = Inr []"
| "collect_vectors int_vec (None # cqs) = Inl AttributeError"
| "collect_vectors int_vec (Some cq # cqs) =
     bindR (collect_vectors int_vec cqs) (\<lambda>vs. Inr (int_vec cq # vs))"

definition qm_all_cq_vectors :: "('cq \<Rightarrow> 'v) \<Rightarrow> ('sq, 'cq) queue_mgr \<Rightarrow> 'v list res" where
  "qm_all_cq_vectors int_vec qm = collect_vectors int_vec (qm_get_cqs qm)"

text \<open>
  \<open>get\<close> returns a pair of queue objects; with no argument it returns the pair of
  identifiers of the first entry instead.
\<close>

datatype ('sq, 'cq) got = Queues "'sq option" "'cq option" | Ids nat nat

fun qm_get :: "nat option \<Rightarrow> nat option \<Rightarrow> ('sq, 'cq) queue_mgr \<Rightarrow> ('sq, 'cq) got res" where
  "qm_get (Some sqid) (Some cqid) qm =
     (case map_of (nvme_queues qm) (sqid, cqid) of
        None \<Rightarrow> Inl KeyError
      | Some (sq, cq) \<Rightarrow> Inr (Queues sq cq))"
| "qm_get (Some sqid) None qm =
     (case find (\<lambda>((curr_sqid, curr_cqid), v). sqid = curr_sqid) (nvme_queues qm) of
        None \<Rightarrow> Inr (Queues None None)
      | Some (k, (sq, cq)) \<Rightarrow> Inr (Queues sq cq))"
| "qm_get None (Some cqid) qm =
     (case find (\<lambda>((curr_sqid, curr_cqid), v). cqid = curr_cqid) (nvme_queues qm) of
        None \<Rightarrow> Inr (Queues None None)
      | Some (k, (sq, cq)) \<Rightarrow> Inr (Queues sq cq))"
| "qm_get None None qm =
     (case nvme_queues qm of
        [] \<Rightarrow> Inr (Queues None None)
      | ((sqid, cqid), v) # rest \<Rightarrow> Inr (Ids sqid cqid))"

definition qm_next_iosq_id :: "('sq, 'cq) queue_mgr \<Rightarrow> (nat option \<times> ('sq, 'cq) queue_mgr) res" where
  "qm_next_iosq_id qm =
     (if length (io_sqids qm) \<noteq> 0
      then bindR (list_get (io_sqids qm) (io_sqid_index qm)) (\<lambda>ret.
             let i = io_sqid_index qm + 1;
                 i = (if i + 1 > length (io_sqids qm) then 0 else i)
             in Inr (Some ret, qm\<lparr>io_sqid_index := i\<rparr>))
      else Inr (None, qm))"

section \<open>Well-formed managers\<close>

text \<open>
  The identifier lists name the I/O pairs that still hold a queue, in dictionary order.
\<close>

definition live_sq_keys :: "('sq, 'cq) queue_dict \<Rightarrow> (nat \<times> nat) list" where
  "live_sq_keys d = io_keys (filter (\<lambda>(k, v). fst v \<noteq> None) d)"

definition live_cq_keys :: "('sq, 'cq) queue_dict \<Rightarrow> (nat \<times> nat) list" where
  "live_cq_keys d = io_keys (filter (\<lambda>(k, v). snd v \<noteq> None) d)"

definition qm_inv :: "('sq, 'cq) queue_mgr \<Rightarrow> bool" where
  "qm_inv qm \<longleftrightarrow> distinct (map fst (nvme_queues qm)) \<and>
     io_sqids qm = map fst (live_sq_keys (nvme_queues qm)) \<and>
     io_cqids qm = map snd (live_cq_keys (nvme_queues qm))"

definition all_live :: "('sq, 'cq) queue_mgr \<Rightarrow> bool" where
  "all_live qm \<longleftrightarrow> list_all (\<lambda>(k, v). fst v \<noteq> None \<and> snd v \<noteq> None) (nvme_queues qm)"

lemma live_keys_all_live:
  "list_all (\<lambda>(k, v). fst v \<noteq> None \<and> snd v \<noteq> None) d \<Longrightarrow>
    live_sq_keys d = io_keys d \<and> live_cq_keys d = io_keys d"
  unfolding live_sq_keys_def live_cq_keys_def
  by (induction d) (auto simp: io_keys_def)

lemma qm_inv_new: "qm_inv new_queue_mgr"
  by (simp add: qm_inv_def new_queue_mgr_def live_sq_keys_def live_cq_keys_def io_keys_def)

lemma all_live_update:
  "list_all (\<lambda>(k, v). fst v \<noteq> None \<and> snd v \<noteq> None) d \<Longrightarrow>
    list_all (\<lambda>(k, v). fst v \<noteq> None \<and> snd v \<noteq> None) (AList.update k (Some sq, Some cq) d)"
  by (induction d) auto

lemma qm_inv_add:
  assumes "qm_inv qm" "all_live qm"
  shows "qm_inv (qm_add sqid sq cqid cq qm)" "all_live (qm_add sqid sq cqid cq qm)"
  using assms live_keys_all_live [OF all_live_update [OF assms(2) [unfolded all_live_def],
      of "(sqid, cqid)" sq cq]] all_live_update [OF assms(2) [unfolded all_live_def]]
  by (auto simp: qm_inv_def qm_add_def all_live_def Let_def distinct_update)

text \<open>What the removal loop for submission queues leaves.\<close>

definition clear_sq :: "nat \<Rightarrow> ('sq, 'cq) queue_dict \<Rightarrow> ('sq, 'cq) queue_dict" where
  "clear_sq r d = map (\<lambda>(k, v). if fst k = r then (k, (None, snd v)) else (k, v)) d"

definition clear_cq :: "nat \<Rightarrow> ('sq, 'cq) queue_dict \<Rightarrow> ('sq, 'cq) queue_dict" where
  "clear_cq r d = map (\<lambda>(k, v). if snd k = r then (k, (fst v, None)) else (k, v)) d"

lemma filter_remove1_other: "filter (\<lambda>x. x \<noteq> r) (remove1 r xs) = filter (\<lambda>x. x \<noteq> r) xs"
  by (induction xs) auto

lemma count_list_remove1: "r \<in> set xs \<Longrightarrow> Suc (count_list (remove1 r xs) r) = count_list xs r"
  by (induction xs) auto

lemma filter_id_count: "count_list xs r = 0 \<Longrightarrow> filter (\<lambda>x. x \<noteq> r) xs = xs"
  by (induction xs) (auto split: if_splits)

lemma remove_sq_loop_result:
  assumes "remove_sq_loop r d sqids = Inr (d', out)"
  shows "d' = clear_sq r d \<and> filter (\<lambda>x. x \<noteq> r) out = filter (\<lambda>x. x \<noteq> r) sqids \<and>
    (if r = 0 then out = sqids
     else count_list out r + length (filter (\<lambda>(k, v). fst k = r) d) = count_list sqids r)"
  using assms
proof (induction r d sqids arbitrary: d' out rule: remove_sq_loop.induct)
  case (1 r sqids)
  then show ?case by (simp add: clear_sq_def)
next
  case (2 r s c sq cq rest sqids)
  show ?case
  proof (cases "s = r \<and> r \<noteq> 0")
    case True
    with 2 show ?thesis
      by (auto simp: res_iffs list_remove_Inr_iff clear_sq_def filter_remove1_other
          split: prod.splits) (use count_list_remove1 in fastforce)+
  next
    case False
    with 2 show ?thesis by (cases "s = r") (auto simp: res_iffs clear_sq_def split: prod.splits)
  qed
qed

lemma remove_cq_loop_result:
  assumes "remove_cq_loop r d cqids = Inr (d', out)"
  shows "d' = clear_cq r d \<and> filter (\<lambda>x. x \<noteq> r) out = filter (\<lambda>x. x \<noteq> r) cqids \<and>
    list_all (\<lambda>(k, v). snd k = r \<longrightarrow> fst v = None) d \<and>
    (if r = 0 then out = cqids
     else count_list out r + length (filter (\<lambda>(k, v). snd k = r) d) = count_list cqids r)"
  using assms
proof (induction r d cqids arbitrary: d' out rule: remove_cq_loop.induct)
  case (1 r cqids)
  then show ?case by (simp add: clear_cq_def)
next
  case (2 r s c sq cq rest cqids)
  show ?case
  proof (cases "c = r \<and> r \<noteq> 0")
    case True
    with 2 show ?thesis
      by (auto simp: res_iffs list_remove_Inr_iff clear_cq_def filter_remove1_other
          split: prod.splits) (use count_list_remove1 in fastforce)+
  next
    case False
    with 2 show ?thesis by (cases "c = r") (auto simp: res_iffs clear_cq_def split: prod.splits)
  qed
qed


lemma count_live_sq: "count_list (map fst (live_sq_keys d)) r \<le> length (filter (\<lambda>(k, v). fst k = r) d)"
  by (induction d) (auto simp: live_sq_keys_def io_keys_def)

lemma count_live_cq: "count_list (map snd (live_cq_keys d)) r \<le> length (filter (\<lambda>(k, v). snd k = r) d)"
  by (induction d) (auto simp: live_cq_keys_def io_keys_def)

lemma live_sq_keys_clear_sq: "live_sq_keys (clear_sq r d) = filter (\<lambda>k. fst k \<noteq> r) (live_sq_keys d)"
  by (induction d) (auto simp: live_sq_keys_def io_keys_def clear_sq_def split: if_splits)

lemma live_cq_keys_clear_sq: "live_cq_keys (clear_sq r d) = live_cq_keys d"
  by (induction d) (auto simp: live_cq_keys_def io_keys_def clear_sq_def split: if_splits)

lemma live_cq_keys_clear_cq: "live_cq_keys (clear_cq r d) = filter (\<lambda>k. snd k \<noteq> r) (live_cq_keys d)"
  by (induction d) (auto simp: live_cq_keys_def io_keys_def clear_cq_def split: if_splits)

lemma live_sq_keys_clear_cq: "live_sq_keys (clear_cq r d) = live_sq_keys d"
  by (induction d) (auto simp: live_sq_keys_def io_keys_def clear_cq_def split: if_splits)

definition drop_dead :: "('sq, 'cq) queue_dict \<Rightarrow> ('sq, 'cq) queue_dict" where
  "drop_dead d = filter (\<lambda>(k, v). \<not> (fst v = None \<and> snd v = None)) d"

lemma live_keys_drop_dead:
  "live_sq_keys (drop_dead d) = live_sq_keys d" "live_cq_keys (drop_dead d) = live_cq_keys d"
  by (induction d) (auto simp: live_sq_keys_def live_cq_keys_def io_keys_def drop_dead_def)

lemma keys_clear: "map fst (clear_sq r d) = map fst d" "map fst (clear_cq r d) = map fst d"
  by (auto simp: clear_sq_def clear_cq_def)

lemma distinct_drop_dead: "distinct (map fst d) \<Longrightarrow> distinct (map fst (drop_dead d))"
  unfolding drop_dead_def by (rule distinct_map_filter)

lemma filter_map_swap: "filter (\<lambda>x. x \<noteq> r) (map f xs) = map f (filter (\<lambda>k. f k \<noteq> r) xs)"
  by (induction xs) auto

lemma live_ids_nonzero:
  "0 \<notin> set (map fst (live_sq_keys d))" "0 \<notin> set (map snd (live_cq_keys d))"
  by (auto simp: live_sq_keys_def live_cq_keys_def io_keys_def)

lemma removed_ids:
  assumes "filter (\<lambda>x. x \<noteq> r) out = filter (\<lambda>x. x \<noteq> r) ids"
    and "if r = 0 then out = ids else count_list out r + n = count_list ids r"
    and "count_list ids r \<le> n" "0 \<notin> set ids"
  shows "out = filter (\<lambda>x. x \<noteq> r) ids"
proof (cases "r = 0")
  case True
  with assms(2,4) show ?thesis by (auto simp: filter_id_count count_list_0_iff)
next
  case False
  with assms(2,3) have "count_list out r = 0" by simp
  from filter_id_count [OF this] assms(1) show ?thesis by simp
qed

lemma qm_inv_remove_sq:
  assumes "qm_inv qm" "qm_remove_sq r qm = Inr qm'"
  shows "qm_inv qm'" "nvme_queues qm' = clear_sq r (nvme_queues qm)"
    "io_sqids qm' = filter (\<lambda>x. x \<noteq> r) (io_sqids qm)" "io_cqids qm' = io_cqids qm"
proof -
  obtain d out where loop: "remove_sq_loop r (nvme_queues qm) (io_sqids qm) = Inr (d, out)"
    and qm': "qm' = qm\<lparr>nvme_queues := d, io_sqids := out\<rparr>"
    using assms(2) by (auto simp: qm_remove_sq_def res_iffs)
  note res = remove_sq_loop_result [OF loop]
  have ids: "out = filter (\<lambda>x. x \<noteq> r) (io_sqids qm)"
    by (rule removed_ids [of _ _ _ "length (filter (\<lambda>(k, v). fst k = r) (nvme_queues qm))"])
      (use res assms(1) count_live_sq [of "nvme_queues qm" r] live_ids_nonzero [of "nvme_queues qm"]
        in \<open>simp_all add: qm_inv_def del: set_map\<close>)
  show "nvme_queues qm' = clear_sq r (nvme_queues qm)" "io_cqids qm' = io_cqids qm"
    "io_sqids qm' = filter (\<lambda>x. x \<noteq> r) (io_sqids qm)"
    using res qm' ids by simp_all
  then show "qm_inv qm'"
    using assms(1)
    by (simp add: qm_inv_def keys_clear live_sq_keys_clear_sq live_cq_keys_clear_sq filter_map_swap)
qed

lemma qm_inv_remove_cq:
  assumes "qm_inv qm" "qm_remove_cq r qm = Inr qm'"
  shows "qm_inv qm'" "nvme_queues qm' = drop_dead (clear_cq r (nvme_queues qm))"
    "io_cqids qm' = filter (\<lambda>x. x \<noteq> r) (io_cqids qm)" "io_sqids qm' = io_sqids qm"
    "list_all (\<lambda>(k, v). snd k = r \<longrightarrow> fst v = None) (nvme_queues qm)"
proof -
  obtain d out where loop: "remove_cq_loop r (nvme_queues qm) (io_cqids qm) = Inr (d, out)"
    and qm': "qm' = qm\<lparr>nvme_queues := drop_dead d, io_cqids := out\<rparr>"
    using assms(2) by (auto simp: qm_remove_cq_def res_iffs drop_dead_def)
  note res = remove_cq_loop_result [OF loop]
  have ids: "out = filter (\<lambda>x. x \<noteq> r) (io_cqids qm)"
    by (rule removed_ids [of _ _ _ "length (filter (\<lambda>(k, v). snd k = r) (nvme_queues qm))"])
      (use res assms(1) count_live_cq [of "nvme_queues qm" r] live_ids_nonzero [of "nvme_queues qm"]
        in \<open>simp_all add: qm_inv_def del: set_map\<close>)
  show "nvme_queues qm' = drop_dead (clear_cq r (nvme_queues qm))" "io_sqids qm' = io_sqids qm"
    "io_cqids qm' = filter (\<lambda>x. x \<noteq> r) (io_cqids qm)"
    "list_all (\<lambda>(k, v). snd k = r \<longrightarrow> fst v = None) (nvme_queues qm)"
    using res qm' ids by simp_all
  then show "qm_inv qm'"
    using assms(1)
    by (simp add: qm_inv_def keys_clear live_keys_drop_dead distinct_drop_dead
        live_sq_keys_clear_cq live_cq_keys_clear_cq filter_map_swap)
qed


section \<open>Histories of a manager\<close>

text \<open>
  The managers that arise when pairs are only added while no removal is half done, which
  is how \<open>create_io_queues\<close> and \<open>delete_io_queues\<close> use the class.
\<close>

inductive qm_reach :: "('sq, 'cq) queue_mgr \<Rightarrow> bool" where
  new: "qm_reach new_queue_mgr"
| add: "qm_reach qm \<Longrightarrow> all_live qm \<Longrightarrow> qm_reach (qm_add sqid sq cqid cq qm)"
| remove_sq: "qm_reach qm \<Longrightarrow> qm_remove_sq r qm = Inr qm' \<Longrightarrow> qm_reach qm'"
| remove_cq: "qm_reach qm \<Longrightarrow> qm_remove_cq r qm = Inr qm' \<Longrightarrow> qm_reach qm'"
| next_id: "qm_reach qm \<Longrightarrow> qm_next_iosq_id qm = Inr (i, qm') \<Longrightarrow> qm_reach qm'"

lemma next_iosq_id_frame:
  "qm_next_iosq_id qm = Inr (i, qm') \<Longrightarrow>
    nvme_queues qm' = nvme_queues qm \<and> io_sqids qm' = io_sqids qm \<and> io_cqids qm' = io_cqids qm"
  by (auto simp: qm_next_iosq_id_def res_iffs Let_def split: if_splits)

text \<open>
  Whatever the history, the dictionary has one entry per pair of identifiers,
  and the lists of I/O submission and completion queue identifiers are exactly the
  identifiers of the I/O pairs whose queue has not been removed, in insertion order.
\<close>

theorem queue_mgr_ids_live:
  assumes "qm_reach qm"
  shows "qm_inv qm"
  using assms
proof induction
  case (next_id qm i qm')
  then show ?case using next_iosq_id_frame [OF next_id(2)] by (simp add: qm_inv_def)
qed (auto intro: qm_inv_new qm_inv_add qm_inv_remove_sq(1) qm_inv_remove_cq(1))

definition two_pairs :: "(nat, nat) queue_mgr" where
  "two_pairs = qm_add 2 20 2 21 (qm_add 1 10 1 11 (qm_add 0 0 0 1 new_queue_mgr))"

lemmas queue_mgr_exec = qm_add_def new_queue_mgr_def io_keys_def Let_def qm_remove_sq_def
  qm_remove_cq_def qm_next_iosq_id_def list_remove_def list_get_def

lemma two_pairs_value:
  "two_pairs = \<lparr>nvme_queues = [((0, 0), (Some 0, Some 1)), ((1, 1), (Some 10, Some 11)),
      ((2, 2), (Some 20, Some 21))], io_sqids = [1, 2], io_sqid_index = 0, io_cqids = [1, 2]\<rparr>"
  by (simp add: two_pairs_def queue_mgr_exec)

lemma two_pairs_reach: "qm_reach two_pairs"
  unfolding two_pairs_def
  by (intro qm_reach.intros) (simp_all add: queue_mgr_exec all_live_def)

lemma two_pairs_removed:
  "qm_remove_sq 1 two_pairs = Inr \<lparr>nvme_queues = [((0, 0), (Some 0, Some 1)),
      ((1, 1), (None, Some 11)), ((2, 2), (Some 20, Some 21))], io_sqids = [2],
      io_sqid_index = 0, io_cqids = [1, 2]\<rparr>"
  by (simp add: two_pairs_value queue_mgr_exec)

lemma queue_mgr_ids_live_witness:
  "\<exists>qm. qm_remove_sq 1 two_pairs = Inr qm \<and> qm_inv qm \<and> io_sqids qm = [2] \<and> io_cqids qm = [1, 2]"
  using queue_mgr_ids_live [OF qm_reach.remove_sq [OF two_pairs_reach two_pairs_removed]]
  unfolding two_pairs_removed by simp

section \<open>Selecting a queue\<close>

fun next_ids :: "nat \<Rightarrow> ('sq, 'cq) queue_mgr \<Rightarrow> nat option list res" where
  "next_ids 0 qm = Inr []"
| "next_ids (Suc n) qm = bindR (qm_next_iosq_id qm) (\<lambda>(i, qm).
     bindR (next_ids n qm) (\<lambda>is. Inr (i # is)))"

lemma next_iosq_id_step:
  assumes "io_sqid_index qm < length (io_sqids qm)"
  shows "qm_next_iosq_id qm = Inr (Some (io_sqids qm ! io_sqid_index qm),
    qm\<lparr>io_sqid_index := (io_sqid_index qm + 1) mod length (io_sqids qm)\<rparr>)"
proof -
  have "(if io_sqid_index qm + 1 + 1 > length (io_sqids qm) then 0 else io_sqid_index qm + 1) =
      (io_sqid_index qm + 1) mod length (io_sqids qm)"
    using assms by (cases "io_sqid_index qm + 1 = length (io_sqids qm)") auto
  with assms show ?thesis
    by (cases "io_sqids qm") (auto simp: qm_next_iosq_id_def Let_def)
qed

text \<open>
  As long as the index is within the list, consecutive calls of
  \<open>next_iosq_id\<close> walk round the list of I/O submission queues: call \<open>k\<close> returns the
  entry \<open>k\<close> places further on, modulo the number of queues.
\<close>

theorem next_iosq_round_robin:
  assumes "io_sqid_index qm < length (io_sqids qm)"
  shows "next_ids n qm = Inr (map (\<lambda>k. Some (io_sqids qm !
    ((io_sqid_index qm + k) mod length (io_sqids qm)))) [0..<n])"
  using assms
proof (induction n arbitrary: qm)
  case (Suc n)
  define qm' where "qm' = qm\<lparr>io_sqid_index := (io_sqid_index qm + 1) mod length (io_sqids qm)\<rparr>"
  have "next_ids n qm' = Inr (map (\<lambda>k. Some (io_sqids qm !
      ((io_sqid_index qm + Suc k) mod length (io_sqids qm)))) [0..<n])"
  proof -
    have "(((io_sqid_index qm + 1) mod length (io_sqids qm)) + k) mod length (io_sqids qm) =
        (io_sqid_index qm + Suc k) mod length (io_sqids qm)" for k
      by (simp add: mod_add_left_eq)
    moreover have "(io_sqid_index qm + 1) mod length (io_sqids qm) < length (io_sqids qm)"
      using Suc.prems by (intro mod_less_divisor) auto
    ultimately show ?thesis using Suc.IH [of qm'] by (simp add: qm'_def)
  qed
  then show ?case
    using Suc.prems by (simp add: next_iosq_id_step qm'_def map_upt_Suc del: upt_Suc)
qed simp

lemma next_iosq_round_robin_witness:
  "next_ids 3 two_pairs = Inr [Some 1, Some 2, Some 1]"
  using next_iosq_round_robin [of two_pairs 3] by (simp add: two_pairs_value upt_rec)


section \<open>The life of a queue pair\<close>

definition fresh_pair :: "nat \<Rightarrow> nat \<Rightarrow> ('sq, 'cq) queue_dict \<Rightarrow> bool" where
  "fresh_pair sqid cqid d \<longleftrightarrow> list_all (\<lambda>((s, c), v). s \<noteq> sqid \<and> c \<noteq> cqid) d"

lemma update_fresh: "fresh_pair s c d \<Longrightarrow> AList.update (s, c) v d = d @ [((s, c), v)]"
  by (induction d) (auto simp: fresh_pair_def)

lemma find_fresh:
  "fresh_pair s c d \<Longrightarrow> find (\<lambda>((s', c'), v). s = s') d = None"
  "fresh_pair s c d \<Longrightarrow> find (\<lambda>((s', c'), v). c = c') d = None"
  "fresh_pair s c d \<Longrightarrow> map_of d (s, c) = None"
  by (induction d) (auto simp: fresh_pair_def)

lemma find_append: "find P (xs @ ys) = (case find P xs of None \<Rightarrow> find P ys | Some x \<Rightarrow> Some x)"
  by (induction xs) auto

lemma remove_sq_loop_fresh:
  "fresh_pair s c d \<Longrightarrow> remove_sq_loop s (d @ e) ids =
    bindR (remove_sq_loop s e ids) (\<lambda>(e', ids'). Inr (d @ e', ids'))"
  by (induction d) (auto simp: fresh_pair_def bindR_def split: sum.splits)

lemma remove_cq_loop_fresh:
  "fresh_pair s c d \<Longrightarrow> remove_cq_loop c (d @ e) ids =
    bindR (remove_cq_loop c e ids) (\<lambda>(e', ids'). Inr (d @ e', ids'))"
  by (induction d) (auto simp: fresh_pair_def bindR_def split: sum.splits)

lemma fresh_not_id:
  "fresh_pair s c d \<Longrightarrow> s \<notin> set (map fst (io_keys d)) \<and> c \<notin> set (map snd (io_keys d))"
  by (auto simp: fresh_pair_def io_keys_def list_all_iff)

lemma all_live_drop_dead:
  "list_all (\<lambda>(k, v). fst v \<noteq> None \<and> snd v \<noteq> None) d \<Longrightarrow>
    filter (\<lambda>(k, v). \<not> (fst v = None \<and> snd v = None)) d = d"
  by (induction d) auto

lemma io_keys_append:
  "0 < s \<Longrightarrow> 0 < c \<Longrightarrow> io_keys (d @ [((s, c), v)]) = io_keys d @ [(s, c)]"
  by (simp add: io_keys_def)

lemma remove1_snoc: "x \<notin> set xs \<Longrightarrow> remove1 x (xs @ [x]) = xs"
  by (simp add: remove1_append)



text \<open>
  A completion queue cannot be removed before the submission queues that use
  it: the assertion stops \<open>remove_cq\<close>.
\<close>

theorem remove_cq_before_sq:
  assumes "all_live qm" "c \<in> snd ` fst ` set (nvme_queues qm)"
  shows "qm_remove_cq c qm = Inl AssertionError"
proof -
  have "remove_cq_loop c d ids = Inl AssertionError"
    if "list_all (\<lambda>(k, v). fst v \<noteq> None \<and> snd v \<noteq> None) d"
      "\<not> list_all (\<lambda>(k, v). snd k \<noteq> c) d"
    for d :: "('a, 'b) queue_dict" and ids
    using that by (induction c d ids rule: remove_cq_loop.induct) (auto simp: assertR_def)
  moreover have "\<not> list_all (\<lambda>(k, v). snd k \<noteq> c) (nvme_queues qm)"
    using assms(2) by (force simp: list_all_iff)
  ultimately show ?thesis using assms(1) by (simp add: qm_remove_cq_def all_live_def)
qed

lemma remove_cq_before_sq_witness: "qm_remove_cq 1 two_pairs = Inl AssertionError"
  by (rule remove_cq_before_sq) (simp_all add: two_pairs_value all_live_def)

section \<open>Two defects\<close>

text \<open>
  \<open>remove_sq\<close> leaves the round-robin index alone: when the queue the index points at
  is the last of the list and is removed, the next selection raises an
  \<open>IndexError\<close>, although another I/O queue is still there.
\<close>

theorem next_iosq_stale_index:
  "bindR (qm_next_iosq_id two_pairs) (\<lambda>(i, qm).
     bindR (qm_remove_sq 2 qm) (\<lambda>qm. if io_sqids qm = [1] then qm_next_iosq_id qm else Inr (None, qm)))
   = Inl IndexError"
  by (simp add: two_pairs_value queue_mgr_exec)

text \<open>
  \<open>add\<close> rebuilds the identifier lists from all entries of the dictionary: a submission queue
  that has been removed, while its completion queue stays, is listed again after an unrelated \<open>add\<close>, and the selected
  identifier then names a pair without a submission queue.
\<close>

theorem add_relists_removed_queue:
  "bindR (qm_remove_sq 1 two_pairs) (\<lambda>qm. Inr (io_sqids qm)) = Inr [2] \<and>
   bindR (qm_remove_sq 1 two_pairs) (\<lambda>qm. bindR (qm_next_iosq_id (qm_add 3 30 3 31 qm)) (\<lambda>(i, qm).
     bindR (qm_get i None qm) (\<lambda>q. Inr (io_sqids qm, i, q)))) =
   Inr ([1, 2, 3], Some 1, Queues None (Some 11))"
  by (simp add: two_pairs_value queue_mgr_exec)

end
