(* ===== verification/Dma_Memory.thy ===== *)
theory Dma_Memory
  imports Ctypes
begin

text \<open>
  Memory shared with the device: memory locations and directions (\<open>MemoryLocation\<close>,
  \<open>DMADirection\<close> in \<open>lone/system/__init__.py\<close>), the contract of the memory managers
  that the driver calls (\<open>DevMemMgr\<close>) as a locale, and the manager of the simulator
  (\<open>nvsim/memory/__init__.py\<close>), which satisfies it. The placement of a fresh ctypes array is a parameter,
  the field \<open>c_uint8_array\<close>, constrained by \<open>ctypes_heap\<close>.
\<close>

section \<open>Memory locations\<close>

datatype dma_direction = HOST_TO_DEVICE | DEVICE_TO_HOST | BIDIRECTIONAL

text \<open>
  The name of the client is for debugging output and not modelled; the flags and links of
  the hugepages manager are not used by the code that receives a location.
\<close>

record mem_loc =
  vaddr :: nat
  iova :: nat
  msize :: nat

definition loc_separate :: "mem_loc \<Rightarrow> mem_loc \<Rightarrow> bool" where
  "loc_separate a b \<longleftrightarrow> separate (vaddr a) (msize a) (vaddr b) (msize b) \<and> iova a \<noteq> iova b"

lemma loc_separate_sym: "loc_separate a b = loc_separate b a"
  by (auto simp: loc_separate_def separate_sym)

section \<open>The contract of a memory manager\<close>

text \<open>
  \<open>live s\<close> are the locations given out and not freed: they share no byte and no bus address, and their
  bus addresses are non-null and fit 64 bits. For a size that the manager honours, \<open>malloc\<close> adds a location of at least that size; neither it nor
  \<open>free\<close> changes what the other locations hold.
\<close>

locale dma_locations =
  fixes inv :: "'m \<Rightarrow> bool"
    and live :: "'m \<Rightarrow> mem_loc list"
    and fits :: "'m \<Rightarrow> nat \<Rightarrow> bool"
    and malloc :: "memory \<Rightarrow> 'm \<Rightarrow> nat \<Rightarrow> dma_direction \<Rightarrow> (mem_loc \<times> memory \<times> 'm) res"
    and free :: "memory \<Rightarrow> 'm \<Rightarrow> mem_loc \<Rightarrow> (memory \<times> 'm) res"
  assumes malloc_adds: "inv s \<Longrightarrow> 0 < n \<Longrightarrow> fits s n \<Longrightarrow> malloc m s n dir = Inr (l, m', s') \<Longrightarrow>
      inv s' \<and> live s' = live s @ [l] \<and> n \<le> msize l"
    and malloc_others: "inv s \<Longrightarrow> 0 < n \<Longrightarrow> fits s n \<Longrightarrow> malloc m s n dir = Inr (l, m', s') \<Longrightarrow> x \<in> set (live s) \<Longrightarrow>
      read_bytes m' (vaddr x) (msize x) = read_bytes m (vaddr x) (msize x)"
    and free_live: "inv s \<Longrightarrow> l \<in> set (live s) \<Longrightarrow>
      \<exists>m' s'. free m s l = Inr (m', s') \<and> inv s' \<and> live s' = remove1 l (live s) \<and>
        (\<forall>x \<in> set (live s'). read_bytes m' (vaddr x) (msize x) = read_bytes m (vaddr x) (msize x))"
    and live_separate: "inv s \<Longrightarrow> sorted_wrt loc_separate (live s)"
    and live_address: "inv s \<Longrightarrow> l \<in> set (live s) \<Longrightarrow> 0 < iova l \<and> iova l < 2 ^ 64"
begin

lemma malloc_apart:
  assumes "inv s" "0 < n" "fits s n" "malloc m s n dir = Inr (l, m', s')" "x \<in> set (live s)"
  shows "loc_separate l x"
  using malloc_adds [OF assms(1-4)] live_separate [of s'] assms(5)
  by (auto simp: sorted_wrt_append loc_separate_sym)

text \<open>What is written to a new location is still there after another one has been given out, and after one of the others has been freed.\<close>

lemma contents_kept:
  assumes "inv s" "0 < n" "fits s n" "malloc m s n dir = Inr (l, m1, s1)" "length bs = msize l"
    and "0 < k" "fits s1 k" "malloc (write_bytes m1 (vaddr l) bs) s1 k dir' = Inr (l2, m2, s2)" "x \<in> set (live s2)" "x \<noteq> l"
  shows "\<exists>m3 s3. free m2 s2 x = Inr (m3, s3) \<and> inv s3 \<and> l \<in> set (live s3) \<and> read_bytes m3 (vaddr l) (msize l) = bs"
proof -
  note a = malloc_adds [OF assms(1-4)]
  note b = malloc_adds [OF conjunct1 [OF a] assms(6-8)]
  have l: "l \<in> set (live s1)" "l \<in> set (live s2)" using a b by auto
  have m2: "read_bytes m2 (vaddr l) (msize l) = bs"
    using malloc_others [OF conjunct1 [OF a] assms(6-8) l(1)] assms(5) by simp
  obtain m3 s3 where f: "free m2 s2 x = Inr (m3, s3)" "inv s3" "live s3 = remove1 x (live s2)"
    "\<forall>x \<in> set (live s3). read_bytes m3 (vaddr x) (msize x) = read_bytes m2 (vaddr x) (msize x)"
    using free_live [OF conjunct1 [OF b] assms(9)] by blast
  have "l \<in> set (live s3)" using f(3) l(2) assms(10) by (simp add: in_set_remove1)
  with f m2 show ?thesis by auto
qed

end

text \<open>
  A manager that honours every size exactly, clears what it gives out, and fails only for lack of memory.
\<close>

locale dma_memory = dma_locations inv live "\<lambda>_ _. True" malloc free
  for inv :: "'m \<Rightarrow> bool" and live and malloc and free +
  assumes malloc_size: "inv s \<Longrightarrow> 0 < n \<Longrightarrow> malloc m s n dir = Inr (l, m', s') \<Longrightarrow> msize l = n"
    and malloc_clears: "inv s \<Longrightarrow> 0 < n \<Longrightarrow> malloc m s n dir = Inr (l, m', s') \<Longrightarrow>
      m' = write_bytes m (vaddr l) (zeros n)"
    and malloc_error: "malloc m s n dir = Inl e \<Longrightarrow> e = MemoryError"
begin

lemma malloc_inv:
  "inv s \<Longrightarrow> 0 < n \<Longrightarrow> malloc m s n dir = Inr (l, m', s') \<Longrightarrow> inv s' \<and> live s' = live s @ [l] \<and> msize l = n"
  using malloc_adds malloc_size by blast

lemma malloc_keeps:
  assumes "inv s" "0 < n" "malloc m s n dir = Inr (l, m', s')" "separate (vaddr l) n a k"
  shows "read_bytes m' a k = read_bytes m a k"
  using malloc_clears [OF assms(1-3)] assms(4) by (simp add: read_write_separate zeros_def)

lemma malloc_fresh:
  assumes "inv s" "0 < n" "malloc m s n dir = Inr (l, m', s')" "x \<in> set (live s)"
  shows "loc_separate l x"
  using malloc_apart [OF assms(1,2) TrueI assms(3,4)] .

end

section \<open>The memory manager of the simulator: \<open>SimMemMgr\<close>\<close>

text \<open>
  \<open>c_uint8_array live n\<close> is the address of \<open>(ctypes.c_uint8 * n)()\<close> when the arrays of the locations \<open>live\<close> exist, or
  None when there is no memory.
\<close>

record sim_mem_mgr =
  page_size :: nat
  allocated_mem_list :: "mem_loc list"
  c_uint8_array :: "mem_loc list \<Rightarrow> nat \<Rightarrow> nat option"

definition sim_malloc ::
  "memory \<Rightarrow> sim_mem_mgr \<Rightarrow> nat \<Rightarrow> dma_direction \<Rightarrow> (mem_loc \<times> memory \<times> sim_mem_mgr) res" where
  "sim_malloc m s n direction =
     (case c_uint8_array s (allocated_mem_list s) n of
        None \<Rightarrow> Inl MemoryError
      | Some a \<Rightarrow>
          let mem = \<lparr>vaddr = a, iova = a, msize = n\<rparr>
          in Inr (mem, write_bytes m a (zeros n),
               s\<lparr>allocated_mem_list := allocated_mem_list s @ [mem]\<rparr>))"

text \<open>The list is changed while it is iterated over: the loop goes by position.\<close>

function sim_free_loop :: "mem_loc \<Rightarrow> nat \<Rightarrow> mem_loc list \<Rightarrow> mem_loc list" where
  "sim_free_loop memory i xs =
     (if i < length xs
      then sim_free_loop memory (i + 1) (if xs ! i = memory then remove1 (xs ! i) xs else xs)
      else xs)"
  by pat_completeness auto

termination
  by (relation "measure (\<lambda>(memory, i, xs). length xs - i)") (auto simp: length_remove1)

declare sim_free_loop.simps [simp del]

definition sim_free :: "sim_mem_mgr \<Rightarrow> mem_loc \<Rightarrow> sim_mem_mgr res" where
  "sim_free s memory =
     Inr (s\<lparr>allocated_mem_list := sim_free_loop memory 0 (allocated_mem_list s)\<rparr>)"

text \<open>\<open>malloc_pages\<close> calls \<open>malloc\<close> without a direction, which raises before anything is allocated.\<close>

definition sim_malloc_pages :: "sim_mem_mgr \<Rightarrow> nat \<Rightarrow> mem_loc list res" where
  "sim_malloc_pages s num_pages = (if num_pages = 0 then Inr [] else Inl TypeError)"

definition sim_free_all :: "sim_mem_mgr \<Rightarrow> sim_mem_mgr" where
  "sim_free_all s = s\<lparr>allocated_mem_list := []\<rparr>"

lemma sim_free_loop_absent: "memory \<notin> set (drop i xs) \<Longrightarrow> sim_free_loop memory i xs = xs"
proof (induction memory i xs rule: sim_free_loop.induct)
  case (1 memory i xs)
  show ?case
  proof (cases "i < length xs")
    case True
    then have "xs ! i \<in> set (drop i xs)" by (metis Cons_nth_drop_Suc list.set_intros(1))
    moreover have "memory \<notin> set (drop (i + 1) xs)"
      using 1(2) set_drop_subset_set_drop [of i "i + 1" xs] by auto
    ultimately show ?thesis using 1 True by (subst sim_free_loop.simps) auto
  qed (simp add: sim_free_loop.simps)
qed

lemma sim_free_loop_remove1:
  assumes "distinct xs" "memory \<in> set (drop i xs)"
  shows "sim_free_loop memory i xs = remove1 memory xs"
  using assms
proof (induction memory i xs rule: sim_free_loop.induct)
  case (1 memory i xs)
  then have i: "i < length xs" by (metis drop_all empty_iff leI list.set(1))
  show ?case
  proof (cases "xs ! i = memory")
    case True
    then have "memory \<notin> set (remove1 memory xs)" using 1(2) by simp
    then have "memory \<notin> set (drop (i + 1) (remove1 memory xs))" by (meson in_set_dropD)
    from sim_free_loop_absent [OF this] show ?thesis
      using True i by (subst sim_free_loop.simps) simp
  next
    case False
    then have "memory \<in> set (drop (i + 1) xs)"
      using 1(3) i by (metis Cons_nth_drop_Suc Suc_eq_plus1 set_ConsD)
    with 1(1,2) i False show ?thesis by (subst sim_free_loop.simps) simp
  qed
qed

text \<open>
  What ctypes guarantees of a fresh array: it does not overlap the arrays in use, and its address is non-null and fits a
  pointer.
\<close>

definition ctypes_heap :: "(mem_loc list \<Rightarrow> nat \<Rightarrow> nat option) \<Rightarrow> bool" where
  "ctypes_heap f \<longleftrightarrow> (\<forall>xs n a. 0 < n \<longrightarrow> (\<forall>x \<in> set xs. 0 < msize x) \<longrightarrow> f xs n = Some a \<longrightarrow>
     0 < a \<and> a < 2 ^ 64 \<and> (\<forall>x \<in> set xs. separate a n (vaddr x) (msize x)))"

lemma ctypes_heapD:
  "ctypes_heap f \<Longrightarrow> 0 < n \<Longrightarrow> \<forall>x \<in> set xs. 0 < msize x \<Longrightarrow> f xs n = Some a \<Longrightarrow>
    0 < a \<and> a < 2 ^ 64 \<and> (\<forall>x \<in> set xs. separate a n (vaddr x) (msize x))"
  unfolding ctypes_heap_def by blast

definition sim_inv :: "sim_mem_mgr \<Rightarrow> bool" where
  "sim_inv s \<longleftrightarrow> ctypes_heap (c_uint8_array s) \<and> sorted_wrt loc_separate (allocated_mem_list s) \<and>
     (\<forall>x \<in> set (allocated_mem_list s).
        0 < msize x \<and> iova x = vaddr x \<and> 0 < vaddr x \<and> vaddr x < 2 ^ 64)"

lemma separate_distinct_iova: "sorted_wrt loc_separate xs \<Longrightarrow> distinct (map iova xs)"
  by (induction xs) (auto simp: loc_separate_def)

lemma separate_distinct: "sorted_wrt loc_separate xs \<Longrightarrow> distinct xs"
  by (induction xs) (auto simp: loc_separate_def)

lemma sorted_wrt_remove1: "sorted_wrt P xs \<Longrightarrow> sorted_wrt P (remove1 x xs)"
  by (induction xs) (auto dest: set_remove1_subset [THEN subsetD])

lemma sim_malloc_Inr:
  assumes "sim_malloc m s n dir = Inr (l, m', s')"
  shows "c_uint8_array s (allocated_mem_list s) n = Some (vaddr l) \<and> iova l = vaddr l \<and> msize l = n \<and>
    m' = write_bytes m (vaddr l) (zeros n) \<and>
    s' = s\<lparr>allocated_mem_list := allocated_mem_list s @ [l]\<rparr>"
proof (cases "c_uint8_array s (allocated_mem_list s) n")
  case None
  with assms show ?thesis by (simp add: sim_malloc_def)
next
  case (Some a)
  with assms show ?thesis by (auto simp: sim_malloc_def Let_def)
qed

text \<open>\<open>free\<close> does not touch memory.\<close>

definition sim_free_at :: "memory \<Rightarrow> sim_mem_mgr \<Rightarrow> mem_loc \<Rightarrow> (memory \<times> sim_mem_mgr) res" where
  "sim_free_at m s l = bindR (sim_free s l) (\<lambda>s. Inr (m, s))"

lemma sim_malloc_inv:
  assumes inv: "sim_inv s" and n: "0 < n" and a: "sim_malloc m s n dir = Inr (l, m', s')"
  shows "sim_inv s'" "allocated_mem_list s' = allocated_mem_list s @ [l]" "msize l = n"
    "m' = write_bytes m (vaddr l) (zeros n)" "\<forall>x \<in> set (allocated_mem_list s). loc_separate l x"
proof -
  note eq = sim_malloc_Inr [OF a]
  have heap: "0 < vaddr l" "vaddr l < 2 ^ 64"
    "\<forall>x \<in> set (allocated_mem_list s). separate (vaddr l) n (vaddr x) (msize x)"
    using ctypes_heapD [of "c_uint8_array s" n "allocated_mem_list s" "vaddr l"] inv eq n
    by (simp_all add: sim_inv_def)
  then have sep: "loc_separate l x" if "x \<in> set (allocated_mem_list s)" for x
  proof -
    have "separate (vaddr l) n (vaddr x) (msize x)" "0 < msize x" "iova x = vaddr x"
      using that heap(3) inv by (auto simp: sim_inv_def)
    with n eq show ?thesis by (auto simp: loc_separate_def separate_def)
  qed
  then show "\<forall>x \<in> set (allocated_mem_list s). loc_separate l x" ..
  from sep have "sorted_wrt loc_separate (allocated_mem_list s @ [l])"
    using inv by (simp add: sorted_wrt_append sim_inv_def loc_separate_sym)
  then show "sim_inv s'" using inv n eq heap by (auto simp: sim_inv_def)
  show "allocated_mem_list s' = allocated_mem_list s @ [l]" "msize l = n" "m' = write_bytes m (vaddr l) (zeros n)"
    using eq by simp_all
qed

interpretation sim: dma_memory sim_inv allocated_mem_list sim_malloc sim_free_at
proof unfold_locales
  fix s s' :: sim_mem_mgr and n m dir l m' e x
  assume a: "sim_inv s" "0 < n" "sim_malloc m s n dir = Inr (l, m', s')"
  note r = sim_malloc_inv [OF a]
  show "sim_inv s' \<and> allocated_mem_list s' = allocated_mem_list s @ [l] \<and> n \<le> msize l" using r by simp
  show "msize l = n" "m' = write_bytes m (vaddr l) (zeros n)" using r by simp_all
  assume "x \<in> set (allocated_mem_list s)"
  then have "separate (vaddr l) n (vaddr x) (msize x)" using r(3,5) by (auto simp: loc_separate_def)
  then show "read_bytes m' (vaddr x) (msize x) = read_bytes m (vaddr x) (msize x)"
    using r(4) by (simp add: read_write_separate zeros_def)
next
  fix m s n dir e
  assume "sim_malloc m s n dir = Inl e"
  then show "e = MemoryError" by (auto simp: sim_malloc_def Let_def split: option.splits)
next
  fix m s l
  assume "sim_inv s" "l \<in> set (allocated_mem_list s)"
  then show "\<exists>m' s'. sim_free_at m s l = Inr (m', s') \<and> sim_inv s' \<and>
      allocated_mem_list s' = remove1 l (allocated_mem_list s) \<and>
      (\<forall>x \<in> set (allocated_mem_list s'). read_bytes m' (vaddr x) (msize x) = read_bytes m (vaddr x) (msize x))"
    by (auto simp: sim_free_at_def sim_free_def sim_inv_def sim_free_loop_remove1 separate_distinct sorted_wrt_remove1
        dest: set_remove1_subset [THEN subsetD])
qed (auto simp: sim_inv_def)

text \<open>A heap that places every array behind all others, on page boundaries.\<close>

definition bump_heap :: "mem_loc list \<Rightarrow> nat \<Rightarrow> nat option" where
  "bump_heap xs n =
     (let a = 4096 * (1 + foldr (\<lambda>x t. max (ceil_div (vaddr x + msize x) 4096) t) xs 0)
      in if a < 2 ^ 64 then Some a else None)"

lemma bump_heap_behind: "x \<in> set xs \<Longrightarrow>
    vaddr x + msize x \<le> 4096 * foldr (\<lambda>x t. max (ceil_div (vaddr x + msize x) 4096) t) xs 0"
proof (induction xs)
  case (Cons y ys)
  have "vaddr y + msize y \<le> ceil_div (vaddr y + msize y) 4096 * 4096"
    by (simp flip: ceil_div_le_iff)
  with Cons show ?case by (auto simp: max_def)
qed simp

lemma ctypes_heap_bump: "ctypes_heap bump_heap"
proof -
  have "separate a n (vaddr x) (msize x)" if "bump_heap xs n = Some a" "x \<in> set xs" for xs n a x
    using bump_heap_behind [OF that(2)] that(1)
    by (auto simp: bump_heap_def Let_def separate_def split: if_splits)
  moreover have "0 < a \<and> a < 2 ^ 64" if "bump_heap xs n = Some a" for xs n a
    using that by (auto simp: bump_heap_def Let_def split: if_splits)
  ultimately show ?thesis by (simp add: ctypes_heap_def)
qed

definition new_sim_mem_mgr :: "nat \<Rightarrow> (mem_loc list \<Rightarrow> nat \<Rightarrow> nat option) \<Rightarrow> sim_mem_mgr" where
  "new_sim_mem_mgr n f = \<lparr>page_size = n, allocated_mem_list = [], c_uint8_array = f\<rparr>"

lemma sim_inv_new: "ctypes_heap f \<Longrightarrow> sim_inv (new_sim_mem_mgr n f)"
  by (simp add: sim_inv_def new_sim_mem_mgr_def)

end
