(* ===== verification/PRP.thy ===== *)
theory PRP
  imports Dma_Memory
begin

text \<open>
  Physical region pages (\<open>PRP\<close> in \<open>lone/nvme/spec/prp.py\<close>): the description of a data buffer
  by page addresses, built by the host from pages of the memory manager and rebuilt by the device from
  the two addresses in a command. The float divisions under \<open>math.ceil\<close> are taken exactly (they
  are, for sizes below 2^53).
\<close>

record prp =
  num_bytes :: nat
  mps :: nat
  direction :: dma_direction
  prp1 :: nat
  prp1_mem :: "mem_loc option"
  prp2 :: nat
  prp2_mem :: "mem_loc option"
  mem_list :: "mem_loc list"
  prps_per_page :: nat
  pages_needed :: nat
  lists_needed :: nat

section \<open>Construction\<close>

text \<open>\<open>__init__\<close> without the allocation.\<close>

definition prp_init :: "nat \<Rightarrow> nat \<Rightarrow> dma_direction \<Rightarrow> prp res" where
  "prp_init num_bytes' mps' direction' =
     (let prps_per_page' = mps' div 8 - 1;
          pages_needed' = ceil_div num_bytes' mps'
      in bindR (assertR (pages_needed' > 0)) (\<lambda>_.
         let lists_needed' = (if pages_needed' > 2 then ceil_div (pages_needed' - 1) prps_per_page' else 0)
         in Inr \<lparr>num_bytes = num_bytes', mps = mps', direction = direction', prp1 = 0, prp1_mem = None,
              prp2 = 0, prp2_mem = None, mem_list = [], prps_per_page = prps_per_page',
              pages_needed = pages_needed' + lists_needed', lists_needed = lists_needed'\<rparr>))"

text \<open>
  \<open>alloc\<close>, over the \<open>malloc\<close> of a memory manager. The loop over the entries of the list page
  has \<open>n\<close> iterations left; running out of them is the assertion of its \<open>else\<close> branch.
\<close>

type_synonym 'm malloc = "memory \<Rightarrow> 'm \<Rightarrow> nat \<Rightarrow> dma_direction \<Rightarrow> (mem_loc \<times> memory \<times> 'm) res"

definition malloc_page ::
  "'m malloc \<Rightarrow> dma_direction \<Rightarrow> prp \<Rightarrow> memory \<Rightarrow> 'm \<Rightarrow> (mem_loc \<times> prp \<times> memory \<times> 'm) res" where
  "malloc_page malloc dir p m s =
     bindR (malloc m s (mps p) dir) (\<lambda>(mem, m, s). Inr (mem, p\<lparr>mem_list := mem_list p @ [mem]\<rparr>, m, s))"

fun alloc_list ::
  "'m malloc \<Rightarrow> nat \<Rightarrow> nat \<Rightarrow> nat \<Rightarrow> int \<Rightarrow> prp \<Rightarrow> memory \<Rightarrow> 'm \<Rightarrow> (prp \<times> memory \<times> 'm) res" where
  "alloc_list malloc list_addr i 0 rem_bytes p m s = Inl AssertionError"
| "alloc_list malloc list_addr i (Suc n) rem_bytes p m s =
     bindR (malloc_page malloc (direction p) p m s) (\<lambda>(prp_segment, p, m, s).
       let m = write64 m (list_addr + 8 * i) (iova prp_segment);
           rem_bytes = rem_bytes - int (mps p)
       in if rem_bytes \<le> 0 then Inr (p, m, s)
          else alloc_list malloc list_addr (i + 1) n rem_bytes p m s)"

definition prp_alloc :: "'m malloc \<Rightarrow> prp \<Rightarrow> memory \<Rightarrow> 'm \<Rightarrow> (prp \<times> memory \<times> 'm) res" where
  "prp_alloc malloc p m s =
     (if pages_needed p = 1
      then bindR (malloc_page malloc (direction p) p m s) (\<lambda>(mem, p, m, s).
             Inr (p\<lparr>prp1_mem := Some mem, prp1 := iova mem\<rparr>, m, s))
      else if pages_needed p = 2
      then bindR (malloc_page malloc (direction p) p m s) (\<lambda>(mem1, p, m, s).
           bindR (malloc_page malloc (direction p) p m s) (\<lambda>(mem2, p, m, s).
             Inr (p\<lparr>prp1_mem := Some mem1, prp1 := iova mem1,
                   prp2_mem := Some mem2, prp2 := iova mem2\<rparr>, m, s)))
      else bindR (malloc_page malloc (direction p) p m s) (\<lambda>(mem1, p, m, s).
           let rem_bytes = int (num_bytes p) - int (mps p)
           in bindR (malloc_page malloc HOST_TO_DEVICE p m s) (\<lambda>(mem2, p, m, s).
                let p = p\<lparr>prp1_mem := Some mem1, prp1 := iova mem1,
                      prp2_mem := Some mem2, prp2 := iova mem2\<rparr>
                in alloc_list malloc (vaddr mem2) 0 (prps_per_page p) rem_bytes p m s)))"

definition new_prp ::
  "'m malloc \<Rightarrow> nat \<Rightarrow> nat \<Rightarrow> dma_direction \<Rightarrow> memory \<Rightarrow> 'm \<Rightarrow> (prp \<times> memory \<times> 'm) res" where
  "new_prp malloc num_bytes' mps' direction' m s =
     bindR (prp_init num_bytes' mps' direction') (\<lambda>p. prp_alloc malloc p m s)"

text \<open>The addresses stored in a list page.\<close>

definition list_data :: "memory \<Rightarrow> nat \<Rightarrow> nat \<Rightarrow> nat list" where
  "list_data m a len = map (\<lambda>i. read64 m (a + 8 * i)) [0..<len div 8]"

text \<open>\<open>from_address\<close>: the device's view of the two addresses in a command.\<close>

definition at_address :: "nat \<Rightarrow> nat \<Rightarrow> mem_loc" where
  "at_address a n = \<lparr>vaddr = a, iova = a, msize = n\<rparr>"

definition from_address :: "memory \<Rightarrow> prp \<Rightarrow> nat \<Rightarrow> nat \<Rightarrow> prp res" where
  "from_address m p prp1_address prp2_address =
     bindR (assertR (prp1_address \<noteq> 0)) (\<lambda>_.
       let mem1 = at_address prp1_address (mps p);
           p = p\<lparr>prp1 := prp1_address, prp1_mem := Some mem1, mem_list := mem_list p @ [mem1]\<rparr>
       in if pages_needed p = 1 then Inr p
          else bindR (assertR (prp2_address \<noteq> 0)) (\<lambda>_.
            let mem2 = at_address prp2_address (mps p);
                p = p\<lparr>prp2 := prp2_address, prp2_mem := Some mem2, mem_list := mem_list p @ [mem2]\<rparr>
            in if pages_needed p = 2 then Inr p
               else Inr (p\<lparr>mem_list := mem_list p @
                      map (\<lambda>a. at_address a (mps p)) (list_data m (vaddr mem2) (mps p))\<rparr>)))"

section \<open>The data pages\<close>

fun list_segments :: "mem_loc list \<Rightarrow> nat list \<Rightarrow> mem_loc list res" where
  "list_segments mems [] = Inr []"
| "list_segments mems (d # ds) =
     (if d \<noteq> 0
      then let p = filter (\<lambda>p. iova p = d) mems
           in bindR (assertR (length p = 1)) (\<lambda>_.
              bindR (list_segments mems ds) (\<lambda>segs. Inr (p ! 0 # segs)))
      else list_segments mems ds)"

fun page_segments :: "memory \<Rightarrow> prp \<Rightarrow> mem_loc list \<Rightarrow> mem_loc list res" where
  "page_segments m p [] = Inr []"
| "page_segments m p (page # pages) =
     bindR (if prp2 p = iova page
            then list_segments (mem_list p) (list_data m (vaddr page) (mps p)) else Inr []) (\<lambda>segs.
     bindR (page_segments m p pages) (\<lambda>rest.
       Inr ((if prp1 p = iova page then [page] else []) @ segs @ rest)))"

definition get_data_segments :: "memory \<Rightarrow> prp \<Rightarrow> mem_loc list res" where
  "get_data_segments m p = page_segments m p (mem_list p)"

text \<open>
  \<open>get_data_buffer\<close> and \<open>set_data_buffer\<close>, with the slices of Python: an end beyond the sequence is
  cut, a negative end counts from its end, and a slice of a ctypes array takes exactly as many
  elements as it has.
\<close>

definition slice_stop :: "nat \<Rightarrow> int \<Rightarrow> nat" where
  "slice_stop len stop = (if stop < 0 then nat (int len + stop) else min len (nat stop))"

definition py_slice :: "'a list \<Rightarrow> nat \<Rightarrow> int \<Rightarrow> 'a list" where
  "py_slice xs start stop = drop start (take (slice_stop (length xs) stop) xs)"

fun get_loop :: "memory \<Rightarrow> nat \<Rightarrow> mem_loc list \<Rightarrow> nat \<Rightarrow> byte list \<Rightarrow> byte list" where
  "get_loop m mps' [] i data = data"
| "get_loop m mps' (segment # segs) i data =
     (let b = read_bytes m (vaddr segment) mps';
          data = take i data @ take (i + msize segment) b @ drop (i + msize segment) data
      in get_loop m mps' segs (i + msize segment) data)"

definition get_data_buffer :: "memory \<Rightarrow> prp \<Rightarrow> byte list res" where
  "get_data_buffer m p = bindR (get_data_segments m p) (\<lambda>segs. Inr (get_loop m (mps p) segs 0 []))"

fun set_loop :: "nat \<Rightarrow> byte list \<Rightarrow> mem_loc list \<Rightarrow> nat \<Rightarrow> memory \<Rightarrow> memory res" where
  "set_loop mps' data [] i m = Inr m"
| "set_loop mps' data (segment # segs) i m =
     (let data_len = (if i + msize segment > length data then int (length data) - int i
                      else int (i + msize segment));
          chunk = py_slice data i data_len
      in if length chunk \<noteq> slice_stop mps' data_len then Inl ValueError
         else set_loop mps' data segs (i + msize segment) (write_bytes m (vaddr segment) chunk))"

definition set_data_buffer :: "memory \<Rightarrow> prp \<Rightarrow> byte list \<Rightarrow> memory res" where
  "set_data_buffer m p data =
     bindR (get_data_segments m p) (\<lambda>segs. set_loop (mps p) data segs 0 m)"

text \<open>
  \<open>free_all_memory\<close> removes from the list it iterates over; the loop goes by position. The result is the
  list that remains and the locations given back.
\<close>

function free_loop :: "nat \<Rightarrow> mem_loc list \<Rightarrow> mem_loc list \<times> mem_loc list" where
  "free_loop i xs =
     (if i < length xs
      then let (rest, freed) = free_loop (i + 1) (remove1 (xs ! i) xs) in (rest, xs ! i # freed)
      else (xs, []))"
  by pat_completeness auto

termination
  by (relation "measure (\<lambda>(i, xs). length xs - i)") (auto simp: length_remove1)

declare free_loop.simps [simp del]

definition free_all_memory :: "prp \<Rightarrow> prp \<times> mem_loc list" where
  "free_all_memory p =
     (let (rest, freed) = free_loop 0 (mem_list p) in (p\<lparr>mem_list := rest\<rparr>, freed))"

section \<open>Buffers made of whole pages\<close>

fun write_chunks :: "nat \<Rightarrow> byte list \<Rightarrow> mem_loc list \<Rightarrow> memory \<Rightarrow> memory" where
  "write_chunks n data [] m = m"
| "write_chunks n data (s # segs) m =
     write_chunks n (drop n data) segs (write_bytes m (vaddr s) (take n data))"

lemma write_chunks_Nil [simp]: "write_chunks n [] segs m = m"
  by (induction segs) auto

lemma get_loop_pages:
  assumes "\<forall>s \<in> set segs. msize s = n" "length data = i"
  shows "get_loop m n segs i data = data @ concat (map (\<lambda>s. read_bytes m (vaddr s) n) segs)"
  using assms by (induction segs arbitrary: i data) (auto simp: Let_def)

lemma set_loop_later:
  assumes "0 < n" "\<forall>s \<in> set segs. msize s = n" "n dvd i" "0 < i"
    "i < length data + n \<or> n dvd length data"
  shows "set_loop n data segs i m =
    (if n dvd length data \<or> i + n * length segs \<le> length data \<or> segs = []
     then Inr (write_chunks n (drop i data) segs m) else Inl ValueError)"
  using assms
proof (induction segs arbitrary: i m)
  case (Cons s segs)
  let ?len = "length data"
  have s: "msize s = n" using Cons.prems(2) by simp
  show ?case
  proof (cases "i + n \<le> ?len")
    case True
    have "length (take n (drop i data)) = n" using True by simp
    moreover have "py_slice data i (int (i + n)) = take n (drop i data)" "slice_stop n (int (i + n)) = n"
      using True by (simp_all add: py_slice_def slice_stop_def drop_take min_def nat_add_distrib)
    ultimately have "set_loop n data (s # segs) i m =
        set_loop n data segs (i + n) (write_bytes m (vaddr s) (take n (drop i data)))"
      using True by (simp add: s Let_def)
    with Cons.IH [of "i + n" "write_bytes m (vaddr s) (take n (drop i data))"] Cons.prems True
    show ?thesis by (auto simp: drop_drop add.commute add.assoc)
  next
    case False
    show ?thesis
    proof (cases "n dvd ?len")
      case True
      obtain a b where ab: "?len = n * a" "i = n * b" using True Cons.prems(3) by (auto elim!: dvdE)
      have "n * a < n * Suc b" using False ab by simp
      then have "a < Suc b" by (rule mult_less_cancel1 [THEN iffD1, THEN conjunct2])
      then have "n * a \<le> n * b" "a \<noteq> b \<longrightarrow> n * Suc a \<le> n * b"
        using Cons.prems(1) by (auto intro: mult_le_mono2 simp del: mult_Suc_right)
      then have "?len \<le> i" "i \<noteq> ?len \<longrightarrow> ?len + n \<le> i" using ab by auto
      then have "py_slice data i (int ?len - int i) = []" "slice_stop n (int ?len - int i) = 0"
        "drop i data = []" by (auto simp: py_slice_def slice_stop_def min_def)
      then have "set_loop n data (s # segs) i m = set_loop n data segs (i + n) m"
        using False by (simp add: s Let_def)
      with Cons.IH [of "i + n" m] Cons.prems True \<open>drop i data = []\<close> show ?thesis by simp
    next
      case nd: False
      then have i: "i < ?len + n" "i \<noteq> ?len" using Cons.prems(3,5) by auto
      have "length (py_slice data i (int ?len - int i)) \<noteq> slice_stop n (int ?len - int i)"
        using i Cons.prems(1,4) False by (auto simp: py_slice_def slice_stop_def min_def)
      with False nd show ?thesis by (simp add: s Let_def)
    qed
  qed
qed simp

lemma set_loop_pages:
  assumes "0 < n" "\<forall>s \<in> set segs. msize s = n"
  shows "set_loop n data segs 0 m =
    (if n dvd length data \<or> n * length segs \<le> length data \<or> length segs \<le> 1
     then Inr (write_chunks n data segs m) else Inl ValueError)"
proof (cases segs)
  case (Cons s segs')
  have s: "msize s = n" using assms(2) Cons by simp
  have "py_slice data 0 (int (length data)) = data" "slice_stop n (int (length data)) = min n (length data)"
    "py_slice data 0 (int n) = take n data" "slice_stop n (int n) = n"
    by (auto simp: py_slice_def slice_stop_def min_def)
  then have "set_loop n data segs 0 m =
      set_loop n data segs' n (write_bytes m (vaddr s) (take n data))"
    by (simp add: Cons s Let_def)
  moreover have "n < length data + n \<or> n dvd length data" by (cases data) auto
  ultimately show ?thesis
    using set_loop_later [of n segs' n data] assms Cons by auto
qed simp

lemma read_write_chunks_separate:
  assumes "\<forall>s \<in> set segs. separate (vaddr s) n a k"
  shows "read_bytes (write_chunks n data segs m) a k = read_bytes m a k"
  using assms
proof (induction segs arbitrary: data m)
  case (Cons s segs)
  have "separate (vaddr s) (length (take n data)) a k"
    using Cons.prems by (auto simp: separate_def)
  with Cons show ?case by (simp add: read_write_separate)
qed simp

lemma read_write_chunks:
  assumes "sorted_wrt (\<lambda>a b. separate (vaddr a) n (vaddr b) n) segs" "length data \<le> n * length segs"
  shows "take (length data) (concat (map (\<lambda>s. read_bytes (write_chunks n data segs m) (vaddr s) n) segs)) = data"
  using assms
proof (induction segs arbitrary: data m)
  case (Cons s segs)
  let ?m1 = "write_bytes m (vaddr s) (take n data)"
  have first: "read_bytes (write_chunks n (drop n data) segs ?m1) (vaddr s) n = read_bytes ?m1 (vaddr s) n"
    using Cons.prems(1) by (intro read_write_chunks_separate) (auto simp: separate_sym)
  have "take (length data) (read_bytes ?m1 (vaddr s) n) = take n data"
    by (rule nth_equalityI) (auto simp: write_bytes_def)
  moreover have "take (length (drop n data)) (concat (map (\<lambda>s. read_bytes
      (write_chunks n (drop n data) segs ?m1) (vaddr s) n) segs)) = drop n data"
    using Cons.prems by (intro Cons.IH) auto
  ultimately show ?case using first by simp
qed simp

section \<open>What a PRP describes\<close>

text \<open>
  \<open>prp_describes m p ps\<close>: with the memory \<open>m\<close>, the object describes the data pages \<open>ps\<close>. One page needs only the first
  address. Otherwise the second address is that of a list page, which holds the addresses of the
  other pages and then zeros; the list of known locations may go on with locations at the address 0.
\<close>

definition prp_describes :: "memory \<Rightarrow> prp \<Rightarrow> mem_loc list \<Rightarrow> bool" where
  "prp_describes m p ps \<longleftrightarrow> ps \<noteq> [] \<and> 0 < mps p \<and> prp1 p = iova (hd ps) \<and>
     distinct (map iova ps) \<and> 0 \<notin> set (map iova ps) \<and> (\<forall>s \<in> set ps. msize s = mps p) \<and>
     sorted_wrt (\<lambda>a b. separate (vaddr a) (mps p) (vaddr b) (mps p)) ps \<and>
     (if length ps = 1 then mem_list p = ps \<and> prp2 p = 0
      else \<exists>l zs. mem_list p = hd ps # l # tl ps @ zs \<and> (\<forall>z \<in> set zs. iova z = 0) \<and>
        prp2 p = iova l \<and> 0 < iova l \<and> iova l \<notin> set (map iova ps) \<and>
        (\<forall>s \<in> set ps. separate (vaddr s) (mps p) (vaddr l) (mps p)) \<and>
        list_data m (vaddr l) (mps p) =
          map iova (tl ps) @ replicate (mps p div 8 - length (tl ps)) 0)"

lemma list_segments_zeros [simp]: "list_segments mems (replicate n 0) = Inr []"
  by (induction n) auto

lemma list_segments_append:
  "list_segments mems (xs @ ys) = bindR (list_segments mems xs) (\<lambda>a. bindR (list_segments mems ys) (\<lambda>b. Inr (a @ b)))"
  by (induction xs) (auto simp: Let_def bindR_def split: sum.splits)

lemma list_segments_known:
  assumes "distinct (map iova ps)" "0 \<notin> set (map iova ps)" "set qs \<subseteq> set ps"
    and "\<forall>x. x \<noteq> 0 \<longrightarrow> x \<in> set (map iova ps) \<longrightarrow> filter (\<lambda>p. iova p = x) mems = filter (\<lambda>p. iova p = x) ps"
  shows "list_segments mems (map iova qs) = Inr qs"
  using assms(3)
proof (induction qs)
  case (Cons q qs)
  have q: "q \<in> set ps" "iova q \<noteq> 0" using Cons.prems assms(2) by (auto simp: image_iff)
  have "filter (\<lambda>p. iova p = iova q) ps = [q]"
    using assms(1) q(1) by (induction ps) (auto simp: filter_empty_conv image_iff)
  with q assms(4) Cons show ?case by simp
qed simp

lemma page_segments_skip:
  "\<forall>x \<in> set pages. iova x \<noteq> prp1 p \<and> iova x \<noteq> prp2 p \<Longrightarrow> page_segments m p pages = Inr []"
  by (induction pages) auto

lemma get_data_segments_describes:
  assumes "prp_describes m p ps"
  shows "get_data_segments m p = Inr ps"
proof (cases "length ps = 1")
  case True
  then obtain q where "ps = [q]" by (auto simp: length_Suc_conv)
  with assms True show ?thesis by (auto simp: prp_describes_def get_data_segments_def)
next
  case False
  obtain q qs where ps: "ps = q # qs" using assms by (cases ps) (auto simp: prp_describes_def)
  obtain l zs where ml: "mem_list p = q # l # qs @ zs" and zs: "\<forall>z \<in> set zs. iova z = 0"
    and l: "prp2 p = iova l" "0 < iova l" "iova l \<notin> set (map iova ps)"
    and entries: "list_data m (vaddr l) (mps p) = map iova qs @ replicate (mps p div 8 - length qs) 0"
    using assms False by (auto simp: prp_describes_def ps)
  from assms have d: "distinct (map iova ps)" "0 \<notin> set (map iova ps)" "prp1 p = iova q"
    by (auto simp: prp_describes_def ps)
  have "filter (\<lambda>p. iova p = x) (mem_list p) = filter (\<lambda>p. iova p = x) ps"
    if "x \<noteq> 0" "x \<in> set (map iova ps)" for x
    using that l(3) zs by (auto simp: ml ps filter_empty_conv)
  then have "list_segments (mem_list p) (map iova qs) = Inr qs"
    by (intro list_segments_known [OF d(1,2)]) (auto simp: ps)
  then have list: "list_segments (mem_list p) (list_data m (vaddr l) (mps p)) = Inr qs"
    by (simp add: entries list_segments_append)
  have rest: "page_segments m p (qs @ zs) = Inr []"
    using d l zs by (intro page_segments_skip) (auto simp: ps image_iff)
  have "iova q \<noteq> iova l" using l(3) by (auto simp: ps)
  with list rest d(3) l(1) show ?thesis by (simp add: get_data_segments_def ml ps)
qed

lemma prp_describes_get:
  assumes "prp_describes m p ps"
  shows "get_data_buffer m p = Inr (concat (map (\<lambda>s. read_bytes m (vaddr s) (mps p)) ps))"
  using assms get_data_segments_describes [OF assms]
  by (simp add: get_data_buffer_def get_loop_pages prp_describes_def)

lemma prp_describes_set:
  assumes "prp_describes m p ps"
  shows "set_data_buffer m p data =
    (if mps p dvd length data \<or> mps p * length ps \<le> length data \<or> length ps = 1
     then Inr (write_chunks (mps p) data ps m) else Inl ValueError)"
proof -
  have "0 < mps p" "\<forall>s \<in> set ps. msize s = mps p" "length ps \<le> 1 \<longleftrightarrow> length ps = 1"
    using assms by (auto simp: prp_describes_def le_Suc_eq)
  then show ?thesis
    using get_data_segments_describes [OF assms] by (simp add: set_data_buffer_def set_loop_pages)
qed

lemma list_data_eqI: "read_bytes m' a n = read_bytes m a n \<Longrightarrow> list_data m' a n = list_data m a n"
proof -
  assume eq: "read_bytes m' a n = read_bytes m a n"
  have "m' x = m x" if "a \<le> x" "x < a + n" for x
    using eq that read_bytes_nth [of "x - a" n m' a] read_bytes_nth [of "x - a" n m a] by simp
  then have "read64 m' (a + 8 * i) = read64 m (a + 8 * i)" if "i < n div 8" for i
    using that unfolding read64_def by (intro arg_cong [of _ _ le_nat] read_bytes_eqI) auto
  then show ?thesis by (simp add: list_data_def)
qed

lemma prp_describes_write:
  assumes "prp_describes m p ps"
  shows "prp_describes (write_chunks (mps p) data ps m) p ps"
proof (cases "length ps = 1")
  case True
  with assms show ?thesis by (simp add: prp_describes_def)
next
  case False
  from assms False obtain l where "\<forall>s \<in> set ps. separate (vaddr s) (mps p) (vaddr l) (mps p)"
    and "mem_list p ! 1 = l" by (auto simp: prp_describes_def)
  then have "list_data (write_chunks (mps p) data ps m) (vaddr l) (mps p) = list_data m (vaddr l) (mps p)"
    by (intro list_data_eqI read_write_chunks_separate)
  with assms False \<open>mem_list p ! 1 = l\<close> show ?thesis unfolding prp_describes_def by auto
qed

section \<open>Allocation\<close>

context dma_memory
begin

lemma malloc_page_Inr:
  assumes "malloc_page malloc dir p m s = Inr (l, p', m', s')" "inv s" "0 < mps p"
  shows "p' = p\<lparr>mem_list := mem_list p @ [l]\<rparr> \<and> inv s' \<and> live s' = live s @ [l] \<and> msize l = mps p \<and>
    (\<forall>x \<in> set (live s). read_bytes m' (vaddr x) (msize x) = read_bytes m (vaddr x) (msize x)) \<and>
    read_bytes m' (vaddr l) (mps p) = zeros (mps p)"
proof -
  have a: "malloc m s (mps p) dir = Inr (l, m', s')" and p': "p' = p\<lparr>mem_list := mem_list p @ [l]\<rparr>"
    using assms(1) by (auto simp: malloc_page_def res_iffs)
  note inv = malloc_inv [OF assms(2,3) a]
  have "read_bytes m' (vaddr x) (msize x) = read_bytes m (vaddr x) (msize x)" if "x \<in> set (live s)" for x
    using malloc_keeps [OF assms(2,3) a] malloc_fresh [OF assms(2,3) a that] inv
    by (simp add: loc_separate_def)
  with inv p' show ?thesis using malloc_clears [OF assms(2,3) a] by (simp add: zeros_def)
qed

lemma malloc_page_Inl: "malloc_page malloc dir p m s = Inl e \<Longrightarrow> e = MemoryError"
  using malloc_error by (auto simp: malloc_page_def res_iffs)

lemma alloc_list_Inl:
  assumes "alloc_list malloc a i n rem p m s = Inl e" "0 < mps p" "inv s" "0 < rem"
  shows "e = MemoryError \<or> e = AssertionError \<and> int (n * mps p) < rem"
  using assms
proof (induction n arbitrary: i rem p m s)
  case (Suc n)
  show ?case
  proof (cases "malloc_page malloc (direction p) p m s")
    case (Inl e')
    with Suc.prems malloc_page_Inl show ?thesis by auto
  next
    case (Inr r)
    obtain l p1 m1 s1 where r: "malloc_page malloc (direction p) p m s = Inr (l, p1, m1, s1)"
      using Inr by (metis prod.exhaust)
    note page = malloc_page_Inr [OF r Suc.prems(3,2)]
    show ?thesis
    proof (cases "rem - int (mps p) \<le> 0")
      case True
      with Suc.prems(1) r page show ?thesis by simp
    next
      case False
      with Suc.prems(1) r page
      have "alloc_list malloc a (i + 1) n (rem - int (mps p)) p1 (write64 m1 (a + 8 * i) (iova l)) s1 = Inl e"
        by (simp add: Let_def)
      from Suc.IH [OF this] page Suc.prems(2) False show ?thesis by auto
    qed
  qed
qed auto

text \<open>
  The loop over a list page at \<open>a\<close>, which belongs to a live location: it appends as many pages as the
  remaining bytes need and stores their addresses in consecutive entries.
\<close>

lemma alloc_list_Inr:
  assumes "alloc_list malloc a i n rem p m s = Inr (p', m', s')" "0 < mps p" "inv s" "0 < rem"
    and "x \<in> set (live s)" "vaddr x = a" "msize x = mps p" "i + n < mps p div 8"
  shows "\<exists>ps. p' = p\<lparr>mem_list := mem_list p @ ps\<rparr> \<and> inv s' \<and> live s' = live s @ ps \<and>
    (\<forall>l \<in> set ps. msize l = mps p) \<and> length ps \<le> n \<and>
    int (length ps * mps p) < rem + int (mps p) \<and> rem \<le> int (length ps * mps p) \<and>
    (\<forall>j < mps p div 8. read64 m' (a + 8 * j) =
       (if i \<le> j \<and> j < i + length ps then iova (ps ! (j - i)) else read64 m (a + 8 * j)))"
  using assms
proof (induction n arbitrary: i rem p m s)
  case (Suc n)
  obtain l p1 m1 s1 where r: "malloc_page malloc (direction p) p m s = Inr (l, p1, m1, s1)"
    using Suc.prems(1) by (cases "malloc_page malloc (direction p) p m s") auto
  note page = malloc_page_Inr [OF r Suc.prems(3,2)]
  let ?m2 = "write64 m1 (a + 8 * i) (iova l)" and ?k = "mps p div 8"
  have "iova l < 2 ^ 64" using live_address [of s1 l] page by simp
  moreover have "read64 m1 (a + 8 * j) = read64 m (a + 8 * j)" if "j < ?k" for j
  proof -
    have "read_bytes m1 a (mps p) = read_bytes m a (mps p)" using page Suc.prems(5-7) by auto
    from list_data_eqI [OF this] that show ?thesis by (simp add: list_data_def list_eq_iff_nth_eq)
  qed
  ultimately have m2: "read64 ?m2 (a + 8 * j) = (if j = i then iova l else read64 m (a + 8 * j))"
    if "j < ?k" for j
    using that by (cases j i rule: linorder_cases) (auto simp: read64_write64_separate separate_def)
  show ?case
  proof (cases "rem - int (mps p) \<le> 0")
    case True
    then have "p' = p1 \<and> m' = ?m2 \<and> s' = s1" using Suc.prems(1) r page by (simp add: Let_def)
    with page m2 True Suc.prems(4) show ?thesis by (intro exI [of _ "[l]"]) auto
  next
    case False
    then have run: "alloc_list malloc a (i + 1) n (rem - int (mps p)) p1 ?m2 s1 = Inr (p', m', s')"
      using Suc.prems(1) r page by (simp add: Let_def)
    obtain ps where ps: "p' = p1\<lparr>mem_list := mem_list p1 @ ps\<rparr>" "inv s'" "live s' = live s1 @ ps"
      "\<forall>l \<in> set ps. msize l = mps p1" "length ps \<le> n"
      "int (length ps * mps p1) < rem - int (mps p) + int (mps p1)"
      "rem - int (mps p) \<le> int (length ps * mps p1)"
      "\<forall>j < mps p1 div 8. read64 m' (a + 8 * j) = (if i + 1 \<le> j \<and> j < i + 1 + length ps
          then iova (ps ! (j - (i + 1))) else read64 ?m2 (a + 8 * j))"
      using Suc.IH [OF run] Suc.prems page False by auto
    have "read64 m' (a + 8 * j) = (if i \<le> j \<and> j < i + length (l # ps) then iova ((l # ps) ! (j - i))
        else read64 m (a + 8 * j))" if "j < ?k" for j
      using ps(8) m2 [OF that] page that by (auto simp: nth_Cons' Suc_diff_le)
    with ps page show ?thesis
      by (intro exI [of _ "l # ps"]) (auto simp: algebra_simps)
  qed
qed simp

lemma prp_alloc_one:
  assumes "prp_alloc malloc p m s = Inr (p', m', s')" "inv s" "0 < mps p"
    and "pages_needed p = 1" "mem_list p = []" "prp2 p = 0"
  shows "inv s' \<and> live s' = live s @ mem_list p' \<and> mps p' = mps p \<and>
    (\<exists>ps. length ps = 1 \<and> prp_describes m' p' ps)"
proof -
  obtain l p1 m1 s1 where r: "malloc_page malloc (direction p) p m s = Inr (l, p1, m1, s1)"
    using assms(1,4) by (cases "malloc_page malloc (direction p) p m s") (auto simp: prp_alloc_def)
  note page = malloc_page_Inr [OF r assms(2,3)]
  have "p' = p1\<lparr>prp1_mem := Some l, prp1 := iova l\<rparr> \<and> m' = m1 \<and> s' = s1"
    using assms(1,4) r by (simp add: prp_alloc_def)
  with page assms(3,5,6) live_address [of s1 l] show ?thesis
    by (auto simp: prp_describes_def intro!: exI [of _ "[l]"])
qed

lemma prp_alloc_two:
  assumes "prp_alloc malloc p m s = Inr (p', m', s')" "inv s" "0 < mps p"
    and "pages_needed p = 2" "mem_list p = []"
  shows "inv s' \<and> live s' = live s @ mem_list p' \<and> mps p' = mps p \<and>
    (\<exists>a b. mem_list p' = [a, b] \<and> prp1 p' = iova a \<and> prp2 p' = iova b \<and> loc_separate a b \<and>
      msize a = mps p \<and> msize b = mps p \<and> read_bytes m' (vaddr b) (mps p) = zeros (mps p))"
proof -
  obtain l1 p1 m1 s1 where r1: "malloc_page malloc (direction p) p m s = Inr (l1, p1, m1, s1)"
    using assms(1,4) by (cases "malloc_page malloc (direction p) p m s") (auto simp: prp_alloc_def)
  note page1 = malloc_page_Inr [OF r1 assms(2,3)]
  obtain l2 p2 m2 s2 where r2: "malloc_page malloc (direction p1) p1 m1 s1 = Inr (l2, p2, m2, s2)"
    using assms(1,4) r1 by (cases "malloc_page malloc (direction p1) p1 m1 s1") (auto simp: prp_alloc_def)
  have page2: "p2 = p1\<lparr>mem_list := mem_list p1 @ [l2]\<rparr> \<and> inv s2 \<and> live s2 = live s1 @ [l2] \<and>
      msize l2 = mps p \<and> read_bytes m2 (vaddr l2) (mps p) = zeros (mps p)"
    using malloc_page_Inr [OF r2] page1 assms(3) by auto
  have "p' = p2\<lparr>prp1_mem := Some l1, prp1 := iova l1, prp2_mem := Some l2, prp2 := iova l2\<rparr> \<and>
      m' = m2 \<and> s' = s2"
    using assms(1,4) r1 r2 by (simp add: prp_alloc_def)
  moreover have "loc_separate l1 l2"
    using live_separate [of s2] page1 page2 by (simp add: sorted_wrt_append)
  ultimately show ?thesis using page1 page2 assms(5) by simp
qed

lemma prp_alloc_many:
  assumes "prp_alloc malloc p m s = Inr (p', m', s')" "inv s" "0 < mps p"
    and "2 < pages_needed p" "mem_list p = []" "mps p < num_bytes p"
    and "prps_per_page p < mps p div 8"
  shows "inv s' \<and> live s' = live s @ mem_list p' \<and> mps p' = mps p \<and>
    (\<exists>ps. length ps = ceil_div (num_bytes p) (mps p) \<and> length ps \<le> prps_per_page p + 1 \<and>
      prp_describes m' p' ps)"
proof -
  let ?rem = "int (num_bytes p) - int (mps p)" and ?k = "mps p div 8"
  obtain l1 p1 m1 s1 where r1: "malloc_page malloc (direction p) p m s = Inr (l1, p1, m1, s1)"
    using assms(1,4) by (cases "malloc_page malloc (direction p) p m s") (auto simp: prp_alloc_def)
  note page1 = malloc_page_Inr [OF r1 assms(2,3)]
  obtain l2 p2 m2 s2 where r2: "malloc_page malloc HOST_TO_DEVICE p1 m1 s1 = Inr (l2, p2, m2, s2)"
    using assms(1,4) r1 by (cases "malloc_page malloc HOST_TO_DEVICE p1 m1 s1") (auto simp: prp_alloc_def)
  have page2: "p2 = p1\<lparr>mem_list := mem_list p1 @ [l2]\<rparr> \<and> inv s2 \<and> live s2 = live s1 @ [l2] \<and>
      msize l2 = mps p \<and> read_bytes m2 (vaddr l2) (mps p) = zeros (mps p)"
    using malloc_page_Inr [OF r2] page1 assms(3) by auto
  define q where "q = p2\<lparr>prp1_mem := Some l1, prp1 := iova l1, prp2_mem := Some l2, prp2 := iova l2\<rparr>"
  have q: "mps q = mps p" "mem_list q = [l1, l2]" "prp1 q = iova l1" "prp2 q = iova l2"
    "prps_per_page q = prps_per_page p"
    using page1 page2 assms(5) by (simp_all add: q_def)
  have run: "alloc_list malloc (vaddr l2) 0 (prps_per_page q) ?rem q m2 s2 = Inr (p', m', s')"
    using assms(1,4) r1 r2 page1 page2 by (simp add: prp_alloc_def q_def Let_def)
  obtain ps where ps: "p' = q\<lparr>mem_list := mem_list q @ ps\<rparr>" "inv s'" "live s' = live s2 @ ps"
    "\<forall>l \<in> set ps. msize l = mps q" "length ps \<le> prps_per_page q"
    "int (length ps * mps q) < ?rem + int (mps q)" "?rem \<le> int (length ps * mps q)"
    "\<forall>j < mps q div 8. read64 m' (vaddr l2 + 8 * j) = (if 0 \<le> j \<and> j < 0 + length ps
        then iova (ps ! (j - 0)) else read64 m2 (vaddr l2 + 8 * j))"
    using alloc_list_Inr [OF run, of l2] page2 q assms(3,6,7) by auto
  have live': "live s' = live s @ l1 # l2 # ps" using ps(3) page1 page2 by simp
  have sep: "sorted_wrt loc_separate (l1 # l2 # ps)"
    using live_separate [OF ps(2)] by (simp add: live' sorted_wrt_append)
  have addr: "0 < iova l" if "l \<in> set (l1 # l2 # ps)" for l
    using live_address [OF ps(2), of l] that by (auto simp: live')
  have size: "\<forall>l \<in> set (l1 # l2 # ps). msize l = mps p" using ps(4) page1 page2 q(1) by auto
  have "list_data m2 (vaddr l2) (mps p) = list_data (\<lambda>_. 0) (vaddr l2) (mps p)"
    using page2 by (intro list_data_eqI) (simp add: zeros_def read_bytes_def map_replicate_const)
  then have zero: "read64 m2 (vaddr l2 + 8 * j) = 0" if "j < ?k" for j
    using that by (simp add: list_data_def list_eq_iff_nth_eq read64_def read_bytes_def map_replicate_const)
  have entries: "list_data m' (vaddr l2) (mps p) = map iova ps @ replicate (?k - length ps) 0"
    using ps(5,8) q zero assms(7) by (intro nth_equalityI) (auto simp: list_data_def nth_append)
  have "prp_describes m' p' (l1 # ps)"
  proof -
    have "distinct (map iova (l1 # l2 # ps))"
      by (rule separate_distinct_iova [OF sep])
    moreover have "sorted_wrt (\<lambda>a b. separate (vaddr a) (mps p) (vaddr b) (mps p)) (l1 # l2 # ps)"
    proof (rule sorted_wrt_mono_rel [OF _ sep])
      fix a b
      assume ab: "a \<in> set (l1 # l2 # ps)" "b \<in> set (l1 # l2 # ps)" "loc_separate a b"
      have "msize a = mps p" "msize b = mps p" using bspec [OF size] ab by blast+
      with ab(3) show "separate (vaddr a) (mps p) (vaddr b) (mps p)" by (simp add: loc_separate_def)
    qed
    moreover have "ps \<noteq> []" using ps(7) assms(3,6) by auto
    ultimately show ?thesis
      using q ps(1) entries addr size assms(3) unfolding prp_describes_def
      by (auto simp: image_iff separate_sym)
  qed
  moreover have "length (l1 # ps) = ceil_div (num_bytes p) (mps p)"
  proof (rule order_antisym)
    have "int (num_bytes p) \<le> int (length (l1 # ps) * mps p)" using ps(7) q(1) by (simp add: algebra_simps)
    then show "ceil_div (num_bytes p) (mps p) \<le> length (l1 # ps)"
      using assms(3) by (simp only: ceil_div_le_iff zle_int)
    have "length ps * mps p < num_bytes p" using ps(6) q(1) by (simp flip: of_nat_mult)
    then have "\<not> ceil_div (num_bytes p) (mps p) \<le> length ps" using assms(3) by (simp add: ceil_div_le_iff)
    then show "length (l1 # ps) \<le> ceil_div (num_bytes p) (mps p)" by simp
  qed
  ultimately show ?thesis using ps(1,2,5) q live' by (intro conjI exI [of _ "l1 # ps"]) auto
qed

text \<open>The outcome of the constructor.\<close>

lemma new_prp_Inr:
  assumes "new_prp malloc nb n dir m s = Inr (p, m', s')" "inv s" "16 \<le> n"
  shows "inv s' \<and> live s' = live s @ mem_list p \<and> mps p = n \<and> 0 < nb \<and>
    (if ceil_div nb n = 2
     then \<exists>a b. mem_list p = [a, b] \<and> prp1 p = iova a \<and> prp2 p = iova b \<and> loc_separate a b \<and>
       msize a = n \<and> msize b = n \<and> read_bytes m' (vaddr b) n = zeros n
     else ceil_div nb n \<le> n div 8 \<and> (\<exists>ps. length ps = ceil_div nb n \<and> prp_describes m' p ps))"
proof -
  obtain q where init: "prp_init nb n dir = Inr q" and run: "prp_alloc malloc q m s = Inr (p, m', s')"
    using assms(1) by (auto simp: new_prp_def res_iffs)
  have q: "mps q = n" "num_bytes q = nb" "mem_list q = []" "prp2 q = 0" "prps_per_page q = n div 8 - 1"
    "pages_needed q = ceil_div nb n +
       (if ceil_div nb n > 2 then ceil_div (ceil_div nb n - 1) (n div 8 - 1) else 0)"
    and pos: "0 < ceil_div nb n"
    using init by (auto simp: prp_init_def res_iffs Let_def)
  have n: "0 < n" "2 \<le> n div 8" using assms(3) by auto
  have nb: "0 < nb" using pos n(1) by (cases nb) (auto simp: ceil_div_def)
  have bound: "x \<le> k \<longleftrightarrow> nb \<le> k * n" if "x = ceil_div nb n" for x k
    using that n(1) ceil_div_le_iff by simp
  consider "ceil_div nb n = 1" | "ceil_div nb n = 2" | "2 < ceil_div nb n" using pos by linarith
  then show ?thesis
  proof cases
    case 1
    with prp_alloc_one [OF run assms(2)] q n nb show ?thesis by auto
  next
    case 2
    with prp_alloc_two [OF run assms(2)] q n nb show ?thesis by auto
  next
    case 3
    have "2 < pages_needed q" "n < nb" using 3 q bound [OF refl, of 1] by auto
    with prp_alloc_many [OF run assms(2)] q n nb 3 show ?thesis by auto
  qed
qed

lemma new_prp_Inl:
  assumes "new_prp malloc nb n dir m s = Inl e" "inv s" "16 \<le> n"
  shows "e = MemoryError \<or> e = AssertionError \<and> (nb = 0 \<or> 2 < ceil_div nb n \<and> n div 8 < ceil_div nb n)"
proof (cases "prp_init nb n dir")
  case (Inl e')
  with assms show ?thesis
    using ceil_div_pos [of n nb] by (auto simp: new_prp_def prp_init_def Let_def res_iffs)
next
  case (Inr q)
  then have run: "prp_alloc malloc q m s = Inl e" using assms(1) by (simp add: new_prp_def)
  have q: "mps q = n" "num_bytes q = nb" "prps_per_page q = n div 8 - 1"
    "pages_needed q = ceil_div nb n +
       (if ceil_div nb n > 2 then ceil_div (ceil_div nb n - 1) (n div 8 - 1) else 0)"
    and pos: "0 < ceil_div nb n"
    using Inr by (auto simp: prp_init_def res_iffs Let_def)
  have n: "0 < n" "2 \<le> n div 8" using assms(3) by auto
  show ?thesis
  proof (cases "e = MemoryError")
    case False
    note page = malloc_page_Inl
    have big: "2 < ceil_div nb n"
      using run False q pos page by (auto simp: prp_alloc_def res_iffs split: if_splits)
    then have pn: "pages_needed q \<noteq> 1" "pages_needed q \<noteq> 2" using q by auto
    from run pn False obtain l1 p1 m1 s1 l2 p2 m2 s2 where
      r1: "malloc_page malloc (direction q) q m s = Inr (l1, p1, m1, s1)" and
      r2: "malloc_page malloc HOST_TO_DEVICE p1 m1 s1 = Inr (l2, p2, m2, s2)" and
      r3: "alloc_list malloc (vaddr l2) 0 (prps_per_page p2) (int nb - int n)
        (p2\<lparr>prp1_mem := Some l1, prp1 := iova l1, prp2_mem := Some l2, prp2 := iova l2\<rparr>) m2 s2 = Inl e"
      using q malloc_page_Inr [OF _ assms(2)] n
      by (fastforce simp: prp_alloc_def bindR_eq_Inl_iff Let_def dest: page)
    note page1 = malloc_page_Inr [OF r1 assms(2)]
    have page2: "p2 = p1\<lparr>mem_list := mem_list p1 @ [l2]\<rparr> \<and> inv s2"
      using malloc_page_Inr [OF r2] page1 q n by auto
    have "\<not> ceil_div nb n \<le> 1" using big by simp
    then have "n < nb" using ceil_div_le_iff [of n nb 1] n by simp
    then have "e = AssertionError" "int ((n div 8 - 1) * n) < int nb - int n"
      using alloc_list_Inl [OF r3] False page1 page2 q n by auto
    moreover from this(2) have "(n div 8 - 1) * n + n < nb" by linarith
    then have "n div 8 * n < nb" using n by (cases "n div 8") auto
    then have "n div 8 < ceil_div nb n" using ceil_div_le_iff [of n nb "n div 8"] n by simp
    ultimately show ?thesis using big by simp
  qed simp
qed

end

end
