(* ===== verification/PRP_Transfer.thy ===== *)
theory PRP_Transfer
  imports PRP
begin

text \<open>
  Transfers through PRPs: the device rebuilds the description of a buffer from the two addresses of a command and finds
  the pages the host allocated. The properties are those of a host that allocates with
  the manager of the simulator, where a bus address is a virtual address.
\<close>

section \<open>The device's view\<close>

lemma list_data_less: "d \<in> set (list_data m a k) \<Longrightarrow> d < 2 ^ 64"
  using read64_less by (auto simp: list_data_def)

lemma from_address_describes:
  assumes d: "prp_describes m p ps" and same: "\<forall>s \<in> set (mem_list p). vaddr s = iova s"
    and init: "prp_init nb (mps p) dir = Inr q" and len: "length ps = ceil_div nb (mps p)" "length ps \<noteq> 2"
  shows "\<exists>q'. from_address m q (prp1 p) (prp2 p) = Inr q' \<and> mps q' = mps p \<and> prp_describes m q' ps"
proof -
  have q: "mps q = mps p" "mem_list q = []" "prp2 q = 0" "pages_needed q = length ps +
      (if length ps > 2 then ceil_div (length ps - 1) (mps p div 8 - 1) else 0)"
    using init len(1) by (auto simp: prp_init_def res_iffs Let_def)
  have p1: "prp1 p = iova (hd ps)" "ps \<noteq> []" "prp1 p \<noteq> 0"
    using d by (auto simp: prp_describes_def image_iff intro: hd_in_set)
  have loc: "at_address (iova s) (mps p) = s" if "s \<in> set ps" "s \<in> set (mem_list p)" for s
    using d same that by (auto simp: prp_describes_def at_address_def intro!: mem_loc.equality)
  show ?thesis
  proof (cases "length ps = 1")
    case True
    then have "mem_list p = ps" "at_address (prp1 p) (mps p) = hd ps" "ps = [hd ps]"
      using d p1 loc [of "hd ps"] by (auto simp: prp_describes_def length_Suc_conv)
    with True p1 q d show ?thesis by (auto simp: from_address_def Let_def prp_describes_def)
  next
    case False
    then obtain l zs where l: "mem_list p = hd ps # l # tl ps @ zs" "prp2 p = iova l" "0 < iova l"
      "iova l \<notin> set (map iova ps)" "\<forall>s \<in> set ps. separate (vaddr s) (mps p) (vaddr l) (mps p)"
      "list_data m (vaddr l) (mps p) = map iova (tl ps) @ replicate (mps p div 8 - length (tl ps)) 0"
      using d by (auto simp: prp_describes_def)
    have many: "2 < length ps" using False len(2) p1(2) length_greater_0_conv [of ps] by linarith
    let ?l = "at_address (prp2 p) (mps p)" and ?k = "mps p div 8 - length (tl ps)"
    have vl: "vaddr l = iova l" using same l(1) by simp
    have "hd ps \<in> set ps" using p1(2) by simp
    then have h: "at_address (prp1 p) (mps p) = hd ps" using loc [of "hd ps"] l(1) p1(1) by simp
    have t: "map (\<lambda>a. at_address a (mps p)) (map iova (tl ps)) = tl ps"
      using loc l(1) list.set_sel(2) [OF p1(2)] by (simp add: map_idI)
    obtain q' where q': "from_address m q (prp1 p) (prp2 p) = Inr q'" "mps q' = mps p"
      "prp1 q' = prp1 p" "prp2 q' = prp2 p"
      "mem_list q' = hd ps # ?l # tl ps @ map (\<lambda>a. at_address a (mps p)) (replicate ?k 0)"
      using q p1 l(2,3,6) many h t vl by (auto simp: from_address_def Let_def at_address_def)
    have "prp_describes m q' ps"
      using d q' l(2-6) False vl unfolding prp_describes_def
      by (auto simp: at_address_def intro!: exI [of _ ?l])
    with q' show ?thesis by blast
  qed
qed

section \<open>Host and simulated device\<close>

lemma sim_addresses: "sim_inv s \<Longrightarrow> live = allocated_mem_list s \<Longrightarrow> x \<in> set live \<Longrightarrow> vaddr x = iova x"
  by (simp add: sim_inv_def)

lemma prp_describes_pages:
  "prp_describes m p ps \<Longrightarrow> sorted_wrt (\<lambda>a b. separate (vaddr a) (mps p) (vaddr b) (mps p)) ps"
  by (simp add: prp_describes_def)

lemma prp_describes_list:
  assumes "prp_describes m p ps" "length ps \<noteq> 1" "\<forall>s \<in> set (mem_list p). vaddr s = iova s"
  shows "list_data m (prp2 p) (mps p) = map iova (tl ps) @ replicate (mps p div 8 - length (tl ps)) 0"
proof -
  obtain l zs where "mem_list p = hd ps # l # tl ps @ zs" "prp2 p = iova l" and
    "list_data m (vaddr l) (mps p) = map iova (tl ps) @ replicate (mps p div 8 - length (tl ps)) 0"
    using assms(1,2) by (auto simp: prp_describes_def)
  with assms(3) show ?thesis by simp
qed

lemma enough_pages: "0 < n \<Longrightarrow> nb \<le> n * ceil_div nb n"
  using ceil_div_le_iff [of n nb "ceil_div nb n"] by (simp add: mult.commute)

text \<open>One page, or a whole number of pages: the lengths that \<open>set_data_buffer\<close> accepts.\<close>

lemma whole_or_one:
  assumes "0 < n" "0 < nb" "nb \<le> n \<or> n dvd nb"
  shows "n dvd nb \<or> ceil_div nb n = 1"
  using assms ceil_div_le_iff [of n nb 1] ceil_div_pos [of n nb] by auto

lemma sim_prp_roundtrip:
  assumes "sim_inv s" "16 \<le> n" "new_prp sim_malloc nb n dir m s = Inr (p, m1, s1)"
    and "ceil_div nb n \<noteq> 2" "nb \<le> n \<or> n dvd nb" "length data = nb"
  shows "\<exists>q m2. bindR (prp_init nb n dir') (\<lambda>q. from_address m1 q (prp1 p) (prp2 p)) = Inr q \<and>
    set_data_buffer m1 p data = Inr m2 \<and> set_data_buffer m1 q data = Inr m2 \<and>
    bindR (prp_init nb n dir') (\<lambda>q. from_address m2 q (prp1 p) (prp2 p)) = Inr q \<and>
    (\<exists>buf. get_data_buffer m2 p = Inr buf \<and> get_data_buffer m2 q = Inr buf \<and> take nb buf = data)"
proof -
  note res = sim.new_prp_Inr [OF assms(3,1,2)]
  then obtain ps where ps: "length ps = ceil_div nb n" "prp_describes m1 p ps" and p: "mps p = n" "0 < nb"
    using assms(4) by auto
  have n: "0 < n" using assms(2) by simp
  define m2 where "m2 = write_chunks n data ps m1"
  have same: "\<forall>s \<in> set (mem_list p). vaddr s = iova s"
    using res by (auto intro: sim_addresses [of s1])
  have set_p: "set_data_buffer m1 p data = Inr m2"
    using prp_describes_set [OF ps(2), of data] whole_or_one [OF n p(2) assms(5)] assms(6) p ps(1)
    by (auto simp: m2_def)
  have d2: "prp_describes m2 p ps" using prp_describes_write [OF ps(2), of data] p by (simp add: m2_def)
  obtain q0 where init: "prp_init nb n dir' = Inr q0"
    using ceil_div_pos [OF n p(2)] by (simp add: prp_init_def Let_def)
  obtain q where q: "from_address m1 q0 (prp1 p) (prp2 p) = Inr q" "mps q = n" "prp_describes m1 q ps"
    using from_address_describes [OF ps(2) same, of nb dir' q0] init p ps(1) assms(4) by auto
  obtain q2 where q2: "from_address m2 q0 (prp1 p) (prp2 p) = Inr q2" "mps q2 = n" "prp_describes m2 q2 ps"
    using from_address_describes [OF d2 same, of nb dir' q0] init p ps(1) assms(4) by auto
  have "q2 = q"
  proof (cases "ceil_div nb n = 1")
    case True
    with init q(1) q2(1) show ?thesis by (auto simp: from_address_def prp_init_def Let_def res_iffs)
  next
    case False
    then have "list_data m1 (prp2 p) n = list_data m2 (prp2 p) n"
      using prp_describes_list [OF ps(2) _ same] prp_describes_list [OF d2 _ same] ps(1) p by simp
    then have "from_address m2 q0 (prp1 p) (prp2 p) = from_address m1 q0 (prp1 p) (prp2 p)"
      using init by (auto simp: from_address_def at_address_def prp_init_def Let_def res_iffs bindR_def
          split: sum.splits)
    with q(1) q2(1) show ?thesis by simp
  qed
  have set_q: "set_data_buffer m1 q data = Inr m2"
    using prp_describes_set [OF q(3), of data] whole_or_one [OF n p(2) assms(5)] assms(6) q(2) ps(1)
    by (auto simp: m2_def)
  let ?buf = "concat (map (\<lambda>s. read_bytes m2 (vaddr s) n) ps)"
  have "take nb ?buf = data"
    using read_write_chunks [of n ps data m1] prp_describes_pages [OF ps(2)] enough_pages [OF n, of nb]
      assms(6) p ps(1) by (simp add: m2_def)
  moreover have "get_data_buffer m2 p = Inr ?buf" "get_data_buffer m2 q = Inr ?buf"
    using prp_describes_get [OF d2] prp_describes_get [OF q2(3)] p q2(2) by (simp_all add: \<open>q2 = q\<close>)
  ultimately show ?thesis using set_p set_q init q(1) q2(1) by (auto simp: \<open>q2 = q\<close>)
qed

text \<open>Three pages of 32 bytes from the example heap.\<close>

lemma example_bump_heap:
  "bump_heap [] 32 = Some 4096"
  "bump_heap [\<lparr>vaddr = 4096, iova = 4096, msize = 32\<rparr>] 32 = Some 12288"
  "bump_heap [\<lparr>vaddr = 4096, iova = 4096, msize = 32\<rparr>, \<lparr>vaddr = 12288, iova = 12288, msize = 32\<rparr>] 32 =
     Some 20480"
  "bump_heap [\<lparr>vaddr = 4096, iova = 4096, msize = 32\<rparr>, \<lparr>vaddr = 12288, iova = 12288, msize = 32\<rparr>,
     \<lparr>vaddr = 20480, iova = 20480, msize = 32\<rparr>] 32 = Some 28672"
  by (simp_all add: bump_heap_def ceil_div_def Let_def)

lemma example_prp_init:
  "prp_init 96 32 dir = Inr \<lparr>num_bytes = 96, mps = 32, direction = dir, prp1 = 0, prp1_mem = None,
     prp2 = 0, prp2_mem = None, mem_list = [], prps_per_page = 3, pages_needed = 4, lists_needed = 1\<rparr>"
  by (simp add: prp_init_def ceil_div_def Let_def)

lemmas alloc_list_3 = alloc_list.simps(2) [where n = 2, simplified Suc_numeral semiring_norm]
lemmas alloc_list_2 = alloc_list.simps(2) [where n = 1, simplified Suc_1]
lemmas example_prp_simps = new_prp_def prp_alloc_def malloc_page_def sim_malloc_def new_sim_mem_mgr_def
  example_bump_heap Let_def alloc_list_3 alloc_list_2

lemma example_prp_alloc:
  "\<exists>p m s. new_prp sim_malloc 96 32 dir (\<lambda>_. 0) (new_sim_mem_mgr 32 bump_heap) = Inr (p, m, s)"
  by (simp add: example_prp_simps example_prp_init del: alloc_list.simps)

lemma example_sim_inv: "sim_inv (new_sim_mem_mgr n bump_heap)"
  by (rule sim_inv_new [OF ctypes_heap_bump])





text \<open>
  \<open>set_data_buffer\<close> on a described buffer succeeds exactly when the data is a whole number of pages, or fills
  the buffer, or the buffer is one page; otherwise, with several pages and a partly filled last one, it raises a
  \<open>ValueError\<close>, because the truncation of a later segment miscounts.
\<close>

theorem set_data_buffer_exact:
  assumes "prp_describes m p ps"
  shows "case set_data_buffer m p data of
      Inl e \<Rightarrow> e = ValueError \<and> 1 < length ps \<and> \<not> mps p dvd length data \<and> length data < mps p * length ps
    | Inr m' \<Rightarrow> (length ps = 1 \<or> mps p dvd length data \<or> mps p * length ps \<le> length data) \<and>
        prp_describes m' p ps \<and>
        (length data \<le> mps p * length ps \<longrightarrow>
          (\<exists>buf. get_data_buffer m' p = Inr buf \<and> take (length data) buf = data))"
proof -
  have "1 < length ps \<longleftrightarrow> length ps \<noteq> 1" using assms by (cases ps) (auto simp: prp_describes_def)
  moreover have "get_data_buffer (write_chunks (mps p) data ps m) p = Inr (concat (map (\<lambda>s.
      read_bytes (write_chunks (mps p) data ps m) (vaddr s) (mps p)) ps))"
    by (rule prp_describes_get [OF prp_describes_write [OF assms]])
  ultimately show ?thesis
    using prp_describes_set [OF assms, of data] prp_describes_write [OF assms, of data]
      read_write_chunks [of "mps p" ps data m] prp_describes_pages [OF assms] by auto
qed

lemma set_data_buffer_exact_witness:
  "\<exists>p m1 s1. new_prp sim_malloc 96 32 HOST_TO_DEVICE (\<lambda>_. 0) (new_sim_mem_mgr 32 bump_heap) = Inr (p, m1, s1) \<and>
    set_data_buffer m1 p (replicate 90 7) = Inl ValueError"
proof -
  obtain p m1 s1 where new: "new_prp sim_malloc 96 32 HOST_TO_DEVICE (\<lambda>_. 0) (new_sim_mem_mgr 32 bump_heap) =
      Inr (p, m1, s1)"
    using example_prp_alloc by blast
  have c: "ceil_div 96 32 = 3" by (simp add: ceil_div_def)
  obtain ps where "length ps = 3" "prp_describes m1 p ps" "mps p = 32"
    using sim.new_prp_Inr [OF new example_sim_inv] by (auto simp: c)
  with set_data_buffer_exact [of m1 p ps "replicate 90 7"] new show ?thesis
    by (cases "set_data_buffer m1 p (replicate 90 7)") auto
qed

text \<open>
  A buffer of exactly two pages loses its second page: \<open>get_data_segments\<close> takes the second data page for a list
  of addresses, finds zeros in it and passes over it, so \<open>set_data_buffer\<close> stores only the first page, without an error.
\<close>

theorem two_page_buffer_loses_second:
  assumes "sim_inv s" "16 \<le> n" "new_prp sim_malloc nb n dir m s = Inr (p, m1, s1)"
    and "ceil_div nb n = 2" "length data = 2 * n"
  shows "\<exists>a b m2. mem_list p = [a, b] \<and> set_data_buffer m1 p data = Inr m2 \<and>
    get_data_buffer m2 p = Inr (take n data) \<and> read_bytes m2 (vaddr b) n = zeros n"
proof -
  obtain a b where p: "mem_list p = [a, b]" "prp1 p = iova a" "prp2 p = iova b" "mps p = n"
    and ab: "loc_separate a b" "msize a = n" "msize b = n" "read_bytes m1 (vaddr b) n = zeros n"
    using sim.new_prp_Inr [OF assms(3,1,2)] assms(4) by auto
  have segs: "get_data_segments m' p = Inr [a]" if "read_bytes m' (vaddr b) n = zeros n" for m'
  proof -
    have "list_data m' (vaddr b) n = list_data (\<lambda>_. 0) (vaddr b) n"
      using that by (intro list_data_eqI) (simp add: zeros_def read_bytes_def map_replicate_const)
    also have "\<dots> = replicate (n div 8) 0"
      by (simp add: list_data_def read64_def read_bytes_def map_replicate_const)
    finally show ?thesis using p ab(1) by (simp add: get_data_segments_def loc_separate_def)
  qed
  define m2 where "m2 = write_bytes m1 (vaddr a) (take n data)"
  have z: "read_bytes m2 (vaddr b) n = zeros n"
    using ab assms(5) by (simp add: m2_def read_write_separate loc_separate_def)
  have "set_loop n data [a] 0 m1 = Inr m2"
    using set_loop_pages [of n "[a]" data m1] ab(2) assms(2,5) by (simp add: m2_def)
  then have "set_data_buffer m1 p data = Inr m2"
    using segs [OF ab(4)] p(4) by (simp add: set_data_buffer_def)
  moreover have "get_data_buffer m2 p = Inr (take n data)"
    using segs [OF z] p(4) get_loop_pages [of "[a]" n "[]" 0 m2] ab(2) assms(5)
    by (simp add: get_data_buffer_def m2_def)
  ultimately show ?thesis using p(1) z by blast
qed

lemma two_page_buffer_loses_second_witness:
  "\<exists>p m1 s1 m2. new_prp sim_malloc 64 32 HOST_TO_DEVICE (\<lambda>_. 0) (new_sim_mem_mgr 32 bump_heap) = Inr (p, m1, s1) \<and>
    set_data_buffer m1 p (replicate 64 7) = Inr m2 \<and> get_data_buffer m2 p = Inr (replicate 32 7)"
proof -
  obtain p m1 s1 where new: "new_prp sim_malloc 64 32 HOST_TO_DEVICE (\<lambda>_. 0) (new_sim_mem_mgr 32 bump_heap) =
      Inr (p, m1, s1)"
    by (simp add: example_prp_simps prp_init_def ceil_div_def)
  have "ceil_div 64 32 = 2" by (simp add: ceil_div_def)
  from two_page_buffer_loses_second [OF example_sim_inv _ new this, of "replicate 64 7"] new
  show ?thesis by auto
qed

section \<open>Giving the memory back\<close>

fun evens :: "'a list \<Rightarrow> 'a list" where
  "evens (x # y # xs) = x # evens xs"
| "evens xs = xs"

fun odds :: "'a list \<Rightarrow> 'a list" where
  "odds (x # y # xs) = y # odds xs"
| "odds xs = []"

lemma free_loop_distinct:
  "distinct (pre @ xs) \<Longrightarrow> free_loop (length pre) (pre @ xs) = (pre @ odds xs, evens xs)"
proof (induction xs arbitrary: pre rule: evens.induct)
  case (1 x y xs)
  have "free_loop (length pre) (pre @ x # y # xs) =
      (let (rest, freed) = free_loop (length (pre @ [y])) ((pre @ [y]) @ xs) in (rest, x # freed))"
    using 1(2) by (subst free_loop.simps) (simp add: remove1_append nth_append)
  with 1(1) [of "pre @ [y]"] 1(2) show ?case by auto
qed (subst free_loop.simps, simp add: remove1_append nth_append free_loop.simps)+

lemma length_evens: "length (evens xs) = (length xs + 1) div 2"
  by (induction xs rule: evens.induct) auto

text \<open>
  \<open>free_all_memory\<close> gives back only every other location: it removes entries from the list it iterates over, so
  the locations at odd positions stay allocated and stay in the list.
\<close>

theorem free_all_memory_half:
  assumes "distinct (mem_list p)"
  shows "free_all_memory p = (p\<lparr>mem_list := odds (mem_list p)\<rparr>, evens (mem_list p)) \<and>
    length (snd (free_all_memory p)) = (length (mem_list p) + 1) div 2"
  using free_loop_distinct [of "[]" "mem_list p"] assms
  by (simp add: free_all_memory_def length_evens)

lemma free_all_memory_half_witness:
  "\<exists>p m1 s1 a b. new_prp sim_malloc 64 32 HOST_TO_DEVICE (\<lambda>_. 0) (new_sim_mem_mgr 32 bump_heap) = Inr (p, m1, s1) \<and>
    mem_list p = [a, b] \<and> snd (free_all_memory p) = [a]"
proof -
  obtain p m1 s1 where new: "new_prp sim_malloc 64 32 HOST_TO_DEVICE (\<lambda>_. 0) (new_sim_mem_mgr 32 bump_heap) =
      Inr (p, m1, s1)"
    by (simp add: example_prp_simps prp_init_def ceil_div_def)
  have "ceil_div 64 32 = 2" by (simp add: ceil_div_def)
  with sim.new_prp_Inr [OF new example_sim_inv] obtain a b where ab: "mem_list p = [a, b]" "loc_separate a b"
    by auto
  then have "a \<noteq> b" by (auto simp: loc_separate_def)
  with free_all_memory_half [of p] ab new show ?thesis by auto
qed

end
