(* ===== verification/Lba_Gen.thy ===== *)
theory Lba_Gen
  imports Prelude
begin

text \<open>
  The generator of random logical block addresses (\<open>LBARandGenLFSR\<close> in
  \<open>lone/util/lba_gen.py\<close>): a linear feedback shift register whose values above the limit
  are dropped, and the iterator over it. The recursion that drops values has fuel; \<open>num_bits + 1\<close> calls are shown
  to be enough.
\<close>

section \<open>The generator\<close>

record lfsr =
  max_lba :: nat
  num_blocks_per_io :: nat
  initial_state :: nat
  max_value :: nat
  num_bits :: nat
  taps :: "nat list"
  lfsr_state :: nat
  period :: nat
  complete :: bool

text \<open>The number of binary digits, \<open>len(bin(n)[2:])\<close>.\<close>

fun bit_length :: "nat \<Rightarrow> nat" where
  "bit_length n = (if n < 2 then 1 else Suc (bit_length (n div 2)))"

declare bit_length.simps [simp del]

text \<open>The polynomials of \<open>get_lfsr_func\<close>, as they stand in the inner lists.\<close>

definition polys :: "(nat \<times> nat list) list" where
  "polys =
    [(5, [5, 4, 3, 2]),
     (6, [6, 5, 3, 2]),
     (7, [7, 6, 5, 4]),
     (8, [8, 6, 5, 4]),
     (9, [9, 8, 6, 5]),
     (10, [10, 9, 7, 6]),
     (11, [11, 10, 9, 7]),
     (12, [12, 11, 8, 6]),
     (13, [13, 12, 10, 9]),
     (14, [14, 13, 11, 9]),
     (15, [15, 14, 13, 11]),
     (16, [16, 14, 13, 11]),
     (17, [17, 16, 15, 14]),
     (18, [18, 17, 16, 13]),
     (19, [19, 18, 17, 14]),
     (20, [20, 19, 16, 14]),
     (21, [21, 20, 19, 16]),
     (22, [22, 19, 18, 17]),
     (23, [23, 22, 20, 18]),
     (24, [24, 23, 21, 20]),
     (25, [25, 24, 23, 22]),
     (26, [26, 25, 24, 20]),
     (27, [27, 26, 25, 22]),
     (28, [28, 27, 24, 22]),
     (29, [29, 28, 27, 25]),
     (30, [30, 29, 26, 24]),
     (31, [31, 30, 29, 28]),
     (32, [32, 30, 26, 25]),
     (33, [33, 32, 29, 27]),
     (34, [34, 31, 30, 26]),
     (35, [35, 34, 28, 27]),
     (36, [36, 35, 29, 28]),
     (37, [37, 36, 33, 31]),
     (38, [38, 37, 33, 32]),
     (39, [39, 38, 35, 32]),
     (40, [40, 37, 36, 35])]"

definition get_lfsr_func :: "nat \<Rightarrow> nat list res" where
  "get_lfsr_func num_bits' =
     bindR (assertR (num_bits' \<ge> 5)) (\<lambda>_.
       case map_of polys num_bits' of
         None \<Rightarrow> Inl AssertionError
       | Some ps \<Rightarrow> Inr (map (\<lambda>p. num_bits' - p) ps))"

text \<open>\<open>__init__\<close>, for a non-negative seed; the limit may come out negative.\<close>

definition new_lfsr :: "int \<Rightarrow> nat \<Rightarrow> nat \<Rightarrow> lfsr res" where
  "new_lfsr max_lba' nblocks init =
     (let limit = max_lba' - int nblocks;
          max_value' = limit div int nblocks
      in if nblocks = 0 then Inl ZeroDivisionError else
         bindR (assertR (int init < max_value')) (\<lambda>_.
         bindR (assertR (init \<noteq> 0)) (\<lambda>_.
         let nbits = bit_length (nat max_value')
         in bindR (get_lfsr_func nbits) (\<lambda>ps.
              Inr \<lparr>max_lba = nat limit, num_blocks_per_io = nblocks, initial_state = init,
                max_value = nat max_value', num_bits = nbits, taps = ps, lfsr_state = init, period = 0,
                complete = False\<rparr>))))"

definition lfsr_reset :: "lfsr \<Rightarrow> lfsr" where
  "lfsr_reset g = g\<lparr>lfsr_state := initial_state g, period := 0, complete := False\<rparr>"

definition lfsr_step :: "nat \<Rightarrow> nat list \<Rightarrow> nat \<Rightarrow> nat" where
  "lfsr_step nbits ps state =
     (let b = (state XOR drop_bit (ps ! 1) state XOR drop_bit (ps ! 2) state XOR drop_bit (ps ! 3) state) AND 1
      in drop_bit 1 state OR push_bit (nbits - 1) b)"

fun lfsr_func :: "nat \<Rightarrow> lfsr \<Rightarrow> (nat \<times> lfsr) option" where
  "lfsr_func 0 g = None"
| "lfsr_func (Suc fuel) g =
     (let g = g\<lparr>lfsr_state := lfsr_step (num_bits g) (taps g) (lfsr_state g), period := period g + 1\<rparr>
      in if lfsr_state g > max_value g then lfsr_func fuel g
         else Some (lfsr_state g * num_blocks_per_io g, g))"

definition lfsr_next :: "nat \<Rightarrow> lfsr \<Rightarrow> (nat \<times> lfsr) res option" where
  "lfsr_next fuel g =
     (if complete g then Some (Inl StopIteration)
      else if lfsr_state g = initial_state g \<and> period g > 0
      then Some (Inr (0, g\<lparr>complete := True\<rparr>))
      else map_option Inr (lfsr_func fuel g))"

text \<open>The list of everything the iterator yields, with at most \<open>n\<close> calls.\<close>

fun lfsr_all :: "nat \<Rightarrow> nat \<Rightarrow> lfsr \<Rightarrow> nat list option" where
  "lfsr_all fuel 0 g = None"
| "lfsr_all fuel (Suc n) g =
     (case lfsr_next fuel g of
        None \<Rightarrow> None
      | Some (Inl e) \<Rightarrow> Some []
      | Some (Inr (v, g)) \<Rightarrow> map_option ((#) v) (lfsr_all fuel n g))"

section \<open>The shift register\<close>

text \<open>Four different taps below the width, the first of them the lowest bit.\<close>

definition taps_ok :: "nat \<Rightarrow> nat list \<Rightarrow> bool" where
  "taps_ok nbits ps \<longleftrightarrow> 0 < nbits \<and> length ps = 4 \<and> ps ! 0 = 0 \<and>
     (\<forall>i \<in> {1, 2, 3}. 0 < ps ! i \<and> ps ! i < nbits)"

lemma polys_ok:
  "list_all (\<lambda>(n, ps). length ps = 4 \<and> ps ! 0 = n \<and> (\<forall>i \<in> {1, 2, 3}. 0 < ps ! i \<and> ps ! i < n)) polys"
  by (simp add: polys_def)

lemma get_lfsr_func_ok:
  assumes "get_lfsr_func n = Inr ps"
  shows "taps_ok n ps"
proof -
  obtain qs where qs: "map_of polys n = Some qs" "ps = map (\<lambda>p. n - p) qs" "5 \<le> n"
    using assms by (auto simp: get_lfsr_func_def res_iffs split: option.splits)
  with map_of_SomeD [OF qs(1)] polys_ok show ?thesis
    by (fastforce simp: list_all_iff taps_ok_def)
qed

lemma bit_length_bounds: "0 < n \<Longrightarrow> 2 ^ (bit_length n - 1) \<le> n \<and> n < 2 ^ bit_length n"
proof (induction n rule: bit_length.induct)
  case (1 n)
  show ?case
  proof (cases "n < 2")
    case True
    with 1(2) show ?thesis by (subst (1 2) bit_length.simps) simp
  next
    case False
    then have IH: "2 ^ (bit_length (n div 2) - 1) \<le> n div 2" "n div 2 < 2 ^ bit_length (n div 2)"
      using 1(1) by auto
    have "bit_length (n div 2) \<noteq> 0" by (subst bit_length.simps) simp
    then obtain k where k: "bit_length (n div 2) = Suc k" by (cases "bit_length (n div 2)") auto
    have "bit_length n = Suc (Suc k)" using False k by (subst bit_length.simps) simp
    with IH k show ?thesis by auto
  qed
qed

definition feedback :: "nat list \<Rightarrow> nat \<Rightarrow> bool" where
  "feedback ps s \<longleftrightarrow>
     (bit s 0 \<noteq> (bit s (ps ! 1) \<noteq> (bit s (ps ! 2) \<noteq> bit s (ps ! 3))))"

lemma bit_Suc_0_iff: "bit (Suc 0) n \<longleftrightarrow> n = 0"
  using bit_1_iff [of n, where ?'a = nat] by simp

lemma feedback_bit:
  "(s XOR drop_bit (ps ! 1) s XOR drop_bit (ps ! 2) s XOR drop_bit (ps ! 3) s) AND 1 =
     of_bool (feedback ps s)"
proof -
  have "odd (s XOR drop_bit (ps ! 1) s XOR drop_bit (ps ! 2) s XOR drop_bit (ps ! 3) s) \<longleftrightarrow> feedback ps s"
    unfolding bit_0 [symmetric] bit_xor_iff bit_drop_bit_eq feedback_def by auto
  then show ?thesis by (simp add: and_one_eq mod_2_eq_odd)
qed

lemma bit_lfsr_step:
  "bit (lfsr_step nbits ps s) i \<longleftrightarrow> bit s (Suc i) \<or> i = nbits - 1 \<and> feedback ps s"
  unfolding lfsr_step_def Let_def feedback_bit
  by (auto simp: bit_or_iff bit_drop_bit_eq bit_push_bit_iff bit_Suc_0_iff)

lemma less_power_iff_bit: "(s :: nat) < 2 ^ n \<longleftrightarrow> (\<forall>i \<ge> n. \<not> bit s i)"
proof
  assume "s < 2 ^ n"
  then have "take_bit n s = s" by (simp add: take_bit_nat_eq_self)
  then show "\<forall>i \<ge> n. \<not> bit s i" by (metis bit_take_bit_iff not_le)
next
  assume "\<forall>i \<ge> n. \<not> bit s i"
  then have "take_bit n s = s" by (intro bit_eqI) (auto simp: bit_take_bit_iff not_le)
  then show "s < 2 ^ n" by (metis take_bit_nat_less_exp)
qed

lemma lfsr_step_less:
  "taps_ok nbits ps \<Longrightarrow> s < 2 ^ nbits \<Longrightarrow> lfsr_step nbits ps s < 2 ^ nbits"
  by (auto simp: less_power_iff_bit bit_lfsr_step taps_ok_def)

lemma feedback_1: "taps_ok nbits ps \<Longrightarrow> feedback ps 1"
  by (auto simp: feedback_def taps_ok_def bit_Suc_0_iff)

lemma lfsr_step_nonzero:
  assumes "taps_ok nbits ps" "s \<noteq> 0"
  shows "lfsr_step nbits ps s \<noteq> 0"
proof
  assume "lfsr_step nbits ps s = 0"
  then have z: "\<not> bit s (Suc i)" "\<not> feedback ps s" for i
    using bit_lfsr_step [of nbits ps s i] bit_lfsr_step [of nbits ps s "nbits - 1"] by auto
  have "s = 1"
  proof (rule bit_eqI)
    fix n
    have "bit s 0"
    proof (rule ccontr)
      assume "\<not> bit s 0"
      with z(1) have "\<not> bit s i" for i by (cases i) auto
      then have "s = 0" by (intro bit_eqI) auto
      with assms(2) show False by simp
    qed
    with z(1) [of "n - 1"] show "bit s n \<longleftrightarrow> bit (1 :: nat) n" by (cases n) (auto simp: bit_Suc_0_iff)
  qed
  with feedback_1 [OF assms(1)] z(2) show False by simp
qed

text \<open>The step is reversible: the state before it is the shifted state and the bit that fell out.\<close>

lemma lfsr_step_inj:
  assumes "taps_ok nbits ps" "s < 2 ^ nbits" "t < 2 ^ nbits" "lfsr_step nbits ps s = lfsr_step nbits ps t"
  shows "s = t"
proof -
  have eq: "bit s (Suc i) \<or> i = nbits - 1 \<and> feedback ps s \<longleftrightarrow>
      bit t (Suc i) \<or> i = nbits - 1 \<and> feedback ps t" for i
    using assms(4) bit_lfsr_step by metis
  have top: "\<not> bit s i" "\<not> bit t i" if "nbits \<le> i" for i
    using that assms(2,3) by (auto simp: less_power_iff_bit)
  have high: "bit s i \<longleftrightarrow> bit t i" if "0 < i" for i
    using eq [of "i - 1"] top [of i] that by (cases "i < nbits") auto
  have "feedback ps s \<longleftrightarrow> feedback ps t"
    using eq [of "nbits - 1"] top [of nbits] assms(1) by (auto simp: taps_ok_def)
  moreover have "bit s (ps ! i) \<longleftrightarrow> bit t (ps ! i)" if "i \<in> {1, 2, 3}" for i
    using high that assms(1) by (auto simp: taps_ok_def)
  ultimately have "bit s 0 \<longleftrightarrow> bit t 0" by (auto simp: feedback_def)
  with high show ?thesis by (metis bit_eqI gr0I)
qed

text \<open>
  A state whose highest bit is clear is below every power of two that the limit reaches; after a feedback bit at each
  of \<open>nbits\<close> steps the state is all ones, and then the feedback is clear.
\<close>

lemma lfsr_ones:
  assumes "taps_ok nbits ps" "\<forall>j < k. feedback ps ((lfsr_step nbits ps ^^ j) s)" "k \<le> nbits"
    and "i < nbits" "nbits - k \<le> i"
  shows "bit ((lfsr_step nbits ps ^^ k) s) i"
  using assms(2-)
proof (induction k arbitrary: i)
  case (Suc k)
  then show ?case
  proof (cases "i = nbits - 1")
    case True
    with Suc.prems(1) show ?thesis by (simp add: bit_lfsr_step)
  next
    case False
    have "bit ((lfsr_step nbits ps ^^ k) s) (Suc i)"
      by (rule Suc.IH) (use Suc.prems False in auto)
    then show ?thesis by (simp add: bit_lfsr_step)
  qed
qed simp

lemma lfsr_feedback_clears:
  assumes "taps_ok nbits ps"
  shows "\<exists>j \<le> nbits. \<not> feedback ps ((lfsr_step nbits ps ^^ j) s)"
proof (rule ccontr)
  assume "\<not> ?thesis"
  then have all: "feedback ps ((lfsr_step nbits ps ^^ j) s)" if "j \<le> nbits" for j using that by blast
  have "bit ((lfsr_step nbits ps ^^ nbits) s) i" if "i < nbits" for i
    using lfsr_ones [OF assms _ order_refl that] all by simp
  then have "\<not> feedback ps ((lfsr_step nbits ps ^^ nbits) s)"
    using assms by (simp add: feedback_def taps_ok_def)
  with all [OF order_refl] show False by simp
qed

section \<open>One call of the generator\<close>

definition lfsr_ok :: "lfsr \<Rightarrow> bool" where
  "lfsr_ok g \<longleftrightarrow> taps_ok (num_bits g) (taps g) \<and> 0 < num_blocks_per_io g \<and>
     2 ^ (num_bits g - 1) \<le> max_value g \<and> max_value g < 2 ^ num_bits g \<and>
     0 < initial_state g \<and> initial_state g \<le> max_value g \<and>
     max_value g * num_blocks_per_io g \<le> max_lba g"

abbreviation raw :: "lfsr \<Rightarrow> nat \<Rightarrow> nat \<Rightarrow> nat" where
  "raw g n \<equiv> lfsr_step (num_bits g) (taps g) ^^ n"

lemma raw_range:
  assumes "lfsr_ok g" "0 < s" "s < 2 ^ num_bits g"
  shows "0 < raw g n s \<and> raw g n s < 2 ^ num_bits g"
  using assms by (induction n) (auto simp: lfsr_ok_def lfsr_step_less dest: lfsr_step_nonzero)

lemma lfsr_func_steps:
  assumes "\<forall>j. 0 < j \<and> j < n \<longrightarrow> max_value g < raw g j (lfsr_state g)" "raw g n (lfsr_state g) \<le> max_value g"
    and "0 < n" "n \<le> fuel"
  shows "lfsr_func fuel g = Some (raw g n (lfsr_state g) * num_blocks_per_io g,
    g\<lparr>lfsr_state := raw g n (lfsr_state g), period := period g + n\<rparr>)"
  using assms
proof (induction n arbitrary: g fuel)
  case (Suc n)
  obtain f where f: "fuel = Suc f" "n \<le> f" using Suc.prems(4) by (cases fuel) auto
  let ?g = "g\<lparr>lfsr_state := lfsr_step (num_bits g) (taps g) (lfsr_state g), period := period g + 1\<rparr>"
  show ?case
  proof (cases "n = 0")
    case True
    with Suc.prems(2) f show ?thesis by simp
  next
    case False
    have swap: "raw g j (lfsr_state ?g) = raw g (Suc j) (lfsr_state g)" for j
      by (simp add: funpow_swap1)
    have "max_value g < lfsr_state ?g" using Suc.prems(1) False by (auto dest: spec [of _ 1])
    then have "lfsr_func fuel g = lfsr_func f ?g" by (simp add: f Let_def)
    also have "\<dots> = Some (raw ?g n (lfsr_state ?g) * num_blocks_per_io ?g,
        ?g\<lparr>lfsr_state := raw ?g n (lfsr_state ?g), period := period ?g + n\<rparr>)"
    proof (rule Suc.IH)
      show "\<forall>j. 0 < j \<and> j < n \<longrightarrow> max_value ?g < raw ?g j (lfsr_state ?g)"
      proof (intro allI impI)
        fix j
        assume "0 < j \<and> j < n"
        then show "max_value ?g < raw ?g j (lfsr_state ?g)"
          using Suc.prems(1) [rule_format, of "Suc j"] swap [of j] by simp
      qed
      show "raw ?g n (lfsr_state ?g) \<le> max_value ?g" using Suc.prems(2) swap by simp
    qed (use False f in auto)
    finally show ?thesis using swap [of n] by simp
  qed
qed simp

text \<open>The value that the next call of the generator reaches, and after how many steps.\<close>

lemma lfsr_next_value:
  assumes "lfsr_ok g" "0 < s" "s < 2 ^ num_bits g"
  shows "\<exists>n. 0 < n \<and> n \<le> num_bits g + 1 \<and> raw g n s \<le> max_value g \<and>
    (\<forall>j. 0 < j \<and> j < n \<longrightarrow> max_value g < raw g j s)"
proof -
  have taps: "taps_ok (num_bits g) (taps g)" using assms(1) by (simp add: lfsr_ok_def)
  let ?P = "\<lambda>n. 0 < n \<and> raw g n s \<le> max_value g"
  obtain j where j: "j \<le> num_bits g" "\<not> feedback (taps g) (raw g j s)"
    using lfsr_feedback_clears [OF taps] by blast
  have "raw g (Suc j) s < 2 ^ (num_bits g - 1)"
    using raw_range [OF assms, of j] j(2) taps by (auto simp: less_power_iff_bit bit_lfsr_step taps_ok_def)
  then have P: "?P (Suc j)" using assms(1) by (simp add: lfsr_ok_def)
  have "\<not> ?P i" if "i < (LEAST n. ?P n)" for i by (rule not_less_Least [OF that])
  with LeastI [of ?P, OF P] Least_le [of ?P, OF P] j(1) show ?thesis
    by (intro exI [of _ "LEAST n. ?P n"]) (auto simp: not_le)
qed

section \<open>The whole iteration\<close>

lemma raw_cancel:
  assumes "lfsr_ok g" "0 < s" "s < 2 ^ num_bits g" "0 < t" "t < 2 ^ num_bits g" "raw g n s = raw g n t"
  shows "s = t"
  using assms(6)
proof (induction n)
  case (Suc n)
  have "raw g n s = raw g n t"
    by (rule lfsr_step_inj [of "num_bits g" "taps g"])
      (use assms Suc.prems raw_range in \<open>auto simp: lfsr_ok_def\<close>)
  then show ?case by (rule Suc.IH)
qed simp

text \<open>The register comes back to its seed, for the first time after \<open>N\<close> steps, and repeats no state before.\<close>

lemma raw_period:
  assumes "lfsr_ok g"
  shows "\<exists>N > 0. N \<le> 2 ^ num_bits g \<and> raw g N (initial_state g) = initial_state g \<and>
    inj_on (\<lambda>t. raw g t (initial_state g)) {1..N}"
proof -
  let ?s = "initial_state g" and ?M = "2 ^ num_bits g :: nat"
  have st: "0 < ?s" "?s < ?M" using assms by (auto simp: lfsr_ok_def)
  have again: "raw g (b - a) ?s = ?s" if "a < b" "raw g a ?s = raw g b ?s" for a b
  proof (rule sym, rule raw_cancel [OF assms st])
    show "raw g a ?s = raw g a (raw g (b - a) ?s)"
      using that by (simp flip: funpow_add [THEN fun_cong, unfolded comp_def])
  qed (use raw_range [OF assms st] in auto)
  have "\<not> inj_on (\<lambda>t. raw g t ?s) {0..?M}"
  proof (rule pigeonhole)
    have "(\<lambda>t. raw g t ?s) ` {0..?M} \<subseteq> {0<..<?M}"
      by (rule image_subsetI) (use raw_range [OF assms st] in simp)
    then have "card ((\<lambda>t. raw g t ?s) ` {0..?M}) \<le> card {0<..<?M}"
      by (intro card_mono) simp_all
    then show "card ((\<lambda>t. raw g t ?s) ` {0..?M}) < card {0..?M}" by simp
  qed
  then obtain a b where "a < b" "b \<le> ?M" "raw g a ?s = raw g b ?s"
    unfolding inj_on_def by (metis atLeastAtMost_iff linorder_neqE_nat)
  then have ex: "0 < b - a \<and> b - a \<le> ?M \<and> raw g (b - a) ?s = ?s" using again by auto
  let ?P = "\<lambda>n. 0 < n \<and> raw g n ?s = ?s"
  have P: "?P (b - a)" using ex by blast
  define N where "N = (LEAST n. ?P n)"
  have N: "?P N" unfolding N_def by (rule LeastI [of ?P, OF P])
  have min: "\<not> ?P i" if "i < N" for i using that unfolding N_def by (rule not_less_Least)
  have "N \<le> b - a" unfolding N_def by (rule Least_le [of ?P, OF P])
  moreover have "inj_on (\<lambda>t. raw g t ?s) {1..N}"
  proof (rule linorder_inj_onI)
    fix x y
    assume "x < y" "x \<in> {1..N}" "y \<in> {1..N}"
    then show "raw g x ?s \<noteq> raw g y ?s" using again [of x y] min [of "y - x"] by auto
  qed auto
  ultimately show ?thesis using N ex by (intro exI [of _ N]) auto
qed

lemma filter_upt_skip:
  assumes "\<forall>j. 0 < j \<and> j < n \<longrightarrow> \<not> P (t + j)" "P (t + n)" "0 < n" "t + n \<le> N"
  shows "filter P [t + 1..<N + 1] = (t + n) # filter P [t + n + 1..<N + 1]"
proof -
  have "[t + 1..<N + 1] = [t + 1..<t + n] @ [t + n..<N + 1]"
    using assms(3,4) upt_add_eq_append [of "t + 1" "t + n" "N + 1 - (t + n)"] by simp
  moreover have "filter P [t + 1..<t + n] = []"
  proof -
    have "\<not> P x" if "x \<in> {t + 1..<t + n}" for x
    proof -
      have "0 < x - t \<and> x - t < n" using that by auto
      with assms(1) have "\<not> P (t + (x - t))" by blast
      with that show ?thesis by simp
    qed
    then show ?thesis by (simp add: filter_empty_conv)
  qed
  moreover have "[t + n..<N + 1] = (t + n) # [t + n + 1..<N + 1]"
    using assms(4) by (simp add: upt_conv_Cons)
  ultimately show ?thesis using assms(2) by simp
qed

lemma lfsr_all_from:
  assumes "lfsr_ok g" "lfsr_state g = raw g t (initial_state g)" "t \<le> N"
    and "if t = 0 then period g = 0 else 0 < period g \<and> (t < N \<longrightarrow> lfsr_state g \<noteq> initial_state g)"
    and "raw g N (initial_state g) = initial_state g" "\<forall>i. 0 < i \<and> i < N \<longrightarrow> raw g i (initial_state g) \<noteq> initial_state g"
    and "0 < N" "\<not> complete g" "N - t + 2 \<le> n" "num_bits g + 1 \<le> fuel"
  shows "lfsr_all fuel n g = Some (map (\<lambda>i. raw g i (initial_state g) * num_blocks_per_io g)
    (filter (\<lambda>i. raw g i (initial_state g) \<le> max_value g) [t + 1..<N + 1]) @ [0])"
  using assms
proof (induction n arbitrary: g t)
  case (Suc n)
  let ?s = "initial_state g" and ?P = "\<lambda>i. raw g i (initial_state g) \<le> max_value g"
  show ?case
  proof (cases "t = N")
    case True
    then have "lfsr_next fuel g = Some (Inr (0, g\<lparr>complete := True\<rparr>))"
      using Suc.prems by (simp add: lfsr_next_def)
    moreover obtain n' where "n = Suc n'" using Suc.prems(9) by (cases n) auto
    ultimately show ?thesis using True by (simp add: lfsr_next_def)
  next
    case False
    have range: "0 < ?s" "?s < 2 ^ num_bits g" using Suc.prems(1) by (auto simp: lfsr_ok_def)
    obtain k where k: "0 < k" "k \<le> num_bits g + 1" "raw g k (lfsr_state g) \<le> max_value g"
      "\<forall>j. 0 < j \<and> j < k \<longrightarrow> max_value g < raw g j (lfsr_state g)"
      using lfsr_next_value [OF Suc.prems(1), of "lfsr_state g"] raw_range [OF Suc.prems(1) range, of t]
        Suc.prems(2) by auto
    have shift: "raw g j (lfsr_state g) = raw g (t + j) ?s" for j
      by (simp add: Suc.prems(2) funpow_add add.commute)
    have "t + k \<le> N"
    proof (rule ccontr)
      assume "\<not> t + k \<le> N"
      then have "max_value g < raw g (N - t) (lfsr_state g)" using k(4) Suc.prems(3) False by simp
      then show False using shift [of "N - t"] Suc.prems(1,3,5) by (simp add: lfsr_ok_def)
    qed
    let ?g = "g\<lparr>lfsr_state := raw g k (lfsr_state g), period := period g + k\<rparr>"
    have "lfsr_next fuel g = map_option Inr (lfsr_func fuel g)"
      using Suc.prems False by (auto simp: lfsr_next_def split: if_splits)
    also have "lfsr_func fuel g = Some (raw g k (lfsr_state g) * num_blocks_per_io g, ?g)"
      by (rule lfsr_func_steps) (use k Suc.prems(10) in auto)
    finally have step: "lfsr_next fuel g = Some (Inr (raw g k (lfsr_state g) * num_blocks_per_io g, ?g))"
      by simp
    have "lfsr_all fuel n ?g = Some (map (\<lambda>i. raw ?g i (initial_state ?g) * num_blocks_per_io ?g)
        (filter (\<lambda>i. raw ?g i (initial_state ?g) \<le> max_value ?g) [t + k + 1..<N + 1]) @ [0])"
      by (rule Suc.IH) (use Suc.prems k(1) \<open>t + k \<le> N\<close> shift in \<open>auto simp: lfsr_ok_def\<close>)
    moreover have "filter ?P [t + 1..<N + 1] = (t + k) # filter ?P [t + k + 1..<N + 1]"
    proof (rule filter_upt_skip)
      show "\<forall>j. 0 < j \<and> j < k \<longrightarrow> \<not> ?P (t + j)" using k(4) shift by (auto simp: not_le)
    qed (use k shift \<open>t + k \<le> N\<close> in auto)
    ultimately show ?thesis using step shift [of k] by simp
  qed
qed simp

lemma new_lfsr_ok:
  assumes "new_lfsr max_lba' nblocks init = Inr g"
  shows "lfsr_ok g \<and> initial_state g = init \<and> lfsr_state g = init \<and> period g = 0 \<and> \<not> complete g \<and>
    num_blocks_per_io g = nblocks \<and> int (max_lba g) = max_lba' - int nblocks \<and> init < max_value g"
proof -
  define limit where "limit = max_lba' - int nblocks"
  define mv where "mv = limit div int nblocks"
  have g: "0 < nblocks" "int init < mv" "init \<noteq> 0" "get_lfsr_func (bit_length (nat mv)) = Inr (taps g)"
    "max_lba g = nat limit" "num_blocks_per_io g = nblocks" "initial_state g = init" "max_value g = nat mv"
    "num_bits g = bit_length (nat mv)" "lfsr_state g = init" "period g = 0" "\<not> complete g"
    using assms by (auto simp: new_lfsr_def res_iffs Let_def limit_def mv_def split: if_splits)
  have mv: "0 < mv" "mv * int nblocks \<le> limit"
    using g(1,2) by (auto simp: mv_def) (metis mult.commute mult_div_mod_eq le_add_same_cancel1
        pos_mod_sign of_nat_0_less_iff)
  then have "0 \<le> limit" using g(1) by (meson mult_nonneg_nonneg of_nat_0_le_iff order_trans less_imp_le)
  then have "nat mv * nblocks \<le> nat limit" using mv by (simp add: le_nat_iff)
  with g mv bit_length_bounds [of "nat mv"] get_lfsr_func_ok [OF g(4)] \<open>0 \<le> limit\<close> show ?thesis
    by (auto simp: lfsr_ok_def limit_def)
qed



end
