(* ===== verification/Commands.thy ===== *)
theory Commands
  imports Structures
begin

text \<open>
  Command classes and command objects (\<open>SQECommon\<close> and its subclasses). A class is a record of what the code
  reads off it: its name and base, its layout, its default values, its command set and the type of the data it
  returns. Constructing an object sets the defaults and then the keyword arguments; a keyword that is not a field
  becomes a plain Python attribute and leaves the bytes as they are.
\<close>

section \<open>Classes\<close>

record cmd_class =
  cc_name :: string
  cc_base :: string
  cc_layout :: cty
  cc_defaults :: "(string \<times> int) list"
  cc_admin :: bool
  cc_data_in :: "cty option"

text \<open>What assigning an integer to an attribute does: it fills an integer field, makes a plain attribute, or raises.\<close>

datatype attr_kind = Plain | IntField "nat \<times> nat" | OtherField

definition attr_kind :: "cty \<Rightarrow> string \<Rightarrow> attr_kind" where
  "attr_kind t n =
     (case t of
        Struct fs \<Rightarrow>
          (case last_match n (map2 (\<lambda>(m, t, w) q. (m, t, w, q)) fs (struct_places fs)) of
             None \<Rightarrow> Plain
           | Some (UInt k, w, q) \<Rightarrow> IntField q
           | Some _ \<Rightarrow> OtherField)
      | _ \<Rightarrow> OtherField)"

definition set_attr :: "cty \<Rightarrow> byte list \<Rightarrow> string \<times> int \<Rightarrow> byte list res" where
  "set_attr t bs nv =
     (case attr_kind t (fst nv) of
        Plain \<Rightarrow> Inr bs
      | IntField f \<Rightarrow> Inr (setf f (nat (snd nv mod 2 ^ snd f)) bs)
      | OtherField \<Rightarrow> Inl TypeError)"

primrec set_attrs :: "cty \<Rightarrow> (string \<times> int) list \<Rightarrow> byte list \<Rightarrow> byte list res" where
  "set_attrs t [] bs = Inr bs"
| "set_attrs t (nv # nvs) bs = bindR (set_attr t bs nv) (set_attrs t nvs)"

definition new_command :: "cmd_class \<Rightarrow> (string \<times> int) list \<Rightarrow> byte list res" where
  "new_command c kwargs =
     bindR (set_attrs (cc_layout c) (cc_defaults c) (zeros (csize (cc_layout c))))
       (set_attrs (cc_layout c) kwargs)"

text \<open>Reading an attribute of a command object.\<close>

definition get_attr :: "cty \<Rightarrow> string \<Rightarrow> byte list \<Rightarrow> nat option" where
  "get_attr t n bs = (case attr_kind t n of IntField f \<Rightarrow> Some (getf f bs) | _ \<Rightarrow> None)"

section \<open>Construction\<close>

lemma field_pos_Struct:
  "field_pos (Struct fs) [Fld n] =
    map_option (\<lambda>(t, w, q). case w of None \<Rightarrow> (fst q, 8 * csize t) | Some k \<Rightarrow> q)
      (last_match n (map2 (\<lambda>(m, t, w) q. (m, t, w, q)) fs (struct_places fs)))"
  by (auto simp: field_pos_def prod_eq_iff split: option.splits)

lemma attr_kind_field:
  assumes "attr_kind (Struct fs) n = IntField f"
  shows "field_pos (Struct fs) [Fld n] = Some f"
proof -
  obtain k w where l: "last_match n (map2 (\<lambda>(m, t, w) q. (m, t, w, q)) fs (struct_places fs)) = Some (UInt k, w, f)"
    using assms by (auto simp: attr_kind_def split: option.splits cty.splits)
  then have "(n, UInt k, w, f) \<in> set (map2 (\<lambda>(m, t, w) q. (m, t, w, q)) fs (struct_places fs))"
    unfolding last_match_def by (metis map_of_SomeD set_rev)
  then obtain i where "i < length fs" "fs ! i = (n, UInt k, w)" "f = struct_places fs ! i"
    by (auto simp: set_zip)
  with struct_places_width [OF this(1,2)] l show ?thesis
    by (cases w) (auto simp: field_pos_Struct prod_eq_iff)
qed

lemma last_match_Nil [simp]: "last_match n [] = None"
  by (simp add: last_match_def)

lemma last_match_append: "last_match n (xs @ ys) = (case last_match n ys of None \<Rightarrow> last_match n xs | Some y \<Rightarrow> Some y)"
  by (simp add: last_match_def map_add_def split: option.splits)

lemma last_match_Cons: "last_match n ((m, x) # xs) = (case last_match n xs of None \<Rightarrow> (if m = n then Some x else None) | Some y \<Rightarrow> Some y)"
  using last_match_append [of n "[(m, x)]" xs] by (simp add: last_match_def split: option.splits)

lemma set_attrs_append: "set_attrs t (xs @ ys) bs = bindR (set_attrs t xs bs) (set_attrs t ys)"
  by (induction xs arbitrary: bs) (auto simp: bindR_def split: sum.splits)

lemma new_command_attrs:
  "new_command c kw = set_attrs (cc_layout c) (cc_defaults c @ kw) (zeros (csize (cc_layout c)))"
  by (simp add: new_command_def set_attrs_append)

text \<open>Setting attributes succeeds unless one is a field that holds no integer; each field then has its last value.\<close>

lemma set_attrs_values:
  assumes "wf_fields fs" "length bs = csize (Struct fs)" "\<forall>(m, v) \<in> set nvs. attr_kind (Struct fs) m \<noteq> OtherField"
  shows "\<exists>bs'. set_attrs (Struct fs) nvs bs = Inr bs' \<and> length bs' = csize (Struct fs) \<and>
    (\<forall>n f. attr_kind (Struct fs) n = IntField f \<longrightarrow>
      getf f bs' = (case last_match n nvs of None \<Rightarrow> getf f bs | Some v \<Rightarrow> nat (v mod 2 ^ snd f)))"
  using assms(2,3)
proof (induction nvs arbitrary: bs)
  case (Cons nv nvs)
  obtain m v where nv: "nv = (m, v)" by (cases nv)
  from Cons.prems(2) nv consider "attr_kind (Struct fs) m = Plain"
    | g where "attr_kind (Struct fs) m = IntField g" by (cases "attr_kind (Struct fs) m") auto
  then show ?case
  proof cases
    case 1
    with Cons.IH [OF Cons.prems(1)] Cons.prems(2) obtain bs' where bs': "set_attrs (Struct fs) nvs bs = Inr bs'"
      "length bs' = csize (Struct fs)" "\<And>n f. attr_kind (Struct fs) n = IntField f \<Longrightarrow>
      getf f bs' = (case last_match n nvs of None \<Rightarrow> getf f bs | Some v \<Rightarrow> nat (v mod 2 ^ snd f))" by auto
    have "set_attrs (Struct fs) (nv # nvs) bs = Inr bs'" using 1 bs'(1) by (simp add: nv set_attr_def)
    moreover have "getf f bs' = (case last_match n (nv # nvs) of None \<Rightarrow> getf f bs | Some v \<Rightarrow> nat (v mod 2 ^ snd f))"
      if "attr_kind (Struct fs) n = IntField f" for n f
      using bs'(3) [OF that] 1 that by (auto simp: nv last_match_Cons split: option.splits)
    ultimately show ?thesis using bs'(2) by blast
  next
    case 2
    let ?b = "setf g (nat (v mod 2 ^ snd g)) bs"
    have len: "length ?b = csize (Struct fs)" using Cons.prems(1) by simp
    from Cons.IH [OF len] Cons.prems(2) obtain bs' where bs': "set_attrs (Struct fs) nvs ?b = Inr bs'"
      "length bs' = csize (Struct fs)" "\<And>n f. attr_kind (Struct fs) n = IntField f \<Longrightarrow>
      getf f bs' = (case last_match n nvs of None \<Rightarrow> getf f ?b | Some v \<Rightarrow> nat (v mod 2 ^ snd f))" by auto
    note g = attr_kind_field [OF 2]
    have fits: "fits g bs"
      using field_pos_struct_sound(1) [OF assms(1) g] Cons.prems(1) by (simp add: fits_def)
    have "getf f ?b = (if m = n then nat (v mod 2 ^ snd f) else getf f bs)"
      if "attr_kind (Struct fs) n = IntField f" for n f
    proof (cases "m = n")
      case True
      with that 2 have "f = g" by simp
      moreover have "nat (v mod 2 ^ snd g) < 2 ^ snd g" by (simp add: nat_less_iff)
      ultimately show ?thesis using fits True by simp
    next
      case False
      then show ?thesis
        using getf_setf_apart [OF fits field_pos_struct_sound(2) [OF assms(1) g attr_kind_field [OF that]]] by simp
    qed
    with bs' 2 show ?thesis
      by (intro exI [of _ bs']) (auto simp: nv set_attr_def last_match_Cons split: option.splits)
  qed
qed simp

lemma new_command_fields:
  assumes "cc_layout c = Struct fs" "wf_fields fs"
    and "list_all (\<lambda>(m, v). attr_kind (cc_layout c) m \<noteq> OtherField) (cc_defaults c @ kwargs)"
  shows "\<exists>bs. new_command c kwargs = Inr bs \<and> length bs = csize (cc_layout c) \<and>
    (\<forall>n f. attr_kind (cc_layout c) n = IntField f \<longrightarrow>
      getf f bs = (case last_match n (cc_defaults c @ kwargs) of None \<Rightarrow> 0 | Some v \<Rightarrow> nat (v mod 2 ^ snd f)))"
  using set_attrs_values [OF assms(2), of "zeros (csize (Struct fs))" "cc_defaults c @ kwargs"] assms(1,3)
  by (simp only: new_command_attrs list_all_iff getf_zeros length_zeros simp_thms)

end
