(* ===== verification/Identify_Data.thy ===== *)
theory Identify_Data
  imports Commands
begin

text \<open>
  The identify command, its variants and the data structures they return
  (\<open>lone/nvme/spec/commands/admin/identify.py\<close>).
\<close>

section \<open>Layouts and classes\<close>

definition IdentifyData :: cty where
  "IdentifyData = Struct [
    (''DATA'', Arr (UInt 1) 4096, None)]"

definition Identify :: cmd_class where
  "Identify = \<lparr>cc_name = ''Identify'', cc_base = ''ADMINCommand'',
    cc_layout = SQE [
      (''CNS'', UInt 4, Some 8),
      (''RSVD_0'', UInt 4, Some 8),
      (''CNTID'', UInt 4, Some 16),
      (''CNSSPEC'', UInt 4, Some 16),
      (''RSVD_1'', UInt 4, Some 8),
      (''CSI'', UInt 4, Some 8),
      (''DW12'', UInt 4, None),
      (''DW13'', UInt 4, None),
      (''UUID'', UInt 4, Some 7),
      (''RSVD_2'', UInt 4, Some 25),
      (''DW15'', UInt 4, None)],
    cc_defaults = [(''OPC'', 6)], cc_admin = True, cc_data_in = Some IdentifyData\<rparr>"

definition IdentifyNamespaceData_LBAFormat :: cty where
  "IdentifyNamespaceData_LBAFormat = Struct [
    (''MS'', UInt 4, Some 16),
    (''LBADS'', UInt 4, Some 8),
    (''RP'', UInt 4, Some 2),
    (''RSVD'', UInt 4, Some 6)]"

definition IdentifyNamespaceData :: cty where
  "IdentifyNamespaceData = Struct [
    (''NSZE'', UInt 8, None),
    (''NCAP'', UInt 8, None),
    (''NUSE'', UInt 8, None),
    (''NSFEAT'', UInt 1, None),
    (''NLBAF'', UInt 1, None),
    (''FLBAS'', UInt 1, None),
    (''MC'', UInt 1, None),
    (''DPC'', UInt 1, None),
    (''DPS'', UInt 1, None),
    (''NMIC'', UInt 1, None),
    (''RESCAP'', UInt 1, None),
    (''FPI'', UInt 1, None),
    (''DLFEAT'', UInt 1, None),
    (''NAWUN'', UInt 2, None),
    (''RSVD_0'', Arr (UInt 1) 92, None),
    (''LBAF_TBL'', Arr IdentifyNamespaceData_LBAFormat 16, None),
    (''RSVD_1'', Arr (UInt 1) 3904, None)]"

definition IdentifyNamespace :: cmd_class where
  "IdentifyNamespace = \<lparr>cc_name = ''IdentifyNamespace'', cc_base = ''Identify'',
    cc_layout = cc_layout Identify,
    cc_defaults = [(''OPC'', 6), (''CNS'', 0)], cc_admin = True, cc_data_in = Some IdentifyNamespaceData\<rparr>"

definition IdentifyControllerData_PowerStateDesc :: cty where
  "IdentifyControllerData_PowerStateDesc = Struct [
    (''MP'', UInt 2, None),
    (''RSVD_0'', UInt 1, None),
    (''MXPS'', UInt 1, Some 1),
    (''NOPS'', UInt 1, Some 1),
    (''RSVD_1'', UInt 1, Some 6),
    (''ENLAT'', UInt 4, None),
    (''EXLAT'', UInt 4, None),
    (''RRT'', UInt 4, Some 5),
    (''RSVD_2'', UInt 4, Some 3),
    (''RRL'', UInt 4, Some 5),
    (''RSVD_3'', UInt 4, Some 3),
    (''RWT'', UInt 4, Some 5),
    (''RSVD_4'', UInt 4, Some 3),
    (''RWL'', UInt 4, Some 5),
    (''RSVD_5'', UInt 4, Some 3),
    (''IDLP'', UInt 4, Some 16),
    (''RSVD_6'', UInt 4, Some 6),
    (''IPS'', UInt 4, Some 2),
    (''RSVD_7'', UInt 4, Some 8),
    (''ACTP'', UInt 4, Some 16),
    (''APW'', UInt 4, Some 3),
    (''RSVD_8'', UInt 4, Some 3),
    (''APS'', UInt 4, Some 2),
    (''RSVD_9'', UInt 4, Some 8),
    (''RSVD_10'', Arr (UInt 1) 8, None)]"

definition IdentifyControllerData :: cty where
  "IdentifyControllerData = Struct [
    (''VID'', UInt 2, None),
    (''SSVID'', UInt 2, None),
    (''SN'', Arr (UInt 1) 20, None),
    (''MN'', Arr (UInt 1) 40, None),
    (''FR'', Arr (UInt 1) 8, None),
    (''RAB'', UInt 1, None),
    (''IEEE'', Arr (UInt 1) 3, None),
    (''CMIC'', UInt 1, None),
    (''MDTS'', UInt 1, None),
    (''CNTLID'', UInt 2, None),
    (''VER'', UInt 4, None),
    (''RTD3R'', UInt 4, None),
    (''RTD3E'', UInt 4, None),
    (''OAES'', UInt 4, None),
    (''CTRATT'', UInt 4, None),
    (''RRLS'', UInt 2, None),
    (''RSVD_0'', Arr (UInt 1) 9, None),
    (''CNTRLTYPE'', UInt 1, None),
    (''FGUID'', Arr (UInt 1) 16, None),
    (''CRDT1'', UInt 2, None),
    (''CRDT2'', UInt 2, None),
    (''CRDT3'', UInt 2, None),
    (''RSVD_1'', Arr (UInt 1) 119, None),
    (''NVMSR'', UInt 1, None),
    (''VWCI'', UInt 1, None),
    (''MEC'', UInt 1, None),
    (''OACS'', UInt 2, None),
    (''ACL'', UInt 1, None),
    (''AERL'', UInt 1, None),
    (''FRMW'', UInt 1, None),
    (''LPA'', UInt 1, None),
    (''ELPE'', UInt 1, None),
    (''NPSS'', UInt 1, None),
    (''AVSCC'', UInt 1, None),
    (''APSTA'', UInt 1, None),
    (''WCTEMP'', UInt 2, None),
    (''CCTEMP'', UInt 2, None),
    (''MTFA'', UInt 2, None),
    (''HMPRE'', UInt 4, None),
    (''HMMIN'', UInt 4, None),
    (''TNVMCAP_LO'', UInt 8, None),
    (''TNVMCAP_HI'', UInt 8, None),
    (''UNVMCAP_LO'', UInt 8, None),
    (''UNVMCAP_HI'', UInt 8, None),
    (''RPMBS'', UInt 4, None),
    (''EDSTT'', UInt 2, None),
    (''DSTO'', UInt 1, None),
    (''FWUG'', UInt 1, None),
    (''KAS'', UInt 2, None),
    (''HCTMA'', UInt 2, None),
    (''MNTMT'', UInt 2, None),
    (''MXTMT'', UInt 2, None),
    (''SANICAP'', UInt 4, None),
    (''HMMINDS'', UInt 4, None),
    (''HMMAXD'', UInt 2, None),
    (''NSETIDMAX'', UInt 2, None),
    (''ENDGIDMAX'', UInt 2, None),
    (''ANATT'', UInt 1, None),
    (''ANACAP'', UInt 1, None),
    (''ANAGRPMAX'', UInt 4, None),
    (''NANAGRPID'', UInt 4, None),
    (''PELS'', UInt 4, None),
    (''DOMID'', UInt 2, None),
    (''RSVD_2'', Arr (UInt 1) 10, None),
    (''MEGCAP_LO'', UInt 8, None),
    (''MEGCAP_HI'', UInt 8, None),
    (''RSVD_3'', Arr (UInt 1) 128, None),
    (''SQES'', UInt 1, None),
    (''CQES'', UInt 1, None),
    (''MAXCMD'', UInt 2, None),
    (''NN'', UInt 4, None),
    (''ONCS'', UInt 2, None),
    (''FUSES'', UInt 2, None),
    (''FNA'', UInt 1, None),
    (''VWC'', UInt 1, None),
    (''AWUN'', UInt 2, None),
    (''AWUPF'', UInt 2, None),
    (''ICSVSCC'', UInt 1, None),
    (''NWPC'', UInt 1, None),
    (''ACWU'', UInt 2, None),
    (''CPFMTSUP'', UInt 2, None),
    (''SGLS'', UInt 4, None),
    (''MNAN'', UInt 4, None),
    (''MAXDNA_LO'', UInt 8, None),
    (''MAXDNA_HI'', UInt 8, None),
    (''MAXCNA'', UInt 4, None),
    (''RSVD_4'', Arr (UInt 1) 204, None),
    (''SUBNQN'', Arr (UInt 1) 256, None),
    (''RSVD_5'', Arr (UInt 1) 768, None),
    (''IOCCSZ'', UInt 4, None),
    (''IORCSZ'', UInt 4, None),
    (''ICDOFF'', UInt 2, None),
    (''FCATT'', UInt 1, None),
    (''MSDBD'', UInt 1, None),
    (''OFCS'', UInt 2, None),
    (''RSVD_6'', Arr (UInt 1) 242, None),
    (''PSDS'', Arr IdentifyControllerData_PowerStateDesc 32, None),
    (''VS'', Arr (UInt 1) 1024, None)]"

definition IdentifyController :: cmd_class where
  "IdentifyController = \<lparr>cc_name = ''IdentifyController'', cc_base = ''Identify'',
    cc_layout = cc_layout Identify,
    cc_defaults = [(''OPC'', 6), (''CNS'', 1)], cc_admin = True, cc_data_in = Some IdentifyControllerData\<rparr>"

definition IdentifyNamespaceListData :: cty where
  "IdentifyNamespaceListData = Struct [
    (''Identifiers'', Arr (UInt 4) 1024, None)]"

definition IdentifyNamespaceList :: cmd_class where
  "IdentifyNamespaceList = \<lparr>cc_name = ''IdentifyNamespaceList'', cc_base = ''Identify'',
    cc_layout = cc_layout Identify,
    cc_defaults = [(''OPC'', 6), (''CNS'', 2)], cc_admin = True, cc_data_in = Some IdentifyNamespaceListData\<rparr>"

definition IdentifyUUIDListData_IdentifyUUIDEntry :: cty where
  "IdentifyUUIDListData_IdentifyUUIDEntry = Struct [
    (''IdAss'', UInt 1, Some 2),
    (''RSVD_0'', UInt 1, Some 6),
    (''RSVD_1'', Arr (UInt 1) 15, None),
    (''UUID'', Arr (UInt 1) 16, None)]"

definition IdentifyUUIDListData :: cty where
  "IdentifyUUIDListData = Struct [
    (''UUIDS'', Arr IdentifyUUIDListData_IdentifyUUIDEntry 128, None)]"

definition IdentifyUUIDList :: cmd_class where
  "IdentifyUUIDList = \<lparr>cc_name = ''IdentifyUUIDList'', cc_base = ''Identify'',
    cc_layout = cc_layout Identify,
    cc_defaults = [(''OPC'', 6), (''CNS'', 23)], cc_admin = True, cc_data_in = Some IdentifyUUIDListData\<rparr>"

definition IdentifyNamespaceZonedData_LBAFormatExtended :: cty where
  "IdentifyNamespaceZonedData_LBAFormatExtended = Struct [
    (''ZSZE'', UInt 8, None),
    (''ZDES'', UInt 1, None),
    (''RSVD_0)'', Arr (UInt 1) 56, None)]"

definition IdentifyNamespaceZonedData :: cty where
  "IdentifyNamespaceZonedData = Struct [
    (''ZOC'', UInt 2, None),
    (''OZCS'', UInt 2, None),
    (''MAR'', UInt 4, None),
    (''MOR'', UInt 4, None),
    (''RRL'', UInt 4, None),
    (''FRL'', UInt 4, None),
    (''RRL1'', UInt 4, None),
    (''RRL2'', UInt 4, None),
    (''RRL3'', UInt 4, None),
    (''FRL1'', UInt 4, None),
    (''FRL2'', UInt 4, None),
    (''FRL3'', UInt 4, None),
    (''RSVD_0'', Arr (UInt 1) 2772, None),
    (''LBAFE_TBL'', Arr IdentifyNamespaceZonedData_LBAFormatExtended 64, None),
    (''RSVD_1'', Arr (UInt 1) 256, None)]"

definition IdentifyNamespaceZoned :: cmd_class where
  "IdentifyNamespaceZoned = \<lparr>cc_name = ''IdentifyNamespaceZoned'', cc_base = ''Identify'',
    cc_layout = cc_layout Identify,
    cc_defaults = [(''OPC'', 6), (''CNS'', 5), (''CSI'', 2)], cc_admin = True, cc_data_in = Some IdentifyNamespaceZonedData\<rparr>"

definition IdentifyIoCmdSetData_IoCmdSetVector :: cty where
  "IdentifyIoCmdSetData_IoCmdSetVector = Struct [
    (''NVMCmdSet'', UInt 8, Some 1),
    (''KeyValueCmdSet'', UInt 8, Some 1),
    (''ZonedNamespaceCmdSet'', UInt 8, Some 1),
    (''Reserved'', UInt 8, Some 61)]"

definition IdentifyIoCmdSetData :: cty where
  "IdentifyIoCmdSetData = Struct [
    (''IoCmdSetVectors'', Arr IdentifyIoCmdSetData_IoCmdSetVector 512, None)]"

definition IdentifyIoCmdSet :: cmd_class where
  "IdentifyIoCmdSet = \<lparr>cc_name = ''IdentifyIoCmdSet'', cc_base = ''Identify'',
    cc_layout = cc_layout Identify,
    cc_defaults = [(''OPC'', 6), (''CNS'', 28)], cc_admin = True, cc_data_in = Some IdentifyIoCmdSetData\<rparr>"

section \<open>Sizes\<close>

lemma Identify_Data_sizes [layout_simps, simp]:
  "csize IdentifyData = 4096"
  "csize IdentifyNamespaceData_LBAFormat = 4"
  "csize IdentifyNamespaceData = 4096"
  "csize IdentifyControllerData_PowerStateDesc = 32"
  "csize IdentifyControllerData = 4096"
  "csize IdentifyNamespaceListData = 4096"
  "csize IdentifyUUIDListData_IdentifyUUIDEntry = 32"
  "csize IdentifyUUIDListData = 4096"
  "csize IdentifyNamespaceZonedData_LBAFormatExtended = 65"
  "csize IdentifyNamespaceZonedData = 7232"
  "csize IdentifyIoCmdSetData_IoCmdSetVector = 8"
  "csize IdentifyIoCmdSetData = 4096"
  by (simp_all add: IdentifyData_def IdentifyNamespaceData_LBAFormat_def IdentifyNamespaceData_def IdentifyControllerData_PowerStateDesc_def IdentifyControllerData_def IdentifyNamespaceListData_def IdentifyUUIDListData_IdentifyUUIDEntry_def IdentifyUUIDListData_def IdentifyNamespaceZonedData_LBAFormatExtended_def IdentifyNamespaceZonedData_def IdentifyIoCmdSetData_IoCmdSetVector_def IdentifyIoCmdSetData_def)

end
