(* ===== verification/Log_Pages.thy ===== *)
theory Log_Pages
  imports Commands
begin

text \<open>
  The log page commands and the pages they return (\<open>lone/nvme/spec/commands/admin/get_log_page.py\<close>).
\<close>

section \<open>Layouts and classes\<close>

definition GetLogPage :: cmd_class where
  "GetLogPage = \<lparr>cc_name = ''GetLogPage'', cc_base = ''ADMINCommand'',
    cc_layout = SQE [
      (''LID'', UInt 4, Some 8),
      (''LSP'', UInt 4, Some 7),
      (''RAE'', UInt 4, Some 1),
      (''NUMDL'', UInt 4, Some 16),
      (''NUMDU'', UInt 4, Some 16),
      (''LID_SPEC'', UInt 4, Some 16),
      (''LPOL'', UInt 4, None),
      (''LPOU'', UInt 4, None),
      (''UUID_IDX'', UInt 4, Some 7),
      (''RSVD_0'', UInt 4, Some 16),
      (''OT'', UInt 4, Some 1),
      (''CSI'', UInt 4, Some 8),
      (''DW15'', UInt 4, None)],
    cc_defaults = [(''OPC'', 2)], cc_admin = True, cc_data_in = None\<rparr>"

definition GetLogPageFactory :: "string \<Rightarrow> int \<Rightarrow> cty \<Rightarrow> cmd_class" where
  "GetLogPageFactory name lid data_in_type =
     (let num_dw = int (csize data_in_type div 4) - 1
      in \<lparr>cc_name = name, cc_base = ''ADMINCommand'', cc_layout = cc_layout GetLogPage,
          cc_defaults = cc_defaults GetLogPage @
            [(''LID'', lid), (''NUMDL'', num_dw AND 0xFFFF), (''NUMDH'', drop_bit 16 num_dw)],
          cc_admin = True, cc_data_in = Some data_in_type\<rparr>)"

definition GetLogPageSupportedLogPagesData_LIDSupportedAndEffectsData_LIDSupportedAndEffectsDataLIDSPECD :: cty where
  "GetLogPageSupportedLogPagesData_LIDSupportedAndEffectsData_LIDSupportedAndEffectsDataLIDSPECD = Struct [
    (''ESTCTXRD512HDSUP'', UInt 2, Some 1),
    (''RSVD_0'', UInt 2, Some 15)]"

definition GetLogPageSupportedLogPagesData_LIDSupportedAndEffectsData :: cty where
  "GetLogPageSupportedLogPagesData_LIDSupportedAndEffectsData = Struct [
    (''LSUPP'', UInt 4, Some 1),
    (''IOS'', UInt 4, Some 1),
    (''RSVD_0'', UInt 4, Some 14),
    (''LIDSPEC'', UInt 4, Some 16)]"

definition GetLogPageSupportedLogPagesData :: cty where
  "GetLogPageSupportedLogPagesData = Struct [
    (''LIDS'', Arr GetLogPageSupportedLogPagesData_LIDSupportedAndEffectsData 256, None)]"

definition GetLogPageSupportedLogPages :: cmd_class where
  "GetLogPageSupportedLogPages = GetLogPageFactory ''GetLogPageSupportedLogPages'' 0 GetLogPageSupportedLogPagesData"

definition GetLogPageErrorInformationData_ErrorInformationEntry :: cty where
  "GetLogPageErrorInformationData_ErrorInformationEntry = Struct [
    (''ErrorCount'', UInt 8, None),
    (''SQID'', UInt 2, None),
    (''CID'', UInt 2, None),
    (''P'', UInt 2, Some 1),
    (''SF'', UInt 2, Some 15),
    (''ParameterErrLocByte'', UInt 2, Some 8),
    (''ParameterErrLocBit'', UInt 2, Some 3),
    (''RSVD_0'', UInt 2, Some 5),
    (''LBA'', UInt 8, None),
    (''NS'', UInt 4, None),
    (''VSINFO'', UInt 1, None),
    (''TRTYPE'', UInt 1, None),
    (''RSVD_1'', UInt 2, None),
    (''CMDSPECINFO'', UInt 8, None),
    (''TRTYPESPECINFO'', UInt 2, None),
    (''RSVD_2'', Arr (UInt 1) 22, None)]"

definition GetLogPageErrorInformationData :: cty where
  "GetLogPageErrorInformationData = Struct [
    (''ERRORS'', Arr GetLogPageErrorInformationData_ErrorInformationEntry 256, None)]"

definition GetLogPageErrorInformation :: cmd_class where
  "GetLogPageErrorInformation = GetLogPageFactory ''GetLogPageErrorInformation'' 1 GetLogPageErrorInformationData"

definition GetLogPageSMARTData_CriticalWarning :: cty where
  "GetLogPageSMARTData_CriticalWarning = Struct [
    (''AvailableSpareBelowThreshold'', UInt 1, Some 1),
    (''TemperatureThreshold'', UInt 1, Some 1),
    (''NVMeSubsystemReliabilityDegraded'', UInt 1, Some 1),
    (''ReadOnlyMode'', UInt 1, Some 1),
    (''VolatileMemBackupFailed'', UInt 1, Some 1),
    (''PersistentMemRegionReadOnly'', UInt 1, Some 1),
    (''RSVD_0'', UInt 1, Some 2)]"

definition GetLogPageSMARTData_EnduranceGroupCriticalWarning :: cty where
  "GetLogPageSMARTData_EnduranceGroupCriticalWarning = Struct [
    (''AvailableSpareBelowThreshold'', UInt 1, Some 1),
    (''RSVD_0'', UInt 1, Some 1),
    (''ReliabilityDegraded'', UInt 1, Some 1),
    (''NamespaceInReadOnlyMode'', UInt 1, Some 1),
    (''RSVD_1'', UInt 1, Some 4)]"

definition GetLogPageSMARTData_TemperatureSensorData :: cty where
  "GetLogPageSMARTData_TemperatureSensorData = Struct [
    (''TST'', UInt 2, None)]"

definition GetLogPageSMARTData :: cty where
  "GetLogPageSMARTData = Struct [
    (''CriticalWarning'', GetLogPageSMARTData_CriticalWarning, None),
    (''CompositeTemperature'', UInt 2, None),
    (''AvailableSpare'', UInt 1, None),
    (''AvailableSpareThreshold'', UInt 1, None),
    (''PercentageUsed'', UInt 1, None),
    (''EnduranceGrpCriticalWarnSummary'', GetLogPageSMARTData_EnduranceGroupCriticalWarning, None),
    (''RSVD_0'', Arr (UInt 1) 25, None),
    (''DataUnitsReadLo'', UInt 8, None),
    (''DataUnitsReadHi'', UInt 8, None),
    (''DataUnitsWrittenLo'', UInt 8, None),
    (''DataUnitsWrittenHi'', UInt 8, None),
    (''HostReadCommandsLo'', UInt 8, None),
    (''HostReadCommandsHi'', UInt 8, None),
    (''HostWriteCommandsLo'', UInt 8, None),
    (''HostWriteCommandsHi'', UInt 8, None),
    (''ControllerBusyTimeLo'', UInt 8, None),
    (''ControllerBusyTimeHi'', UInt 8, None),
    (''PowerCyclesLo'', UInt 8, None),
    (''PowerCyclesHi'', UInt 8, None),
    (''PowerOnHoursLo'', UInt 8, None),
    (''PowerOnHoursHi'', UInt 8, None),
    (''UnsafeShutdownsLo'', UInt 8, None),
    (''UnsafeShutdownsHi'', UInt 8, None),
    (''MediaAndDataIntegrityErrorsLo'', UInt 8, None),
    (''MediaAndDataIntegrityErrorsHi'', UInt 8, None),
    (''NumberofErrorInformationLogEntriesLo'', UInt 8, None),
    (''NumberofErrorInformationLogEntriesHi'', UInt 8, None),
    (''WarningCompTempTime'', UInt 4, None),
    (''CriticalCompTempTime'', UInt 4, None),
    (''TempSensors'', Arr GetLogPageSMARTData_TemperatureSensorData 8, None),
    (''ThermalMgmtTemp1TransitionCount'', UInt 4, None),
    (''ThermalMgmtTemp2TransitionCount'', UInt 4, None),
    (''TotalTimeThermalMgmtTemp1'', UInt 4, None),
    (''TotalTimeThermalMgmtTemp2'', UInt 4, None),
    (''RSVD_1'', Arr (UInt 1) 280, None)]"

definition GetLogPageSMART :: cmd_class where
  "GetLogPageSMART = GetLogPageFactory ''GetLogPageSMART'' 2 GetLogPageSMARTData"

definition GetLogPageFirmwareSlotInfoData :: cty where
  "GetLogPageFirmwareSlotInfoData = Struct [
    (''AFI'', UInt 1, None),
    (''RSVD_0'', Arr (UInt 1) 7, None),
    (''FRS1'', Arr (UInt 1) 8, None),
    (''FRS2'', Arr (UInt 1) 8, None),
    (''FRS3'', Arr (UInt 1) 8, None),
    (''FRS4'', Arr (UInt 1) 8, None),
    (''FRS5'', Arr (UInt 1) 8, None),
    (''FRS6'', Arr (UInt 1) 8, None),
    (''FRS7'', Arr (UInt 1) 8, None),
    (''RSVD_0'', Arr (UInt 1) 448, None)]"

definition GetLogPageFirmwareSlotInfo :: cmd_class where
  "GetLogPageFirmwareSlotInfo = GetLogPageFactory ''GetLogPageFirmwareSlotInfo'' 3 GetLogPageFirmwareSlotInfoData"

definition GetLogPageChangedNamespaceListData :: cty where
  "GetLogPageChangedNamespaceListData = Struct [
    (''CHANGED_NS'', Arr (UInt 4) 1024, None)]"

definition GetLogPageChangedNamespaceList :: cmd_class where
  "GetLogPageChangedNamespaceList = GetLogPageFactory ''GetLogPageChangedNamespaceList'' 4 GetLogPageChangedNamespaceListData"

definition GetLogPageCommandsSupportedAndEffectsData_CommandsSupportedAndEffects :: cty where
  "GetLogPageCommandsSupportedAndEffectsData_CommandsSupportedAndEffects = Struct [
    (''CSUPP'', UInt 4, Some 1),
    (''LBCC'', UInt 4, Some 1),
    (''NCC'', UInt 4, Some 1),
    (''NIC'', UInt 4, Some 1),
    (''CCC'', UInt 4, Some 1),
    (''RSVD_0'', UInt 4, Some 9),
    (''CSER'', UInt 4, Some 2),
    (''CSE'', UInt 4, Some 3),
    (''USS'', UInt 4, Some 1),
    (''CSP'', UInt 4, Some 12)]"

definition GetLogPageCommandsSupportedAndEffectsData :: cty where
  "GetLogPageCommandsSupportedAndEffectsData = Struct [
    (''ACS'', Arr GetLogPageCommandsSupportedAndEffectsData_CommandsSupportedAndEffects 256, None),
    (''IOCS'', Arr GetLogPageCommandsSupportedAndEffectsData_CommandsSupportedAndEffects 256, None),
    (''RSVD_0'', Arr (UInt 1) 2048, None)]"

definition GetLogPageCommandsSupportedAndEffects :: cmd_class where
  "GetLogPageCommandsSupportedAndEffects = GetLogPageFactory ''GetLogPageCommandsSupportedAndEffects'' 5 GetLogPageCommandsSupportedAndEffectsData"

definition GetLogPageDeviceSelfTestData_DeviceSelfTestResult :: cty where
  "GetLogPageDeviceSelfTestData_DeviceSelfTestResult = Struct [
    (''Status'', UInt 1, Some 4),
    (''Code'', UInt 1, Some 4),
    (''SegmentNumber'', UInt 1, None),
    (''ValidDiagInfo'', UInt 1, None),
    (''RSVD_0'', UInt 1, None),
    (''POH'', UInt 8, None),
    (''NSID'', UInt 4, None),
    (''FAIL_LBA'', UInt 8, None),
    (''SCT'', UInt 1, None),
    (''SC'', UInt 1, None),
    (''VU'', UInt 2, None)]"

definition GetLogPageDeviceSelfTestData :: cty where
  "GetLogPageDeviceSelfTestData = Struct [
    (''Operation'', UInt 1, None),
    (''Completion'', UInt 1, None),
    (''RSVD_0'', Arr (UInt 1) 2, None),
    (''Results'', Arr GetLogPageDeviceSelfTestData_DeviceSelfTestResult 20, None)]"

definition GetLogPageDeviceSelfTest :: cmd_class where
  "GetLogPageDeviceSelfTest = GetLogPageFactory ''GetLogPageDeviceSelfTest'' 6 GetLogPageDeviceSelfTestData"

definition TelemetryDataBlock :: cty where
  "TelemetryDataBlock = Struct [
    (''Data'', Arr (UInt 1) 512, None)]"

definition GetLogPageTelemetryHostInitiatedData :: cty where
  "GetLogPageTelemetryHostInitiatedData = Struct [
    (''LogIdentifier'', UInt 1, None),
    (''RSVD_0'', Arr (UInt 1) 4, None),
    (''IEEE'', Arr (UInt 1) 3, None),
    (''DataArea1LastBlock'', UInt 2, None),
    (''DataArea2LastBlock'', UInt 2, None),
    (''DataArea3LastBlock'', UInt 2, None),
    (''RSVD_1'', Arr (UInt 1) 2, None),
    (''DataArea4LastBlock'', UInt 4, None),
    (''RSVD_2'', Arr (UInt 1) 361, None),
    (''HostInitDataGenerationNumber'', UInt 1, None),
    (''ControllerDataAvailable'', UInt 1, None),
    (''ControllerDataGenerationNumber'', UInt 1, None),
    (''ReaonIdentifier'', Arr (UInt 1) 128, None),
    (''DataBlocks'', Arr TelemetryDataBlock 512, None)]"

definition GetLogPageTelemetryHostInitiated :: cmd_class where
  "GetLogPageTelemetryHostInitiated = GetLogPageFactory ''GetLogPageTelemetryHostInitiated'' 7 GetLogPageTelemetryHostInitiatedData"

definition GetLogPageTelemetryControllerInitiatedData :: cty where
  "GetLogPageTelemetryControllerInitiatedData = Struct [
    (''LogIdentifier'', UInt 1, None),
    (''RSVD_0'', Arr (UInt 1) 4, None),
    (''IEEE'', Arr (UInt 1) 3, None),
    (''DataArea1LastBlock'', UInt 2, None),
    (''DataArea2LastBlock'', UInt 2, None),
    (''DataArea3LastBlock'', UInt 2, None),
    (''RSVD_1'', Arr (UInt 1) 2, None),
    (''DataArea4LastBlock'', UInt 4, None),
    (''RSVD_2'', Arr (UInt 1) 362, None),
    (''ControllerDataAvailable'', UInt 1, None),
    (''ControllerDataGenerationNumber'', UInt 1, None),
    (''ReaonIdentifier'', Arr (UInt 1) 128, None),
    (''DataBlocks'', Arr TelemetryDataBlock 512, None)]"

definition GetLogPageTelemetryControllerInitiated :: cmd_class where
  "GetLogPageTelemetryControllerInitiated = GetLogPageFactory ''GetLogPageTelemetryControllerInitiated'' 8 GetLogPageTelemetryControllerInitiatedData"

definition GetLogPageEnduranceGroupInformationData_CriticalWarning :: cty where
  "GetLogPageEnduranceGroupInformationData_CriticalWarning = Struct [
    (''AvailableSpareCapLow'', UInt 1, Some 1),
    (''RSVD_0'', UInt 1, Some 1),
    (''ReliabilityDegraded'', UInt 1, Some 1),
    (''AllReadOnly'', UInt 1, Some 1),
    (''RSVD_1'', UInt 1, Some 4)]"

definition GetLogPageEnduranceGroupInformationData_EnduranceGroupFeatures :: cty where
  "GetLogPageEnduranceGroupInformationData_EnduranceGroupFeatures = Struct [
    (''EGRMEDIA'', UInt 1, Some 1),
    (''RSVD_0'', UInt 1, Some 7)]"

definition GetLogPageEnduranceGroupInformationData :: cty where
  "GetLogPageEnduranceGroupInformationData = Struct [
    (''CriticalWarning'', GetLogPageEnduranceGroupInformationData_CriticalWarning, None),
    (''EGFEAT'', GetLogPageEnduranceGroupInformationData_EnduranceGroupFeatures, None),
    (''RSVD_0'', UInt 1, None),
    (''AvailableSpare'', UInt 1, None),
    (''AvailableSpareThreshold'', UInt 1, None),
    (''PercentageUsed'', UInt 1, None),
    (''DomainIdentifier'', UInt 2, None),
    (''RSVD_1'', Arr (UInt 1) 24, None),
    (''EnduranceEstimateLo'', UInt 8, None),
    (''EnduranceEstimateHi'', UInt 8, None),
    (''DataUnitsReadLo'', UInt 8, None),
    (''DataUnitsReadHi'', UInt 8, None),
    (''DataUnitsWrittenLo'', UInt 8, None),
    (''DataUnitsWrittenHi'', UInt 8, None),
    (''MediaUnitsWrittenLo'', UInt 8, None),
    (''MediaUnitsWrittenHi'', UInt 8, None),
    (''HostReadCommandsLo'', UInt 8, None),
    (''HostReadCommandsHi'', UInt 8, None),
    (''HostWriteCommandsLo'', UInt 8, None),
    (''HostWriteCommandsHi'', UInt 8, None),
    (''MediaAndDataIntegrityErrorsLo'', UInt 8, None),
    (''MediaAndDataIntegrityErrorsHi'', UInt 8, None),
    (''NumberofErrorInformationLogEntriesLo'', UInt 8, None),
    (''NumberofErrorInformationLogEntriesHi'', UInt 8, None),
    (''TEGCAP_LO'', UInt 8, None),
    (''TEGCAP_HI'', UInt 8, None),
    (''UEGCAP_LO'', UInt 8, None),
    (''UEGCAP_HI'', UInt 8, None),
    (''RSVD_2'', Arr (UInt 1) 320, None)]"

definition GetLogPageEnduranceGroupInformation :: cmd_class where
  "GetLogPageEnduranceGroupInformation = GetLogPageFactory ''GetLogPageEnduranceGroupInformation'' 9 GetLogPageEnduranceGroupInformationData"

definition GetLogPagePredictableLatencyPerNVMSetData :: cty where
  "GetLogPagePredictableLatencyPerNVMSetData = Struct [
    (''Status'', UInt 1, None),
    (''RSVD_0'', UInt 1, None),
    (''EventType'', UInt 2, None),
    (''RSVD_1'', Arr (UInt 1) 28, None),
    (''DTWIN_ReadsTypical'', UInt 8, None),
    (''DTWIN_WritesTypical'', UInt 8, None),
    (''DTWIN_TimeMax'', UInt 8, None),
    (''NDWIN_TimeMinHi'', UInt 8, None),
    (''NDWIN_TimeMinLo'', UInt 8, None),
    (''RSVD_2'', Arr (UInt 1) 56, None),
    (''DTWIN_ReadsEstimate'', UInt 8, None),
    (''DTWIN_WritesEstimate'', UInt 8, None),
    (''DTWIN_TimeEstimate'', UInt 8, None),
    (''RSVD_3'', Arr (UInt 1) 360, None)]"

definition GetLogPagePredictableLatencyPerNVMSet :: cmd_class where
  "GetLogPagePredictableLatencyPerNVMSet = GetLogPageFactory ''GetLogPagePredictableLatencyPerNVMSet'' 10 GetLogPagePredictableLatencyPerNVMSetData"

definition GetLogPagePredictableLatencyEventAggregateData :: cty where
  "GetLogPagePredictableLatencyEventAggregateData = Struct [
    (''NumberOfEntries'', UInt 8, None),
    (''Entries'', Arr (UInt 2) 256, None)]"

definition GetLogPagePredictableLatencyEventAggregate :: cmd_class where
  "GetLogPagePredictableLatencyEventAggregate = GetLogPageFactory ''GetLogPagePredictableLatencyEventAggregate'' 11 GetLogPagePredictableLatencyEventAggregateData"

definition GetLogPageAsymetricNamespaceAccessData :: cty where
  "GetLogPageAsymetricNamespaceAccessData = Struct [
    (''placeholder'', Arr (UInt 1) 4096, None)]"

definition GetLogPageAsymetricNamespaceAccess :: cmd_class where
  "GetLogPageAsymetricNamespaceAccess = GetLogPageFactory ''GetLogPageAsymetricNamespaceAccess'' 12 GetLogPageAsymetricNamespaceAccessData"

definition GetLogPagePersistentEventLogData :: cty where
  "GetLogPagePersistentEventLogData = Struct [
    (''placeholder'', Arr (UInt 1) 4096, None)]"

definition GetLogPagePersistentEventLog :: cmd_class where
  "GetLogPagePersistentEventLog = GetLogPageFactory ''GetLogPagePersistentEventLog'' 13 GetLogPagePersistentEventLogData"

definition GetLogPageEnduranceGroupEventAggregateData :: cty where
  "GetLogPageEnduranceGroupEventAggregateData = Struct [
    (''placeholder'', Arr (UInt 1) 4096, None)]"

definition GetLogPageEnduranceGroupEventAggregate :: cmd_class where
  "GetLogPageEnduranceGroupEventAggregate = GetLogPageFactory ''GetLogPageEnduranceGroupEventAggregate'' 15 GetLogPageEnduranceGroupEventAggregateData"

definition GetLogPageMediaUnitStatusData :: cty where
  "GetLogPageMediaUnitStatusData = Struct [
    (''placeholder'', Arr (UInt 1) 4096, None)]"

definition GetLogPageMediaUnitStatus :: cmd_class where
  "GetLogPageMediaUnitStatus = GetLogPageFactory ''GetLogPageMediaUnitStatus'' 16 GetLogPageMediaUnitStatusData"

definition GetLogPageSupportedCapacityConfigurationListData :: cty where
  "GetLogPageSupportedCapacityConfigurationListData = Struct [
    (''placeholder'', Arr (UInt 1) 4096, None)]"

definition GetLogPageSupportedCapacityConfigurationList :: cmd_class where
  "GetLogPageSupportedCapacityConfigurationList = GetLogPageFactory ''GetLogPageSupportedCapacityConfigurationList'' 17 GetLogPageSupportedCapacityConfigurationListData"

definition GetLogPageFeatureIdentifiersSupportedAndEffectsData :: cty where
  "GetLogPageFeatureIdentifiersSupportedAndEffectsData = Struct [
    (''placeholder'', Arr (UInt 1) 4096, None)]"

definition GetLogPageFeatureIdentifiersSupportedAndEffects :: cmd_class where
  "GetLogPageFeatureIdentifiersSupportedAndEffects = GetLogPageFactory ''GetLogPageFeatureIdentifiersSupportedAndEffects'' 18 GetLogPageFeatureIdentifiersSupportedAndEffectsData"

definition GetLogPageNVMeMICommandsSupportedAndEffectsData :: cty where
  "GetLogPageNVMeMICommandsSupportedAndEffectsData = Struct [
    (''placeholder'', Arr (UInt 1) 4096, None)]"

definition GetLogPageNVMeMICommandsSupportedAndEffects :: cmd_class where
  "GetLogPageNVMeMICommandsSupportedAndEffects = GetLogPageFactory ''GetLogPageNVMeMICommandsSupportedAndEffects'' 19 GetLogPageNVMeMICommandsSupportedAndEffectsData"

definition GetLogPageCommandAndFeatureLockdownData :: cty where
  "GetLogPageCommandAndFeatureLockdownData = Struct [
    (''placeholder'', Arr (UInt 1) 4096, None)]"

definition GetLogPageCommandAndFeatureLockdown :: cmd_class where
  "GetLogPageCommandAndFeatureLockdown = GetLogPageFactory ''GetLogPageCommandAndFeatureLockdown'' 20 GetLogPageCommandAndFeatureLockdownData"

definition GetLogPageBootPartitionData :: cty where
  "GetLogPageBootPartitionData = Struct [
    (''placeholder'', Arr (UInt 1) 4096, None)]"

definition GetLogPageBootPartition :: cmd_class where
  "GetLogPageBootPartition = GetLogPageFactory ''GetLogPageBootPartition'' 21 GetLogPageBootPartitionData"

definition GetLogPageRotationalMediaInformationData :: cty where
  "GetLogPageRotationalMediaInformationData = Struct [
    (''placeholder'', Arr (UInt 1) 4096, None)]"

definition GetLogPageRotationalMediaInformation :: cmd_class where
  "GetLogPageRotationalMediaInformation = GetLogPageFactory ''GetLogPageRotationalMediaInformation'' 22 GetLogPageRotationalMediaInformationData"

definition GetLogPageDiscoveryData :: cty where
  "GetLogPageDiscoveryData = Struct [
    (''placeholder'', Arr (UInt 1) 4096, None)]"

definition GetLogPageDiscovery :: cmd_class where
  "GetLogPageDiscovery = GetLogPageFactory ''GetLogPageDiscovery'' 112 GetLogPageDiscoveryData"

definition GetLogPageReservationNotificationData :: cty where
  "GetLogPageReservationNotificationData = Struct [
    (''placeholder'', Arr (UInt 1) 4096, None)]"

definition GetLogPageReservationNotification :: cmd_class where
  "GetLogPageReservationNotification = GetLogPageFactory ''GetLogPageReservationNotification'' 128 GetLogPageReservationNotificationData"

definition GetLogPageSanitizeStatusData_SStat :: cty where
  "GetLogPageSanitizeStatusData_SStat = Struct [
    (''SOS'', UInt 2, Some 3),
    (''OPC'', UInt 2, Some 5),
    (''GDE'', UInt 2, Some 1),
    (''MVCNCLD'', UInt 2, Some 1),
    (''RSVD_0'', UInt 2, Some 6)]"

definition GetLogPageSanitizeStatusData :: cty where
  "GetLogPageSanitizeStatusData = Struct [
    (''SPROG'', UInt 2, None),
    (''SSTAT'', GetLogPageSanitizeStatusData_SStat, None),
    (''SCDW10'', UInt 4, None),
    (''OVERW_TIME'', UInt 4, None),
    (''BLKERASE_TIME'', UInt 4, None),
    (''CRYPTO_TIME'', UInt 4, None),
    (''OVERWNODEALLOC_TIME'', UInt 4, None),
    (''BLOCKERASENODEALLOC_TIME'', UInt 4, None),
    (''CRYPTOERASENODEALLOC_TIME'', UInt 4, None),
    (''RESERVED'', Arr (UInt 1) 480, None)]"

definition GetLogPageSanitizeStatus :: cmd_class where
  "GetLogPageSanitizeStatus = GetLogPageFactory ''GetLogPageSanitizeStatus'' 129 GetLogPageSanitizeStatusData"

section \<open>Sizes\<close>

lemma Log_Pages_sizes [layout_simps, simp]:
  "csize GetLogPageSupportedLogPagesData_LIDSupportedAndEffectsData_LIDSupportedAndEffectsDataLIDSPECD = 2"
  "csize GetLogPageSupportedLogPagesData_LIDSupportedAndEffectsData = 4"
  "csize GetLogPageSupportedLogPagesData = 1024"
  "csize GetLogPageErrorInformationData_ErrorInformationEntry = 64"
  "csize GetLogPageErrorInformationData = 16384"
  "csize GetLogPageSMARTData_CriticalWarning = 1"
  "csize GetLogPageSMARTData_EnduranceGroupCriticalWarning = 1"
  "csize GetLogPageSMARTData_TemperatureSensorData = 2"
  "csize GetLogPageSMARTData = 512"
  "csize GetLogPageFirmwareSlotInfoData = 512"
  "csize GetLogPageChangedNamespaceListData = 4096"
  "csize GetLogPageCommandsSupportedAndEffectsData_CommandsSupportedAndEffects = 4"
  "csize GetLogPageCommandsSupportedAndEffectsData = 4096"
  "csize GetLogPageDeviceSelfTestData_DeviceSelfTestResult = 28"
  "csize GetLogPageDeviceSelfTestData = 564"
  "csize TelemetryDataBlock = 512"
  "csize GetLogPageTelemetryHostInitiatedData = 262656"
  "csize GetLogPageTelemetryControllerInitiatedData = 262656"
  "csize GetLogPageEnduranceGroupInformationData_CriticalWarning = 1"
  "csize GetLogPageEnduranceGroupInformationData_EnduranceGroupFeatures = 1"
  "csize GetLogPageEnduranceGroupInformationData = 512"
  "csize GetLogPagePredictableLatencyPerNVMSetData = 512"
  "csize GetLogPagePredictableLatencyEventAggregateData = 520"
  "csize GetLogPageAsymetricNamespaceAccessData = 4096"
  "csize GetLogPagePersistentEventLogData = 4096"
  "csize GetLogPageEnduranceGroupEventAggregateData = 4096"
  "csize GetLogPageMediaUnitStatusData = 4096"
  "csize GetLogPageSupportedCapacityConfigurationListData = 4096"
  "csize GetLogPageFeatureIdentifiersSupportedAndEffectsData = 4096"
  "csize GetLogPageNVMeMICommandsSupportedAndEffectsData = 4096"
  "csize GetLogPageCommandAndFeatureLockdownData = 4096"
  "csize GetLogPageBootPartitionData = 4096"
  "csize GetLogPageRotationalMediaInformationData = 4096"
  "csize GetLogPageDiscoveryData = 4096"
  "csize GetLogPageReservationNotificationData = 4096"
  "csize GetLogPageSanitizeStatusData_SStat = 2"
  "csize GetLogPageSanitizeStatusData = 512"
  by (simp_all add: GetLogPageSupportedLogPagesData_LIDSupportedAndEffectsData_LIDSupportedAndEffectsDataLIDSPECD_def GetLogPageSupportedLogPagesData_LIDSupportedAndEffectsData_def GetLogPageSupportedLogPagesData_def GetLogPageErrorInformationData_ErrorInformationEntry_def GetLogPageErrorInformationData_def GetLogPageSMARTData_CriticalWarning_def GetLogPageSMARTData_EnduranceGroupCriticalWarning_def GetLogPageSMARTData_TemperatureSensorData_def GetLogPageSMARTData_def GetLogPageFirmwareSlotInfoData_def GetLogPageChangedNamespaceListData_def GetLogPageCommandsSupportedAndEffectsData_CommandsSupportedAndEffects_def GetLogPageCommandsSupportedAndEffectsData_def GetLogPageDeviceSelfTestData_DeviceSelfTestResult_def GetLogPageDeviceSelfTestData_def TelemetryDataBlock_def GetLogPageTelemetryHostInitiatedData_def GetLogPageTelemetryControllerInitiatedData_def GetLogPageEnduranceGroupInformationData_CriticalWarning_def GetLogPageEnduranceGroupInformationData_EnduranceGroupFeatures_def GetLogPageEnduranceGroupInformationData_def GetLogPagePredictableLatencyPerNVMSetData_def GetLogPagePredictableLatencyEventAggregateData_def GetLogPageAsymetricNamespaceAccessData_def GetLogPagePersistentEventLogData_def GetLogPageEnduranceGroupEventAggregateData_def GetLogPageMediaUnitStatusData_def GetLogPageSupportedCapacityConfigurationListData_def GetLogPageFeatureIdentifiersSupportedAndEffectsData_def GetLogPageNVMeMICommandsSupportedAndEffectsData_def GetLogPageCommandAndFeatureLockdownData_def GetLogPageBootPartitionData_def GetLogPageRotationalMediaInformationData_def GetLogPageDiscoveryData_def GetLogPageReservationNotificationData_def GetLogPageSanitizeStatusData_SStat_def GetLogPageSanitizeStatusData_def)

end
