(* ===== verification/Command_Classes.thy ===== *)
theory Command_Classes
  imports Commands
begin

text \<open>
  The queue, format and sanitize commands of the admin command set and the read, write and flush
  commands of the NVM command set (\<open>lone/nvme/spec/commands\<close>), one class each.
\<close>

section \<open>Layouts and classes\<close>

definition CreateIOCompletionQueue :: cmd_class where
  "CreateIOCompletionQueue = \<lparr>cc_name = ''CreateIOCompletionQueue'', cc_base = ''ADMINCommand'',
    cc_layout = SQE [
      (''QID'', UInt 4, Some 16),
      (''QSIZE'', UInt 4, Some 16),
      (''PC'', UInt 4, Some 1),
      (''IEN'', UInt 4, Some 1),
      (''RSVD_0'', UInt 4, Some 14),
      (''IV'', UInt 4, Some 16),
      (''DW12'', UInt 4, None),
      (''DW13'', UInt 4, None),
      (''DW14'', UInt 4, None),
      (''DW15'', UInt 4, None)],
    cc_defaults = [(''OPC'', 5)], cc_admin = True, cc_data_in = None\<rparr>"

definition CreateIOSubmissionQueue :: cmd_class where
  "CreateIOSubmissionQueue = \<lparr>cc_name = ''CreateIOSubmissionQueue'', cc_base = ''ADMINCommand'',
    cc_layout = SQE [
      (''QID'', UInt 4, Some 16),
      (''QSIZE'', UInt 4, Some 16),
      (''PC'', UInt 4, Some 1),
      (''QPRIO'', UInt 4, Some 2),
      (''RSVD_0'', UInt 4, Some 13),
      (''CQID'', UInt 4, Some 16),
      (''NVMSETID'', UInt 4, Some 16),
      (''RSVD_2'', UInt 4, Some 16),
      (''DW13'', UInt 4, None),
      (''DW14'', UInt 4, None),
      (''DW15'', UInt 4, None)],
    cc_defaults = [(''OPC'', 1)], cc_admin = True, cc_data_in = None\<rparr>"

definition DeleteIOCompletionQueue :: cmd_class where
  "DeleteIOCompletionQueue = \<lparr>cc_name = ''DeleteIOCompletionQueue'', cc_base = ''ADMINCommand'',
    cc_layout = SQE [
      (''QID'', UInt 4, Some 16),
      (''RSVD_0'', UInt 4, Some 16),
      (''DW11'', UInt 4, None),
      (''DW12'', UInt 4, None),
      (''DW13'', UInt 4, None),
      (''DW14'', UInt 4, None),
      (''DW15'', UInt 4, None)],
    cc_defaults = [(''OPC'', 4)], cc_admin = True, cc_data_in = None\<rparr>"

definition DeleteIOSubmissionQueue :: cmd_class where
  "DeleteIOSubmissionQueue = \<lparr>cc_name = ''DeleteIOSubmissionQueue'', cc_base = ''ADMINCommand'',
    cc_layout = SQE [
      (''QID'', UInt 4, Some 16),
      (''RSVD_0'', UInt 4, Some 16),
      (''DW11'', UInt 4, None),
      (''DW12'', UInt 4, None),
      (''DW13'', UInt 4, None),
      (''DW14'', UInt 4, None),
      (''DW15'', UInt 4, None)],
    cc_defaults = [(''OPC'', 0)], cc_admin = True, cc_data_in = None\<rparr>"

definition FormatNVM :: cmd_class where
  "FormatNVM = \<lparr>cc_name = ''FormatNVM'', cc_base = ''ADMINCommand'',
    cc_layout = SQE [
      (''LBAFL'', UInt 4, Some 4),
      (''MSET'', UInt 4, Some 1),
      (''PI'', UInt 4, Some 3),
      (''PIL'', UInt 4, Some 1),
      (''SES'', UInt 4, Some 3),
      (''LBAFU'', UInt 4, Some 2),
      (''RSVD_0'', UInt 4, Some 18),
      (''DW11'', UInt 4, None),
      (''DW12'', UInt 4, None),
      (''DW13'', UInt 4, None),
      (''DW14'', UInt 4, None),
      (''DW15'', UInt 4, None)],
    cc_defaults = [(''OPC'', 128)], cc_admin = True, cc_data_in = None\<rparr>"

definition Sanitize :: cmd_class where
  "Sanitize = \<lparr>cc_name = ''Sanitize'', cc_base = ''ADMINCommand'',
    cc_layout = SQE [
      (''SANACT'', UInt 4, Some 3),
      (''AUSE'', UInt 4, Some 1),
      (''OWPASS'', UInt 4, Some 4),
      (''OIPBP'', UInt 4, Some 1),
      (''NODEALOC'', UInt 4, Some 1),
      (''RSVD'', UInt 4, Some 22),
      (''OVRPAT'', UInt 4, None),
      (''DW12'', UInt 4, None),
      (''DW13'', UInt 4, None),
      (''DW14'', UInt 4, None),
      (''DW15'', UInt 4, None)],
    cc_defaults = [(''OPC'', 132)], cc_admin = True, cc_data_in = None\<rparr>"

definition Read_Dsm :: cty where
  "Read_Dsm = Struct [
    (''AF'', UInt 1, Some 4),
    (''AL'', UInt 1, Some 2),
    (''SR'', UInt 1, Some 1),
    (''I'', UInt 1, Some 1)]"

definition Read :: cmd_class where
  "Read = \<lparr>cc_name = ''Read'', cc_base = ''NVMCommand'',
    cc_layout = SQE [
      (''SLBA'', UInt 8, None),
      (''NLB'', UInt 4, Some 16),
      (''RSVD_0'', UInt 4, Some 8),
      (''STC'', UInt 4, Some 1),
      (''RSVD_1'', UInt 4, Some 1),
      (''PRINFO'', UInt 4, Some 4),
      (''FUA'', UInt 4, Some 1),
      (''LR'', UInt 4, Some 1),
      (''DSM'', Read_Dsm, None),
      (''RSVD_1'', UInt 1, None),
      (''RSVD_2'', UInt 2, None),
      (''ELBST_EILBRT'', UInt 4, None),
      (''ELBAT'', UInt 4, Some 16),
      (''ELBATM'', UInt 4, Some 16)],
    cc_defaults = [(''OPC'', 2)], cc_admin = False, cc_data_in = None\<rparr>"

definition Write_Dsm :: cty where
  "Write_Dsm = Struct [
    (''AF'', UInt 1, Some 4),
    (''AL'', UInt 1, Some 2),
    (''SR'', UInt 1, Some 1),
    (''I'', UInt 1, Some 1)]"

definition Write :: cmd_class where
  "Write = \<lparr>cc_name = ''Write'', cc_base = ''NVMCommand'',
    cc_layout = SQE [
      (''SLBA'', UInt 8, None),
      (''NLB'', UInt 4, Some 16),
      (''RSVD_0'', UInt 4, Some 4),
      (''DTYPE'', UInt 4, Some 4),
      (''STC'', UInt 4, Some 1),
      (''RSVD_1'', UInt 4, Some 1),
      (''PRINFO'', UInt 4, Some 4),
      (''FUA'', UInt 4, Some 1),
      (''LR'', UInt 4, Some 1),
      (''DSM'', Write_Dsm, None),
      (''RSVD_2'', UInt 1, None),
      (''DSPEC'', UInt 2, None),
      (''ELBST_EILBRT'', UInt 4, None),
      (''LBAT'', UInt 4, Some 16),
      (''LBATM'', UInt 4, Some 16)],
    cc_defaults = [(''OPC'', 1)], cc_admin = False, cc_data_in = None\<rparr>"

definition Flush :: cmd_class where
  "Flush = \<lparr>cc_name = ''Flush'', cc_base = ''NVMCommand'',
    cc_layout = SQE [
      (''DW10'', UInt 4, None),
      (''DW11'', UInt 4, None),
      (''DW12'', UInt 4, None),
      (''DW13'', UInt 4, None),
      (''DW14'', UInt 4, None),
      (''DW15'', UInt 4, None)],
    cc_defaults = [(''OPC'', 0)], cc_admin = False, cc_data_in = None\<rparr>"

section \<open>Sizes\<close>

lemma Command_Classes_sizes [layout_simps, simp]:
  "csize Read_Dsm = 1"
  "csize Write_Dsm = 1"
  by (simp_all add: Read_Dsm_def Write_Dsm_def)

end
