(* ===== verification/Features.thy ===== *)
theory Features
  imports Commands
begin

text \<open>
  The get and set feature commands (\<open>lone/nvme/spec/commands/admin/get_set_feature.py\<close>). Both classes of a feature
  are made by \<open>FeatureFactory\<close> from the field lists of a description of the feature, placed between the two
  lists of fields every feature command has.
\<close>

type_synonym field_list = "(string \<times> cty \<times> nat option) list"

section \<open>The two base classes\<close>

definition GetFeature_fields_1 :: field_list where
  "GetFeature_fields_1 = [
    (''FID'', UInt 4, Some 8),
    (''SEL'', UInt 4, Some 3),
    (''RSVD_0'', UInt 4, Some 21)]"

definition GetFeature_fields_2 :: field_list where
  "GetFeature_fields_2 = [
    (''UIDX'', UInt 4, Some 7),
    (''RSVD_1'', UInt 4, Some 25),
    (''DW15'', UInt 4, None)]"

definition SetFeature_fields_1 :: field_list where
  "SetFeature_fields_1 = [
    (''FID'', UInt 4, Some 8),
    (''RSVD_0'', UInt 4, Some 23),
    (''SV'', UInt 4, Some 1)]"

definition SetFeature_fields_2 :: field_list where
  "SetFeature_fields_2 = [
    (''UIDX'', UInt 4, Some 7),
    (''RSVD_1'', UInt 4, Some 25),
    (''DW15'', UInt 4, None)]"

section \<open>The factory\<close>

record feature_info =
  fi_name :: string
  fi_fid :: int
  fi_fields :: field_list
  fi_get_fields :: field_list
  fi_set_fields :: field_list

definition FeatureFactory :: "feature_info \<Rightarrow> cmd_class \<times> cmd_class" where
  "FeatureFactory feature_info =
     (\<lparr>cc_name = ''Get'' @ fi_name feature_info, cc_base = ''ADMINCommand'',
       cc_layout = SQE (GetFeature_fields_1 @ fi_get_fields feature_info @ GetFeature_fields_2),
       cc_defaults = [(''OPC'', 0x0A), (''FID'', fi_fid feature_info)],
       cc_admin = True, cc_data_in = None\<rparr>,
      \<lparr>cc_name = ''Set'' @ fi_name feature_info, cc_base = ''ADMINCommand'',
       cc_layout = SQE (SetFeature_fields_1 @ fi_fields feature_info @ fi_set_fields feature_info @ SetFeature_fields_2),
       cc_defaults = [(''OPC'', 0x09), (''FID'', fi_fid feature_info)],
       cc_admin = True, cc_data_in = None\<rparr>)"

text \<open>The response object of a get command: the feature structure over the four bytes of \<open>CMD_SPEC\<close>.\<close>

definition feature_response :: "nat \<Rightarrow> byte list" where
  "feature_response cmd_spec = to_le 4 cmd_spec"

section \<open>The features\<close>

definition FeatureGeneric :: feature_info where
  "FeatureGeneric = \<lparr>fi_name = ''FeatureGeneric'', fi_fid = 0x00,
    fi_fields = [(''RSVD_0'', UInt 4, None)],
    fi_get_fields = [(''DW11'', UInt 4, None), (''DW12'', UInt 4, None), (''DW13'', UInt 4, None)],
    fi_set_fields = [(''DW12'', UInt 4, None), (''DW13'', UInt 4, None)]\<rparr>"

definition FeatureArbitration :: feature_info where
  "FeatureArbitration = \<lparr>fi_name = ''FeatureArbitration'', fi_fid = 0x01,
    fi_fields = [
      (''AB'', UInt 4, Some 3),
      (''RSVD_0'', UInt 4, Some 5),
      (''LPW'', UInt 4, Some 8),
      (''MPW'', UInt 4, Some 8),
      (''HPW'', UInt 4, Some 8)],
    fi_get_fields = [(''DW11'', UInt 4, None), (''DW12'', UInt 4, None), (''DW13'', UInt 4, None)],
    fi_set_fields = [(''DW12'', UInt 4, None), (''DW13'', UInt 4, None)]\<rparr>"

definition FeaturePowerManagement :: feature_info where
  "FeaturePowerManagement = \<lparr>fi_name = ''FeaturePowerManagement'', fi_fid = 0x02,
    fi_fields = [
      (''PS'', UInt 4, Some 4),
      (''WH'', UInt 4, Some 3),
      (''RSVD_0'', UInt 4, Some 25)],
    fi_get_fields = [(''DW11'', UInt 4, None), (''DW12'', UInt 4, None), (''DW13'', UInt 4, None)],
    fi_set_fields = [(''DW12'', UInt 4, None), (''DW13'', UInt 4, None)]\<rparr>"

definition GetFeature :: cmd_class where "GetFeature = fst (FeatureFactory FeatureGeneric)"
definition SetFeature :: cmd_class where "SetFeature = snd (FeatureFactory FeatureGeneric)"
definition GetFeatureArbitration :: cmd_class where
  "GetFeatureArbitration = fst (FeatureFactory FeatureArbitration)"
definition SetFeatureArbitration :: cmd_class where
  "SetFeatureArbitration = snd (FeatureFactory FeatureArbitration)"
definition GetFeaturePowerManagement :: cmd_class where
  "GetFeaturePowerManagement = fst (FeatureFactory FeaturePowerManagement)"
definition SetFeaturePowerManagement :: cmd_class where
  "SetFeaturePowerManagement = snd (FeatureFactory FeaturePowerManagement)"

lemmas feature_defs = GetFeature_def SetFeature_def GetFeatureArbitration_def SetFeatureArbitration_def
  GetFeaturePowerManagement_def SetFeaturePowerManagement_def FeatureFactory_def FeatureGeneric_def
  FeatureArbitration_def FeaturePowerManagement_def GetFeature_fields_1_def GetFeature_fields_2_def
  SetFeature_fields_1_def SetFeature_fields_2_def

end
