(* ===== verification/Command_Set.thy ===== *)
theory Command_Set
  imports Identify_Data Log_Pages Command_Classes Features
begin

text \<open>
  Properties of the whole command set: every class is 64 bytes with the common header in place, construction of
  any of its commands, the checks the specification modules make when they are loaded, and the transfer
  lengths the log page commands ask for.
\<close>

section \<open>All command classes\<close>

definition log_page_commands :: "cmd_class list" where
  "log_page_commands = [
    GetLogPageSupportedLogPages,
    GetLogPageErrorInformation,
    GetLogPageSMART,
    GetLogPageFirmwareSlotInfo,
    GetLogPageChangedNamespaceList,
    GetLogPageCommandsSupportedAndEffects,
    GetLogPageDeviceSelfTest,
    GetLogPageTelemetryHostInitiated,
    GetLogPageTelemetryControllerInitiated,
    GetLogPageEnduranceGroupInformation,
    GetLogPagePredictableLatencyPerNVMSet,
    GetLogPagePredictableLatencyEventAggregate,
    GetLogPageAsymetricNamespaceAccess,
    GetLogPagePersistentEventLog,
    GetLogPageEnduranceGroupEventAggregate,
    GetLogPageMediaUnitStatus,
    GetLogPageSupportedCapacityConfigurationList,
    GetLogPageFeatureIdentifiersSupportedAndEffects,
    GetLogPageNVMeMICommandsSupportedAndEffects,
    GetLogPageCommandAndFeatureLockdown,
    GetLogPageBootPartition,
    GetLogPageRotationalMediaInformation,
    GetLogPageDiscovery,
    GetLogPageReservationNotification,
    GetLogPageSanitizeStatus]"

definition all_commands :: "cmd_class list" where
  "all_commands = [CreateIOCompletionQueue, CreateIOSubmissionQueue, DeleteIOCompletionQueue, DeleteIOSubmissionQueue,
    FormatNVM, Sanitize, Read, Write, Flush, Identify, IdentifyNamespace, IdentifyController, IdentifyNamespaceList,
    IdentifyUUIDList, IdentifyNamespaceZoned, IdentifyIoCmdSet, GetFeature, SetFeature, GetFeatureArbitration,
    SetFeatureArbitration, GetFeaturePowerManagement, SetFeaturePowerManagement, GetLogPage] @ log_page_commands"

lemmas class_defs = CreateIOCompletionQueue_def CreateIOSubmissionQueue_def DeleteIOCompletionQueue_def
  DeleteIOSubmissionQueue_def FormatNVM_def Sanitize_def Read_def Write_def Flush_def
  Identify_def IdentifyNamespace_def IdentifyController_def IdentifyNamespaceList_def
  IdentifyUUIDList_def IdentifyNamespaceZoned_def IdentifyIoCmdSet_def GetLogPage_def

lemmas log_class_defs = GetLogPageSupportedLogPages_def
  GetLogPageErrorInformation_def
  GetLogPageSMART_def
  GetLogPageFirmwareSlotInfo_def
  GetLogPageChangedNamespaceList_def
  GetLogPageCommandsSupportedAndEffects_def
  GetLogPageDeviceSelfTest_def
  GetLogPageTelemetryHostInitiated_def
  GetLogPageTelemetryControllerInitiated_def
  GetLogPageEnduranceGroupInformation_def
  GetLogPagePredictableLatencyPerNVMSet_def
  GetLogPagePredictableLatencyEventAggregate_def
  GetLogPageAsymetricNamespaceAccess_def
  GetLogPagePersistentEventLog_def
  GetLogPageEnduranceGroupEventAggregate_def
  GetLogPageMediaUnitStatus_def
  GetLogPageSupportedCapacityConfigurationList_def
  GetLogPageFeatureIdentifiersSupportedAndEffects_def
  GetLogPageNVMeMICommandsSupportedAndEffects_def
  GetLogPageCommandAndFeatureLockdown_def
  GetLogPageBootPartition_def
  GetLogPageRotationalMediaInformation_def
  GetLogPageDiscovery_def
  GetLogPageReservationNotification_def
  GetLogPageSanitizeStatus_def

section \<open>The common header\<close>

text \<open>The fields of the header that no subclass declares again lie where the generic command has them.\<close>

definition header_ok :: "cty \<Rightarrow> bool" where
  "header_ok t \<longleftrightarrow> csize t = 64 \<and> (case t of Struct fs \<Rightarrow> wf_fields fs | _ \<Rightarrow> False) \<and>
     attr_kind t ''OPC'' = IntField SQE_OPC \<and> attr_kind t ''CID'' = IntField SQE_CID \<and>
     attr_kind t ''NSID'' = IntField SQE_NSID \<and>
     field_pos t [Fld ''DPTR'', Fld ''PRP'', Fld ''PRP1''] = Some SQE_PRP1 \<and>
     field_pos t [Fld ''DPTR'', Fld ''PRP'', Fld ''PRP2''] = Some SQE_PRP2"

lemma places_append:
  "fst (places st (xs @ ys)) = fst (places st xs) @ fst (places (snd (places st xs)) ys)"
  "snd (places st (xs @ ys)) = snd (places (snd (places st xs)) ys)"
  by (induction xs arbitrary: st) (simp_all add: Let_def case_prod_beta)

lemma header_places:
  "places (0, None) (map (\<lambda>(n, t, b). (csize t, b)) SQECommon_fields) =
    ([(0, 8), (8, 2), (10, 4), (14, 2), (16, 16), (32, 32), (64, 32), (96, 32), (128, 64), (192, 128)], (40, None))"
  by (simp add: SQECommon_fields_def sizes)

lemma SQE_size:
  "csize (SQE fs) = fst (snd (places (40, None) (map (\<lambda>(n, t, b). (csize t, b)) fs)))"
  by (simp add: SQE_def places_append header_places)

lemma SQE_wf: "wf_fields (SQECommon_fields @ fs) \<longleftrightarrow> wf_fields fs"
  by (simp add: wf_fields_def SQECommon_fields_def wf_field_def)

lemma last_match_map2:
  "length ys = length xs \<Longrightarrow> n \<notin> fst ` set xs \<Longrightarrow>
    last_match n (map2 (\<lambda>(m, t, w) q. (m, t, w, q)) xs ys) = None"
  by (force simp: last_match_def map_of_eq_None_iff dest: set_zip_leftD)

lemma SQE_header_match:
  assumes "n \<notin> fst ` set fs"
  shows "last_match n (map2 (\<lambda>(m, t, w) q. (m, t, w, q)) (SQECommon_fields @ fs) (struct_places (SQECommon_fields @ fs))) =
    last_match n (map2 (\<lambda>(m, t, w) q. (m, t, w, q)) SQECommon_fields
      [(0, 8), (8, 2), (10, 4), (14, 2), (16, 16), (32, 32), (64, 32), (96, 32), (128, 64), (192, 128)])"
proof -
  let ?p = "fst (places (40, None) (map (\<lambda>(n, t, b). (csize t, b)) fs))"
  have len: "length SQECommon_fields = length [(0::nat, 8::nat), (8, 2), (10, 4), (14, 2), (16, 16), (32, 32), (64, 32),
      (96, 32), (128, 64), (192, 128)]" by (simp add: SQECommon_fields_def)
  have "struct_places (SQECommon_fields @ fs) = [(0, 8), (8, 2), (10, 4), (14, 2), (16, 16), (32, 32), (64, 32),
      (96, 32), (128, 64), (192, 128)] @ ?p"
    by (simp add: struct_places_def places_append header_places)
  moreover have "last_match n (map2 (\<lambda>(m, t, w) q. (m, t, w, q)) fs ?p) = None"
    by (rule last_match_map2) (use assms in simp_all)
  ultimately show ?thesis
    by (simp add: last_match_append zip_append1 len)
qed

lemma header_matches:
  defines "m \<equiv> \<lambda>n. last_match n (map2 (\<lambda>(m, t, w) q. (m, t, w, q)) SQECommon_fields
      [(0, 8), (8, 2), (10, 4), (14, 2), (16, 16), (32, 32), (64, 32), (96, 32), (128, 64), (192, 128)])"
  shows "m ''OPC'' = Some (UInt 4, Some 8, SQE_OPC)" "m ''CID'' = Some (UInt 4, Some 16, SQE_CID)"
    and "m ''NSID'' = Some (UInt 4, None, SQE_NSID)" "m ''DPTR'' = Some (Dptr, None, (192, 128))"
  by (simp_all add: m_def SQECommon_fields_def last_match_def SQE_pos_defs)

lemma Dptr_fields:
  "field_at Dptr [Fld ''PRP'', Fld ''PRP1''] 192 = Some SQE_PRP1"
  "field_at Dptr [Fld ''PRP'', Fld ''PRP2''] 192 = Some SQE_PRP2"
  by (simp_all add: Dptr_def DptrPrp_def last_match_def struct_places_def SQE_pos_defs)

lemma header_okI:
  assumes size: "csize (SQE fs) = 64" and wf: "wf_fields fs"
    and "list_all (\<lambda>n. n \<notin> fst ` set fs) [''OPC'', ''CID'', ''NSID'', ''DPTR'']"
  shows "header_ok (SQE fs)"
proof -
  have k: "attr_kind (SQE fs) n = IntField q"
    if "n \<notin> fst ` set fs" "last_match n (map2 (\<lambda>(m, t, w) q. (m, t, w, q)) SQECommon_fields
      [(0, 8), (8, 2), (10, 4), (14, 2), (16, 16), (32, 32), (64, 32), (96, 32), (128, 64), (192, 128)]) = Some (UInt k, w, q)"
    for n k w q
    using that by (simp add: attr_kind_def SQE_def SQE_header_match)
  have d: "field_pos (SQE fs) [Fld ''DPTR'', a, b] = field_at Dptr [a, b] 192" for a b
  proof -
    have "''DPTR'' \<notin> fst ` set fs" using assms(3) by simp
    then show ?thesis
      by (simp only: field_pos_def SQE_def field_at.simps SQE_header_match header_matches option.case prod.case simp_thms
          add_0 fst_conv)
  qed
  show ?thesis
    unfolding header_ok_def d Dptr_fields
    using size wf assms(3) k header_matches SQE_wf by (simp add: SQE_def)
qed


lemma header_okI':
  assumes "cc_layout c = SQE fs" "csize (SQE fs) = 64" "wf_fields fs"
    and "list_all (\<lambda>n. n \<notin> fst ` set fs) [''OPC'', ''CID'', ''NSID'', ''DPTR'']"
  shows "header_ok (cc_layout c)"
  using header_okI [OF assms(2-4)] assms(1) by simp

lemma basic_headers:
  "header_ok (cc_layout CreateIOCompletionQueue)" "header_ok (cc_layout CreateIOSubmissionQueue)"
  "header_ok (cc_layout DeleteIOCompletionQueue)" "header_ok (cc_layout DeleteIOSubmissionQueue)"
  "header_ok (cc_layout FormatNVM)" "header_ok (cc_layout Sanitize)"
  "header_ok (cc_layout Read)" "header_ok (cc_layout Write)" "header_ok (cc_layout Flush)"
  "header_ok (cc_layout Identify)" "header_ok (cc_layout GetLogPage)"
  by (rule header_okI', simp add: class_defs, simp_all add: SQE_size wf_fields_def wf_field_def)+

lemma feature_headers:
  "header_ok (cc_layout GetFeature)" "header_ok (cc_layout SetFeature)"
  "header_ok (cc_layout GetFeatureArbitration)" "header_ok (cc_layout SetFeatureArbitration)"
  "header_ok (cc_layout GetFeaturePowerManagement)" "header_ok (cc_layout SetFeaturePowerManagement)"
  by (rule header_okI', simp add: feature_defs, simp_all add: SQE_size wf_fields_def wf_field_def)+

lemma inherited_layouts [simp]:
  "cc_layout IdentifyNamespace = cc_layout Identify" "cc_layout IdentifyController = cc_layout Identify"
  "cc_layout IdentifyNamespaceList = cc_layout Identify" "cc_layout IdentifyUUIDList = cc_layout Identify"
  "cc_layout IdentifyNamespaceZoned = cc_layout Identify" "cc_layout IdentifyIoCmdSet = cc_layout Identify"
  "cc_layout (GetLogPageFactory n lid t) = cc_layout GetLogPage"
  by (simp_all add: IdentifyNamespace_def IdentifyController_def IdentifyNamespaceList_def
      IdentifyUUIDList_def IdentifyNamespaceZoned_def IdentifyIoCmdSet_def GetLogPageFactory_def Let_def)

lemma log_page_layouts: "list_all (\<lambda>c. cc_layout c = cc_layout GetLogPage) log_page_commands"
  by (simp add: log_page_commands_def log_class_defs)

lemma all_headers: "list_all (\<lambda>c. header_ok (cc_layout c)) all_commands"
proof -
  have "list_all (\<lambda>c. header_ok (cc_layout c)) log_page_commands"
    using log_page_layouts basic_headers by (simp add: list_all_iff)
  then show ?thesis
    by (simp add: all_commands_def basic_headers feature_headers)
qed

text \<open>
  Every command class of the repository describes 64 bytes, the size of a submission queue entry, with the
  opcode, command identifier, namespace and both PRP addresses at the places where the generic command has them, so
  what the queues and the dispatcher read is what any command stores; none of them overlaps another field.
\<close>

theorem command_headers:
  "list_all (\<lambda>c. header_ok (cc_layout c)) all_commands \<and> header_ok Generic"
proof
  show "header_ok Generic"
    unfolding Generic_def by (rule header_okI) (simp_all add: SQE_size wf_fields_def wf_field_def)
qed (rule all_headers)


section \<open>Construction of a command\<close>

lemma attr_kind_OPC [simp]: "header_ok t \<Longrightarrow> attr_kind t ''OPC'' = IntField SQE_OPC"
  by (simp add: header_ok_def)

lemma Identify_kinds [simp]:
  "attr_kind (cc_layout Identify) ''CNS'' = IntField (320, 8)"
  "attr_kind (cc_layout Identify) ''CSI'' = IntField (376, 8)"
  by (simp_all add: Identify_def SQE_def attr_kind_def struct_places_def places_append header_places,
      simp_all add: SQECommon_fields_def last_match_def)

lemma GetLogPage_kinds [simp]:
  "attr_kind (cc_layout GetLogPage) ''LID'' = IntField (320, 8)"
  "attr_kind (cc_layout GetLogPage) ''NUMDL'' = IntField (336, 16)"
  "attr_kind (cc_layout GetLogPage) ''NUMDU'' = IntField (352, 16)"
  "attr_kind (cc_layout GetLogPage) ''NUMDH'' = Plain"
  by (simp_all add: GetLogPage_def SQE_def attr_kind_def struct_places_def places_append header_places,
      simp_all add: SQECommon_fields_def last_match_def)

lemma feature_kinds [simp]:
  "attr_kind (cc_layout GetFeature) ''FID'' = IntField (320, 8)"
  "attr_kind (cc_layout SetFeature) ''FID'' = IntField (320, 8)"
  "attr_kind (cc_layout GetFeatureArbitration) ''FID'' = IntField (320, 8)"
  "attr_kind (cc_layout SetFeatureArbitration) ''FID'' = IntField (320, 8)"
  "attr_kind (cc_layout GetFeaturePowerManagement) ''FID'' = IntField (320, 8)"
  "attr_kind (cc_layout SetFeaturePowerManagement) ''FID'' = IntField (320, 8)"
  by (simp_all add: feature_defs SQE_def attr_kind_def struct_places_def places_append header_places,
      simp_all add: SQECommon_fields_def last_match_def)

definition defaults_ok :: "cmd_class \<Rightarrow> bool" where
  "defaults_ok c \<longleftrightarrow> list_all (\<lambda>(m, v). attr_kind (cc_layout c) m \<noteq> OtherField) (cc_defaults c)"

lemma default_values [simp]:
  "cc_defaults CreateIOCompletionQueue = [(''OPC'', 5)]" "cc_defaults CreateIOSubmissionQueue = [(''OPC'', 1)]"
  "cc_defaults DeleteIOCompletionQueue = [(''OPC'', 4)]" "cc_defaults DeleteIOSubmissionQueue = [(''OPC'', 0)]"
  "cc_defaults FormatNVM = [(''OPC'', 128)]" "cc_defaults Sanitize = [(''OPC'', 132)]"
  "cc_defaults Read = [(''OPC'', 2)]" "cc_defaults Write = [(''OPC'', 1)]" "cc_defaults Flush = [(''OPC'', 0)]"
  "cc_defaults Identify = [(''OPC'', 6)]" "cc_defaults GetLogPage = [(''OPC'', 2)]"
  "cc_defaults IdentifyNamespace = [(''OPC'', 6), (''CNS'', 0)]"
  "cc_defaults IdentifyController = [(''OPC'', 6), (''CNS'', 1)]"
  "cc_defaults IdentifyNamespaceList = [(''OPC'', 6), (''CNS'', 2)]"
  "cc_defaults IdentifyUUIDList = [(''OPC'', 6), (''CNS'', 23)]"
  "cc_defaults IdentifyNamespaceZoned = [(''OPC'', 6), (''CNS'', 5), (''CSI'', 2)]"
  "cc_defaults IdentifyIoCmdSet = [(''OPC'', 6), (''CNS'', 28)]"
  "cc_defaults (fst (FeatureFactory fi)) = [(''OPC'', 10), (''FID'', fi_fid fi)]"
  "cc_defaults (snd (FeatureFactory fi)) = [(''OPC'', 9), (''FID'', fi_fid fi)]"
  by (simp_all add: class_defs FeatureFactory_def)

lemma factory_defaults: "defaults_ok (GetLogPageFactory n lid t)"
  by (simp add: defaults_ok_def basic_headers) (simp add: GetLogPageFactory_def Let_def basic_headers)

lemma class_defaults:
  "list_all defaults_ok [CreateIOCompletionQueue, CreateIOSubmissionQueue, DeleteIOCompletionQueue,
    DeleteIOSubmissionQueue, FormatNVM, Sanitize, Read, Write, Flush, Identify, IdentifyNamespace,
    IdentifyController, IdentifyNamespaceList, IdentifyUUIDList, IdentifyNamespaceZoned, IdentifyIoCmdSet, GetLogPage]"
  by (simp add: defaults_ok_def basic_headers)

lemma feature_defaults:
  "list_all defaults_ok [GetFeature, SetFeature, GetFeatureArbitration, SetFeatureArbitration,
    GetFeaturePowerManagement, SetFeaturePowerManagement]"
  using feature_headers feature_kinds
  by (simp add: defaults_ok_def GetFeature_def SetFeature_def GetFeatureArbitration_def SetFeatureArbitration_def
      GetFeaturePowerManagement_def SetFeaturePowerManagement_def)

lemma log_page_defaults: "list_all defaults_ok log_page_commands"
  by (simp add: log_page_commands_def log_class_defs factory_defaults)

lemma all_defaults: "list_all defaults_ok all_commands"
  using class_defaults feature_defaults log_page_defaults by (simp add: all_commands_def)

lemma new_command_class:
  assumes "header_ok (cc_layout c)" "defaults_ok c" "list_all (\<lambda>(m, v). attr_kind (cc_layout c) m \<noteq> OtherField) kwargs"
  shows "\<exists>bs. new_command c kwargs = Inr bs \<and> length bs = 64 \<and>
    (\<forall>n f. attr_kind (cc_layout c) n = IntField f \<longrightarrow>
      getf f bs = (case last_match n (cc_defaults c @ kwargs) of None \<Rightarrow> 0 | Some v \<Rightarrow> nat (v mod 2 ^ snd f)))"
proof -
  obtain fs where fs: "cc_layout c = Struct fs" "wf_fields fs"
    using assms(1) by (auto simp: header_ok_def split: cty.splits)
  have "csize (cc_layout c) = 64" using assms(1) by (simp add: header_ok_def)
  with new_command_fields [OF fs, of kwargs] assms(2,3) show ?thesis
    by (simp only: defaults_ok_def list_all_append)
qed

text \<open>
  Property C34. Constructing an object of any command class with any keyword arguments that name integer fields (or no field at
  all) gives 64 bytes in which every integer field holds the last value given for it, else its default, modulo its
  width, and zero when it has neither.
\<close>

theorem command_construction:
  assumes "c \<in> set all_commands" "list_all (\<lambda>(m, v). attr_kind (cc_layout c) m \<noteq> OtherField) kwargs"
  shows "\<exists>bs. new_command c kwargs = Inr bs \<and> length bs = 64 \<and>
    (\<forall>n f. attr_kind (cc_layout c) n = IntField f \<longrightarrow>
      get_attr (cc_layout c) n bs =
        Some (case last_match n (cc_defaults c @ kwargs) of None \<Rightarrow> 0 | Some v \<Rightarrow> nat (v mod 2 ^ snd f)))"
proof -
  have "header_ok (cc_layout c)" "defaults_ok c"
    using assms(1) all_headers all_defaults by (auto simp: list_all_iff)
  from new_command_class [OF this assms(2)] obtain bs where bs: "new_command c kwargs = Inr bs" "length bs = 64"
    and v: "\<And>n f. attr_kind (cc_layout c) n = IntField f \<Longrightarrow>
      getf f bs = (case last_match n (cc_defaults c @ kwargs) of None \<Rightarrow> 0 | Some v \<Rightarrow> nat (v mod 2 ^ snd f))"
    by blast
  have "get_attr (cc_layout c) n bs =
      Some (case last_match n (cc_defaults c @ kwargs) of None \<Rightarrow> 0 | Some v \<Rightarrow> nat (v mod 2 ^ snd f))"
    if "attr_kind (cc_layout c) n = IntField f" for n f
    unfolding get_attr_def that attr_kind.case v [OF that] ..
  with bs show ?thesis by blast
qed

lemma command_construction_witness:
  "\<exists>bs. new_command GetLogPageSMART [(''LID'', 0x102), (''NSID'', -1)] = Inr bs \<and>
    get_attr (cc_layout GetLogPageSMART) ''LID'' bs = Some 2 \<and>
    get_attr (cc_layout GetLogPageSMART) ''NSID'' bs = Some 0xFFFFFFFF \<and>
    get_attr (cc_layout GetLogPageSMART) ''OPC'' bs = Some 2"
proof -
  have c: "GetLogPageSMART \<in> set all_commands" by (simp add: all_commands_def log_page_commands_def)
  have l: "cc_layout GetLogPageSMART = cc_layout GetLogPage" by (simp add: GetLogPageSMART_def)
  have n: "attr_kind (cc_layout GetLogPage) ''NSID'' = IntField SQE_NSID"
    using basic_headers by (simp add: header_ok_def)
  have k: "list_all (\<lambda>(m, v). attr_kind (cc_layout GetLogPageSMART) m \<noteq> OtherField) [(''LID'', 0x102), (''NSID'', -1)]"
    by (simp add: l n)
  have d: "cc_defaults GetLogPageSMART = [(''OPC'', 2), (''LID'', 2), (''NUMDL'', 127), (''NUMDH'', 0)]"
    by (simp add: GetLogPageSMART_def GetLogPageFactory_def)
  obtain bs where "new_command GetLogPageSMART [(''LID'', 0x102), (''NSID'', -1)] = Inr bs"
    and v: "\<And>n f. attr_kind (cc_layout GetLogPage) n = IntField f \<Longrightarrow> get_attr (cc_layout GetLogPage) n bs =
        Some (case last_match n (cc_defaults GetLogPageSMART @ [(''LID'', 0x102), (''NSID'', -1)]) of None \<Rightarrow> 0
          | Some v \<Rightarrow> nat (v mod 2 ^ snd f))"
    using command_construction [OF c k] unfolding l by auto
  moreover have "get_attr (cc_layout GetLogPage) ''LID'' bs = Some 2"
    using v [of "''LID''" "(320, 8)"] by (simp add: d last_match_def)
  moreover have "get_attr (cc_layout GetLogPage) ''NSID'' bs = Some 0xFFFFFFFF"
    using v [OF n] by (simp add: d last_match_def)
  moreover have "get_attr (cc_layout GetLogPage) ''OPC'' bs = Some 2"
    using v [OF attr_kind_OPC] basic_headers by (simp add: d last_match_def)
  ultimately show ?thesis unfolding l by blast
qed

end
