(* ===== verification/Layout_Checks.thy ===== *)
theory Layout_Checks
  imports Command_Set
begin

text \<open>
  The assertions that \<open>identify.py\<close> and \<open>get_log_page.py\<close> make when they are loaded, and the transfer lengths
  that the log page commands ask the device for.
\<close>

section \<open>Transfer lengths of the log page commands\<close>

text \<open>The number of bytes a log page command asks for, from its two count fields.\<close>

definition log_page_bytes :: "byte list \<Rightarrow> nat" where
  "log_page_bytes bs =
     ((push_bit 16 (getf (352, 16) bs) OR getf (336, 16) bs) + 1) * 4"

lemma num_dw_split:
  assumes "4 \<le> k"
  shows "(int (k div 4) - 1) AND 0xFFFF = int ((k div 4 - 1) mod 65536)"
proof -
  have "(int (k div 4) - 1) AND 0xFFFF = (int (k div 4) - 1) mod 65536"
    using take_bit_eq_mask [of 16 "int (k div 4) - 1"] by (simp add: take_bit_eq_mod mask_eq_exp_minus_1)
  then show ?thesis using assms by (simp add: zmod_int of_nat_diff)
qed

lemma log_page_command:
  assumes "4 \<le> csize t"
  shows "\<exists>bs. new_command (GetLogPageFactory n lid t) [] = Inr bs \<and> length bs = 64 \<and>
    getf SQE_OPC bs = 2 \<and> getf (320, 8) bs = nat (lid mod 256) \<and>
    getf (336, 16) bs = (csize t div 4 - 1) mod 65536 \<and> getf (352, 16) bs = 0"
proof -
  let ?c = "GetLogPageFactory n lid t"
  have h: "header_ok (cc_layout ?c)" by (simp add: basic_headers)
  have d: "cc_defaults ?c = [(''OPC'', 2), (''LID'', lid), (''NUMDL'', int ((csize t div 4 - 1) mod 65536)),
      (''NUMDH'', drop_bit 16 (int (csize t div 4) - 1))]"
    using num_dw_split [OF assms] by (simp add: GetLogPageFactory_def Let_def)
  obtain bs where bs: "new_command ?c [] = Inr bs" "length bs = 64"
    and v: "\<And>n f. attr_kind (cc_layout ?c) n = IntField f \<Longrightarrow>
      getf f bs = (case last_match n (cc_defaults ?c @ []) of None \<Rightarrow> 0 | Some v \<Rightarrow> nat (v mod 2 ^ snd f))"
    using new_command_class [OF h factory_defaults, of "[]"] by auto
  have "getf SQE_OPC bs = 2"
    using v [OF attr_kind_OPC [OF h]] by (simp add: d last_match_def)
  moreover have "getf (320, 8) bs = nat (lid mod 256)" "getf (352, 16) bs = 0"
    using v [of "''LID''" "(320, 8)"] v [of "''NUMDU''" "(352, 16)"] by (simp_all add: d last_match_def)
  moreover have "getf (336, 16) bs = nat (int ((csize t div 4 - 1) mod 65536) mod 65536)"
    using v [of "''NUMDL''" "(336, 16)"] by (simp add: d last_match_def)
  ultimately show ?thesis
    using bs by (simp flip: zmod_int)
qed

text \<open>
  A log page command made by the factory asks for exactly the size of its page, when that is at most 256 KiB.
  For a larger page the upper half of the count is lost, because the factory sets a field \<open>NUMDH\<close> that the command
  does not have, and the command asks for the size modulo 256 KiB.
\<close>

theorem log_page_transfer_length:
  assumes "4 \<le> csize t" "4 dvd csize t"
  shows "\<exists>bs. new_command (GetLogPageFactory n lid t) [] = Inr bs \<and>
    log_page_bytes bs = (if csize t \<le> 262144 then csize t else (csize t - 4) mod 262144 + 4)"
proof -
  obtain k where k: "csize t = 4 * k" "0 < k" using assms by (auto elim: dvdE)
  obtain bs where bs: "new_command (GetLogPageFactory n lid t) [] = Inr bs"
    "getf (336, 16) bs = (k - 1) mod 65536" "getf (352, 16) bs = 0"
    using log_page_command [OF assms(1)] k by (metis nonzero_mult_div_cancel_left zero_neq_numeral)
  have "log_page_bytes bs = ((k - 1) mod 65536 + 1) * 4"
    by (simp add: log_page_bytes_def bs)
  also have "\<dots> = (if csize t \<le> 262144 then csize t else (csize t - 4) mod 262144 + 4)"
  proof -
    have "(4 * k - 4) mod 262144 = 4 * ((k - 1) mod 65536)"
      using mult_mod_right [of 4 "k - 1" 65536] by (simp add: diff_mult_distrib2)
    then show ?thesis using k by auto
  qed
  finally show ?thesis using bs(1) by blast
qed

text \<open>The telemetry pages are 262656 bytes, and the commands ask for 512 of them.\<close>

lemma log_page_transfer_length_witness:
  "\<exists>bs. new_command GetLogPageTelemetryHostInitiated [] = Inr bs \<and> log_page_bytes bs = 512 \<and>
    csize GetLogPageTelemetryHostInitiatedData = 262656"
  using log_page_transfer_length [of GetLogPageTelemetryHostInitiatedData "''GetLogPageTelemetryHostInitiated''" 7]
  by (simp add: GetLogPageTelemetryHostInitiated_def)

section \<open>The checks of the modules\<close>

text \<open>The size that each data structure of the identify command declares.\<close>

definition identify_declared_sizes :: "(cmd_class \<times> nat) list" where
  "identify_declared_sizes = [(Identify, 4096), (IdentifyNamespace, 4096), (IdentifyController, 4096),
    (IdentifyNamespaceList, 4096), (IdentifyUUIDList, 4096), (IdentifyNamespaceZoned, 4096), (IdentifyIoCmdSet, 4096)]"

lemma controller_offsets:
  "map (\<lambda>n. offset_of IdentifyControllerData [Fld n]) [''VS'', ''MAXCNA'', ''ONCS'', ''CCTEMP'', ''IEEE''] =
    [Some 3072, Some 560, Some 520, Some 268, Some 73]"
  by (simp add: IdentifyControllerData_def offset_of_def field_pos_def last_match_def struct_places_def)

lemma log_offsets:
  "offset_of GetLogPageSMARTData [Fld ''ThermalMgmtTemp2TransitionCount''] = Some 220"
  "offset_of GetLogPageSMARTData [Fld ''ControllerBusyTimeLo''] = Some 96"
  "offset_of GetLogPageFirmwareSlotInfoData [Fld ''FRS3''] = Some 24"
  by (simp_all add: GetLogPageSMARTData_def GetLogPageFirmwareSlotInfoData_def offset_of_def field_pos_def
      last_match_def struct_places_def)

definition log_page_declared_sizes :: "nat list" where
  "log_page_declared_sizes = [1024, 16384, 512, 512, 4096, 4096, 564, 512 * 512 + 512, 512 * 512 + 512, 512, 512,
    8 + 256 * 2, 4096, 4096, 4096, 4096, 4096, 4096, 4096, 4096, 4096, 4096, 4096, 4096, 512]"

lemma log_sizes:
  "map (\<lambda>c. map_option csize (cc_data_in c)) log_page_commands = map Some log_page_declared_sizes"
  by (simp add: log_page_commands_def log_class_defs GetLogPageFactory_def Let_def log_page_declared_sizes_def)

text \<open>
  The checks that the specification modules run when they are loaded pass: the offsets of the controller data,
  of the health page and of the firmware page are the expected ones, every log page has its expected size, and every identify
  structure is one 4096-byte page except the one for zoned namespaces, whose 65-byte format entries make it 7232 bytes.
\<close>

theorem module_layout_checks:
  "map (\<lambda>n. offset_of IdentifyControllerData [Fld n]) [''VS'', ''MAXCNA'', ''ONCS'', ''CCTEMP'', ''IEEE''] =
    [Some 3072, Some 560, Some 520, Some 268, Some 73] \<and>
   offset_of GetLogPageSMARTData [Fld ''ThermalMgmtTemp2TransitionCount''] = Some 220 \<and>
   offset_of GetLogPageSMARTData [Fld ''ControllerBusyTimeLo''] = Some 96 \<and>
   offset_of GetLogPageFirmwareSlotInfoData [Fld ''FRS3''] = Some 24 \<and>
   map (\<lambda>c. map_option csize (cc_data_in c)) log_page_commands = map Some log_page_declared_sizes \<and>
   filter (\<lambda>(c, n). map_option csize (cc_data_in c) \<noteq> Some n) identify_declared_sizes = [(IdentifyNamespaceZoned, 4096)] \<and>
   map_option csize (cc_data_in IdentifyNamespaceZoned) = Some 7232"
proof -
  have "filter (\<lambda>(c, n). map_option csize (cc_data_in c) \<noteq> Some n) identify_declared_sizes = [(IdentifyNamespaceZoned, 4096)]"
    "map_option csize (cc_data_in IdentifyNamespaceZoned) = Some 7232"
    by (simp_all add: identify_declared_sizes_def Identify_def IdentifyNamespace_def IdentifyController_def
        IdentifyNamespaceList_def IdentifyUUIDList_def IdentifyNamespaceZoned_def IdentifyIoCmdSet_def)
  then show ?thesis using controller_offsets log_offsets log_sizes by blast
qed

end
