(* ===== verification/Effects.thy ===== *)
theory Effects
  imports Queues Registers
begin

text \<open>
  Computations with state and exceptions, as the host driver and the simulated device run them, and the state the
  two share: the memory, the controller registers, the cells of the Python objects, and the state of the
  device behind the registers, which is a type parameter. An exception keeps the state changes made
  before it.
\<close>

section \<open>State and exceptions\<close>

type_synonym ('s, 'a) st = "'s \<Rightarrow> 'a res \<times> 's"

definition retS :: "'a \<Rightarrow> ('s, 'a) st" where
  "retS x = (\<lambda>s. (Inr x, s))"

definition raiseS :: "py_error \<Rightarrow> ('s, 'a) st" where
  "raiseS e = (\<lambda>s. (Inl e, s))"

definition bindS :: "('s, 'a) st \<Rightarrow> ('a \<Rightarrow> ('s, 'b) st) \<Rightarrow> ('s, 'b) st" where
  "bindS f g = (\<lambda>s. case f s of (Inl e, s') \<Rightarrow> (Inl e, s') | (Inr x, s') \<Rightarrow> g x s')"

definition getS :: "('s \<Rightarrow> 'a) \<Rightarrow> ('s, 'a) st" where
  "getS f = (\<lambda>s. (Inr (f s), s))"

definition modifyS :: "('s \<Rightarrow> 's) \<Rightarrow> ('s, unit) st" where
  "modifyS f = (\<lambda>s. (Inr (), f s))"

definition assertS :: "bool \<Rightarrow> ('s, unit) st" where
  "assertS b = (if b then retS () else raiseS AssertionError)"

definition liftS :: "'a res \<Rightarrow> ('s, 'a) st" where
  "liftS r = (\<lambda>s. (r, s))"

definition thenS :: "('s, 'a) st \<Rightarrow> ('s, 'b) st \<Rightarrow> ('s, 'b) st" where
  "thenS f g = bindS f (\<lambda>_. g)"

fun forS :: "'a list \<Rightarrow> ('a \<Rightarrow> ('s, unit) st) \<Rightarrow> ('s, unit) st" where
  "forS [] f = retS ()"
| "forS (x # xs) f = thenS (f x) (forS xs f)"

lemma st_simps [simp]:
  "retS x s = (Inr x, s)" "raiseS e s = (Inl e, s)" "getS f s = (Inr (f s), s)" "modifyS g s = (Inr (), g s)"
  "liftS r s = (r, s)"
  by (simp_all add: retS_def raiseS_def getS_def modifyS_def liftS_def)

lemma assertS_apply [simp]: "assertS b s = ((if b then Inr () else Inl AssertionError), s)"
  by (simp add: assertS_def)

lemma bindS_apply: "bindS f g s = (case f s of (Inl e, s') \<Rightarrow> (Inl e, s') | (Inr x, s') \<Rightarrow> g x s')"
  by (simp add: bindS_def)

lemma bindS_Inr [simp]: "f s = (Inr x, s') \<Longrightarrow> bindS f g s = g x s'"
  by (simp add: bindS_def)

lemma bindS_Inl [simp]: "f s = (Inl e, s') \<Longrightarrow> bindS f g s = (Inl e, s')"
  by (simp add: bindS_def)

lemma bindS_getS [simp]: "bindS (getS f) g s = g (f s) s"
  by (simp add: bindS_def)

lemma thenS_Inr [simp]: "f s = (Inr x, s') \<Longrightarrow> thenS f g s = g s'"
  by (simp add: thenS_def)

lemma thenS_Inl [simp]: "f s = (Inl e, s') \<Longrightarrow> thenS f g s = (Inl e, s')"
  by (simp add: thenS_def)

lemma bindS_eq_Inr_iff:
  "bindS f g s = (Inr y, t) \<longleftrightarrow> (\<exists>x s'. f s = (Inr x, s') \<and> g x s' = (Inr y, t))"
  by (auto simp: bindS_def split: prod.splits sum.splits)

lemma bindS_eq_Inl_iff:
  "bindS f g s = (Inl e, t) \<longleftrightarrow> f s = (Inl e, t) \<or> (\<exists>x s'. f s = (Inr x, s') \<and> g x s' = (Inl e, t))"
  by (auto simp: bindS_def split: prod.splits sum.splits)

lemma thenS_eq_Inr_iff:
  "thenS f g s = (Inr y, t) \<longleftrightarrow> (\<exists>x s'. f s = (Inr x, s') \<and> g s' = (Inr y, t))"
  by (simp add: thenS_def bindS_eq_Inr_iff)

lemma thenS_eq_Inl_iff:
  "thenS f g s = (Inl e, t) \<longleftrightarrow> f s = (Inl e, t) \<or> (\<exists>x s'. f s = (Inr x, s') \<and> g s' = (Inl e, t))"
  by (simp add: thenS_def bindS_eq_Inl_iff)

lemmas st_iffs = bindS_eq_Inr_iff bindS_eq_Inl_iff thenS_eq_Inr_iff thenS_eq_Inl_iff

section \<open>Invariants of computations\<close>

text \<open>A computation keeps a predicate on states, whether it returns or raises.\<close>

named_theorems keeps_intros \<open>computations that keep a predicate\<close>

definition keeps :: "('s \<Rightarrow> bool) \<Rightarrow> ('s, 'a) st \<Rightarrow> bool" where
  "keeps P f \<longleftrightarrow> (\<forall>s. P s \<longrightarrow> P (snd (f s)))"

lemma keepsD: "keeps P f \<Longrightarrow> P s \<Longrightarrow> f s = (r, s') \<Longrightarrow> P s'"
  by (metis keeps_def snd_conv)

lemma keeps_basic [keeps_intros]:
  "keeps P (retS x)" "keeps P (raiseS e)" "keeps P (getS f)" "keeps P (liftS r)" "keeps P (assertS b)"
  by (simp_all add: keeps_def)

lemma keeps_modify: "(\<And>s. P s \<Longrightarrow> P (g s)) \<Longrightarrow> keeps P (modifyS g)"
  by (simp add: keeps_def)

lemma keeps_bind [keeps_intros]: "keeps P f \<Longrightarrow> (\<And>x. keeps P (g x)) \<Longrightarrow> keeps P (bindS f g)"
  by (auto simp: keeps_def bindS_def split: prod.splits sum.splits)

lemma keeps_then [keeps_intros]: "keeps P f \<Longrightarrow> keeps P g \<Longrightarrow> keeps P (thenS f g)"
  by (simp add: thenS_def keeps_bind)

lemma keeps_if [keeps_intros]: "keeps P f \<Longrightarrow> keeps P g \<Longrightarrow> keeps P (if b then f else g)"
  by simp

lemma keeps_case_option [keeps_intros]:
  "keeps P f \<Longrightarrow> (\<And>x. keeps P (g x)) \<Longrightarrow> keeps P (case v of None \<Rightarrow> f | Some x \<Rightarrow> g x)"
  by (simp split: option.splits)

lemma keeps_case_prod [keeps_intros]: "(\<And>x y. keeps P (f x y)) \<Longrightarrow> keeps P (case v of (x, y) \<Rightarrow> f x y)"
  by (simp split: prod.splits)

lemma keeps_for [keeps_intros]: "(\<And>x. keeps P (f x)) \<Longrightarrow> keeps P (forS xs f)"
  by (induction xs) (auto intro: keeps_intros)

section \<open>The state that driver and device share\<close>

text \<open>
  The fields of the controller registers that the code uses, each at its width; the layout of the
  whole register file is in \<open>NvmeRegs\<close>. The doorbells are cells in memory, at the address \<open>sqndbs\<close>, because the queues
  access them by address.
\<close>

record nvme_regs =
  CAP_CSS :: "8 word"
  VS_MJR :: "16 word"
  VS_MNR :: "8 word"
  CC_EN :: "1 word"
  CC_CSS :: "3 word"
  CC_MPS :: "4 word"
  CC_IOSQES :: "4 word"
  CC_IOCQES :: "4 word"
  CSTS_RDY :: "1 word"
  CSTS_CFS :: "1 word"
  AQA_ASQS :: "12 word"
  AQA_ACQS :: "12 word"
  ASQ_ASQB :: "52 word"
  ACQ_ACQB :: "52 word"

definition zero_regs :: nvme_regs where
  "zero_regs = \<lparr>CAP_CSS = 0, VS_MJR = 0, VS_MNR = 0, CC_EN = 0, CC_CSS = 0, CC_MPS = 0, CC_IOSQES = 0,
     CC_IOCQES = 0, CSTS_RDY = 0, CSTS_CFS = 0, AQA_ASQS = 0, AQA_ACQS = 0, ASQ_ASQB = 0, ACQ_ACQB = 0\<rparr>"

text \<open>
  \<open>new_cell cells\<close> is the address of a new \<open>ctypes.c_uint32\<close> object when those at the addresses \<open>cells\<close> exist. \<open>pcie\<close> is the
  configuration space by offset. The two events are what \<open>set_notify\<close> sets when a field of a register is assigned; the
  registers of a physical device have no \<open>set_notify\<close>, and nobody reads the events there.
\<close>

record 'd shared =
  mem :: memory
  regs :: nvme_regs
  pcie :: memory
  nvme_event :: bool
  pcie_event :: bool
  sqndbs :: nat
  cells :: "nat list"
  new_cell :: "nat list \<Rightarrow> nat"
  dev :: 'd

definition sqtail_addr :: "('d, 'a) shared_scheme \<Rightarrow> nat \<Rightarrow> nat" where
  "sqtail_addr s i = sqndbs s + 8 * i"

definition cqhead_addr :: "('d, 'a) shared_scheme \<Rightarrow> nat \<Rightarrow> nat" where
  "cqhead_addr s i = sqndbs s + (8 * i + 4)"

definition storeS :: "(memory \<Rightarrow> memory res) \<Rightarrow> (('d, 'a) shared_scheme, unit) st" where
  "storeS f = (\<lambda>s. case f (mem s) of Inl e \<Rightarrow> (Inl e, s) | Inr m \<Rightarrow> (Inr (), s\<lparr>mem := m\<rparr>))"

lemma storeS_Inr [simp]: "f (mem s) = Inr m \<Longrightarrow> storeS f s = (Inr (), s\<lparr>mem := m\<rparr>)"
  by (simp add: storeS_def)

lemma storeS_Inl [simp]: "f (mem s) = Inl e \<Longrightarrow> storeS f s = (Inl e, s)"
  by (simp add: storeS_def)

text \<open>Assigning register fields.\<close>

definition set_regs :: "(nvme_regs \<Rightarrow> nvme_regs) \<Rightarrow> (('d, 'a) shared_scheme, unit) st" where
  "set_regs f = modifyS (\<lambda>s. s\<lparr>regs := f (regs s), nvme_event := True\<rparr>)"

definition set_pcie :: "reg_class \<Rightarrow> string \<Rightarrow> nat \<Rightarrow> (('d, 'a) shared_scheme, unit) st" where
  "set_pcie rc name value = (\<lambda>s.
     case reg_setattr (\<lambda>m a. m a) (\<lambda>m a b. m(a := b)) rc name value (pcie s) of
       Inl e \<Rightarrow> (Inl e, s) | Inr m \<Rightarrow> (Inr (), s\<lparr>pcie := m, pcie_event := True\<rparr>))"

definition get_pcie :: "reg_class \<Rightarrow> string \<Rightarrow> (('d, 'a) shared_scheme, nat) st" where
  "get_pcie rc name = (\<lambda>s. (reg_getattr (\<lambda>m a. m a) rc name (pcie s), s))"

lemma set_regs_apply [simp]: "set_regs f s = (Inr (), s\<lparr>regs := f (regs s), nvme_event := True\<rparr>)"
  by (simp add: set_regs_def)

text \<open>The queue constructors, over the cells of the shared state.\<close>

definition make_sq :: "nat \<Rightarrow> nat \<Rightarrow> nat \<Rightarrow> nat \<Rightarrow> nat \<Rightarrow> (('d, 'a) shared_scheme, nvme_queue) st" where
  "make_sq base n esize qid' dbt_addr = (\<lambda>s.
     let own = new_cell s (cells s);
         (m, q) = new_submission_queue (mem s) own base n esize qid' dbt_addr
     in (Inr q, s\<lparr>mem := m, cells := cells s @ [own]\<rparr>))"

definition make_cq :: "nat \<Rightarrow> nat \<Rightarrow> nat \<Rightarrow> nat \<Rightarrow> nat \<Rightarrow> nat option \<Rightarrow> (('d, 'a) shared_scheme, completion_queue) st" where
  "make_cq base n esize qid' dbh_addr iv = (\<lambda>s.
     let own = new_cell s (cells s);
         (m, q) = new_completion_queue (mem s) own base n esize qid' dbh_addr iv
     in (Inr q, s\<lparr>mem := m, cells := cells s @ [own]\<rparr>))"

end
