(* ===== verification/Nvsim_Storage.thy ===== *)
theory Nvsim_Storage
  imports PRP_Transfer
begin

text \<open>
  The namespaces of the simulator (\<open>GenericNVMeNVSimNamespace\<close> in \<open>nvsim/simulators/generic.py\<close>): a file of zeros of
  the size of the namespace, mapped into memory, that read and write commands copy to and from the buffer of a PRP.
\<close>

section \<open>Sizes\<close>

text \<open>The code computes in floating point; the values are whole numbers far below \<open>2 ^ 53\<close>, where that is exact.\<close>

definition idema_size_512 :: "nat \<Rightarrow> int" where
  "idema_size_512 num_gbs = 97696368 + 1953504 * (int num_gbs - 50)"

definition idema_size_4096 :: "nat \<Rightarrow> int" where
  "idema_size_4096 num_gbs = 12212046 + 244188 * (int num_gbs - 50)"

record namespace =
  ns_num_lbas :: nat
  ns_block_size :: nat
  ns_mm :: memory

definition init_storage :: "namespace \<Rightarrow> namespace" where
  "init_storage ns = ns\<lparr>ns_mm := (\<lambda>_. 0)\<rparr>"

definition new_namespace :: "nat \<Rightarrow> nat \<Rightarrow> namespace res" where
  "new_namespace num_gbs block_size =
     (if block_size = 512
      then Inr (init_storage \<lparr>ns_num_lbas = nat (idema_size_512 num_gbs), ns_block_size = block_size, ns_mm = \<lambda>_. 0\<rparr>)
      else if block_size = 4096
      then Inr (init_storage \<lparr>ns_num_lbas = nat (idema_size_4096 num_gbs), ns_block_size = block_size, ns_mm = \<lambda>_. 0\<rparr>)
      else Inl AssertionError)"

section \<open>Reading and writing blocks\<close>

text \<open>A slice of the mapped file: both bounds are cut at the end of the file.\<close>

definition ns_size :: "namespace \<Rightarrow> nat" where
  "ns_size ns = ns_num_lbas ns * ns_block_size ns"

definition mm_slice :: "namespace \<Rightarrow> nat \<Rightarrow> nat \<Rightarrow> byte list" where
  "mm_slice ns start stop = read_bytes (ns_mm ns) start (min stop (ns_size ns) - start)"

definition ns_read :: "namespace \<Rightarrow> nat \<Rightarrow> nat \<Rightarrow> prp \<Rightarrow> memory \<Rightarrow> memory res" where
  "ns_read ns lba num_blocks p m =
     (let start_byte = lba * ns_block_size ns;
          end_byte = start_byte + num_blocks * ns_block_size ns
      in set_data_buffer m p (mm_slice ns start_byte end_byte))"

text \<open>Assigning a slice of a mapped file raises unless the sizes agree.\<close>

definition ns_write :: "namespace \<Rightarrow> nat \<Rightarrow> nat \<Rightarrow> prp \<Rightarrow> memory \<Rightarrow> namespace res" where
  "ns_write ns lba num_blocks p m =
     (let start_byte = lba * ns_block_size ns;
          end_byte = start_byte + num_blocks * ns_block_size ns
      in bindR (get_data_buffer m p) (\<lambda>data.
         let data = take (ns_block_size ns * num_blocks) data
         in if length data \<noteq> min end_byte (ns_size ns) - start_byte then Inl IndexError
            else Inr (ns\<lparr>ns_mm := write_bytes (ns_mm ns) start_byte data\<rparr>)))"

text \<open>The abstract content: a block by its address.\<close>

definition block :: "namespace \<Rightarrow> nat \<Rightarrow> byte list" where
  "block ns lba = read_bytes (ns_mm ns) (lba * ns_block_size ns) (ns_block_size ns)"

definition blocks :: "namespace \<Rightarrow> nat \<Rightarrow> nat \<Rightarrow> byte list" where
  "blocks ns lba n = read_bytes (ns_mm ns) (lba * ns_block_size ns) (n * ns_block_size ns)"

lemma mm_slice_blocks:
  assumes "lba + n \<le> ns_num_lbas ns"
  shows "mm_slice ns (lba * ns_block_size ns) (lba * ns_block_size ns + n * ns_block_size ns) = blocks ns lba n"
proof -
  have "(lba + n) * ns_block_size ns \<le> ns_size ns"
    unfolding ns_size_def by (rule mult_le_mono1 [OF assms])
  then show ?thesis by (simp add: mm_slice_def blocks_def add_mult_distrib)
qed

lemma blocks_conv_block: "blocks ns lba n = concat (map (block ns) [lba..<lba + n])"
proof (induction n)
  case (Suc n)
  have "blocks ns lba (Suc n) = blocks ns lba n @ block ns (lba + n)"
    unfolding blocks_def block_def
    by (simp add: read_bytes_append [symmetric] add_mult_distrib add.commute)
  with Suc show ?case by simp
qed (simp add: blocks_def read_bytes_def)

lemma ns_write_exact:
  assumes "lba + n \<le> ns_num_lbas ns" "get_data_buffer m p = Inr buf" "n * ns_block_size ns \<le> length buf"
  shows "ns_write ns lba n p m =
    Inr (ns\<lparr>ns_mm := write_bytes (ns_mm ns) (lba * ns_block_size ns) (take (n * ns_block_size ns) buf)\<rparr>)"
proof -
  have "(lba + n) * ns_block_size ns \<le> ns_size ns"
    unfolding ns_size_def by (rule mult_le_mono1 [OF assms(1)])
  then have "lba * ns_block_size ns + n * ns_block_size ns \<le> ns_size ns" by (simp add: add_mult_distrib)
  then show ?thesis
    using assms(2,3) unfolding ns_write_def Let_def mult.commute [of "ns_block_size ns" n] by simp
qed

lemma block_written:
  assumes "length data = n * ns_block_size ns"
  shows "block (ns\<lparr>ns_mm := write_bytes (ns_mm ns) (lba * ns_block_size ns) data\<rparr>) i =
    (if lba \<le> i \<and> i < lba + n then take (ns_block_size ns) (drop ((i - lba) * ns_block_size ns) data)
     else block ns i)"
proof -
  let ?b = "ns_block_size ns"
  consider "lba \<le> i \<and> i < lba + n" | "i < lba" | "lba + n \<le> i" by linarith
  then show ?thesis
  proof cases
    case 1
    then have "Suc i * ?b \<le> (lba + n) * ?b" by (intro mult_le_mono1) simp
    then have le: "i * ?b + ?b \<le> lba * ?b + n * ?b" by (simp add: add_mult_distrib)
    have ge: "lba * ?b \<le> i * ?b" using 1 by (intro mult_le_mono1) simp
    then have ge': "\<And>k. lba * ?b \<le> i * ?b + k" by (rule trans_le_add1)
    have d: "(i - lba) * ?b = i * ?b - lba * ?b" by (simp add: diff_mult_distrib)
    have "read_bytes (write_bytes (ns_mm ns) (lba * ?b) data) (i * ?b) ?b = take ?b (drop ((i - lba) * ?b) data)"
      by (rule nth_equalityI) (use le ge ge' assms d in \<open>auto simp: read_bytes_def write_bytes_def\<close>)
    with 1 show ?thesis by (simp add: block_def)
  next
    case 2
    then have "Suc i * ?b \<le> lba * ?b" by (intro mult_le_mono1) simp
    then have "i * ?b + ?b \<le> lba * ?b" by simp
    with 2 show ?thesis
      by (simp add: block_def read_write_separate separate_def)
  next
    case 3
    then have "(lba + n) * ?b \<le> i * ?b" by (intro mult_le_mono1)
    then have "lba * ?b + n * ?b \<le> i * ?b" by (simp add: add_mult_distrib)
    with 3 show ?thesis
      using assms by (simp add: block_def read_write_separate separate_def)
  qed
qed

lemma blocks_written:
  assumes "length data = n * ns_block_size ns"
  shows "blocks (ns\<lparr>ns_mm := write_bytes (ns_mm ns) (lba * ns_block_size ns) data\<rparr>) lba n = data"
  using assms by (simp add: blocks_def)

section \<open>Capacity\<close>

text \<open>
  A namespace has the capacity its size in gigabytes promises: it is at least that many times \<open>10 ^ 9\<close>
  bytes and less than 22 million bytes plus 0.02 percent more, both supported block sizes give the same number of bytes, the
  block counts agree with the two stand-alone size functions, and every byte is zero at first.
\<close>

theorem namespace_capacity:
  assumes "block_size = 512 \<or> block_size = 4096"
  shows "\<exists>ns. new_namespace num_gbs block_size = Inr ns \<and> ns_block_size ns = block_size \<and>
    int (ns_num_lbas ns) = (if block_size = 512 then idema_size_512 num_gbs else idema_size_4096 num_gbs) \<and>
    int (ns_size ns) = 512 * idema_size_512 num_gbs \<and>
    num_gbs * 10 ^ 9 \<le> ns_size ns \<and> ns_size ns < num_gbs * 10 ^ 9 + num_gbs * 200000 + 22 * 10 ^ 6 \<and>
    blocks ns 0 (ns_num_lbas ns) = replicate (ns_size ns) 0"
proof -
  have r: "read_bytes (\<lambda>_. 0) a n = replicate n 0" for a n
    by (simp add: read_bytes_def map_replicate_const)
  have pos: "0 \<le> idema_size_512 num_gbs" "0 \<le> idema_size_4096 num_gbs"
    by (simp_all add: idema_size_512_def idema_size_4096_def)
  from assms show ?thesis
    using pos by (auto simp: new_namespace_def init_storage_def ns_size_def blocks_def r idema_size_512_def
        idema_size_4096_def nat_mult_distrib [symmetric] nat_le_iff zless_nat_eq_int_zless)
qed

lemma namespace_capacity_witness:
  "\<exists>ns. new_namespace 512 4096 = Inr ns \<and> ns_block_size ns = 4096 \<and> int (ns_num_lbas ns) = 125026902"
  using namespace_capacity [of 4096 512] by (auto simp: idema_size_4096_def)

end
