(* ===== verification/Status_Codes.thy ===== *)
theory Status_Codes
  imports Command_Set "HOL-Library.AList"
begin

text \<open>
  Status codes (\<open>lone/nvme/spec/commands/status_codes.py\<close>): the registry that every command module adds its codes
  to, keyed by value and command class, and the functions that look codes up by name, by value, or for a completed
  command. A command class is named by its Python name.
\<close>

section \<open>Codes and the registry\<close>

datatype status_code = NVMeStatusCode (sc_value: nat) (sc_name: string) (sc_cmd_type: string)

definition failure :: "status_code \<Rightarrow> bool" where
  "failure c \<longleftrightarrow> sc_value c \<noteq> 0"

definition success :: "status_code \<Rightarrow> bool" where
  "success c \<longleftrightarrow> \<not> failure c"

type_synonym status_codes = "((nat \<times> string) \<times> status_code) list"

definition sc_add :: "status_codes \<Rightarrow> status_code list \<Rightarrow> status_codes" where
  "sc_add codes cs = fold (\<lambda>code codes. AList.update (sc_value code, sc_cmd_type code) code codes) cs codes"

definition generic_status_codes :: "status_code list" where
  "generic_status_codes = map (\<lambda>(v, n). NVMeStatusCode v n ''Generic'') [
    (0x00, ''Successful Completion''),
    (0x01, ''Invalid Command Opcode''),
    (0x02, ''Invalid Field in Command''),
    (0x03, ''Command ID Conflict''),
    (0x04, ''Data Transfer Error''),
    (0x05, ''Commands Aborted due to Power Loss Notification''),
    (0x06, ''Internal Error''),
    (0x07, ''Command Abort Requested''),
    (0x08, ''Command Aborted due to SQ Deletion''),
    (0x09, ''Command Aborted due to Failed Fused Command''),
    (0x0A, ''Command Aborted due to Missing Fused Command''),
    (0x0B, ''Invalid Namespace or Format''),
    (0x0C, ''Command Sequence Error''),
    (0x0D, ''Invalid SGL Segment Descriptor''),
    (0x0E, ''Invalid Number of SGL Descriptors''),
    (0x0F, ''Data SGL Length Invalid''),
    (0x10, ''Metadata SGL Length Invalid''),
    (0x11, ''SGL Descriptor Type Invalid''),
    (0x12, ''Invalid Use of Controller Memory Buffer''),
    (0x13, ''PRP Offset Invalid''),
    (0x14, ''Atomic Write Unit Exceeded''),
    (0x15, ''Operation Denied''),
    (0x16, ''SGL Offset Invalid''),
    (0x18, ''Host Identifier Inconsistent Format''),
    (0x19, ''Keep Alive Timer Expired''),
    (0x1A, ''Keep Alive Timeout Invalid''),
    (0x1B, ''Command Aborted due to Preempt and Abort''),
    (0x1C, ''Sanitize Failed''),
    (0x1D, ''Sanitize In Progress''),
    (0x1E, ''SGL Data Block Granularity Invalid''),
    (0x1F, ''Command Not Supported for Queue in CMB''),
    (0x20, ''Namespace is Write Protected''),
    (0x21, ''Command Interrupted''),
    (0x22, ''Transient Transport Error''),
    (0x23, ''Command Prohibited by Command and Feature Lockdown''),
    (0x24, ''Admin Command Media Not Ready''),
    (0x80, ''LBA Out of Range''),
    (0x81, ''Capacity Exceeded''),
    (0x82, ''Namespace Not Ready''),
    (0x83, ''Reservation Conflict''),
    (0x84, ''Format In Progress''),
    (0x85, ''Invalid Value Size''),
    (0x86, ''Invalid Key Size''),
    (0x87, ''KV Key Does Not Exist''),
    (0x88, ''Unrecovered Error''),
    (0x89, ''Key Exists'')]"

text \<open>The codes that the command modules add when they are loaded.\<close>

definition module_status_codes :: "status_code list list" where
  "module_status_codes = [
    [NVMeStatusCode 0x01 ''Invalid Queue Identifier'' (cc_name CreateIOCompletionQueue),
     NVMeStatusCode 0x02 ''Invalid Queue Size'' (cc_name CreateIOCompletionQueue),
     NVMeStatusCode 0x03 ''Invalid Interrupt Vector'' (cc_name CreateIOCompletionQueue)],
    [NVMeStatusCode 0x00 ''Completion Queue Invalid'' (cc_name CreateIOSubmissionQueue),
     NVMeStatusCode 0x01 ''Invalid Queue Identifier'' (cc_name CreateIOSubmissionQueue),
     NVMeStatusCode 0x02 ''Invalid Queue Size'' (cc_name CreateIOSubmissionQueue)],
    [NVMeStatusCode 0x01 ''Invalid Queue Identifier'' (cc_name DeleteIOCompletionQueue),
     NVMeStatusCode 0x0C ''Invalid Queue Deletion'' (cc_name DeleteIOCompletionQueue)],
    [NVMeStatusCode 0x01 ''Invalid Queue Identifier'' (cc_name DeleteIOSubmissionQueue)],
    [NVMeStatusCode 0x0A ''Invalid Format'' (cc_name FormatNVM),
     NVMeStatusCode 0x0C ''Command Seequence Error'' (cc_name FormatNVM),
     NVMeStatusCode 0x15 ''Operation Denied'' (cc_name FormatNVM),
     NVMeStatusCode 0x20 ''Namespace Write Protected'' (cc_name FormatNVM),
     NVMeStatusCode 0x86 ''Access Denied'' (cc_name FormatNVM)],
    [NVMeStatusCode 0x0B ''Firmware Activation Requires Conventional Reset'' (cc_name Sanitize),
     NVMeStatusCode 0x10 ''Firmware Activation Requires NVM Subsystem Reset'' (cc_name Sanitize),
     NVMeStatusCode 0x11 ''Firmware Activation Requires Controller Level Reset'' (cc_name Sanitize),
     NVMeStatusCode 0x23 ''Sanitize Prohibited While Persistent Memory Region is Enabled'' (cc_name Sanitize)],
    [NVMeStatusCode 0x09 ''Invalid Log Page'' (cc_name GetLogPage),
     NVMeStatusCode 0x29 ''I/O Command Set Not Supported'' (cc_name GetLogPage)],
    [NVMeStatusCode 0x80 ''Conflicting Attributes'' (cc_name Read),
     NVMeStatusCode 0x81 ''Invalid Protection Information'' (cc_name Read)],
    [NVMeStatusCode 0x20 ''Namespace Write Protected'' (cc_name Write),
     NVMeStatusCode 0x80 ''Conflicting Attributes'' (cc_name Write),
     NVMeStatusCode 0x81 ''Invalid Protection Information'' (cc_name Write),
     NVMeStatusCode 0x82 ''Attempted Write to Read Only Range'' (cc_name Write)]]"

definition feature_status_codes :: "feature_info \<Rightarrow> status_code list" where
  "feature_status_codes fi =
     map (\<lambda>(v, n). NVMeStatusCode v n (cc_name (fst (FeatureFactory fi))))
       [(0x37, ''Invalid Controller Data Queue'')] @
     map (\<lambda>(v, n). NVMeStatusCode v n (cc_name (snd (FeatureFactory fi))))
       [(0x0D, ''Feature Identifier Not Saveable''),
        (0x0E, ''Feature Not Changeable''),
        (0x0F, ''Feature Not Namespace Specific''),
        (0x14, ''Overlapping Range''),
        (0x2B, ''I/O Command Set Combination Rejected''),
        (0x37, ''Invalid Controller Data Queue'')]"

definition status_codes :: status_codes where
  "status_codes =
     sc_add [] (generic_status_codes @ concat module_status_codes @
       concat (map feature_status_codes [FeatureGeneric, FeatureArbitration, FeaturePowerManagement]))"

section \<open>Looking codes up\<close>

text \<open>\<open>get\<close>: the code for the status of a completed command, generic when SCT is zero.\<close>

definition sc_get :: "status_codes \<Rightarrow> cmd_class \<Rightarrow> nat \<Rightarrow> nat \<Rightarrow> status_code" where
  "sc_get codes cmd sct sc =
     (let c = (if sct = 0
               then filter (\<lambda>v. sc_value v = sc \<and> sc_cmd_type v = ''Generic'') (map snd codes)
               else filter (\<lambda>v. sc_value v = sc \<and> (sc_cmd_type v = cc_name cmd \<or> sc_cmd_type v \<in> set [cc_base cmd]))
                      (map snd codes))
      in if length c = 0 then NVMeStatusCode sc ''Unknown'' (cc_name cmd) else c ! 0)"

definition sc_check :: "status_codes \<Rightarrow> cmd_class \<Rightarrow> nat \<Rightarrow> nat \<Rightarrow> bool \<Rightarrow> unit res" where
  "sc_check codes cmd sct sc raise_exc =
     (if sct = 0 \<and> sc = 0 then Inr ()
      else let code = sc_get codes cmd sct sc
           in if raise_exc then Inl (NVMeStatusCodeException (sc_value code) (sc_name code)) else Inr ())"

text \<open>\<open>codes[n]\<close> and \<open>codes[n, cmd]\<close> for a value, which raises when missing, and for a name, which gives None.\<close>

definition sc_item_value :: "status_codes \<Rightarrow> nat \<Rightarrow> string \<Rightarrow> status_code res" where
  "sc_item_value codes v cmd_type =
     (case map_of codes (v, cmd_type) of None \<Rightarrow> Inl KeyError | Some c \<Rightarrow> Inr c)"

definition sc_item_name :: "status_codes \<Rightarrow> string \<Rightarrow> string \<Rightarrow> status_code option" where
  "sc_item_name codes n cmd_type =
     (case filter (\<lambda>v. sc_name v = n \<and> sc_cmd_type v = cmd_type) (map snd codes) of [] \<Rightarrow> None | c # cs \<Rightarrow> Some c)"

text \<open>\<open>int(status_codes[name])\<close>, as the simulator uses it: a \<open>TypeError\<close> when there is no such code.\<close>

definition sc_int :: "string \<Rightarrow> string \<Rightarrow> nat res" where
  "sc_int n cmd_type =
     (case sc_item_name status_codes n cmd_type of None \<Rightarrow> Inl TypeError | Some c \<Rightarrow> Inr (sc_value c))"

section \<open>The registry is consistent\<close>

text \<open>Adding codes with new keys appends them.\<close>

lemma sc_add_distinct:
  assumes "distinct (map fst codes @ map (\<lambda>c. (sc_value c, sc_cmd_type c)) cs)"
  shows "sc_add codes cs = codes @ map (\<lambda>c. ((sc_value c, sc_cmd_type c), c)) cs"
  using assms
proof (induction cs arbitrary: codes)
  case (Cons c cs)
  have "AList.update (sc_value c, sc_cmd_type c) c codes = codes @ [((sc_value c, sc_cmd_type c), c)]"
    using Cons.prems by (induction codes) auto
  with Cons show ?case by (simp add: sc_add_def)
qed (simp add: sc_add_def)


definition all_status_codes :: "status_code list" where
  "all_status_codes = generic_status_codes @ concat module_status_codes @
     concat (map feature_status_codes [FeatureGeneric, FeatureArbitration, FeaturePowerManagement])"

lemma class_names [simp]:
  "cc_name CreateIOCompletionQueue = ''CreateIOCompletionQueue''" "cc_name CreateIOSubmissionQueue = ''CreateIOSubmissionQueue''"
  "cc_name DeleteIOCompletionQueue = ''DeleteIOCompletionQueue''" "cc_name DeleteIOSubmissionQueue = ''DeleteIOSubmissionQueue''"
  "cc_name FormatNVM = ''FormatNVM''" "cc_name Sanitize = ''Sanitize''" "cc_name Read = ''Read''" "cc_name Write = ''Write''"
  "cc_name Flush = ''Flush''" "cc_name Identify = ''Identify''" "cc_name GetLogPage = ''GetLogPage''"
  "cc_name (fst (FeatureFactory fi)) = ''Get'' @ fi_name fi" "cc_name (snd (FeatureFactory fi)) = ''Set'' @ fi_name fi"
  by (simp_all add: class_defs FeatureFactory_def)

lemma feature_names: "fi_name FeatureGeneric = ''FeatureGeneric''" "fi_name FeatureArbitration = ''FeatureArbitration''"
  "fi_name FeaturePowerManagement = ''FeaturePowerManagement''"
  by (simp_all add: FeatureGeneric_def FeatureArbitration_def FeaturePowerManagement_def)

lemma status_keys_distinct: "distinct (map (\<lambda>c. (sc_value c, sc_cmd_type c)) all_status_codes)"
  by (simp add: all_status_codes_def generic_status_codes_def module_status_codes_def feature_status_codes_def feature_names)

lemma status_codes_eq: "status_codes = map (\<lambda>c. ((sc_value c, sc_cmd_type c), c)) all_status_codes"
  using sc_add_distinct [of "[]" all_status_codes] status_keys_distinct
  by (simp add: status_codes_def all_status_codes_def)

lemma generic_types: "list_all (\<lambda>c. sc_cmd_type c = ''Generic'') generic_status_codes"
  by (simp add: generic_status_codes_def)

definition specific_status_codes :: "status_code list" where
  "specific_status_codes = concat module_status_codes @
     concat (map feature_status_codes [FeatureGeneric, FeatureArbitration, FeaturePowerManagement])"

lemma specific_types: "list_all (\<lambda>c. sc_cmd_type c \<noteq> ''Generic'') specific_status_codes"
  by (simp add: specific_status_codes_def module_status_codes_def feature_status_codes_def feature_names)

lemma all_split: "all_status_codes = generic_status_codes @ specific_status_codes"
  by (simp add: all_status_codes_def specific_status_codes_def)

lemma generic_names_distinct: "distinct (map sc_name generic_status_codes)"
  by (simp add: generic_status_codes_def)

lemma generic_values_distinct: "distinct (map sc_value generic_status_codes)"
  by (simp add: generic_status_codes_def)

lemma filter_key_unique:
  "distinct (map f xs) \<Longrightarrow> x \<in> set xs \<Longrightarrow> filter (\<lambda>y. f y = f x) xs = [x]"
  by (induction xs) (auto simp: filter_empty_conv image_iff)

lemma generic_filter:
  assumes "c \<in> set generic_status_codes" "distinct (map f generic_status_codes)"
  shows "filter (\<lambda>v. f v = f c \<and> sc_cmd_type v = ''Generic'') (map snd status_codes) = [c]"
proof -
  have "filter (\<lambda>v. f v = f c \<and> sc_cmd_type v = ''Generic'') specific_status_codes = []"
    using specific_types by (auto simp: filter_empty_conv list_all_iff)
  moreover have "filter (\<lambda>v. f v = f c \<and> sc_cmd_type v = ''Generic'') generic_status_codes =
      filter (\<lambda>v. f v = f c) generic_status_codes"
    using generic_types by (intro filter_cong) (auto simp: list_all_iff)
  ultimately show ?thesis
    using filter_key_unique [OF assms(2,1)] by (simp add: status_codes_eq all_split comp_def)
qed

lemma sc_int_generic:
  assumes "c \<in> set generic_status_codes"
  shows "sc_int (sc_name c) ''Generic'' = Inr (sc_value c)"
  using generic_filter [OF assms generic_names_distinct] by (simp add: sc_int_def sc_item_name_def)

lemma sc_int_values:
  "sc_int ''Successful Completion'' ''Generic'' = Inr 0"
  "sc_int ''Invalid Field in Command'' ''Generic'' = Inr 2"
  "sc_int ''Invalid Namespace or Format'' ''Generic'' = Inr 0x0B"
  "sc_int ''LBA Out of Range'' ''Generic'' = Inr 0x80"
  using sc_int_generic [of "NVMeStatusCode 0 ''Successful Completion'' ''Generic''"]
    sc_int_generic [of "NVMeStatusCode 2 ''Invalid Field in Command'' ''Generic''"]
    sc_int_generic [of "NVMeStatusCode 11 ''Invalid Namespace or Format'' ''Generic''"]
    sc_int_generic [of "NVMeStatusCode 128 ''LBA Out of Range'' ''Generic''"]
  by (simp_all add: generic_status_codes_def)

lemma sc_int_log_page: "sc_int ''Invalid Log Page'' ''GetLogPage'' = Inr 9"
proof -
  have "filter (\<lambda>v. sc_name v = ''Invalid Log Page'' \<and> sc_cmd_type v = ''GetLogPage'') generic_status_codes = []"
    using generic_types by (auto simp: filter_empty_conv list_all_iff)
  then show ?thesis
    by (simp add: sc_int_def sc_item_name_def status_codes_eq all_split comp_def specific_status_codes_def
        module_status_codes_def)
qed

text \<open>
  A generic status code is found again from any of its descriptions: a completed command with SCT 0 and its value
  decodes to it whatever the command is, its name and its value index it, and \<open>check\<close> raises it, unless it is the
  successful one.
\<close>

theorem status_code_lookup:
  assumes "c \<in> set generic_status_codes"
  shows "sc_get status_codes cmd 0 (sc_value c) = c \<and>
    sc_int (sc_name c) ''Generic'' = Inr (sc_value c) \<and>
    sc_item_value status_codes (sc_value c) ''Generic'' = Inr c \<and>
    sc_check status_codes cmd 0 (sc_value c) True =
      (if success c then Inr () else Inl (NVMeStatusCodeException (sc_value c) (sc_name c)))"
proof -
  have get: "sc_get status_codes cmd 0 (sc_value c) = c"
    using generic_filter [OF assms generic_values_distinct] by (simp add: sc_get_def)
  have "((sc_value c, sc_cmd_type c), c) \<in> set status_codes" "distinct (map fst status_codes)"
    using assms status_keys_distinct by (auto simp: status_codes_eq all_split comp_def)
  then have "map_of status_codes (sc_value c, sc_cmd_type c) = Some c" by simp
  moreover have "sc_cmd_type c = ''Generic''" using assms generic_types by (auto simp: list_all_iff)
  ultimately show ?thesis
    using get sc_int_generic [OF assms]
    by (simp add: sc_item_value_def sc_check_def success_def failure_def)
qed

lemma status_code_lookup_witness:
  "sc_check status_codes Read 0 0x80 True = Inl (NVMeStatusCodeException 0x80 ''LBA Out of Range'')"
  using status_code_lookup [of "NVMeStatusCode 0x80 ''LBA Out of Range'' ''Generic''" Read]
  by (simp add: generic_status_codes_def success_def failure_def)

end
