(* ===== verification/Nvsim_Handlers.thy ===== *)
theory Nvsim_Handlers
  imports Effects Nvsim_Storage Queue_Manager Status_Codes
begin

text \<open>
  The command handlers of the simulator (\<open>nvsim/cmd_handlers\<close>). A handler is called with the address of the command in
  its submission queue slot, the submission queue it came from and the completion queue to
  answer on. It reads the fields of the command from memory each time the code does.
\<close>

section \<open>The configuration of the simulator\<close>

record sim_config =
  config_mps :: nat
  power_state :: nat
  namespaces :: "namespace option list"
  id_ctrl_data :: "byte list"
  id_ns_data :: "byte list option list"
  id_ns_list_data :: "byte list"
  id_uuid_list_data :: "byte list"
  sim_queue_mgr :: "(nvme_queue, completion_queue) queue_mgr"
  completion_queues :: "completion_queue list"

type_synonym ('c, 'a) sim = "('c sim_config_scheme, 'a) shared_scheme"
type_synonym ('c, 'a) handler = "nat \<Rightarrow> nvme_queue \<Rightarrow> completion_queue \<Rightarrow> (('c, 'a) sim, unit) st"

definition modify_config :: "('c sim_config_scheme \<Rightarrow> 'c sim_config_scheme) \<Rightarrow> (('c, 'a) sim, unit) st" where
  "modify_config f = modifyS (\<lambda>s. s\<lparr>dev := f (dev s)\<rparr>)"

lemma modify_config_apply [simp]: "modify_config f s = (Inr (), s\<lparr>dev := f (dev s)\<rparr>)"
  by (simp add: modify_config_def)

section \<open>Reading the command\<close>

text \<open>An integer field of the command as the class \<open>c\<close> names it, after \<open>c.from_buffer(command)\<close>.\<close>

definition cmd_field :: "cmd_class \<Rightarrow> string \<Rightarrow> byte list \<Rightarrow> nat" where
  "cmd_field c n bs = (case attr_kind (cc_layout c) n of IntField f \<Rightarrow> getf f bs | _ \<Rightarrow> 0)"

definition command_bytes :: "('d, 'a) shared_scheme \<Rightarrow> nat \<Rightarrow> byte list" where
  "command_bytes s command = read_bytes (mem s) command 64"

definition fieldS :: "cmd_class \<Rightarrow> string \<Rightarrow> nat \<Rightarrow> (('d, 'a) shared_scheme, nat) st" where
  "fieldS c n command = getS (\<lambda>s. cmd_field c n (command_bytes s command))"

definition prp1S :: "nat \<Rightarrow> (('d, 'a) shared_scheme, nat) st" where
  "prp1S command = getS (\<lambda>s. getf SQE_PRP1 (command_bytes s command))"

definition prp2S :: "nat \<Rightarrow> (('d, 'a) shared_scheme, nat) st" where
  "prp2S command = getS (\<lambda>s. getf SQE_PRP2 (command_bytes s command))"

lemma fieldS_apply [simp]: "fieldS c n command s = (Inr (cmd_field c n (command_bytes s command)), s)"
  by (simp add: fieldS_def)

lemma prpS_apply [simp]:
  "prp1S command s = (Inr (getf SQE_PRP1 (command_bytes s command)), s)"
  "prp2S command s = (Inr (getf SQE_PRP2 (command_bytes s command)), s)"
  by (simp_all add: prp1S_def prp2S_def)

text \<open>The PRP of a command: a device-side object over the two addresses, with the given size.\<close>

definition command_prp :: "nat \<Rightarrow> nat \<Rightarrow> nat \<Rightarrow> (('c, 'a) sim, prp) st" where
  "command_prp num_bytes' prp1' prp2' =
     bindS (getS id) (\<lambda>s. liftS (
       bindR (prp_init num_bytes' (config_mps (dev s)) BIDIRECTIONAL) (\<lambda>q. from_address (mem s) q prp1' prp2')))"

section \<open>Completion\<close>

definition completion_entry :: "nat \<Rightarrow> nat \<Rightarrow> nat \<Rightarrow> nat \<Rightarrow> nat \<Rightarrow> byte list" where
  "completion_entry cid status_code sqid sqhd cmd_spec_value =
     set_fields [(CQE_CID, cid), (CQE_SC, status_code), (CQE_SQID, sqid), (CQE_SQHD, sqhd),
       (CQE_CMD_SPEC, cmd_spec_value)] (zeros 16)"

text \<open>
  \<open>complete\<close>: the arguments are evaluated first, so the command identifier is read from the slot and the name of the
  status is looked up before the entry is made.
\<close>

definition complete :: "nat \<Rightarrow> nvme_queue \<Rightarrow> completion_queue \<Rightarrow> nat res \<Rightarrow> nat \<Rightarrow> (('d, 'a) shared_scheme, unit) st" where
  "complete command sq cq status_code cmd_spec_value =
     bindS (getS (\<lambda>s. getf SQE_CID (command_bytes s command))) (\<lambda>cid.
     bindS (liftS status_code) (\<lambda>sc.
     bindS (getS (\<lambda>s. ht_value (mem s) (head sq))) (\<lambda>sqhd.
       storeS (\<lambda>m. post_completion m cq (completion_entry cid sc (qid sq) sqhd cmd_spec_value)))))"

abbreviation generic_status :: "string \<Rightarrow> nat res" where
  "generic_status n \<equiv> sc_int n ''Generic''"

definition NVSimCommandNotSupported :: "('c, 'a) handler" where
  "NVSimCommandNotSupported command sq cq = complete command sq cq (generic_status ''Invalid Field in Command'') 0"

section \<open>NVM command handlers\<close>

text \<open>\<open>nvsim.config.namespaces[nsid]\<close>, and then an attribute of it: out of range raises, and so does the None at 0.\<close>

definition namespaceS :: "nat \<Rightarrow> (('c, 'a) sim, namespace) st" where
  "namespaceS nsid =
     bindS (getS (\<lambda>s. namespaces (dev s))) (\<lambda>nss.
     bindS (liftS (list_get nss nsid)) (\<lambda>ns. liftS (case ns of None \<Rightarrow> Inl AttributeError | Some ns \<Rightarrow> Inr ns)))"

definition NVSimWrite :: "('c, 'a) handler" where
  "NVSimWrite command sq cq =
     bindS (fieldS Write ''NSID'' command) (\<lambda>nsid.
     bindS (namespaceS nsid) (\<lambda>ns.
     bindS (fieldS Write ''SLBA'' command) (\<lambda>slba.
     bindS (fieldS Write ''NLB'' command) (\<lambda>nlb.
     bindS (if slba + nlb + 1 > ns_num_lbas ns then retS (generic_status ''LBA Out of Range'')
       else bindS (prp1S command) (\<lambda>p1.
            bindS (prp2S command) (\<lambda>p2.
            bindS (command_prp ((nlb + 1) * ns_block_size ns) p1 p2) (\<lambda>p.
            bindS (getS mem) (\<lambda>m.
            bindS (liftS (ns_write ns slba (nlb + 1) p m)) (\<lambda>ns'.
            thenS (modify_config (\<lambda>c. c\<lparr>namespaces := (namespaces c)[nsid := Some ns']\<rparr>))
              (retS (generic_status ''Successful Completion'')))))))) (\<lambda>status_code.
       complete command sq cq status_code 0)))))"

definition NVSimRead :: "('c, 'a) handler" where
  "NVSimRead command sq cq =
     bindS (fieldS Read ''NSID'' command) (\<lambda>nsid.
     bindS (namespaceS nsid) (\<lambda>ns.
     bindS (fieldS Read ''SLBA'' command) (\<lambda>slba.
     bindS (fieldS Read ''NLB'' command) (\<lambda>nlb.
     bindS (if slba + nlb + 1 > ns_num_lbas ns then retS (generic_status ''LBA Out of Range'')
       else bindS (prp1S command) (\<lambda>p1.
            bindS (prp2S command) (\<lambda>p2.
            bindS (command_prp ((nlb + 1) * ns_block_size ns) p1 p2) (\<lambda>p.
            thenS (storeS (ns_read ns slba (nlb + 1) p))
              (retS (generic_status ''Successful Completion'')))))) (\<lambda>status_code.
       complete command sq cq status_code 0)))))"

definition NVSimFlush :: "('c, 'a) handler" where
  "NVSimFlush command sq cq =
     bindS (getS (\<lambda>s. [1..<length (namespaces (dev s))] @ [0xFFFFFFFF])) (\<lambda>valid_nsids.
     bindS (fieldS Flush ''NSID'' command) (\<lambda>nsid.
       complete command sq cq
         (if nsid \<notin> set valid_nsids then generic_status ''Invalid Namespace or Format''
          else generic_status ''Successful Completion'') 0))"

section \<open>Admin command handlers\<close>

definition setS :: "prp \<Rightarrow> byte list \<Rightarrow> (('c, 'a) sim, unit) st" where
  "setS p data = storeS (\<lambda>m. set_data_buffer m p data)"

definition NVSimIdentify :: "('c, 'a) handler" where
  "NVSimIdentify command sq cq =
     bindS (prp1S command) (\<lambda>p1.
     bindS (command_prp 4096 p1 0) (\<lambda>p.
     bindS (fieldS Identify ''CNS'' command) (\<lambda>cns.
     bindS (fieldS Identify ''NSID'' command) (\<lambda>nsid.
     bindS (getS dev) (\<lambda>c.
     bindS (if cns = 0x01
            then thenS (setS p (id_ctrl_data c)) (retS (generic_status ''Successful Completion''))
            else if cns = 0x00
            then if nsid = 0 \<or> int nsid > int (length (namespaces c)) - 1
                 then retS (generic_status ''Invalid Namespace or Format'')
                 else bindS (liftS (list_get (id_ns_data c) nsid)) (\<lambda>d.
                      bindS (liftS (case d of None \<Rightarrow> Inl TypeError | Some d \<Rightarrow> Inr d)) (\<lambda>d.
                        thenS (setS p d) (retS (generic_status ''Successful Completion''))))
            else if cns = 0x02
            then thenS (setS p (id_ns_list_data c)) (retS (generic_status ''Successful Completion''))
            else if cns = 0x17
            then thenS (setS p (id_uuid_list_data c)) (retS (generic_status ''Successful Completion''))
            else retS (generic_status ''Invalid Field in Command'')) (\<lambda>status_code.
       complete command sq cq status_code 0))))))"

text \<open>\<open>check_mem_access\<close> writes 0xFF to the first and the last byte.\<close>

definition check_mem_access :: "nat \<Rightarrow> nat \<Rightarrow> (('d, 'a) shared_scheme, unit) st" where
  "check_mem_access addr size' =
     (if size' = 0 then raiseS IndexError
      else storeS (\<lambda>m. Inr (write_bytes (write_bytes m addr [0xFF]) (addr + size' - 1) [0xFF])))"

definition NVSimCreateIOCompletionQueue :: "('c, 'a) handler" where
  "NVSimCreateIOCompletionQueue command sq cq =
     bindS (fieldS CreateIOCompletionQueue ''PC'' command) (\<lambda>pc.
     if pc \<noteq> 1 then complete command sq cq (generic_status ''Invalid Field in Command'') 0
     else bindS (prp1S command) (\<lambda>base.
          bindS (fieldS CreateIOCompletionQueue ''QSIZE'' command) (\<lambda>qsize.
          thenS (check_mem_access base ((qsize + 1) * 16)) (
          bindS (fieldS CreateIOCompletionQueue ''QSIZE'' command) (\<lambda>qsize.
          bindS (fieldS CreateIOCompletionQueue ''QID'' command) (\<lambda>qid'.
          bindS (getS (\<lambda>s. cqhead_addr s qid')) (\<lambda>dbh.
          bindS (make_cq base (qsize + 1) 16 qid' dbh None) (\<lambda>new_cq.
          thenS (modify_config (\<lambda>c. c\<lparr>completion_queues := completion_queues c @ [new_cq]\<rparr>))
            (complete command sq cq (generic_status ''Successful Completion'') 0)))))))))"

definition NVSimCreateIOSubmissionQueue :: "('c, 'a) handler" where
  "NVSimCreateIOSubmissionQueue command sq cq =
     bindS (prp1S command) (\<lambda>base.
     bindS (fieldS CreateIOSubmissionQueue ''QSIZE'' command) (\<lambda>qsize.
     thenS (check_mem_access base ((qsize + 1) * 64)) (
     bindS (fieldS CreateIOSubmissionQueue ''QSIZE'' command) (\<lambda>qsize.
     bindS (fieldS CreateIOSubmissionQueue ''QID'' command) (\<lambda>qid'.
     bindS (getS (\<lambda>s. sqtail_addr s qid')) (\<lambda>dbt.
     bindS (make_sq base (qsize + 1) 64 qid' dbt) (\<lambda>new_sq.
     bindS (fieldS CreateIOSubmissionQueue ''CQID'' command) (\<lambda>cqid.
     bindS (getS (\<lambda>s. filter (\<lambda>c. qid c = cqid) (completion_queues (dev s)))) (\<lambda>cqs.
     if length cqs = 0 then complete command sq cq (generic_status ''Invalid Field in Command'') 0
     else thenS (modify_config (\<lambda>c. c\<lparr>sim_queue_mgr := qm_add (qid new_sq) new_sq (qid (cqs ! 0)) (cqs ! 0) (sim_queue_mgr c)\<rparr>))
            (complete command sq cq (generic_status ''Successful Completion'') 0))))))))))"

definition NVSimDeleteIOCompletionQueue :: "('c, 'a) handler" where
  "NVSimDeleteIOCompletionQueue command sq cq =
     bindS (fieldS DeleteIOCompletionQueue ''QID'' command) (\<lambda>del_cqid.
     thenS (assertS (del_cqid \<noteq> 0)) (
     bindS (getS (\<lambda>s. sim_queue_mgr (dev s))) (\<lambda>qm.
     bindS (liftS (qm_remove_cq del_cqid qm)) (\<lambda>qm.
     thenS (modify_config (\<lambda>c. c\<lparr>sim_queue_mgr := qm\<rparr>))
       (complete command sq cq (generic_status ''Successful Completion'') 0)))))"

definition NVSimDeleteIOSubmissionQueue :: "('c, 'a) handler" where
  "NVSimDeleteIOSubmissionQueue command sq cq =
     bindS (fieldS DeleteIOSubmissionQueue ''QID'' command) (\<lambda>del_sqid.
     thenS (assertS (del_sqid \<noteq> 0)) (
     bindS (getS (\<lambda>s. sim_queue_mgr (dev s))) (\<lambda>qm.
     bindS (liftS (qm_remove_sq del_sqid qm)) (\<lambda>qm.
     thenS (modify_config (\<lambda>c. c\<lparr>sim_queue_mgr := qm\<rparr>))
       (complete command sq cq (generic_status ''Successful Completion'') 0)))))"

text \<open>
  The handler reads \<open>nvsim.mps\<close>, an attribute the simulator object does not have, when it serves page 0 with a byte
  offset. The handler of the format command reads \<open>nvsim.namespaces\<close>, which it does not have either.
\<close>

definition NVSimGetLogPage :: "('c, 'a) handler" where
  "NVSimGetLogPage command sq cq =
     bindS (fieldS GetLogPage ''LID'' command) (\<lambda>lid.
     if lid = 0
     then bindS (fieldS GetLogPage ''OT'' command) (\<lambda>ot.
          if ot = 0 then raiseS AttributeError
          else complete command sq cq (generic_status ''Invalid Field in Command'') 0)
     else complete command sq cq (sc_int ''Invalid Log Page'' ''GetLogPage'') 0)"

definition NVSimFormat :: "('c, 'a) handler" where
  "NVSimFormat command sq cq = raiseS AttributeError"

text \<open>
  \<open>assert\<close> of a non-empty string passes; the status is then unbound. The response object has the power state in its
  low four bits, its value is the one of \<open>CMD_SPEC\<close>.
\<close>

definition NVSimGetFeature :: "('c, 'a) handler" where
  "NVSimGetFeature command sq cq =
     bindS (fieldS GetFeature ''FID'' command) (\<lambda>fid.
     if fid = 0x02
     then bindS (getS (\<lambda>s. le_nat (setf (0, 4) (power_state (dev s)) (zeros 4)))) (\<lambda>cmd_spec.
            complete command sq cq (generic_status ''Successful Completion'') cmd_spec)
     else raiseS UnboundLocalError)"

definition NVSimSetFeature :: "('c, 'a) handler" where
  "NVSimSetFeature command sq cq =
     bindS (fieldS SetFeature ''FID'' command) (\<lambda>fid.
     if fid = 0x02
     then bindS (fieldS SetFeaturePowerManagement ''PS'' command) (\<lambda>ps.
          thenS (modify_config (\<lambda>c. c\<lparr>power_state := ps\<rparr>)) (
          bindS (fieldS SetFeaturePowerManagement ''SV'' command) (\<lambda>sv.
          thenS (assertS (sv = 0))
            (complete command sq cq (generic_status ''Successful Completion'') 0))))
     else raiseS UnboundLocalError)"

section \<open>Dispatch\<close>

text \<open>
  The tables of 256 handlers are filled with \<open>NVSimCommandNotSupported\<close> and then with each handler at its opcode, the default
  of its command class.
\<close>

definition default_opc :: "cmd_class \<Rightarrow> nat" where
  "default_opc c = (case map_of (cc_defaults c) ''OPC'' of None \<Rightarrow> 0 | Some v \<Rightarrow> nat (v mod 256))"

definition install :: "(cmd_class \<times> ('c, 'a) handler) list \<Rightarrow> ('c, 'a) handler list" where
  "install hs = fold (\<lambda>(c, h) table. table[default_opc c := h]) hs (replicate 256 NVSimCommandNotSupported)"

definition admin_cmd_handlers :: "('c, 'a) handler list" where
  "admin_cmd_handlers = install
     [(Identify, NVSimIdentify),
      (CreateIOCompletionQueue, NVSimCreateIOCompletionQueue),
      (CreateIOSubmissionQueue, NVSimCreateIOSubmissionQueue),
      (DeleteIOCompletionQueue, NVSimDeleteIOCompletionQueue),
      (DeleteIOSubmissionQueue, NVSimDeleteIOSubmissionQueue),
      (GetLogPage, NVSimGetLogPage),
      (FormatNVM, NVSimFormat),
      (GetFeature, NVSimGetFeature),
      (SetFeature, NVSimSetFeature)]"

definition nvm_cmd_handlers :: "('c, 'a) handler list" where
  "nvm_cmd_handlers = install [(Write, NVSimWrite), (Read, NVSimRead), (Flush, NVSimFlush)]"

definition dispatch :: "('c, 'a) handler list \<Rightarrow> ('c, 'a) handler" where
  "dispatch table command sq cq =
     bindS (getS (\<lambda>s. getf SQE_OPC (command_bytes s command))) (\<lambda>opc. (table ! opc) command sq cq)"

end
