(* ===== verification/Nvsim_Io.thy ===== *)
theory Nvsim_Io
  imports Nvsim_Handlers Queue_Contracts
begin

text \<open>
  The read and write handlers of the simulator against an abstract disk: a function from namespace and block address to
  the content of the block. The host side buffers are PRPs that describe pages, so the properties reach from the bytes of
  the host's pages over the PRP lists in memory to the blocks of the namespace and back.
\<close>

section \<open>Completions\<close>

text \<open>What a completion writes lies apart from a region of memory.\<close>

definition cq_apart :: "memory \<Rightarrow> completion_queue \<Rightarrow> nat \<Rightarrow> nat \<Rightarrow> bool" where
  "cq_apart m cq a n \<longleftrightarrow> entry_size cq = 16 \<and> separate (slot cq (ht_value m (tail cq))) 16 a n \<and>
     separate (ht_address (tail cq)) 4 a n"

lemma post_completion_keeps:
  assumes "post_completion m cq e = Inr m'" "length e = 16" "cq_apart m cq a n"
  shows "read_bytes m' a n = read_bytes m a n"
proof -
  let ?e = "setf CQE_P (if getf CQE_P (read_bytes m (slot cq (ht_value m (tail cq))) 16) = 1 then 0 else 1) e"
  have m': "m' = ht_advance (write_bytes m (slot cq (ht_value m (tail cq))) ?e) (tail cq)"
    using assms by (auto simp: post_completion_def Let_def res_iffs cq_apart_def)
  have "read_bytes m' a n = read_bytes (write_bytes m (slot cq (ht_value m (tail cq))) ?e) a n"
    using assms(3) by (simp add: m' ht_advance_def Let_def read_write32_separate cq_apart_def)
  also have "\<dots> = read_bytes m a n"
    using assms(2,3) by (simp add: read_write_separate cq_apart_def)
  finally show ?thesis .
qed

lemma length_completion_entry [simp]: "length (completion_entry cid sc sqid sqhd v) = 16"
  by (simp add: completion_entry_def)

lemma completion_entry_fields:
  "getf CQE_CID (completion_entry cid sc sqid sqhd v) = cid mod 2 ^ 16"
  "getf CQE_SC (completion_entry cid sc sqid sqhd v) = sc mod 2 ^ 8"
  "getf CQE_SCT (completion_entry cid sc sqid sqhd v) = 0"
  "getf CQE_SQID (completion_entry cid sc sqid sqhd v) = sqid mod 2 ^ 16"
  "getf CQE_SQHD (completion_entry cid sc sqid sqhd v) = sqhd mod 2 ^ 16"
  "getf CQE_CMD_SPEC (completion_entry cid sc sqid sqhd v) = v mod 2 ^ 32"
  by (simp_all add: completion_entry_def set_fields_def getf_setf_apart)

text \<open>
  \<open>answered s command sq cq sc v s'\<close>: the state \<open>s'\<close> is \<open>s\<close> with one more completion, for the command at that address, with
  the status \<open>sc\<close>.
\<close>

definition answered ::
  "('d, 'a) shared_scheme \<Rightarrow> nat \<Rightarrow> nvme_queue \<Rightarrow> completion_queue \<Rightarrow> nat \<Rightarrow> nat \<Rightarrow> ('d, 'a) shared_scheme \<Rightarrow> bool" where
  "answered s command sq cq sc v s' \<longleftrightarrow>
     (\<exists>m'. post_completion (mem s) cq (completion_entry (getf SQE_CID (command_bytes s command)) sc (qid sq)
        (ht_value (mem s) (head sq)) v) = Inr m' \<and> s' = s\<lparr>mem := m'\<rparr>)"

lemma complete_answers:
  assumes "\<not> is_full (mem s) cq"
  shows "\<exists>s'. complete command sq cq (Inr sc) v s = (Inr (), s') \<and> answered s command sq cq sc v s'"
proof -
  obtain m' where "post_completion (mem s) cq (completion_entry (getf SQE_CID (command_bytes s command)) sc (qid sq)
        (ht_value (mem s) (head sq)) v) = Inr m'"
    using assms by (auto simp: post_completion_def Let_def)
  then show ?thesis
    by (auto simp: complete_def answered_def bindS_apply)
qed

lemma complete_full:
  assumes "is_full (mem s) cq"
  shows "complete command sq cq (Inr sc) v s = (Inl AssertionError, s)"
  using assms by (simp add: complete_def bindS_apply post_completion_def)

lemma answered_dev: "answered s command sq cq sc v s' \<Longrightarrow> dev s' = dev s"
  by (auto simp: answered_def)

lemma answered_keeps:
  "answered s command sq cq sc v s' \<Longrightarrow> cq_apart (mem s) cq a n \<Longrightarrow>
    read_bytes (mem s') a n = read_bytes (mem s) a n"
  by (auto simp: answered_def post_completion_keeps)

section \<open>The abstract disk\<close>

definition ns_at :: "('c, 'a) sim \<Rightarrow> nat \<Rightarrow> namespace option" where
  "ns_at s nsid = (if nsid < length (namespaces (dev s)) then namespaces (dev s) ! nsid else None)"

definition disk :: "('c, 'a) sim \<Rightarrow> nat \<Rightarrow> nat \<Rightarrow> byte list" where
  "disk s nsid lba = (case ns_at s nsid of None \<Rightarrow> [] | Some ns \<Rightarrow> block ns lba)"

lemma ns_at_dev: "dev s' = dev s \<Longrightarrow> ns_at s' = ns_at s"
  unfolding ns_at_def by (rule ext) (simp only:)

lemma namespaceS_at: "ns_at s nsid = Some ns \<Longrightarrow> namespaceS nsid s = (Inr ns, s)"
  by (auto simp: ns_at_def namespaceS_def bindS_apply split: if_splits)

lemma namespaceS_none: "ns_at s nsid = None \<Longrightarrow> \<exists>e. namespaceS nsid s = (Inl e, s) \<and> e \<in> {IndexError, AttributeError}"
  by (auto simp: ns_at_def namespaceS_def bindS_apply list_get_def split: if_splits)

text \<open>A read or write command in memory, with the PRP that the handler builds from it.\<close>

definition io_at :: "('c, 'a) sim \<Rightarrow> cmd_class \<Rightarrow> nat \<Rightarrow> nat \<Rightarrow> nat \<Rightarrow> nat \<Rightarrow> bool" where
  "io_at s c command nsid slba nlb \<longleftrightarrow>
     cmd_field c ''NSID'' (command_bytes s command) = nsid \<and> cmd_field c ''SLBA'' (command_bytes s command) = slba \<and>
     cmd_field c ''NLB'' (command_bytes s command) = nlb"

definition device_prp :: "('c, 'a) sim \<Rightarrow> nat \<Rightarrow> nat \<Rightarrow> prp res" where
  "device_prp s command num_bytes' =
     bindR (prp_init num_bytes' (config_mps (dev s)) BIDIRECTIONAL)
       (\<lambda>q. from_address (mem s) q (getf SQE_PRP1 (command_bytes s command)) (getf SQE_PRP2 (command_bytes s command)))"

lemma command_prp_device [simp]:
  "command_prp n (getf SQE_PRP1 (command_bytes s command)) (getf SQE_PRP2 (command_bytes s command)) s =
    (device_prp s command n, s)"
  by (simp add: command_prp_def device_prp_def)

section \<open>Write\<close>

lemma NVSimWrite_in_range:
  assumes "io_at s Write command nsid slba nlb" "ns_at s nsid = Some ns" "slba + nlb + 1 \<le> ns_num_lbas ns"
    and "device_prp s command ((nlb + 1) * ns_block_size ns) = Inr p"
    and "get_data_buffer (mem s) p = Inr buf" "(nlb + 1) * ns_block_size ns \<le> length buf"
  shows "NVSimWrite command sq cq s = complete command sq cq (Inr 0) 0
    (s\<lparr>dev := (dev s)\<lparr>namespaces := (namespaces (dev s))[nsid := Some (ns\<lparr>ns_mm := write_bytes (ns_mm ns)
      (slba * ns_block_size ns) (take ((nlb + 1) * ns_block_size ns) buf)\<rparr>)]\<rparr>\<rparr>)"
proof -
  have w: "ns_write ns slba (nlb + 1) p (mem s) = Inr (ns\<lparr>ns_mm := write_bytes (ns_mm ns)
      (slba * ns_block_size ns) (take ((nlb + 1) * ns_block_size ns) buf)\<rparr>)"
    using assms(3) by (intro ns_write_exact [OF _ assms(5,6)]) simp
  have io: "cmd_field Write ''NSID'' (command_bytes s command) = nsid"
    "cmd_field Write ''SLBA'' (command_bytes s command) = slba" "cmd_field Write ''NLB'' (command_bytes s command) = nlb"
    using assms(1) by (auto simp: io_at_def)
  show ?thesis
    unfolding NVSimWrite_def
    using assms(3) by (simp add: bindS_apply thenS_def io namespaceS_at [OF assms(2)] assms(4) [simplified] w [simplified] sc_int_values)
qed


lemma NVSimWrite_out_of_range:
  assumes "io_at s Write command nsid slba nlb" "ns_at s nsid = Some ns" "ns_num_lbas ns < slba + nlb + 1"
  shows "NVSimWrite command sq cq s = complete command sq cq (Inr 0x80) 0 s"
  using assms unfolding NVSimWrite_def
  by (simp add: bindS_apply io_at_def namespaceS_at [OF assms(2)] sc_int_values)

lemma disk_update:
  assumes "ns_at s nsid = Some ns" "length data = n * ns_block_size ns"
  shows "disk (s\<lparr>dev := (dev s)\<lparr>namespaces := (namespaces (dev s))[nsid := Some (ns\<lparr>ns_mm :=
      write_bytes (ns_mm ns) (slba * ns_block_size ns) data\<rparr>)]\<rparr>\<rparr>) k i =
    (if k = nsid \<and> slba \<le> i \<and> i < slba + n then take (ns_block_size ns) (drop ((i - slba) * ns_block_size ns) data)
     else disk s k i)"
proof -
  have n: "nsid < length (namespaces (dev s))" "namespaces (dev s) ! nsid = Some ns"
    using assms(1) by (simp_all add: ns_at_def split: if_splits)
  show ?thesis
  proof (cases "k = nsid")
    case True
    then show ?thesis using block_written [OF assms(2), of slba i] n by (simp add: disk_def ns_at_def)
  next
    case False
    then show ?thesis by (simp add: disk_def ns_at_def)
  qed
qed

lemma complete_disk: "answered s command sq cq sc v s' \<Longrightarrow> disk s' = disk s"
  using answered_dev [of s command sq cq sc v s'] by (simp add: fun_eq_iff disk_def ns_at_def)

section \<open>Read\<close>

lemma NVSimRead_in_range:
  assumes "io_at s Read command nsid slba nlb" "ns_at s nsid = Some ns" "slba + nlb + 1 \<le> ns_num_lbas ns"
    and "device_prp s command ((nlb + 1) * ns_block_size ns) = Inr p"
    and "set_data_buffer (mem s) p (blocks ns slba (nlb + 1)) = Inr m'"
  shows "NVSimRead command sq cq s = complete command sq cq (Inr 0) 0 (s\<lparr>mem := m'\<rparr>)"
proof -
  have r: "ns_read ns slba (nlb + 1) p (mem s) = Inr m'"
    using mm_slice_blocks [of slba "nlb + 1" ns] assms(3,5) by (simp only: ns_read_def Let_def)
  have io: "cmd_field Read ''NSID'' (command_bytes s command) = nsid"
    "cmd_field Read ''SLBA'' (command_bytes s command) = slba" "cmd_field Read ''NLB'' (command_bytes s command) = nlb"
    using assms(1) by (auto simp: io_at_def)
  show ?thesis
    unfolding NVSimRead_def
    using assms(3) by (simp add: bindS_apply thenS_def io namespaceS_at [OF assms(2)] assms(4) [simplified]
        storeS_def r [simplified] sc_int_values)
qed

lemma NVSimRead_out_of_range:
  assumes "io_at s Read command nsid slba nlb" "ns_at s nsid = Some ns" "ns_num_lbas ns < slba + nlb + 1"
  shows "NVSimRead command sq cq s = complete command sq cq (Inr 0x80) 0 s"
  using assms unfolding NVSimRead_def
  by (simp add: bindS_apply io_at_def namespaceS_at [OF assms(2)] sc_int_values)

section \<open>Refinement of the abstract disk\<close>

definition pages_data :: "memory \<Rightarrow> prp \<Rightarrow> mem_loc list \<Rightarrow> byte list" where
  "pages_data m p ps = concat (map (\<lambda>x. read_bytes m (vaddr x) (mps p)) ps)"

lemma length_pages_data [simp]: "length (pages_data m p ps) = length ps * mps p"
  by (induction ps) (simp_all add: pages_data_def)

text \<open>
  A command that can be served: its fields, a range inside the namespace \<open>ns\<close>, the pages \<open>ps\<close> behind its addresses, which
  hold the blocks, and room for its completion.
\<close>

definition io_ready ::
  "('c, 'a) sim \<Rightarrow> cmd_class \<Rightarrow> nat \<Rightarrow> completion_queue \<Rightarrow> nat \<Rightarrow> nat \<Rightarrow> nat \<Rightarrow> namespace \<Rightarrow> prp \<Rightarrow> mem_loc list \<Rightarrow> bool" where
  "io_ready s c command cq nsid slba n ns p ps \<longleftrightarrow>
     0 < n \<and> io_at s c command nsid slba (n - 1) \<and> ns_at s nsid = Some ns \<and> slba + n \<le> ns_num_lbas ns \<and>
     device_prp s command (n * ns_block_size ns) = Inr p \<and> prp_describes (mem s) p ps \<and>
     n * ns_block_size ns \<le> length ps * mps p \<and> (mps p dvd n * ns_block_size ns \<or> length ps = 1) \<and>
     \<not> is_full (mem s) cq"

lemma NVSimWrite_ready:
  assumes "io_ready s Write command cq nsid slba n ns p ps"
  shows "\<exists>s1 s2. NVSimWrite command sq cq s = (Inr (), s2) \<and> answered s1 command sq cq 0 0 s2 \<and>
    mem s1 = mem s \<and> s2\<lparr>mem := mem s, dev := dev s\<rparr> = s \<and> (dev s2)\<lparr>namespaces := namespaces (dev s)\<rparr> = dev s \<and>
    (\<forall>k i. disk s2 k i =
      (if k = nsid \<and> slba \<le> i \<and> i < slba + n
       then take (ns_block_size ns) (drop ((i - slba) * ns_block_size ns) (take (n * ns_block_size ns) (pages_data (mem s) p ps)))
       else disk s k i)) \<and>
    (\<exists>ns'. ns_at s2 nsid = Some ns' \<and> ns_num_lbas ns' = ns_num_lbas ns \<and> ns_block_size ns' = ns_block_size ns \<and>
      blocks ns' slba n = take (n * ns_block_size ns) (pages_data (mem s) p ps))"
proof -
  let ?data = "take (n * ns_block_size ns) (pages_data (mem s) p ps)"
  let ?ns = "ns\<lparr>ns_mm := write_bytes (ns_mm ns) (slba * ns_block_size ns) ?data\<rparr>"
  let ?s1 = "s\<lparr>dev := (dev s)\<lparr>namespaces := (namespaces (dev s))[nsid := Some ?ns]\<rparr>\<rparr>"
  from assms have n: "n = n - 1 + 1" and r: "io_at s Write command nsid slba (n - 1)" "ns_at s nsid = Some ns"
    "slba + (n - 1) + 1 \<le> ns_num_lbas ns" and d: "prp_describes (mem s) p ps"
    and prp: "device_prp s command ((n - 1 + 1) * ns_block_size ns) = Inr p"
    and len: "n * ns_block_size ns \<le> length ps * mps p" and room: "\<not> is_full (mem ?s1) cq"
    by (auto simp: io_ready_def)
  have len': "(n - 1 + 1) * ns_block_size ns \<le> length (pages_data (mem s) p ps)" using len n by simp
  have w: "NVSimWrite command sq cq s = complete command sq cq (Inr 0) 0 ?s1"
    using NVSimWrite_in_range [OF r prp prp_describes_get [OF d, folded pages_data_def] len'] n by simp
  obtain s2 where s2: "complete command sq cq (Inr 0) 0 ?s1 = (Inr (), s2)" "answered ?s1 command sq cq 0 0 s2"
    using complete_answers [OF room] by blast
  have data: "length ?data = n * ns_block_size ns" using len by simp
  have disk: "disk s2 = disk ?s1" using complete_disk [OF s2(2)] .
  have "ns_at s2 nsid = Some ?ns"
    using answered_dev [OF s2(2)] r(2) by (simp add: ns_at_def split: if_splits)
  moreover have "blocks ?ns slba n = ?data" by (rule blocks_written [OF data])
  moreover have "s2\<lparr>mem := mem s, dev := dev s\<rparr> = s"
    using s2(2) by (auto simp: answered_def)
  moreover have "(dev s2)\<lparr>namespaces := namespaces (dev s)\<rparr> = dev s"
    using answered_dev [OF s2(2)] by simp
  ultimately show ?thesis
    using w s2 disk disk_update [OF r(2) data, of slba]
    by (intro exI [of _ ?s1] exI [of _ s2]) auto
qed

lemma device_prp_cong:
  "mem s' = mem s \<Longrightarrow> config_mps (dev s') = config_mps (dev s) \<Longrightarrow> device_prp s' command n = device_prp s command n"
  by (simp add: device_prp_def command_bytes_def)

lemma io_ready_cong:
  assumes "io_ready s c command cq nsid slba n ns p ps" "mem s' = mem s" "config_mps (dev s') = config_mps (dev s)"
    and "ns_at s' nsid = Some ns'" "ns_num_lbas ns' = ns_num_lbas ns" "ns_block_size ns' = ns_block_size ns"
  shows "io_ready s' c command cq nsid slba n ns' p ps"
  using assms by (simp add: io_ready_def io_at_def command_bytes_def device_prp_cong [OF assms(2,3)])


text \<open>The pages of a read lie apart from the command, from the completion and from the cells of the queue.\<close>

definition pages_apart :: "('c, 'a) sim \<Rightarrow> nat \<Rightarrow> nvme_queue \<Rightarrow> completion_queue \<Rightarrow> prp \<Rightarrow> mem_loc list \<Rightarrow> bool" where
  "pages_apart s command sq cq p ps \<longleftrightarrow>
     (\<forall>x \<in> set ps. separate (vaddr x) (mps p) command 64 \<and> cq_apart (mem s) cq (vaddr x) (mps p) \<and>
        separate (vaddr x) (mps p) (ht_address (head cq)) 4 \<and> separate (vaddr x) (mps p) (ht_address (tail cq)) 4 \<and>
        separate (vaddr x) (mps p) (ht_address (head sq)) 4)"

lemma pages_written:
  assumes "prp_describes m p ps" "length data \<le> length ps * mps p"
    and "\<forall>x \<in> set ps. separate (vaddr x) (mps p) a k"
  shows "read_bytes (write_chunks (mps p) data ps m) a k = read_bytes m a k"
    and "take (length data) (pages_data (write_chunks (mps p) data ps m) p ps) = data"
  using read_write_chunks_separate [OF assms(3)] read_write_chunks [OF prp_describes_pages [OF assms(1)], of data m]
    assms(2) by (simp_all add: pages_data_def mult.commute)

lemma NVSimRead_ready:
  assumes "io_ready s Read command cq nsid slba n ns p ps" "pages_apart s command sq cq p ps"
  shows "\<exists>s1 s2. NVSimRead command sq cq s = (Inr (), s2) \<and> answered s1 command sq cq 0 0 s2 \<and>
    command_bytes s1 command = command_bytes s command \<and> dev s2 = dev s \<and> disk s2 = disk s \<and>
    take (n * ns_block_size ns) (pages_data (mem s2) p ps) = blocks ns slba n"
proof -
  let ?data = "blocks ns slba n" let ?m = "write_chunks (mps p) ?data ps (mem s)" let ?s1 = "s\<lparr>mem := ?m\<rparr>"
  from assms(1) have n: "n = n - 1 + 1" and r: "io_at s Read command nsid slba (n - 1)" "ns_at s nsid = Some ns"
    "slba + (n - 1) + 1 \<le> ns_num_lbas ns" and d: "prp_describes (mem s) p ps"
    and prp: "device_prp s command ((n - 1 + 1) * ns_block_size ns) = Inr p"
    and len: "n * ns_block_size ns \<le> length ps * mps p" and whole: "mps p dvd n * ns_block_size ns \<or> length ps = 1"
    and room: "\<not> is_full (mem s) cq"
    by (auto simp: io_ready_def)
  have data: "length ?data = n * ns_block_size ns" by (simp add: blocks_def)
  have dlen: "length ?data \<le> length ps * mps p" using data len by simp
  have sep: "separate (vaddr x) (mps p) command 64" "cq_apart (mem s) cq (vaddr x) (mps p)"
    "separate (vaddr x) (mps p) (ht_address (head cq)) 4" "separate (vaddr x) (mps p) (ht_address (tail cq)) 4"
    "separate (vaddr x) (mps p) (ht_address (head sq)) 4" if "x \<in> set ps" for x
    using assms(2) that by (auto simp: pages_apart_def)
  note keep = pages_written(1) [OF d dlen]
  have set: "set_data_buffer (mem s) p ?data = Inr ?m"
    using prp_describes_set [OF d, of ?data] whole data by auto
  have read: "NVSimRead command sq cq s = complete command sq cq (Inr 0) 0 ?s1"
    using NVSimRead_in_range [OF r prp] set n by simp
  have cells: "ht_value ?m (head cq) = ht_value (mem s) (head cq)" "ht_value ?m (tail cq) = ht_value (mem s) (tail cq)"
    using keep [of "ht_address (head cq)" 4] keep [of "ht_address (tail cq)" 4] sep
    by (simp_all add: ht_value_def read32_def)
  then have "\<not> is_full (mem ?s1) cq" using room by (simp add: is_full_def ht_peek_def)
  then obtain s2 where s2: "complete command sq cq (Inr 0) 0 ?s1 = (Inr (), s2)" "answered ?s1 command sq cq 0 0 s2"
    using complete_answers by blast
  have "cq_apart ?m cq (vaddr x) (mps p)" if "x \<in> set ps" for x
    using sep(2) [OF that] cells by (simp add: cq_apart_def)
  then have "read_bytes (mem s2) (vaddr x) (mps p) = read_bytes ?m (vaddr x) (mps p)" if "x \<in> set ps" for x
    using answered_keeps [OF s2(2)] that by simp
  then have "pages_data (mem s2) p ps = pages_data ?m p ps"
    by (simp add: pages_data_def cong: map_cong)
  then have "take (n * ns_block_size ns) (pages_data (mem s2) p ps) = ?data"
    using pages_written(2) [OF d dlen, of 0 0] data by (simp add: separate_def)
  moreover have "command_bytes ?s1 command = command_bytes s command"
    using keep sep(1) by (simp add: command_bytes_def)
  moreover have "disk s2 = disk s" "dev s2 = dev s"
    using complete_disk [OF s2(2)] answered_dev [OF s2(2)] by (simp_all add: fun_eq_iff disk_def ns_at_def)
  ultimately show ?thesis using read s2 by (intro exI [of _ ?s1] exI [of _ s2]) simp
qed


text \<open>
  Property C8. What a write command stored, a later read command of the same blocks returns: whatever the host has done to the memory
  in between, once the device serves the read, its pages hold the data that the pages of the write had.
\<close>

theorem nvsim_write_then_read:
  assumes "io_ready s Write command cq nsid slba n ns p ps" "NVSimWrite command sq cq s = (Inr (), s2)"
    and "dev s3 = dev s2" "io_ready s3 Read command' cq' nsid slba n ns' p' ps'" "pages_apart s3 command' sq' cq' p' ps'"
  shows "\<exists>s4. NVSimRead command' sq' cq' s3 = (Inr (), s4) \<and>
    take (n * ns_block_size ns) (pages_data (mem s4) p' ps') = take (n * ns_block_size ns) (pages_data (mem s) p ps)"
proof -
  obtain ns1 where ns1: "ns_at s2 nsid = Some ns1" "ns_block_size ns1 = ns_block_size ns"
      "blocks ns1 slba n = take (n * ns_block_size ns) (pages_data (mem s) p ps)"
    using NVSimWrite_ready [OF assms(1), of sq] assms(2) by auto
  have "ns' = ns1"
    using ns1(1) assms(4) ns_at_dev [OF assms(3)] by (simp add: io_ready_def)
  then show ?thesis using NVSimRead_ready [OF assms(4,5)] ns1 by auto
qed

text \<open>
  Property C11. A read or write beyond the end of the namespace is answered with LBA Out of Range and touches neither disk nor
  pages; one for a namespace that does not exist ends the simulator's thread with an exception before any change, the None at index 0
  included.
\<close>

theorem nvsim_out_of_range:
  assumes "c = Write \<and> handler = NVSimWrite \<or> c = Read \<and> handler = NVSimRead" "io_at s c command nsid slba nlb"
    and "\<not> is_full (mem s) cq"
  shows "(\<forall>ns. ns_at s nsid = Some ns \<longrightarrow> ns_num_lbas ns < slba + nlb + 1 \<longrightarrow>
      (\<exists>s2. handler command sq cq s = (Inr (), s2) \<and> answered s command sq cq 0x80 0 s2 \<and> disk s2 = disk s)) \<and>
    (ns_at s nsid = None \<longrightarrow> (\<exists>e \<in> {IndexError, AttributeError}. handler command sq cq s = (Inl e, s)))"
proof (intro conjI allI impI)
  fix ns assume "ns_at s nsid = Some ns" "ns_num_lbas ns < slba + nlb + 1"
  then have "handler command sq cq s = complete command sq cq (Inr 0x80) 0 s"
    using assms(1,2) NVSimWrite_out_of_range [of s command nsid slba nlb ns sq cq]
      NVSimRead_out_of_range [of s command nsid slba nlb ns sq cq] by blast
  with complete_answers [OF assms(3), of command sq "0x80" 0] complete_disk
  show "\<exists>s2. handler command sq cq s = (Inr (), s2) \<and> answered s command sq cq 0x80 0 s2 \<and> disk s2 = disk s" by metis
next
  assume "ns_at s nsid = None"
  then obtain e where "namespaceS nsid s = (Inl e, s)" "e \<in> {IndexError, AttributeError}"
    using namespaceS_none by blast
  with assms(1,2) show "\<exists>e \<in> {IndexError, AttributeError}. handler command sq cq s = (Inl e, s)"
    by (auto simp: NVSimWrite_def NVSimRead_def bindS_apply io_at_def)
qed

section \<open>An instance\<close>

text \<open>
  A namespace of 8 blocks of 512 bytes; a command for its block 1 in the slot at 256 with the page at 4096, and a
  completion queue of four entries.
\<close>

definition example_io :: "byte list" where
  "example_io = (zeros 64)[4 := 1, 25 := 16, 40 := 1]"

definition example_disk :: namespace where
  "example_disk = \<lparr>ns_num_lbas = 8, ns_block_size = 512, ns_mm = \<lambda>_. 7\<rparr>"

definition example_sim_config :: sim_config where
  "example_sim_config = \<lparr>config_mps = 4096, power_state = 0, namespaces = [None, Some example_disk],
     id_ctrl_data = zeros 4096, id_ns_data = [None, Some (zeros 4096)], id_ns_list_data = zeros 4096,
     id_uuid_list_data = zeros 4096, sim_queue_mgr = new_queue_mgr, completion_queues = []\<rparr>"

definition example_sim :: "(unit, unit) sim" where
  "example_sim = \<lparr>mem = write_bytes (\<lambda>_. 0) 256 example_io, regs = zero_regs, pcie = (\<lambda>_. 0),
     nvme_event = False, pcie_event = False, sqndbs = 32768, cells = [],
     new_cell = (\<lambda>cs. 65536 + 4 * length cs), dev = example_sim_config, \<dots> = ()\<rparr>"

definition example_sim_sq :: nvme_queue where
  "example_sim_sq = snd (new_submission_queue (\<lambda>_. 0) 16384 256 4 64 1 32776)"

definition example_sim_cq :: completion_queue where
  "example_sim_cq = snd (new_completion_queue (\<lambda>_. 0) 16388 12288 4 16 1 32780 None)"

definition example_page :: mem_loc where
  "example_page = \<lparr>vaddr = 4096, iova = 4096, msize = 4096\<rparr>"

definition example_device_prp :: prp where
  "example_device_prp = \<lparr>num_bytes = 512, mps = 4096, direction = BIDIRECTIONAL, prp1 = 4096,
     prp1_mem = Some example_page, prp2 = 0, prp2_mem = None, mem_list = [example_page], prps_per_page = 511,
     pages_needed = 1, lists_needed = 0\<rparr>"

lemma example_command: "command_bytes example_sim 256 = example_io"
  using read_write_same [where a = 256 and bs = example_io and m = "\<lambda>_. 0"]
  by (simp add: command_bytes_def example_sim_def example_io_def)

lemma example_fields:
  "cmd_field Write ''NSID'' example_io = 1" "cmd_field Write ''SLBA'' example_io = 1"
  "cmd_field Write ''NLB'' example_io = 0" "cmd_field Read ''NSID'' example_io = 1"
  "cmd_field Read ''SLBA'' example_io = 1" "cmd_field Read ''NLB'' example_io = 0"
  "getf SQE_PRP1 example_io = 4096" "getf SQE_PRP2 example_io = 0"
proof -
  have f: "attr_kind (cc_layout Write) ''NSID'' = IntField (8 * 4, 8 * 4)"
    "attr_kind (cc_layout Write) ''SLBA'' = IntField (8 * 40, 8 * 8)"
    "attr_kind (cc_layout Write) ''NLB'' = IntField (8 * 48, 8 * 2)"
    "attr_kind (cc_layout Read) ''NSID'' = IntField (8 * 4, 8 * 4)"
    "attr_kind (cc_layout Read) ''SLBA'' = IntField (8 * 40, 8 * 8)"
    "attr_kind (cc_layout Read) ''NLB'' = IntField (8 * 48, 8 * 2)"
    "SQE_PRP1 = (8 * 24, 8 * 8)" "SQE_PRP2 = (8 * 32, 8 * 8)"
    by code_simp+
  show "cmd_field Write ''NSID'' example_io = 1" "cmd_field Write ''SLBA'' example_io = 1"
    "cmd_field Write ''NLB'' example_io = 0" "cmd_field Read ''NSID'' example_io = 1"
    "cmd_field Read ''SLBA'' example_io = 1" "cmd_field Read ''NLB'' example_io = 0"
    "getf SQE_PRP1 example_io = 4096" "getf SQE_PRP2 example_io = 0"
    unfolding cmd_field_def f attr_kind.case getf_bytes by code_simp+
qed

lemma example_cells:
  "ht_value (mem example_sim) (tail example_sim_cq) = 0" "ht_value (mem example_sim) (head example_sim_cq) = 0"
  by (simp_all add: example_sim_def example_sim_cq_def new_completion_queue_def ht_value_def read32_write_separate
      separate_def example_io_def)

lemma example_ready:
  assumes "c = Write \<or> c = Read"
  shows "io_ready example_sim c 256 example_sim_cq 1 1 1 example_disk example_device_prp [example_page]"
proof -
  have "io_at example_sim c 256 1 1 0"
    using assms by (auto simp: io_at_def example_command example_fields)
  moreover have "device_prp example_sim 256 512 = Inr example_device_prp"
    by (simp add: device_prp_def prp_init_def ceil_div_def from_address_def Let_def example_command example_fields
        at_address_def example_device_prp_def example_page_def) (simp add: example_sim_def example_sim_config_def)
  moreover have "\<not> is_full (mem example_sim) example_sim_cq"
    unfolding is_full_def ht_peek_def example_cells Let_def
    by (simp add: example_sim_cq_def new_completion_queue_def)
  ultimately show ?thesis
    by (simp add: io_ready_def ns_at_def example_sim_def example_sim_config_def example_disk_def prp_describes_def
        example_device_prp_def example_page_def)
qed

lemma example_apart: "pages_apart example_sim 256 example_sim_sq example_sim_cq example_device_prp [example_page]"
proof -
  have "cq_apart (mem example_sim) example_sim_cq 4096 4096"
    unfolding cq_apart_def example_cells
    by (simp add: slot_def example_sim_cq_def new_completion_queue_def separate_def)
  then show ?thesis
    by (simp add: pages_apart_def example_page_def example_device_prp_def separate_def example_sim_sq_def
        example_sim_cq_def new_submission_queue_def new_completion_queue_def)
qed



lemma nvsim_write_then_read_witness:
  "\<exists>s2 s4. NVSimWrite 256 example_sim_sq example_sim_cq example_sim = (Inr (), s2) \<and>
    NVSimRead 256 example_sim_sq example_sim_cq (example_sim\<lparr>dev := dev s2\<rparr>) = (Inr (), s4) \<and>
    take 512 (pages_data (mem s4) example_device_prp [example_page]) =
      take 512 (pages_data (mem example_sim) example_device_prp [example_page])"
proof -
  obtain s2 ns' where s2: "NVSimWrite 256 example_sim_sq example_sim_cq example_sim = (Inr (), s2)"
      "(dev s2)\<lparr>namespaces := namespaces (dev example_sim)\<rparr> = dev example_sim"
      "ns_at s2 1 = Some ns'" "ns_num_lbas ns' = 8" "ns_block_size ns' = 512"
    using NVSimWrite_ready [OF example_ready [of Write], of example_sim_sq] by (auto simp: example_disk_def)
  let ?s = "example_sim\<lparr>dev := dev s2\<rparr>"
  have "config_mps (dev s2) = config_mps (dev example_sim)"
    by (metis s2(2) sim_config.select_convs(1) sim_config.surjective sim_config.update_convs(3))
  then have "io_ready ?s Read 256 example_sim_cq 1 1 1 ns' example_device_prp [example_page]"
    using s2(3-5) ns_at_dev [of ?s s2] by (intro io_ready_cong [OF example_ready [of Read]]) (simp_all add: example_disk_def)
  moreover have "pages_apart ?s 256 example_sim_sq example_sim_cq example_device_prp [example_page]"
    using example_apart by (simp add: pages_apart_def)
  ultimately show ?thesis
    using s2(1) nvsim_write_then_read [OF example_ready [of Write] s2(1), of ?s] by (auto simp: example_disk_def)
qed

lemma nvsim_out_of_range_witness:
  "\<exists>s2. NVSimRead 256 example_sim_sq example_sim_cq (example_sim\<lparr>dev := example_sim_config\<lparr>namespaces := [None]\<rparr>\<rparr>) = (Inl IndexError, s2)"
proof -
  let ?s = "example_sim\<lparr>dev := example_sim_config\<lparr>namespaces := [None]\<rparr>\<rparr>"
  have "io_at ?s Read 256 1 1 0"
    using example_command by (simp add: io_at_def command_bytes_def example_fields)
  moreover have "\<not> is_full (mem ?s) example_sim_cq"
    using example_ready [of Read] by (simp add: io_ready_def)
  moreover have "namespaceS 1 ?s = (Inl IndexError, ?s)" by (simp add: namespaceS_def bindS_apply)
  ultimately show ?thesis
    using nvsim_out_of_range [of Read NVSimRead ?s 256 1 1 0 example_sim_cq example_sim_sq]
    by (auto simp: ns_at_def NVSimRead_def bindS_apply io_at_def)
qed

end
