(* ===== verification/Nvsim_Config.thy ===== *)
theory Nvsim_Config
  imports Nvsim_Io PciCapabilities
begin

text \<open>
  The configuration of the simulated device (\<open>GenericNVMeNVSimConfig\<close> in \<open>nvsim/simulators/generic.py\<close>): the registers it
  clears and initialises, the capability list it lays out in configuration space, and the identify data, namespaces and
  queues it starts with. The object of the simulator has the fields of its configuration and the copies of the
  registers that it compares with.
\<close>

record nvsim = sim_config +
  capabilities :: "capability list"
  old_CC_EN :: "1 word"
  old_caps :: "(capability \<times> byte list) list"

section \<open>The capability lists in configuration space\<close>

fun cap_id :: "cap_type \<Rightarrow> nat option" where
  "cap_id PCICapPowerManagementInterface = Some 0x01"
| "cap_id PCICapMSI = Some 0x05"
| "cap_id PCICapMSIX = Some 0x11"
| "cap_id PCICapExpress = Some 0x10"
| "cap_id PCICapExtendedAer = Some 0x01"
| "cap_id PCICapExtendeDeviceSerialNumber = Some 0x03"
| "cap_id _ = None"

definition set_cap :: "cap_type \<Rightarrow> string \<Rightarrow> nat \<Rightarrow> nat \<Rightarrow> memory \<Rightarrow> memory res" where
  "set_cap ct name address value m = direct_set (rc_layout (cap_class ct)) [Fld name] address value m"

text \<open>
  One of the two loops: each capability is copied to the next address and linked to the one behind it. The results
  are the address behind the last one and the object at the last one's address.
\<close>

fun link_caps ::
  "cap_type list \<Rightarrow> nat \<Rightarrow> nat \<Rightarrow> (cap_type \<times> nat) option \<Rightarrow> memory \<Rightarrow> (nat \<times> (cap_type \<times> nat) option \<times> memory) res" where
  "link_caps [] next_ptr next_addr c m = Inr (next_addr, c, m)"
| "link_caps (cap # caps) next_ptr next_addr c m =
     (let size' = csize (rc_layout (cap_class cap)) in
      bindR (case cap_id cap of None \<Rightarrow> Inl TypeError | Some i \<Rightarrow> Inr i) (\<lambda>i.
      bindR (set_cap cap ''CAP_ID'' next_addr i (write_bytes m next_addr (zeros size'))) (\<lambda>m.
      bindR (set_cap cap ''NEXT_PTR'' next_addr (next_ptr + size') m) (\<lambda>m.
        link_caps caps (next_ptr + size') (next_addr + size') (Some (cap, next_addr)) m))))"

definition terminate_caps :: "(cap_type \<times> nat) option \<Rightarrow> memory \<Rightarrow> memory res" where
  "terminate_caps c m =
     (case c of None \<Rightarrow> Inl UnboundLocalError | Some (cap, a) \<Rightarrow> set_cap cap ''NEXT_PTR'' a 0 m)"

definition place_capabilities :: "memory \<Rightarrow> memory res" where
  "place_capabilities m =
     (let next_ptr = 0x40 in
      bindR (direct_set (rc_layout PCIe_Cap) [Fld ''CP''] 0x34 next_ptr m) (\<lambda>m.
      bindR (link_caps [PCICapPowerManagementInterface, PCICapMSI, PCICapExpress, PCICapMSIX] next_ptr next_ptr None m)
        (\<lambda>(next_addr, c, m).
      bindR (terminate_caps c m) (\<lambda>m.
      bindR (link_caps [PCICapExtendedAer, PCICapExtendeDeviceSerialNumber] 0x100 next_addr c m) (\<lambda>(next_addr, c, m).
        terminate_caps c m)))))"

text \<open>The walk over the lists needs fuel, see \<open>PciCapabilities\<close>; 256 is enough for every list below 0x100 without a cycle.\<close>

definition read_capabilities :: "memory \<Rightarrow> capability list res" where
  "read_capabilities m =
     (case init_capabilities 256 (\<lambda>m a. m a) m of None \<Rightarrow> Inl FuelExhausted | Some r \<Rightarrow> r)"

definition init_pcie_capabilities :: "('a nvsim_scheme, 'b) shared_scheme \<Rightarrow> unit res \<times> ('a nvsim_scheme, 'b) shared_scheme" where
  "init_pcie_capabilities =
     bindS (getS pcie) (\<lambda>m.
     bindS (liftS (place_capabilities m)) (\<lambda>m.
     thenS (modifyS (\<lambda>s. s\<lparr>pcie := m, pcie_event := True\<rparr>)) (
     bindS (liftS (read_capabilities m)) (\<lambda>caps. modifyS (\<lambda>s. s\<lparr>dev := (dev s)\<lparr>capabilities := caps\<rparr>\<rparr>)))))"

section \<open>Registers\<close>

definition init_pcie_regs :: "(('d, 'a) shared_scheme, unit) st" where
  "init_pcie_regs = thenS (set_pcie PCIe_Id ''VID'' 0xEDDA) (set_pcie PCIe_Id ''DID'' 0xE771)"

definition init_nvme_regs :: "(('c, 'a) sim, unit) st" where
  "init_nvme_regs =
     thenS (set_regs (\<lambda>r. r\<lparr>CAP_CSS := 0x40\<rparr>)) (
     thenS (set_regs (\<lambda>r. r\<lparr>VS_MJR := 0x02\<rparr>)) (
     thenS (set_regs (\<lambda>r. r\<lparr>VS_MNR := 0x01\<rparr>)) (
     thenS (set_regs (\<lambda>r. r\<lparr>CC_MPS := 0\<rparr>))
       (modify_config (\<lambda>c. c\<lparr>config_mps := 4096\<rparr>)))))"

section \<open>Identify data\<close>

definition set_at :: "cty \<Rightarrow> step list \<Rightarrow> nat \<Rightarrow> byte list \<Rightarrow> byte list" where
  "set_at t path v bs = (case field_pos t path of None \<Rightarrow> bs | Some f \<Rightarrow> setf f v bs)"

definition char_array :: "string \<Rightarrow> nat" where
  "char_array s = le_nat (map (\<lambda>c. of_nat (of_char c)) s)"

definition sim_id_ctrl_data :: "byte list" where
  "sim_id_ctrl_data = fold (\<lambda>(p, v). set_at IdentifyControllerData p v)
     ([([Fld ''MN''], char_array ''nvsim_0.1''), ([Fld ''SN''], char_array ''EDDAE771''),
       ([Fld ''FR''], char_array ''0.001''), ([Fld ''NPSS''], 5)] @
      concat (map (\<lambda>(i, mp). [([Fld ''PSDS'', Idx i, Fld ''MXPS''], 0), ([Fld ''PSDS'', Idx i, Fld ''MP''], mp)])
        [(0, 2500), (1, 2200), (2, 2000), (3, 1500), (4, 1000)]))
     (zeros 4096)"

definition init_identify_controller :: "(('c, 'a) sim, unit) st" where
  "init_identify_controller = modify_config (\<lambda>c. c\<lparr>id_ctrl_data := sim_id_ctrl_data, power_state := 0\<rparr>)"

definition sim_id_ns_data :: "namespace \<Rightarrow> byte list" where
  "sim_id_ns_data ns = fold (\<lambda>(p, v). set_at IdentifyNamespaceData p v)
     [([Fld ''NSZE''], ns_num_lbas ns), ([Fld ''NCAP''], ns_num_lbas ns), ([Fld ''NUSE''], 0), ([Fld ''NSFEAT''], 0),
      ([Fld ''NLBAF''], 2), ([Fld ''FLBAS''], if ns_block_size ns = 512 then 0 else 1), ([Fld ''MC''], 0),
      ([Fld ''DPC''], 0), ([Fld ''DPS''], 0), ([Fld ''NMIC''], 0), ([Fld ''RESCAP''], 0), ([Fld ''FPI''], 0),
      ([Fld ''DLFEAT''], 0), ([Fld ''NAWUN''], 0),
      ([Fld ''LBAF_TBL'', Idx 0, Fld ''MS''], 0), ([Fld ''LBAF_TBL'', Idx 0, Fld ''LBADS''], 9),
      ([Fld ''LBAF_TBL'', Idx 0, Fld ''RP''], 0), ([Fld ''LBAF_TBL'', Idx 1, Fld ''MS''], 0),
      ([Fld ''LBAF_TBL'', Idx 1, Fld ''LBADS''], 12), ([Fld ''LBAF_TBL'', Idx 1, Fld ''RP''], 0)]
     (zeros 4096)"

definition sim_id_ns_list_data :: "nat \<Rightarrow> byte list" where
  "sim_id_ns_list_data n = fold (\<lambda>ns_id. set_at IdentifyNamespaceListData [Fld ''Identifiers'', Idx ns_id] (ns_id + 1))
     [0..<n] (zeros 4096)"

definition sim_id_uuid_list_data :: "byte list" where
  "sim_id_uuid_list_data =
     fold (\<lambda>i. set_at IdentifyUUIDListData [Fld ''UUIDS'', Idx i, Fld ''UUID'', Idx 0] (i + 1)) [0..<16] (zeros 4096)"

definition init_namespaces :: "(('c, 'a) sim, unit) st" where
  "init_namespaces =
     bindS (liftS (new_namespace 512 4096)) (\<lambda>ns1.
     bindS (liftS (new_namespace 960 4096)) (\<lambda>ns2.
       modify_config (\<lambda>c. c\<lparr>namespaces := [None, Some ns1, Some ns2],
         id_ns_data := [None, Some (sim_id_ns_data ns1), Some (sim_id_ns_data ns2)],
         id_ns_list_data := sim_id_ns_list_data 2, id_uuid_list_data := sim_id_uuid_list_data\<rparr>)))"

section \<open>A new configuration\<close>

text \<open>Both register files are cleared, the 1024 pairs of doorbells included.\<close>

definition clear_registers :: "(('d, 'a) shared_scheme, unit) st" where
  "clear_registers = modifyS (\<lambda>s. s\<lparr>pcie := write_bytes (pcie s) 0 (zeros 4096), regs := zero_regs,
     mem := write_bytes (mem s) (sqndbs s) (zeros (8 * 1024))\<rparr>)"

definition new_config :: "(('a nvsim_scheme, 'b) shared_scheme, unit) st" where
  "new_config =
     thenS clear_registers (
     thenS init_pcie_capabilities (
     thenS init_pcie_regs (
     thenS init_nvme_regs (
     thenS init_identify_controller (
     thenS init_namespaces
       (modify_config (\<lambda>c. c\<lparr>sim_queue_mgr := new_queue_mgr, completion_queues := []\<rparr>)))))))"

section \<open>What the configuration starts with\<close>

lemma setf_byte:
  assumes "i < length bs"
  shows "setf (8 * i, 8) v bs = bs[i := of_nat v]"
proof (rule nth_equalityI)
  fix j assume "j < length (setf (8 * i, 8) v bs)"
  then have j: "j < length bs" by simp
  have byte: "xs ! j = of_nat (getf (8 * j, 8) xs)" if "j < length xs" for xs :: "byte list"
    using getf_bytes [of j 1 xs] Cons_nth_drop_Suc [OF that, symmetric] by simp
  have fits: "fits (8 * i, 8) bs" using assms by (simp add: fits_def)
  show "setf (8 * i, 8) v bs ! j = bs[i := of_nat v] ! j"
  proof (cases "i = j")
    case True
    have "setf (8 * i, 8) v bs ! j = of_nat (v mod 2 ^ 8)"
      using byte [of "setf (8 * i, 8) v bs"] j getf_setf_same [OF fits, of v] True by simp
    also have "\<dots> = of_nat v" by (simp add: word_of_nat_eq_iff take_bit_eq_mod)
    finally show ?thesis using True j by simp
  next
    case False
    then have "apart (8 * i, 8) (8 * j, 8)" by (auto simp: apart_def)
    then show ?thesis
      using byte [of "setf (8 * i, 8) v bs"] byte [of bs] getf_setf_apart [OF fits] False j by simp
  qed
qed simp

lemma write_update: "i < n \<Longrightarrow> write_bytes m a ((read_bytes m a n)[i := b]) = m(a + i := b)"
  by (auto simp: fun_eq_iff write_bytes_def nth_list_update)

lemma set_cap_std:
  assumes "\<not> is_ext ct"
  shows "set_cap ct ''CAP_ID'' a v m = Inr (m(a := of_nat v))"
    "set_cap ct ''NEXT_PTR'' a v m = Inr (m(a + 1 := of_nat v))"
proof -
  have "0 < csize (rc_layout (cap_class ct))" "1 < csize (rc_layout (cap_class ct))"
    using cap_sizes [of ct] by linarith+
  then show "set_cap ct ''CAP_ID'' a v m = Inr (m(a := of_nat v))"
    "set_cap ct ''NEXT_PTR'' a v m = Inr (m(a + 1 := of_nat v))"
    using assms setf_byte [of 0 "read_bytes m a (csize (rc_layout (cap_class ct)))"]
      setf_byte [of 1 "read_bytes m a (csize (rc_layout (cap_class ct)))"] write_update [of 0 _ m a] write_update [of 1 _ m a]
    by (simp_all add: set_cap_def direct_set_def is_ext_def)
qed

lemma set_cap_frame:
  "\<exists>m'. set_cap ct n a v m = Inr m' \<and> (\<forall>x. x < a \<or> a + csize (rc_layout (cap_class ct)) \<le> x \<longrightarrow> m' x = m x)"
  if "n \<in> {''CAP_ID'', ''NEXT_PTR''}"
  using that by (auto simp: set_cap_def direct_set_def write_bytes_outside)


lemma link_std:
  assumes "\<not> is_ext cap" "cap_id cap = Some i"
  shows "link_caps (cap # caps) next_ptr next_addr c m =
    (let size' = csize (rc_layout (cap_class cap)) in
      link_caps caps (next_ptr + size') (next_addr + size') (Some (cap, next_addr))
        ((write_bytes m next_addr (zeros size'))(next_addr := of_nat i, next_addr + 1 := of_nat (next_ptr + size'))))"
  using assms by (simp add: set_cap_std Let_def)

lemma link_frame:
  assumes "\<forall>cap \<in> set caps. cap_id cap \<noteq> None"
  shows "\<exists>m' c'. link_caps caps next_ptr next_addr c m =
      Inr (next_addr + sum_list (map (\<lambda>cap. csize (rc_layout (cap_class cap))) caps), c', m') \<and>
    (caps = [] \<longrightarrow> c' = c) \<and>
    (caps \<noteq> [] \<longrightarrow> c' = Some (last caps, next_addr + sum_list (map (\<lambda>cap. csize (rc_layout (cap_class cap))) (butlast caps)))) \<and>
    (\<forall>x. x < next_addr \<or> next_addr + sum_list (map (\<lambda>cap. csize (rc_layout (cap_class cap))) caps) \<le> x \<longrightarrow> m' x = m x)"
  using assms
proof (induction caps arbitrary: next_ptr next_addr c m)
  case (Cons cap caps)
  let ?n = "csize (rc_layout (cap_class cap))"
  obtain i where i: "cap_id cap = Some i" using Cons.prems by auto
  obtain m1 where m1: "set_cap cap ''CAP_ID'' next_addr i (write_bytes m next_addr (zeros ?n)) = Inr m1"
      "\<And>x. x < next_addr \<or> next_addr + ?n \<le> x \<Longrightarrow> m1 x = m x"
    using set_cap_frame [of "''CAP_ID''" cap next_addr i] by (fastforce simp: write_bytes_outside)
  obtain m2 where m2: "set_cap cap ''NEXT_PTR'' next_addr (next_ptr + ?n) m1 = Inr m2"
      "\<And>x. x < next_addr \<or> next_addr + ?n \<le> x \<Longrightarrow> m2 x = m1 x"
    using set_cap_frame [of "''NEXT_PTR''" cap next_addr] by fastforce
  obtain m' c' where IH: "link_caps caps (next_ptr + ?n) (next_addr + ?n) (Some (cap, next_addr)) m2 =
      Inr (next_addr + ?n + sum_list (map (\<lambda>cap. csize (rc_layout (cap_class cap))) caps), c', m')"
    "caps = [] \<Longrightarrow> c' = Some (cap, next_addr)"
    "caps \<noteq> [] \<Longrightarrow> c' = Some (last caps, next_addr + ?n + sum_list (map (\<lambda>cap. csize (rc_layout (cap_class cap))) (butlast caps)))"
    "\<And>x. x < next_addr + ?n \<or> next_addr + ?n + sum_list (map (\<lambda>cap. csize (rc_layout (cap_class cap))) caps) \<le> x
      \<Longrightarrow> m' x = m2 x"
    using Cons.IH [of "next_ptr + ?n" "next_addr + ?n" "Some (cap, next_addr)" m2] Cons.prems by auto
  show ?case using i m1 m2 IH by (auto simp: Let_def)
qed simp

lemma link_ext:
  "\<exists>m'. link_caps [PCICapExtendedAer, PCICapExtendeDeviceSerialNumber] 0x100 0x84 c m =
      Inr (0xCC, Some (PCICapExtendeDeviceSerialNumber, 0xC0), m') \<and> (\<forall>x. x < 0x84 \<or> 0xCC \<le> x \<longrightarrow> m' x = m x)"
  using link_frame [of "[PCICapExtendedAer, PCICapExtendeDeviceSerialNumber]" "0x100" "0x84" c m]
  by (auto simp: PCIe_sizes simp del: link_caps.simps)

lemma place_capabilities_result:
  "\<exists>m'. place_capabilities m = Inr m' \<and> unat (m' 0x34) = 0x40 \<and>
    chain m' 0x40 [(0x40, 0x01), (0x46, 0x05), (0x5C, 0x10), (0x78, 0x11)] \<and>
    (\<forall>x. 0x100 \<le> x \<longrightarrow> m' x = m x)"
proof -
  let ?std = "[PCICapPowerManagementInterface, PCICapMSI, PCICapExpress, PCICapMSIX]"
  let ?z = "\<lambda>m a n. write_bytes m a (zeros n)"
  let ?m0 = "m(0x34 := 0x40)"
  let ?m1 = "(?z ?m0 0x40 6)(0x40 := 1, 0x41 := 0x46)"
  let ?m2 = "(?z ?m1 0x46 22)(0x46 := 5, 0x47 := 0x5C)"
  let ?m3 = "(?z ?m2 0x5C 28)(0x5C := 0x10, 0x5D := 0x78)"
  let ?m4 = "(?z ?m3 0x78 12)(0x78 := 0x11, 0x79 := 0x84)"
  let ?m5 = "?m4(0x79 := 0)"
  have cp: "direct_set (rc_layout PCIe_Cap) [Fld ''CP''] 0x34 0x40 m = Inr ?m0"
    using setf_byte [of 0 "read_bytes m 0x34 1" "0x40"] write_update [of 0 1 m "0x34"]
    by (simp add: direct_set_def PCIe_Cap_def field_pos_def last_match_def struct_places_def)
  have "link_caps ?std 0x40 0x40 None ?m0 = Inr (0x84, Some (PCICapMSIX, 0x78), ?m4)"
    by (simp add: link_std is_ext_def PCIe_sizes Let_def del: link_caps.simps(2))
  moreover have "terminate_caps (Some (PCICapMSIX, 0x78)) ?m4 = Inr ?m5"
    by (simp add: terminate_caps_def set_cap_std is_ext_def)
  moreover obtain m6 c where m6: "link_caps [PCICapExtendedAer, PCICapExtendeDeviceSerialNumber] 0x100 0x84
      (Some (PCICapMSIX, 0x78)) ?m5 = Inr (0xCC, Some (PCICapExtendeDeviceSerialNumber, 0xC0), m6)"
      "\<And>x. x < 0x84 \<or> 0xCC \<le> x \<Longrightarrow> m6 x = ?m5 x"
    using link_ext [of "Some (PCICapMSIX, 0x78)" ?m5] by blast
  moreover obtain m7 where m7: "terminate_caps (Some (PCICapExtendeDeviceSerialNumber, 0xC0)) m6 = Inr m7"
      "\<And>x. x < 0xC0 \<or> 0xCC \<le> x \<Longrightarrow> m7 x = m6 x"
    using set_cap_frame [of "''NEXT_PTR''" PCICapExtendeDeviceSerialNumber "0xC0" 0 m6] by (auto simp: terminate_caps_def PCIe_sizes)
  ultimately have "place_capabilities m = Inr m7"
    using cp by (simp add: place_capabilities_def Let_def del: link_caps.simps(2))
  moreover have low: "m7 x = ?m5 x" if "x < 0x84 \<or> 0xCC \<le> x" for x
    using m6(2) m7(2) that by auto
  ultimately show ?thesis
    by (intro exI [of _ m7]) (simp add: low write_bytes_outside)
qed

lemma walk_nothing:
  "m 0x100 = 0 \<Longrightarrow> m 0x101 = 0 \<Longrightarrow> m 0x102 = 0 \<Longrightarrow> m 0x103 = 0 \<Longrightarrow>
    walk_capabilities (Suc (Suc n)) (\<lambda>m a. m a) m 0x100 caps = Some (Inr caps)"
  by (simp add: find_capability_eq ext_id_def ext_type_def cap_field_bytes is_ext_def)

lemma read_capabilities_result:
  assumes "\<And>x. x \<in> {0x100..0x103} \<Longrightarrow> m x = 0" "place_capabilities m = Inr m'"
  shows "read_capabilities m' = Inr
    [\<lparr>cap_type = PCICapPowerManagementInterface, base_offset = 0x40\<rparr>, \<lparr>cap_type = PCICapMSI, base_offset = 0x46\<rparr>,
     \<lparr>cap_type = PCICapExpress, base_offset = 0x5C\<rparr>, \<lparr>cap_type = PCICapMSIX, base_offset = 0x78\<rparr>]"
proof -
  let ?std = "[(0x40, 0x01), (0x46, 0x05), (0x5C, 0x10), (0x78, 0x11)] :: (nat \<times> nat) list"
  have m': "unat (m' 0x34) = 0x40" "chain m' 0x40 ?std" "\<And>x. 0x100 \<le> x \<Longrightarrow> m' x = m x"
    using place_capabilities_result [of m] assms(2) by auto
  have "walk_capabilities 256 (\<lambda>m a. m a) m' 0x40 [] = Some (Inr ([] @ known_caps ?std))"
    using walk_chain [of "\<lambda>m a. m a" m' "0x40" ?std 256 "[]", OF m'(2)] by (simp add: ext_ids_ok_def)
  moreover have "walk_capabilities 256 (\<lambda>m a. m a) m' 0x100 caps = Some (Inr caps)" for caps
    using walk_nothing [of m' 254 caps] assms(1) m'(3) by simp
  ultimately show ?thesis
    using m'(1) by (simp add: read_capabilities_def init_capabilities_def header_cp known_caps_def)
qed


lemma ns_positions:
  "field_pos IdentifyNamespaceData [Fld ''NSZE''] = Some (0, 64)"
  "field_pos IdentifyNamespaceData [Fld ''NCAP''] = Some (64, 64)"
  "field_pos IdentifyNamespaceData [Fld ''NUSE''] = Some (128, 64)"
  "field_pos IdentifyNamespaceData [Fld ''NSFEAT''] = Some (192, 8)"
  "field_pos IdentifyNamespaceData [Fld ''NLBAF''] = Some (200, 8)"
  "field_pos IdentifyNamespaceData [Fld ''FLBAS''] = Some (208, 8)"
  "field_pos IdentifyNamespaceData [Fld ''MC''] = Some (216, 8)"
  "field_pos IdentifyNamespaceData [Fld ''DPC''] = Some (224, 8)"
  "field_pos IdentifyNamespaceData [Fld ''DPS''] = Some (232, 8)"
  "field_pos IdentifyNamespaceData [Fld ''NMIC''] = Some (240, 8)"
  "field_pos IdentifyNamespaceData [Fld ''RESCAP''] = Some (248, 8)"
  "field_pos IdentifyNamespaceData [Fld ''FPI''] = Some (256, 8)"
  "field_pos IdentifyNamespaceData [Fld ''DLFEAT''] = Some (264, 8)"
  "field_pos IdentifyNamespaceData [Fld ''NAWUN''] = Some (272, 16)"
  "field_pos IdentifyNamespaceData [Fld ''LBAF_TBL'', Idx i, Fld ''MS''] = (if i < 16 then Some (1024 + 32 * i, 16) else None)"
  "field_pos IdentifyNamespaceData [Fld ''LBAF_TBL'', Idx i, Fld ''LBADS''] = (if i < 16 then Some (1040 + 32 * i, 8) else None)"
  "field_pos IdentifyNamespaceData [Fld ''LBAF_TBL'', Idx i, Fld ''RP''] = (if i < 16 then Some (1048 + 32 * i, 2) else None)"
  by (simp_all add: field_pos_def IdentifyNamespaceData_def IdentifyNamespaceData_LBAFormat_def last_match_def struct_places_def)

lemma id_ns_fields:
  "getf (0, 64) (sim_id_ns_data ns) = ns_num_lbas ns mod 2 ^ 64"
  "getf (208, 8) (sim_id_ns_data ns) = (if ns_block_size ns = 512 then 0 else 1)"
  "getf (1040, 8) (sim_id_ns_data ns) = 9"
  "getf (1072, 8) (sim_id_ns_data ns) = 12"
  "length (sim_id_ns_data ns) = 4096"
  by (simp_all add: sim_id_ns_data_def set_at_def ns_positions getf_setf_apart fits_def apart_def)

lemma ns_list_position:
  "field_pos IdentifyNamespaceListData [Fld ''Identifiers'', Idx i] = (if i < 1024 then Some (32 * i, 32) else None)"
  by (simp add: field_pos_def IdentifyNamespaceListData_def last_match_def struct_places_def)

lemma id_ns_list_fields:
  "i < 1024 \<Longrightarrow> getf (32 * i, 32) (sim_id_ns_list_data 2) = (if i < 2 then i + 1 else 0)"
proof -
  assume i: "i < 1024"
  have l: "sim_id_ns_list_data 2 = setf (32 * 1, 32) 2 (setf (32 * 0, 32) 1 (zeros 4096))"
    by (simp add: sim_id_ns_list_data_def set_at_def ns_list_position upt_rec numeral_2_eq_2)
  consider "i = 0" | "i = 1" | "2 \<le> i" by linarith
  then show ?thesis
  proof cases
    case 3
    then have "apart (32 * 1, 32) (32 * i, 32)" "apart (32 * 0, 32) (32 * i, 32)" by (auto simp: apart_def)
    with 3 show ?thesis unfolding l by (subst getf_setf_apart; simp add: fits_def getf_setf_apart)+
  qed (simp_all add: l fits_def getf_setf_apart apart_def)
qed

definition blank_namespace :: "nat \<Rightarrow> namespace" where
  "blank_namespace num_gbs = \<lparr>ns_num_lbas = nat (idema_size_4096 num_gbs), ns_block_size = 4096, ns_mm = \<lambda>_. 0\<rparr>"

lemma new_namespace_4096: "new_namespace num_gbs 4096 = Inr (blank_namespace num_gbs)"
  by (simp add: new_namespace_def init_storage_def blank_namespace_def)

definition started :: "'a nvsim_scheme \<Rightarrow> 'a nvsim_scheme" where
  "started c = c\<lparr>config_mps := 4096, power_state := 0,
     namespaces := [None, Some (blank_namespace 512), Some (blank_namespace 960)],
     id_ctrl_data := sim_id_ctrl_data,
     id_ns_data := [None, Some (sim_id_ns_data (blank_namespace 512)), Some (sim_id_ns_data (blank_namespace 960))],
     id_ns_list_data := sim_id_ns_list_data 2, id_uuid_list_data := sim_id_uuid_list_data,
     sim_queue_mgr := new_queue_mgr, completion_queues := [],
     capabilities := [\<lparr>cap_type = PCICapPowerManagementInterface, base_offset = 0x40\<rparr>,
       \<lparr>cap_type = PCICapMSI, base_offset = 0x46\<rparr>, \<lparr>cap_type = PCICapExpress, base_offset = 0x5C\<rparr>,
       \<lparr>cap_type = PCICapMSIX, base_offset = 0x78\<rparr>]\<rparr>"

lemma set_pcie_Id:
  assumes "n = ''VID'' \<and> f = (0, 16) \<or> n = ''DID'' \<and> f = (16, 16)"
  shows "set_pcie PCIe_Id n v s = (Inr (), s\<lparr>pcie := write_bytes (pcie s) 0 (setf f v (read_bytes (pcie s) 0 4)),
    pcie_event := True\<rparr>)"
proof -
  have w: "write_data (\<lambda>m a b. m(a := b)) m a bs = write_bytes m a bs" for m a bs
    by (induction bs arbitrary: m a) (auto simp: write_bytes_def fun_eq_iff nth_Cons')
  have r: "read_data (\<lambda>m a. m a) m a k = read_bytes m a k" for m a k
    by (simp add: read_data_eq read_bytes_def)
  show ?thesis using assms w r
    by (auto simp: set_pcie_def reg_setattr_def PCIe_Id_def field_pos_def last_match_def struct_places_def)
qed

lemma new_config_result:
  "\<exists>m. new_config s = (Inr (), s\<lparr>mem := write_bytes (mem s) (sqndbs s) (zeros (8 * 1024)),
      regs := zero_regs\<lparr>CAP_CSS := 0x40, VS_MJR := 2, VS_MNR := 1\<rparr>, pcie := m, nvme_event := True, pcie_event := True,
      dev := started (dev s)\<rparr>) \<and>
    reg_getattr (\<lambda>m a. m a) PCIe_Id ''VID'' m = Inr 0xEDDA \<and> reg_getattr (\<lambda>m a. m a) PCIe_Id ''DID'' m = Inr 0xE771"
proof -
  let ?m0 = "write_bytes (pcie s) 0 (zeros 4096)"
  obtain m1 where m1: "place_capabilities ?m0 = Inr m1" using place_capabilities_result [of ?m0] by blast
  have "?m0 x = 0" if "x \<in> {0x100..0x103}" for x using that by (simp add: write_bytes_def zeros_def)
  note caps = read_capabilities_result [OF this m1]
  let ?m2 = "write_bytes m1 0 (setf (0, 16) 0xEDDA (read_bytes m1 0 4))"
  let ?m3 = "write_bytes ?m2 0 (setf (16, 16) 0xE771 (read_bytes ?m2 0 4))"
  have r: "read_data (\<lambda>m a. m a) m a k = read_bytes m a k" for m a k
    by (simp add: read_data_eq read_bytes_def)
  have "reg_getattr (\<lambda>m a. m a) PCIe_Id ''VID'' ?m3 = Inr 0xEDDA \<and> reg_getattr (\<lambda>m a. m a) PCIe_Id ''DID'' ?m3 = Inr 0xE771"
    by (simp add: r reg_getattr_def PCIe_Id_def field_pos_def last_match_def struct_places_def getf_setf_apart fits_def apart_def)
  moreover have "new_config s = (Inr (), s\<lparr>mem := write_bytes (mem s) (sqndbs s) (zeros (8 * 1024)),
      regs := zero_regs\<lparr>CAP_CSS := 0x40, VS_MJR := 2, VS_MNR := 1\<rparr>, pcie := ?m3, nvme_event := True, pcie_event := True,
      dev := started (dev s)\<rparr>)"
    using m1 caps
    by (simp add: new_config_def clear_registers_def init_pcie_capabilities_def init_pcie_regs_def init_nvme_regs_def
        init_identify_controller_def init_namespaces_def new_namespace_4096 thenS_def bindS_apply set_pcie_Id
        started_def zero_regs_def)
  ultimately show ?thesis by blast
qed

text \<open>Reading a field of a returned structure by its path.\<close>

definition get_at :: "cty \<Rightarrow> step list \<Rightarrow> byte list \<Rightarrow> nat option" where
  "get_at t path bs = map_option (\<lambda>f. getf f bs) (field_pos t path)"

lemma id_ns_reads:
  assumes "ns_block_size ns = 4096" "ns_num_lbas ns < 2 ^ 64"
  shows "get_at IdentifyNamespaceData [Fld ''NSZE''] (sim_id_ns_data ns) = Some (ns_num_lbas ns) \<and>
      (\<exists>i lbads. get_at IdentifyNamespaceData [Fld ''FLBAS''] (sim_id_ns_data ns) = Some i \<and>
        get_at IdentifyNamespaceData [Fld ''LBAF_TBL'', Idx i, Fld ''LBADS''] (sim_id_ns_data ns) = Some lbads \<and>
        2 ^ lbads = ns_block_size ns)"
proof (intro conjI exI)
  show "get_at IdentifyNamespaceData [Fld ''LBAF_TBL'', Idx 1, Fld ''LBADS''] (sim_id_ns_data ns) = Some 12"
    using id_ns_fields(4) by (simp add: get_at_def ns_positions)
qed (use assms in \<open>simp_all add: get_at_def ns_positions id_ns_fields\<close>)


text \<open>A simulator before it is configured, with garbage in its registers.\<close>

definition example_raw :: "(unit nvsim_scheme, unit) shared_scheme" where
  "example_raw = \<lparr>mem = \<lambda>_. 0xFF, regs = zero_regs\<lparr>CC_EN := 1\<rparr>, pcie = \<lambda>_. 0xFF, nvme_event = False, pcie_event = False,
     sqndbs = 0x8000, cells = [], new_cell = (\<lambda>cs. 0x10000 + 4 * length cs),
     dev = \<lparr>config_mps = 0, power_state = 0, namespaces = [], id_ctrl_data = [], id_ns_data = [],
       id_ns_list_data = [], id_uuid_list_data = [], sim_queue_mgr = new_queue_mgr, completion_queues = [],
       capabilities = [], old_CC_EN = 0, old_caps = [], \<dots> = ()\<rparr>, \<dots> = ()\<rparr>"


end
