(* ===== verification/Nvsim_Device.thy ===== *)
theory Nvsim_Device
  imports Nvsim_Config
begin

text \<open>
  The simulated controller (\<open>GenericNVMeNVSim\<close> in \<open>nvsim/simulators/generic.py\<close>): what it does when a register has
  changed, how it serves the commands in its queues, and its thread (\<open>nvsim/simulators/nvsim_thread.py\<close>) as a
  transition system, in which the host can write a register between any two steps of the thread.
\<close>

type_synonym ('a, 'b) device = "('a nvsim_scheme, 'b) shared_scheme"

section \<open>Enabling and disabling\<close>

definition disable :: "(('d, 'a) shared_scheme, unit) st" where
  "disable = set_regs (\<lambda>r. r\<lparr>CSTS_RDY := 0\<rparr>)"

definition enable :: "(('c, 'a) sim, unit) st" where
  "enable =
     bindS (getS regs) (\<lambda>r.
     thenS (check_mem_access (unat (ASQ_ASQB r)) ((unat (AQA_ASQS r) + 1) * 64)) (
     bindS (getS regs) (\<lambda>r.
     thenS (check_mem_access (unat (ACQ_ACQB r)) ((unat (AQA_ACQS r) + 1) * 16)) (
     bindS (getS (\<lambda>s. (sqtail_addr s 0, cqhead_addr s 0))) (\<lambda>(dbt, dbh).
     bindS (make_sq (unat (ASQ_ASQB r)) (unat (AQA_ASQS r) + 1) 64 0 dbt) (\<lambda>asq.
     bindS (make_cq (unat (ACQ_ACQB r)) (unat (AQA_ACQS r) + 1) 16 0 dbh None) (\<lambda>acq.
     thenS (modify_config (\<lambda>c. c\<lparr>sim_queue_mgr := qm_add (qid asq) asq (qid acq) acq (sim_queue_mgr c)\<rparr>))
       (set_regs (\<lambda>r. r\<lparr>CSTS_RDY := 1\<rparr>)))))))))"

section \<open>Serving commands\<close>

definition get_command :: "nvme_queue \<Rightarrow> (('d, 'a) shared_scheme, nat option) st" where
  "get_command q = (\<lambda>s. case sq_get_command (mem s) q of (c, m) \<Rightarrow> (Inr c, s\<lparr>mem := m\<rparr>))"

text \<open>The two loops end when the queues are empty, which the host decides, so they have fuel.\<close>

fun serve_admin :: "nat \<Rightarrow> nvme_queue \<Rightarrow> completion_queue \<Rightarrow> (('c, 'a) sim, unit) st" where
  "serve_admin 0 asq acq = raiseS FuelExhausted"
| "serve_admin (Suc fuel) asq acq =
     bindS (get_command asq) (\<lambda>c. case c of
       None \<Rightarrow> retS ()
     | Some command \<Rightarrow> thenS (dispatch admin_cmd_handlers command asq acq) (serve_admin fuel asq acq))"

definition busy_sqs :: "('c, 'a) sim \<Rightarrow> (nvme_queue \<times> completion_queue option) list" where
  "busy_sqs s = concat (map (\<lambda>(k, (sq, cq)). case sq of
       None \<Rightarrow> []
     | Some q \<Rightarrow> if num_entries (mem s) q > 0 \<and> qid q \<noteq> 0 then [(q, cq)] else [])
     (nvme_queues (sim_queue_mgr (dev s))))"

text \<open>One pass over the busy queues; an entry with a submission queue has its completion queue too (\<open>Queue_Manager\<close>).\<close>

fun serve_pass :: "(nvme_queue \<times> completion_queue option) list \<Rightarrow> int \<Rightarrow> (('c, 'a) sim, int) st" where
  "serve_pass [] n = retS n"
| "serve_pass ((sq, cq) # qs) n =
     bindS (get_command sq) (\<lambda>c. case c of
       None \<Rightarrow> serve_pass qs n
     | Some command \<Rightarrow>
         bindS (liftS (case cq of None \<Rightarrow> Inl AttributeError | Some cq \<Rightarrow> Inr cq)) (\<lambda>cq.
         thenS (dispatch nvm_cmd_handlers command sq cq) (serve_pass qs (n - 1))))"

fun serve_io :: "nat \<Rightarrow> (nvme_queue \<times> completion_queue option) list \<Rightarrow> int \<Rightarrow> (('c, 'a) sim, unit) st" where
  "serve_io 0 qs n = raiseS FuelExhausted"
| "serve_io (Suc fuel) qs n = (if n > 0 then bindS (serve_pass qs n) (serve_io fuel qs) else retS ())"

definition check_commands :: "nat \<Rightarrow> (('c, 'a) sim, unit) st" where
  "check_commands fuel =
     bindS (getS (\<lambda>s. sim_queue_mgr (dev s))) (\<lambda>qm.
     bindS (liftS (qm_get (Some 0) (Some 0) qm)) (\<lambda>g.
     thenS (case g of Queues (Some asq) (Some acq) \<Rightarrow> serve_admin fuel asq acq | _ \<Rightarrow> retS ()) (
     bindS (getS (\<lambda>s. (busy_sqs s, sum_list (map (\<lambda>(sq, cq). num_entries (mem s) sq) (busy_sqs s))))) (\<lambda>(qs, cmds_in_qs).
       serve_io fuel qs (min 100 cmds_in_qs)))))"

section \<open>Changes of registers\<close>

definition nvsim_nvme_regs_changed :: "nat \<Rightarrow> (('a, 'b) device, unit) st" where
  "nvsim_nvme_regs_changed fuel =
     bindS (getS (\<lambda>s. old_CC_EN (dev s) = 0 \<and> CC_EN (regs s) = 1)) (\<lambda>up.
     thenS (if up then enable else retS ()) (
     bindS (getS (\<lambda>s. old_CC_EN (dev s) = 1 \<and> CC_EN (regs s) = 0)) (\<lambda>down.
     thenS (if down then disable else retS ()) (
     bindS (getS (\<lambda>s. CSTS_RDY (regs s) = 1)) (\<lambda>ready.
     thenS (if ready then check_commands fuel else retS ())
       (modifyS (\<lambda>s. s\<lparr>dev := (dev s)\<lparr>old_CC_EN := CC_EN (regs s)\<rparr>\<rparr>)))))))"

text \<open>A copy of the PCIe registers has copies of the capabilities, which are the objects in its list.\<close>

definition cap_bytes :: "('d, 'a) shared_scheme \<Rightarrow> capability \<Rightarrow> byte list" where
  "cap_bytes s c = read_bytes (pcie s) (base_offset c) (csize (rc_layout (cap_class (cap_type c))))"

definition copy_caps :: "('a, 'b) device \<Rightarrow> (capability \<times> byte list) list" where
  "copy_caps s = map (\<lambda>c. (c, cap_bytes s c)) (capabilities (dev s))"

definition IFLR_of :: "byte list \<Rightarrow> nat option" where
  "IFLR_of bs = get_at (rc_layout PCIe_PCICapExpress) [Fld ''PXDC'', Fld ''IFLR''] bs"

definition flr_requested :: "('a, 'b) device \<Rightarrow> bool" where
  "flr_requested s = list_ex (\<lambda>((old_cap, old), (new_cap, new)).
     old \<noteq> new \<and> cap_type new_cap = PCICapExpress \<and> IFLR_of old = Some 0 \<and> IFLR_of new = Some 1)
     (zip (old_caps (dev s)) (copy_caps s))"

definition save_pcie_regs :: "(('a, 'b) device, unit) st" where
  "save_pcie_regs = modifyS (\<lambda>s. s\<lparr>dev := (dev s)\<lparr>old_caps := copy_caps s\<rparr>\<rparr>)"

definition nvsim_pcie_regs_changed :: "(('a, 'b) device, unit) st" where
  "nvsim_pcie_regs_changed =
     bindS (getS flr_requested) (\<lambda>flr. thenS (if flr then new_config else retS ()) save_pcie_regs)"

text \<open>\<open>__init__\<close>\<close>

definition new_nvsim :: "(('a, 'b) device, unit) st" where
  "new_nvsim = thenS new_config (thenS save_pcie_regs
     (modifyS (\<lambda>s. s\<lparr>dev := (dev s)\<lparr>old_CC_EN := CC_EN (regs s)\<rparr>\<rparr>)))"

definition nvsim_exception_handler :: "(('a, 'b) device, unit) st" where
  "nvsim_exception_handler = set_regs (\<lambda>r. r\<lparr>CSTS_CFS := 1\<rparr>)"

section \<open>The thread\<close>

text \<open>
  Where the thread is in its loop. On an exception it calls \<open>self.exception_handler\<close>, which is no method of the thread, so the
  thread dies of the AttributeError of that call.
\<close>

datatype thread_pc = CheckPcie | ClearPcie | CheckNvme | ClearNvme | CheckStop | Stopped | Died py_error

record ('a, 'b) sim_thread =
  pc :: thread_pc
  stop_event :: bool
  main_alive :: bool
  shared_state :: "('a, 'b) device"

inductive thread_step :: "nat \<Rightarrow> ('a, 'b) sim_thread \<Rightarrow> ('a, 'b) sim_thread \<Rightarrow> bool" for fuel :: nat where
  pcie_quiet: "pc t = CheckPcie \<Longrightarrow> \<not> pcie_event (shared_state t) \<Longrightarrow> thread_step fuel t (t\<lparr>pc := CheckNvme\<rparr>)"
| pcie_changed: "pc t = CheckPcie \<Longrightarrow> pcie_event (shared_state t) \<Longrightarrow>
    nvsim_pcie_regs_changed (shared_state t) = (Inr (), s') \<Longrightarrow> thread_step fuel t (t\<lparr>pc := ClearPcie, shared_state := s'\<rparr>)"
| pcie_raised: "pc t = CheckPcie \<Longrightarrow> pcie_event (shared_state t) \<Longrightarrow>
    nvsim_pcie_regs_changed (shared_state t) = (Inl e, s') \<Longrightarrow>
    thread_step fuel t (t\<lparr>pc := Died AttributeError, shared_state := s'\<rparr>)"
| pcie_clear: "pc t = ClearPcie \<Longrightarrow>
    thread_step fuel t (t\<lparr>pc := CheckNvme, shared_state := (shared_state t)\<lparr>pcie_event := False\<rparr>\<rparr>)"
| nvme_quiet: "pc t = CheckNvme \<Longrightarrow> \<not> nvme_event (shared_state t) \<Longrightarrow> thread_step fuel t (t\<lparr>pc := CheckStop\<rparr>)"
| nvme_changed: "pc t = CheckNvme \<Longrightarrow> nvme_event (shared_state t) \<Longrightarrow>
    nvsim_nvme_regs_changed fuel (shared_state t) = (Inr (), s') \<Longrightarrow>
    thread_step fuel t (t\<lparr>pc := ClearNvme, shared_state := s'\<rparr>)"
| nvme_raised: "pc t = CheckNvme \<Longrightarrow> nvme_event (shared_state t) \<Longrightarrow>
    nvsim_nvme_regs_changed fuel (shared_state t) = (Inl e, s') \<Longrightarrow>
    thread_step fuel t (t\<lparr>pc := Died AttributeError, shared_state := s'\<rparr>)"
| nvme_clear: "pc t = ClearNvme \<Longrightarrow>
    thread_step fuel t (t\<lparr>pc := CheckStop, shared_state := (shared_state t)\<lparr>nvme_event := False\<rparr>\<rparr>)"
| stop: "pc t = CheckStop \<Longrightarrow> thread_step fuel t (t\<lparr>pc := (if \<not> main_alive t \<or> stop_event t then Stopped else CheckPcie)\<rparr>)"

inductive_cases thread_stepE: "thread_step fuel t t'"
inductive_simps thread_step_iff: "thread_step fuel t t'"

section \<open>The handlers do not touch the registers\<close>

lemma keeps_regs [keeps_intros]:
  fixes P :: "nvme_regs \<Rightarrow> bool"
  shows "keeps (\<lambda>s. P (regs s)) (storeS f)" "keeps (\<lambda>s. P (regs s)) (make_sq b n e i d)"
    "keeps (\<lambda>s. P (regs s)) (make_cq b n e i d iv)" "keeps (\<lambda>s. P (regs s)) (modify_config g)"
    "keeps (\<lambda>s. P (regs s)) (get_command q)"
  by (auto simp: keeps_def storeS_def make_sq_def make_cq_def get_command_def Let_def split: sum.splits prod.splits)

lemmas handler_defs = NVSimWrite_def NVSimRead_def NVSimFlush_def NVSimIdentify_def NVSimCreateIOCompletionQueue_def
  NVSimCreateIOSubmissionQueue_def NVSimDeleteIOCompletionQueue_def NVSimDeleteIOSubmissionQueue_def
  NVSimGetLogPage_def NVSimFormat_def NVSimGetFeature_def NVSimSetFeature_def NVSimCommandNotSupported_def
lemmas step_defs = fieldS_def prp1S_def prp2S_def command_prp_def complete_def namespaceS_def setS_def check_mem_access_def

lemma handlers_keep_regs:
  fixes P :: "nvme_regs \<Rightarrow> bool"
  assumes "h \<in> {NVSimWrite, NVSimRead, NVSimFlush, NVSimIdentify, NVSimCreateIOCompletionQueue,
    NVSimCreateIOSubmissionQueue, NVSimDeleteIOCompletionQueue, NVSimDeleteIOSubmissionQueue, NVSimGetLogPage, NVSimFormat,
    NVSimGetFeature, NVSimSetFeature, NVSimCommandNotSupported}"
  shows "keeps (\<lambda>s. P (regs s)) (h command sq cq)"
  using assms by (auto simp: handler_defs step_defs intro!: keeps_intros)

lemma set_install: "set (install hs) \<subseteq> insert NVSimCommandNotSupported (snd ` set hs)"
proof -
  have "set (fold (\<lambda>(c, h) table. table[default_opc c := h]) hs xs) \<subseteq> set xs \<union> snd ` set hs" for xs
  proof (induction hs arbitrary: xs)
    case (Cons x hs)
    obtain c h where x: "x = (c, h)" by (cases x)
    show ?case using Cons.IH [of "xs[default_opc c := h]"] set_update_subset_insert [of xs "default_opc c" h]
      by (auto simp: x)
  qed simp
  then show ?thesis by (fastforce simp: install_def)
qed

lemma length_install [simp]: "length (install hs) = 256"
proof -
  have "length (fold (\<lambda>(c, h) table. table[default_opc c := h]) hs xs) = length xs" for xs
    by (induction hs arbitrary: xs) auto
  then show ?thesis by (simp add: install_def)
qed

lemma opc_less: "getf SQE_OPC bs < 256"
  using getf_less [of SQE_OPC bs] by (simp add: SQE_pos_defs)

lemma keeps_dispatch:
  assumes "\<And>h. h \<in> set table \<Longrightarrow> keeps P (h command sq cq)" "length table = 256"
  shows "keeps P (dispatch table command sq cq)"
  using assms opc_less by (auto simp: keeps_def dispatch_def)

lemma keeps_regs_dispatch [keeps_intros]:
  fixes P :: "nvme_regs \<Rightarrow> bool"
  shows "keeps (\<lambda>s. P (regs s)) (dispatch admin_cmd_handlers command sq cq)"
    "keeps (\<lambda>s. P (regs s)) (dispatch nvm_cmd_handlers command sq cq)"
proof -
  have "h \<in> set admin_cmd_handlers \<Longrightarrow> keeps (\<lambda>s. P (regs s)) (h command sq cq)" for h
    using set_install by (intro handlers_keep_regs) (fastforce simp: admin_cmd_handlers_def)
  moreover have "h \<in> set nvm_cmd_handlers \<Longrightarrow> keeps (\<lambda>s. P (regs s)) (h command sq cq)" for h
    using set_install by (intro handlers_keep_regs) (fastforce simp: nvm_cmd_handlers_def)
  ultimately show "keeps (\<lambda>s. P (regs s)) (dispatch admin_cmd_handlers command sq cq)"
    "keeps (\<lambda>s. P (regs s)) (dispatch nvm_cmd_handlers command sq cq)"
    by (auto intro!: keeps_dispatch) (simp_all add: admin_cmd_handlers_def nvm_cmd_handlers_def)
qed

lemma keeps_regs_serve [keeps_intros]:
  fixes P :: "nvme_regs \<Rightarrow> bool"
  shows "keeps (\<lambda>s. P (regs s)) (serve_admin fuel asq acq)" "keeps (\<lambda>s. P (regs s)) (serve_pass qs n)"
    "keeps (\<lambda>s. P (regs s)) (serve_io fuel qs n)"
proof -
  show p: "keeps (\<lambda>s. P (regs s)) (serve_pass qs n)" for qs n
    by (induction qs n rule: serve_pass.induct) (auto intro!: keeps_intros simp del: st_simps)
  show "keeps (\<lambda>s. P (regs s)) (serve_admin fuel asq acq)"
    by (induction fuel) (auto intro!: keeps_intros simp del: st_simps)
  show "keeps (\<lambda>s. P (regs s)) (serve_io fuel qs n)"
    by (induction fuel arbitrary: n) (auto intro!: keeps_intros p simp del: st_simps)
qed

end
