(* ===== verification/Nvsim_Thread.thy ===== *)
theory Nvsim_Thread
  imports Nvsim_Device "HOL-Library.Transitive_Closure_Table"
begin

text \<open>
  The simulated controller under every interleaving of its thread with the host: what a register write of the host
  leads to, what an exception leads to, and what a function level reset does.
\<close>

section \<open>Reachable states\<close>

definition set_shared :: "('a, 'b) device \<Rightarrow> ('a, 'b) sim_thread \<Rightarrow> ('a, 'b) sim_thread" where
  "set_shared s t = t\<lparr>shared_state := s\<rparr>"

text \<open>
  The host assigns registers other than the status, writes memory and configuration space, serves queues after posting
  a command (\<open>GenericNVMeNVSimDevice.posted_command\<close>), asks the thread to stop, and exits.
\<close>

inductive host_step :: "nat \<Rightarrow> ('a, 'b) sim_thread \<Rightarrow> ('a, 'b) sim_thread \<Rightarrow> bool" for fuel :: nat where
  host_regs: "(\<And>r. CSTS_RDY (f r) = CSTS_RDY r \<and> CSTS_CFS (f r) = CSTS_CFS r) \<Longrightarrow>
    host_step fuel t (set_shared (snd (set_regs f (shared_state t))) t)"
| host_mem: "host_step fuel t (set_shared ((shared_state t)\<lparr>mem := m\<rparr>) t)"
| host_pcie: "host_step fuel t (set_shared ((shared_state t)\<lparr>pcie := m, pcie_event := True\<rparr>) t)"
| host_serve: "host_step fuel t (set_shared (snd (check_commands fuel (shared_state t))) t)"
| host_stop: "host_step fuel t (t\<lparr>stop_event := True\<rparr>)"
| host_exit: "host_step fuel t (t\<lparr>main_alive := False\<rparr>)"

inductive sim_reach :: "nat \<Rightarrow> ('a, 'b) device \<Rightarrow> ('a, 'b) sim_thread \<Rightarrow> bool" for fuel :: nat and s0 :: "('a, 'b) device" where
  start: "new_nvsim s0 = (Inr (), s) \<Longrightarrow> sim_reach fuel s0 \<lparr>pc = CheckPcie, stop_event = False, main_alive = True, shared_state = s\<rparr>"
| by_thread: "sim_reach fuel s0 t \<Longrightarrow> thread_step fuel t t' \<Longrightarrow> sim_reach fuel s0 t'"
| by_host: "sim_reach fuel s0 t \<Longrightarrow> host_step fuel t t' \<Longrightarrow> sim_reach fuel s0 t'"

inductive_cases host_stepE: "host_step fuel t t'"

section \<open>Exceptions\<close>

definition no_fatal :: "('d, 'a) shared_scheme \<Rightarrow> bool" where
  "no_fatal s \<longleftrightarrow> CSTS_CFS (regs s) = 0"

lemma no_fatal_set_regs: "(\<And>r. CSTS_CFS (f r) = CSTS_CFS r) \<Longrightarrow> keeps no_fatal (set_regs f)"
  by (simp add: keeps_def no_fatal_def)

lemma no_fatal_regs: "keeps (\<lambda>s. CSTS_CFS (regs s) = 0) f \<Longrightarrow> keeps no_fatal f"
  by (simp add: keeps_def no_fatal_def)

lemma no_fatal_check_commands: "keeps no_fatal (check_commands fuel)"
proof -
  have "keeps no_fatal (case g of Queues (Some asq) (Some acq) \<Rightarrow> serve_admin fuel asq acq | _ \<Rightarrow> retS ())"
    for g :: "(nvme_queue, completion_queue) got"
    by (auto split: got.split option.split intro!: keeps_intros no_fatal_regs simp del: st_simps)
  then show ?thesis
    unfolding check_commands_def
    by (intro keeps_bind keeps_then keeps_case_prod keeps_basic no_fatal_regs [OF keeps_regs_serve(3)])
qed

lemma no_fatal_nvme_changed: "keeps no_fatal (nvsim_nvme_regs_changed fuel)"
proof -
  have "keeps no_fatal enable"
    unfolding enable_def check_mem_access_def by (auto intro!: keeps_intros no_fatal_set_regs intro: no_fatal_regs keeps_intros)
  moreover have "keeps no_fatal disable" unfolding disable_def by (rule no_fatal_set_regs) simp
  ultimately show ?thesis
    unfolding nvsim_nvme_regs_changed_def
    by (auto intro!: keeps_intros no_fatal_check_commands keeps_modify simp: no_fatal_def)
qed

lemma no_fatal_pcie_changed: "keeps no_fatal (nvsim_pcie_regs_changed :: (('a, 'b) device, unit) st)"
proof -
  have "keeps no_fatal (new_config :: (('a, 'b) device, unit) st)"
    unfolding keeps_def
  proof (intro allI impI)
    fix s :: "('a, 'b) device"
    show "no_fatal (snd (new_config s))"
      using new_config_result [of s] by (auto simp: no_fatal_def zero_regs_def)
  qed
  then show ?thesis
    unfolding nvsim_pcie_regs_changed_def save_pcie_regs_def
    by (auto intro!: keeps_intros keeps_modify simp: no_fatal_def)
qed

lemma new_nvsim_state:
  "\<exists>s'. new_nvsim s = (Inr (), s') \<and> no_fatal s' \<and> old_CC_EN (dev s') = 0 \<and> CC_EN (regs s') = 0 \<and>
    CSTS_RDY (regs s') = 0 \<and> sim_queue_mgr (dev s') = new_queue_mgr \<and> nvme_event s'"
proof -
  obtain m where "new_config s = (Inr (), s\<lparr>mem := write_bytes (mem s) (sqndbs s) (zeros (8 * 1024)),
      regs := zero_regs\<lparr>CAP_CSS := 0x40, VS_MJR := 2, VS_MNR := 1\<rparr>, pcie := m, nvme_event := True, pcie_event := True,
      dev := started (dev s)\<rparr>)"
    using new_config_result [of s] by blast
  then show ?thesis
    by (simp add: new_nvsim_def thenS_def bindS_apply save_pcie_regs_def no_fatal_def zero_regs_def started_def)
qed

text \<open>
  Property C14. However thread and host interleave, the controller never reports a fatal status: CSTS.CFS is 0 in every reachable
  state, also after an exception in the simulator, which ends the thread for good. The handler that would set it is never
  reached, so a host that polls waits for its own timeout.
\<close>

theorem nvsim_never_reports_fatal:
  assumes "sim_reach fuel s0 t"
  shows "CSTS_CFS (regs (shared_state t)) = 0 \<and> (\<forall>e t'. pc t = Died e \<longrightarrow> \<not> thread_step fuel t t')"
proof -
  have "no_fatal (shared_state t)"
    using assms
  proof (induction rule: sim_reach.induct)
    case (start s)
    then show ?case using new_nvsim_state [of s0] by auto
  next
    case (by_thread t t')
    from by_thread(2,3) show ?case
      by (cases rule: thread_step.cases)
        (auto dest: keepsD [OF no_fatal_nvme_changed] keepsD [OF no_fatal_pcie_changed] simp: no_fatal_def [of "_\<lparr>pcie_event := False\<rparr>"]
          no_fatal_def [of "_\<lparr>nvme_event := False\<rparr>"] no_fatal_def [symmetric])
  next
    case (by_host t t')
    from by_host(2,3) show ?case
      using no_fatal_check_commands [of fuel]
      by (cases rule: host_step.cases) (auto simp: set_shared_def no_fatal_def keeps_def)
  qed
  then show ?thesis by (auto simp: no_fatal_def thread_step_iff)
qed

section \<open>Enabling the controller\<close>

lemma num_entries_idle:
  "ht_value m (head q) = 0 \<Longrightarrow> ht_value m (tail q) = 0 \<Longrightarrow> ht_entries (tail q) = entries q \<Longrightarrow>
    sq_get_command m q = (None, m)"
  by (auto simp: sq_get_command_def num_entries_def ht_peek_def Let_def)

text \<open>The queue memory and the two new cells lie apart from the doorbell of the admin queue, which is 0.\<close>

definition enable_ready :: "('a, 'b) device \<Rightarrow> bool" where
  "enable_ready s \<longleftrightarrow>
     (let dbt = sqtail_addr s 0; own1 = new_cell s (cells s); own2 = new_cell s (cells s @ [own1]) in
      old_CC_EN (dev s) = 0 \<and> CC_EN (regs s) = 1 \<and> sim_queue_mgr (dev s) = new_queue_mgr \<and> read32 (mem s) dbt = 0 \<and>
      separate (unat (ASQ_ASQB (regs s))) ((unat (AQA_ASQS (regs s)) + 1) * 64) dbt 4 \<and>
      separate (unat (ACQ_ACQB (regs s))) ((unat (AQA_ACQS (regs s)) + 1) * 16) dbt 4 \<and>
      separate own1 4 dbt 4 \<and> separate own2 4 dbt 4 \<and> separate own2 4 own1 4)"

definition admin_pair :: "('a, 'b) device \<Rightarrow> nvme_queue \<Rightarrow> completion_queue \<Rightarrow> bool" where
  "admin_pair s asq acq \<longleftrightarrow>
     qm_get (Some 0) (Some 0) (sim_queue_mgr (dev s)) = Inr (Queues (Some asq) (Some acq)) \<and>
     base_address asq = unat (ASQ_ASQB (regs s)) \<and> entries asq = unat (AQA_ASQS (regs s)) + 1 \<and>
     base_address acq = unat (ACQ_ACQB (regs s)) \<and> entries acq = unat (AQA_ACQS (regs s)) + 1 \<and>
     ht_address (tail asq) = sqtail_addr s 0 \<and> ht_address (head acq) = cqhead_addr s 0"

text \<open>The state after \<open>enable\<close>: the test writes of the two memory checks, the cells of the new queues, the pair in the manager.\<close>

definition checked_memory :: "memory \<Rightarrow> nat \<Rightarrow> nat \<Rightarrow> memory" where
  "checked_memory m a n = write_bytes (write_bytes m a [0xFF]) (a + n - 1) [0xFF]"

lemma checked_memory_apart: "0 < n \<Longrightarrow> separate a n b k \<Longrightarrow> read_bytes (checked_memory m a n) b k = read_bytes m b k"
  by (auto simp: checked_memory_def read_write_separate separate_def)

definition sim_asq :: "('a, 'b) device \<Rightarrow> nvme_queue" where
  "sim_asq s = \<lparr>base_address = unat (ASQ_ASQB (regs s)), entries = unat (AQA_ASQS (regs s)) + 1, entry_size = 64, qid = 0,
     head = \<lparr>ht_entries = unat (AQA_ASQS (regs s)) + 1, ht_address = new_cell s (cells s)\<rparr>,
     tail = \<lparr>ht_entries = unat (AQA_ASQS (regs s)) + 1, ht_address = sqtail_addr s 0\<rparr>\<rparr>"

definition sim_acq :: "('a, 'b) device \<Rightarrow> completion_queue" where
  "sim_acq s = \<lparr>base_address = unat (ACQ_ACQB (regs s)), entries = unat (AQA_ACQS (regs s)) + 1, entry_size = 16, qid = 0,
     head = \<lparr>ht_entries = unat (AQA_ACQS (regs s)) + 1, ht_address = cqhead_addr s 0\<rparr>,
     tail = \<lparr>ht_entries = unat (AQA_ACQS (regs s)) + 1, ht_address = new_cell s (cells s @ [new_cell s (cells s)])\<rparr>,
     int_vector = None, phase = 1\<rparr>"

definition enabled_memory :: "('a, 'b) device \<Rightarrow> memory" where
  "enabled_memory s = write32 (write32
     (checked_memory (checked_memory (mem s) (unat (ASQ_ASQB (regs s))) ((unat (AQA_ASQS (regs s)) + 1) * 64))
        (unat (ACQ_ACQB (regs s))) ((unat (AQA_ACQS (regs s)) + 1) * 16))
     (new_cell s (cells s)) 0) (new_cell s (cells s @ [new_cell s (cells s)])) 0"

lemma enable_state:
  assumes "sim_queue_mgr (dev s) = new_queue_mgr"
  shows "enable s = (Inr (), s\<lparr>mem := enabled_memory s, cells := cells s @ [new_cell s (cells s), new_cell s (cells s @ [new_cell s (cells s)])],
      dev := (dev s)\<lparr>sim_queue_mgr := qm_add 0 (sim_asq s) 0 (sim_acq s) new_queue_mgr\<rparr>, regs := (regs s)\<lparr>CSTS_RDY := 1\<rparr>,
      nvme_event := True\<rparr>)"
  using assms
  by (simp add: enable_def check_mem_access_def thenS_def bindS_apply make_sq_def make_cq_def new_submission_queue_def
      new_completion_queue_def Let_def sqtail_addr_def cqhead_addr_def sim_asq_def sim_acq_def enabled_memory_def checked_memory_def)

lemma enable_result:
  assumes "enable_ready s"
  shows "\<exists>s' asq acq. enable s = (Inr (), s') \<and> old_CC_EN (dev s') = 0 \<and>
    regs s' = (regs s)\<lparr>CSTS_RDY := 1\<rparr> \<and> admin_pair s' asq acq \<and>
    nvme_queues (sim_queue_mgr (dev s')) = [((0, 0), (Some asq, Some acq))] \<and> qid asq = 0 \<and>
    sq_get_command (mem s') asq = (None, mem s')"
proof -
  let ?r = "regs s"
  let ?a = "unat (ASQ_ASQB ?r)" let ?n = "unat (AQA_ASQS ?r) + 1"
  let ?b = "unat (ACQ_ACQB ?r)" let ?k = "unat (AQA_ACQS ?r) + 1"
  let ?dbt = "sqtail_addr s 0"
  let ?own1 = "new_cell s (cells s)" let ?own2 = "new_cell s (cells s @ [?own1])"
  have r: "old_CC_EN (dev s) = 0" "CC_EN (regs s) = 1" "sim_queue_mgr (dev s) = new_queue_mgr" "read32 (mem s) ?dbt = 0"
    "separate ?a (?n * 64) ?dbt 4" "separate ?b (?k * 16) ?dbt 4" "separate ?own1 4 ?dbt 4" "separate ?own2 4 ?dbt 4"
    "separate ?own2 4 ?own1 4"
    using assms by (simp_all add: enable_ready_def Let_def)
  have "read32 (enabled_memory s) ?dbt = 0"
    using r(4-8) by (simp add: enabled_memory_def read32_write32_separate read32_def [of "checked_memory _ _ _"] checked_memory_apart)
       (simp add: read32_def)
  moreover have "read32 (enabled_memory s) ?own1 = 0"
    using r(9) by (simp add: enabled_memory_def read32_write32_separate)
  ultimately have "sq_get_command (enabled_memory s) (sim_asq s) = (None, enabled_memory s)"
    by (intro num_entries_idle) (simp_all add: ht_value_def sim_asq_def)
  moreover note enable_state [OF r(3)]
  ultimately show ?thesis
    using r(1) by (auto simp: admin_pair_def qm_add_def new_queue_mgr_def Let_def sqtail_addr_def cqhead_addr_def sim_asq_def sim_acq_def)
qed

lemma check_commands_idle:
  assumes "nvme_queues (sim_queue_mgr (dev s)) = [((0, 0), (Some asq, Some acq))]" "qid asq = 0"
    and "sq_get_command (mem s) asq = (None, mem s)" "0 < fuel"
  shows "check_commands fuel s = (Inr (), s)"
proof -
  obtain n where n: "fuel = Suc n" using assms(4) by (cases fuel) auto
  have "busy_sqs s = []" using assms(1,2) by (simp add: busy_sqs_def)
  then show ?thesis
    using assms(1,3) by (simp add: n check_commands_def thenS_def bindS_apply get_command_def)
qed


text \<open>
  Property C13. A host that sets CC.EN after the thread has handled the previous change, but before it clears the event,
  is not noticed: however long the thread then runs, the controller does not become ready.
\<close>

theorem nvsim_enable_lost:
  assumes "pc t = ClearNvme" "\<not> pcie_event (shared_state t)" "CSTS_RDY (regs (shared_state t)) = 0"
    and "(thread_step fuel)\<^sup>*\<^sup>* (set_shared (snd (set_regs (\<lambda>r. r\<lparr>CC_EN := 1\<rparr>) (shared_state t))) t) t'"
  shows "CSTS_RDY (regs (shared_state t')) = 0 \<and> CC_EN (regs (shared_state t')) = 1"
proof -
  from assms(4) have "CSTS_RDY (regs (shared_state t')) = 0 \<and> CC_EN (regs (shared_state t')) = 1 \<and>
      \<not> pcie_event (shared_state t') \<and> (pc t' = ClearNvme \<or> pc t' \<noteq> ClearPcie \<and> \<not> nvme_event (shared_state t'))"
  proof (induction rule: rtranclp_induct)
    case base
    then show ?case using assms(1-3) by (simp add: set_shared_def)
  next
    case (step y z)
    then show ?case by (auto simp: thread_step_iff split: if_splits)
  qed
  then show ?thesis by blast
qed

section \<open>Function level reset\<close>

text \<open>
  Property C22. When the host requests a function level reset, the simulator starts over with a new configuration: the controller is disabled
  and without queues, and every block of both namespaces is zero, whatever was written to it before.
\<close>

theorem nvsim_flr_erases:
  assumes "flr_requested s"
  shows "\<exists>s'. nvsim_pcie_regs_changed s = (Inr (), s') \<and> CC_EN (regs s') = 0 \<and> CSTS_RDY (regs s') = 0 \<and>
    sim_queue_mgr (dev s') = new_queue_mgr \<and> completion_queues (dev s') = [] \<and> \<not> flr_requested s' \<and>
    (\<forall>k \<in> {1, 2}. \<forall>i. disk s' k i = replicate 4096 0)"
proof -
  obtain m where m: "new_config s = (Inr (), s\<lparr>mem := write_bytes (mem s) (sqndbs s) (zeros (8 * 1024)),
      regs := zero_regs\<lparr>CAP_CSS := 0x40, VS_MJR := 2, VS_MNR := 1\<rparr>, pcie := m, nvme_event := True, pcie_event := True,
      dev := started (dev s)\<rparr>)"
    using new_config_result [of s] by blast
  have "block (blank_namespace n) i = replicate 4096 0" for n i
    by (simp add: block_def blank_namespace_def read_bytes_def map_replicate_const)
  moreover have "\<not> list_ex (\<lambda>((old_cap, old), (new_cap, new)). old \<noteq> new \<and> P old new_cap new) (zip xs xs)"
    for xs :: "(capability \<times> byte list) list" and P
    by (auto simp: list_ex_iff zip_same_conv_map)
  ultimately show ?thesis
    using assms m
    by (simp add: nvsim_pcie_regs_changed_def thenS_def bindS_apply save_pcie_regs_def zero_regs_def started_def
        disk_def ns_at_def flr_requested_def copy_caps_def cap_bytes_def)
qed

section \<open>Instances\<close>

text \<open>A simulator that has been told to come up, at the point where its thread looks at the registers.\<close>

definition example_dev :: "unit nvsim_scheme" where
  "example_dev = \<lparr>config_mps = 4096, power_state = 0, namespaces = [None], id_ctrl_data = [], id_ns_data = [None],
     id_ns_list_data = [], id_uuid_list_data = [], sim_queue_mgr = new_queue_mgr, completion_queues = [],
     capabilities = [\<lparr>cap_type = PCICapExpress, base_offset = 0x5C\<rparr>], old_CC_EN = 0,
     old_caps = [(\<lparr>cap_type = PCICapExpress, base_offset = 0x5C\<rparr>, zeros 28)], \<dots> = ()\<rparr>"

definition example_device :: "(unit, unit) device" where
  "example_device = \<lparr>mem = \<lambda>_. 0, regs = zero_regs\<lparr>CC_EN := 1, AQA_ASQS := 15, AQA_ACQS := 15, ASQ_ASQB := 0x1000,
       ACQ_ACQB := 0x2000\<rparr>, pcie = write_bytes (\<lambda>_. 0) 0x5C (setf (79, 1) 1 (zeros 28)), nvme_event = True, pcie_event = False,
     sqndbs = 0x8000, cells = [], new_cell = (\<lambda>cs. 0x10000 + 4 * length cs), dev = example_dev, \<dots> = ()\<rparr>"

definition example_thread :: "thread_pc \<Rightarrow> (unit, unit) sim_thread" where
  "example_thread p = \<lparr>pc = p, stop_event = False, main_alive = True, shared_state = example_device\<rparr>"

lemma nvsim_never_reports_fatal_witness:
  "\<exists>t. sim_reach 1 example_device t \<and> CSTS_CFS (regs (shared_state t)) = 0"
proof -
  obtain s' where "new_nvsim example_device = (Inr (), s')" using new_nvsim_state [of example_device] by blast
  then have r: "sim_reach 1 example_device \<lparr>pc = CheckPcie, stop_event = False, main_alive = True, shared_state = s'\<rparr>"
    by (rule sim_reach.start)
  show ?thesis using nvsim_never_reports_fatal [OF r] r by blast
qed


lemma nvsim_enable_lost_witness:
  "\<exists>t'. (thread_step 1)\<^sup>*\<^sup>* (set_shared (snd (set_regs (\<lambda>r. r\<lparr>CC_EN := 1\<rparr>) example_device)) (example_thread ClearNvme)) t' \<and>
    pc t' = CheckPcie \<and> CSTS_RDY (regs (shared_state t')) = 0"
proof -
  let ?t = "set_shared (snd (set_regs (\<lambda>r. r\<lparr>CC_EN := 1\<rparr>) example_device)) (example_thread ClearNvme)"
  let ?u = "?t\<lparr>pc := CheckStop, shared_state := (shared_state ?t)\<lparr>nvme_event := False\<rparr>\<rparr>"
  have 1: "thread_step 1 ?t ?u" by (rule thread_step.nvme_clear) (simp add: set_shared_def example_thread_def)
  have "\<not> stop_event ?u" "main_alive ?u" by (simp_all add: set_shared_def example_thread_def)
  with thread_step.stop [of ?u 1] have "thread_step 1 ?u (?u\<lparr>pc := CheckPcie\<rparr>)" by simp
  with 1 have r: "(thread_step 1)\<^sup>*\<^sup>* ?t (?u\<lparr>pc := CheckPcie\<rparr>)"
    by (blast intro: converse_rtranclp_into_rtranclp)
  moreover have "CSTS_RDY (regs (shared_state (?u\<lparr>pc := CheckPcie\<rparr>))) = 0"
    using nvsim_enable_lost [of "example_thread ClearNvme" 1 "?u\<lparr>pc := CheckPcie\<rparr>"] r
    by (simp add: example_thread_def example_device_def zero_regs_def set_shared_def)
  ultimately show ?thesis by (intro exI [of _ "?u\<lparr>pc := CheckPcie\<rparr>"]) simp
qed

lemma example_flr_requested: "flr_requested example_device"
proof -
  have p: "field_pos (rc_layout PCIe_PCICapExpress) [Fld ''PXDC'', Fld ''IFLR''] = Some (79, 1)"
    by (simp add: PCIe_PCICapExpress_def PCIe_PCICapExpress_Pxdc_def PCIe_sizes field_pos_def last_match_def struct_places_def)
  have g: "getf (79, 1) (setf (79, 1) 1 (zeros 28)) = 1" by (simp add: fits_def)
  have "zeros 28 \<noteq> setf (79, 1) 1 (zeros 28)"
  proof
    assume "zeros 28 = setf (79, 1) 1 (zeros 28)"
    with g have "getf (79, 1) (zeros 28) = 1" by simp
    then show False by simp
  qed
  moreover have "cap_bytes example_device \<lparr>cap_type = PCICapExpress, base_offset = 0x5C\<rparr> = setf (79, 1) 1 (zeros 28)"
    by (simp add: cap_bytes_def example_device_def PCIe_sizes)
  ultimately show ?thesis
    using p g by (simp add: flr_requested_def copy_caps_def IFLR_of_def get_at_def)
      (simp add: example_device_def example_dev_def p)
qed

lemma nvsim_flr_erases_witness:
  "\<exists>s'. nvsim_pcie_regs_changed example_device = (Inr (), s') \<and> disk s' 1 5 = replicate 4096 0"
  using nvsim_flr_erases [OF example_flr_requested] by auto

end
