(* ===== verification/Nvsim_Admin.thy ===== *)
theory Nvsim_Admin
  imports Nvsim_Device
begin

text \<open>
  What the admin handlers of the simulator answer: the dispatch by opcode, identify and log pages, the power state, and the
  queues that the create and delete commands leave.
\<close>

section \<open>Dispatch\<close>

lemma default_opcs:
  "default_opc Identify = 6" "default_opc CreateIOCompletionQueue = 5" "default_opc CreateIOSubmissionQueue = 1"
  "default_opc DeleteIOCompletionQueue = 4" "default_opc DeleteIOSubmissionQueue = 0" "default_opc GetLogPage = 2"
  "default_opc FormatNVM = 0x80" "default_opc GetFeature = 0x0A" "default_opc SetFeature = 0x09"
  "default_opc Write = 1" "default_opc Read = 2" "default_opc Flush = 0"
  by (simp_all add: default_opc_def class_defs feature_defs)

definition admin_by_opcode :: "(nat \<times> ('c, 'a) handler) list" where
  "admin_by_opcode = [(0x00, NVSimDeleteIOSubmissionQueue), (0x01, NVSimCreateIOSubmissionQueue), (0x02, NVSimGetLogPage),
     (0x04, NVSimDeleteIOCompletionQueue), (0x05, NVSimCreateIOCompletionQueue), (0x06, NVSimIdentify),
     (0x09, NVSimSetFeature), (0x0A, NVSimGetFeature), (0x80, NVSimFormat)]"

definition nvm_by_opcode :: "(nat \<times> ('c, 'a) handler) list" where
  "nvm_by_opcode = [(0x00, NVSimFlush), (0x01, NVSimWrite), (0x02, NVSimRead)]"

lemma admin_table: "i < 256 \<Longrightarrow> admin_cmd_handlers ! i =
    (case map_of admin_by_opcode i of None \<Rightarrow> NVSimCommandNotSupported | Some h \<Rightarrow> h)"
  by (simp add: admin_cmd_handlers_def install_def default_opcs admin_by_opcode_def nth_list_update)

lemma nvm_table: "i < 256 \<Longrightarrow> nvm_cmd_handlers ! i =
    (case map_of nvm_by_opcode i of None \<Rightarrow> NVSimCommandNotSupported | Some h \<Rightarrow> h)"
  by (simp add: nvm_cmd_handlers_def install_def default_opcs nvm_by_opcode_def nth_list_update)

lemma dispatch_table:
  "dispatch admin_cmd_handlers command sq cq s = (case map_of admin_by_opcode (getf SQE_OPC (command_bytes s command)) of
     None \<Rightarrow> NVSimCommandNotSupported | Some h \<Rightarrow> h) command sq cq s"
  "dispatch nvm_cmd_handlers command sq cq s = (case map_of nvm_by_opcode (getf SQE_OPC (command_bytes s command)) of
     None \<Rightarrow> NVSimCommandNotSupported | Some h \<Rightarrow> h) command sq cq s"
  using opc_less by (simp_all add: dispatch_def admin_table nvm_table)

text \<open>
  Property C19. A command is served by the handler of its opcode in the NVMe specification; any other opcode is answered
  with Invalid Field in Command and changes nothing but the completion queue.
\<close>

theorem nvsim_dispatch:
  assumes "table = admin_cmd_handlers \<and> known = admin_by_opcode \<or> table = nvm_cmd_handlers \<and> known = nvm_by_opcode"
    and "getf SQE_OPC (command_bytes s command) = opc"
  shows "(\<forall>h. map_of known opc = Some h \<longrightarrow> dispatch table command sq cq s = h command sq cq s) \<and>
    (map_of known opc = None \<longrightarrow> \<not> is_full (mem s) cq \<longrightarrow>
      (\<exists>s'. dispatch table command sq cq s = (Inr (), s') \<and> answered s command sq cq 0x02 0 s'))"
proof -
  have d: "dispatch table command sq cq s =
      (case map_of known opc of None \<Rightarrow> NVSimCommandNotSupported | Some h \<Rightarrow> h) command sq cq s"
    using assms dispatch_table [of command sq cq s] by blast
  moreover have "NVSimCommandNotSupported command sq cq s = complete command sq cq (Inr 0x02) 0 s"
    by (simp add: NVSimCommandNotSupported_def sc_int_values)
  ultimately show ?thesis
    using complete_answers [of s cq command sq "0x02" 0] by auto
qed

section \<open>Identify\<close>

lemma one_page_prp:
  assumes "config_mps (dev s) = 4096" "a \<noteq> 0" "length data = 4096"
  shows "\<exists>p. command_prp 4096 a 0 s = (Inr p, s) \<and> set_data_buffer m p data = Inr (write_bytes m a data)"
proof -
  obtain q where q: "prp_init 4096 4096 BIDIRECTIONAL = Inr q" "pages_needed q = 1" "mem_list q = []" "mps q = 4096" "prp2 q = 0"
    by (simp add: prp_init_def ceil_div_def Let_def)
  let ?p = "q\<lparr>prp1 := a, prp1_mem := Some (at_address a 4096), mem_list := [at_address a 4096]\<rparr>"
  have "command_prp 4096 a 0 s = (Inr ?p, s)"
    using assms(1,2) q by (simp add: command_prp_def from_address_def Let_def)
  moreover have "prp_describes m ?p [at_address a 4096]"
    using assms(2) q by (simp add: prp_describes_def at_address_def)
  then have "set_data_buffer m ?p data = Inr (write_bytes m a data)"
    using assms(3) q by (simp add: prp_describes_set at_address_def)
  ultimately show ?thesis by blast
qed

text \<open>The status and the data that answer an identify command.\<close>

definition identify_answer :: "'c sim_config_scheme \<Rightarrow> nat \<Rightarrow> nat \<Rightarrow> nat \<times> byte list option" where
  "identify_answer c cns nsid =
     (if cns = 0x01 then (0, Some (id_ctrl_data c))
      else if cns = 0x00 then
        (if 0 < nsid \<and> nsid < length (namespaces c) then (0, id_ns_data c ! nsid) else (0x0B, None))
      else if cns = 0x02 then (0, Some (id_ns_list_data c))
      else if cns = 0x17 then (0, Some (id_uuid_list_data c))
      else (0x02, None))"

definition id_data_ok :: "'c sim_config_scheme \<Rightarrow> bool" where
  "id_data_ok c \<longleftrightarrow> length (id_ctrl_data c) = 4096 \<and> length (id_ns_list_data c) = 4096 \<and> length (id_uuid_list_data c) = 4096 \<and>
     length (id_ns_data c) = length (namespaces c) \<and>
     (\<forall>i. 0 < i \<longrightarrow> i < length (namespaces c) \<longrightarrow> (\<exists>d. id_ns_data c ! i = Some d \<and> length d = 4096))"

lemma identify_answer_data:
  "id_data_ok c \<Longrightarrow> identify_answer c cns nsid = (sc, Some d) \<Longrightarrow> sc = 0 \<and> length d = 4096"
  by (auto simp: identify_answer_def id_data_ok_def split: if_splits) (metis option.inject)

lemma NVSimIdentify_answer:
  assumes "config_mps (dev s) = 4096" "getf SQE_PRP1 (command_bytes s command) \<noteq> 0" "id_data_ok (dev s)"
    and "identify_answer (dev s) (cmd_field Identify ''CNS'' (command_bytes s command))
      (cmd_field Identify ''NSID'' (command_bytes s command)) = (sc, d)"
  shows "NVSimIdentify command sq cq s = complete command sq cq (Inr sc) 0
    (case d of None \<Rightarrow> s | Some d \<Rightarrow> s\<lparr>mem := write_bytes (mem s) (getf SQE_PRP1 (command_bytes s command)) d\<rparr>)"
proof -
  let ?a = "getf SQE_PRP1 (command_bytes s command)"
  have len: "length x = 4096" if "d = Some x" for x
    using identify_answer_data [OF assms(3)] assms(4) that by blast
  obtain p where p: "command_prp 4096 ?a 0 s = (Inr p, s)"
    "\<And>x. d = Some x \<Longrightarrow> set_data_buffer (mem s) p x = Inr (write_bytes (mem s) ?a x)"
  proof (cases d)
    case None
    obtain p where "command_prp 4096 ?a 0 s = (Inr p, s)"
      using one_page_prp [OF assms(1,2), of "zeros 4096"] by auto
    with None that show ?thesis by blast
  next
    case (Some x)
    with one_page_prp [OF assms(1,2) len [OF Some]] that show ?thesis by blast
  qed
  let ?cns = "cmd_field Identify ''CNS'' (command_bytes s command)"
  let ?nsid = "cmd_field Identify ''NSID'' (command_bytes s command)"
  note step = NVSimIdentify_def bindS_apply thenS_def p(1) setS_def storeS_def sc_int_values
  consider "?cns = 1" | "?cns = 0" "0 < ?nsid" "?nsid < length (namespaces (dev s))"
    | "?cns = 0" "\<not> (0 < ?nsid \<and> ?nsid < length (namespaces (dev s)))" | "?cns = 2" | "?cns = 0x17"
    | "?cns \<notin> {0, 1, 2, 0x17}" by auto
  then show ?thesis
  proof cases
    case 2
    then obtain x where x: "id_ns_data (dev s) ! ?nsid = Some x" "?nsid < length (id_ns_data (dev s))"
      using assms(3) by (auto simp: id_data_ok_def)
    then have "d = Some x" "sc = 0" using 2 assms(4) by (simp_all add: identify_answer_def)
    with 2 x p(2) [of x] show ?thesis by (simp add: step)
  next
    case 3
    then have "d = None" "sc = 0x0B" using assms(4) by (auto simp: identify_answer_def)
    moreover have "?nsid = 0 \<or> int ?nsid > int (length (namespaces (dev s))) - 1" using 3 by linarith
    ultimately show ?thesis using 3 by (simp add: step)
  next
    case 6
    then have "d = None" "sc = 0x02" using assms(4) by (auto simp: identify_answer_def)
    with 6 show ?thesis by (simp add: step)
  qed (use assms(4) p(2) in \<open>auto simp: step identify_answer_def\<close>)
qed

text \<open>
  Property C20. An identify command is answered with the status of its CNS and namespace identifier, and on success the page at PRP1
  then holds the data of the configuration: the controller, the namespace, the namespace list or the UUID list.
\<close>

theorem nvsim_identify:
  assumes "config_mps (dev s) = 4096" "id_data_ok (dev s)" "a = getf SQE_PRP1 (command_bytes s command)" "a \<noteq> 0"
    and "separate a 4096 command 64" "cq_apart (mem s) cq a 4096" "separate a 4096 (ht_address (head cq)) 4"
    and "separate a 4096 (ht_address (tail cq)) 4" "\<not> is_full (mem s) cq"
    and "identify_answer (dev s) (cmd_field Identify ''CNS'' (command_bytes s command))
      (cmd_field Identify ''NSID'' (command_bytes s command)) = (sc, d)"
  shows "\<exists>s1 s2. NVSimIdentify command sq cq s = (Inr (), s2) \<and> answered s1 command sq cq sc 0 s2 \<and> dev s2 = dev s \<and>
    command_bytes s1 command = command_bytes s command \<and>
    (case d of None \<Rightarrow> s1 = s | Some d \<Rightarrow> sc = 0 \<and> read_bytes (mem s2) a 4096 = d)"
proof -
  let ?s1 = "case d of None \<Rightarrow> s | Some d \<Rightarrow> s\<lparr>mem := write_bytes (mem s) a d\<rparr>"
  have len: "d = Some x \<Longrightarrow> length x = 4096 \<and> sc = 0" for x
    using identify_answer_data [OF assms(2), of _ _ sc x] assms(10) by blast
  have cells: "ht_value (mem ?s1) (head cq) = ht_value (mem s) (head cq)" "ht_value (mem ?s1) (tail cq) = ht_value (mem s) (tail cq)"
    using len assms(7,8) by (auto simp: ht_value_write_separate split: option.split)
  have h: "NVSimIdentify command sq cq s = complete command sq cq (Inr sc) 0 ?s1"
    using NVSimIdentify_answer [OF assms(1) _ assms(2,10), of sq cq] assms(4) unfolding assms(3) by blast
  have "\<not> is_full (mem ?s1) cq" using assms(9) cells by (simp add: is_full_def ht_peek_def)
  from complete_answers [OF this] obtain s2 where s2: "complete command sq cq (Inr sc) 0 ?s1 = (Inr (), s2)"
    "answered ?s1 command sq cq sc 0 s2" by blast
  have "cq_apart (mem ?s1) cq a 4096" using assms(6) cells by (simp add: cq_apart_def)
  then have "read_bytes (mem s2) a 4096 = read_bytes (mem ?s1) a 4096" by (rule answered_keeps [OF s2(2)])
  moreover have "command_bytes ?s1 command = command_bytes s command"
    using len assms(5) by (auto simp: command_bytes_def read_write_separate split: option.split)
  moreover have "dev s2 = dev s" using answered_dev [OF s2(2)] by (simp split: option.split)
  ultimately show ?thesis using h s2 len by (intro exI [of _ ?s1] exI [of _ s2]) (auto split: option.split)
qed

section \<open>Log pages\<close>

text \<open>
  The status of an unsupported log page does not survive the way to the host: the simulator posts the value of Invalid
  Log Page with the status code type of a generic status, and \<open>check\<close> on the host raises the generic code of that
  value, for a fused command.
\<close>

theorem nvsim_log_page_misread:
  assumes "cmd_field GetLogPage ''LID'' (command_bytes s command) \<noteq> 0" "\<not> is_full (mem s) cq"
  shows "\<exists>s' m'. NVSimGetLogPage command sq cq s = (Inr (), s') \<and> s' = s\<lparr>mem := m'\<rparr> \<and>
    post_completion (mem s) cq (completion_entry (getf SQE_CID (command_bytes s command)) 9 (qid sq)
      (ht_value (mem s) (head sq)) 0) = Inr m' \<and>
    sc_item_name status_codes ''Invalid Log Page'' ''GetLogPage'' = Some (NVMeStatusCode 9 ''Invalid Log Page'' ''GetLogPage'') \<and>
    (let cqe = completion_entry (getf SQE_CID (command_bytes s command)) 9 (qid sq) (ht_value (mem s) (head sq)) 0
     in sc_check status_codes GetLogPage (getf CQE_SCT cqe) (getf CQE_SC cqe) True =
        Inl (NVMeStatusCodeException 9 ''Command Aborted due to Failed Fused Command''))"
proof -
  let ?c = "NVMeStatusCode 9 ''Command Aborted due to Failed Fused Command'' ''Generic''"
  have "?c \<in> set generic_status_codes" by (simp add: generic_status_codes_def)
  from generic_filter [OF this generic_values_distinct]
  have "sc_get status_codes GetLogPage 0 9 = ?c" by (simp add: sc_get_def)
  then have chk: "sc_check status_codes GetLogPage 0 9 True = Inl (NVMeStatusCodeException 9 ''Command Aborted due to Failed Fused Command'')"
    by (simp add: sc_check_def)
  have "filter (\<lambda>v. sc_name v = ''Invalid Log Page'' \<and> sc_cmd_type v = ''GetLogPage'') generic_status_codes = []"
    using generic_types by (auto simp: filter_empty_conv list_all_iff)
  then have "sc_item_name status_codes ''Invalid Log Page'' ''GetLogPage'' = Some (NVMeStatusCode 9 ''Invalid Log Page'' ''GetLogPage'')"
    by (simp add: sc_item_name_def status_codes_eq all_split comp_def specific_status_codes_def module_status_codes_def)
  moreover have "NVSimGetLogPage command sq cq s = complete command sq cq (Inr 9) 0 s"
    using assms(1) by (simp add: NVSimGetLogPage_def sc_int_log_page)
  moreover obtain s' where "complete command sq cq (Inr 9) 0 s = (Inr (), s')" "answered s command sq cq 9 0 s'"
    using complete_answers [OF assms(2)] by blast
  ultimately show ?thesis
    using chk by (auto simp: answered_def completion_entry_fields Let_def)
qed

section \<open>Power state\<close>

text \<open>
  The power state that a Set Features command sets is the one a later Get Features command reports in its
  completion; with the save bit set the command raises an assertion, but the state has changed already, and a
  feature that is not supported raises because the assertion that should refuse it holds.
\<close>

theorem nvsim_power_state:
  assumes "cmd_field SetFeature ''FID'' (command_bytes s command) = 2" "\<not> is_full (mem s) cq"
    and "ps = cmd_field SetFeaturePowerManagement ''PS'' (command_bytes s command)"
    and "NVSimSetFeature command sq cq s = (r, s2)" "dev s3 = dev s2"
    and "cmd_field GetFeature ''FID'' (command_bytes s3 command') = fid" "\<not> is_full (mem s3) cq'"
  shows "(cmd_field SetFeaturePowerManagement ''SV'' (command_bytes s command) = 0 \<longrightarrow> r = Inr ()) \<and>
    (cmd_field SetFeaturePowerManagement ''SV'' (command_bytes s command) \<noteq> 0 \<longrightarrow> r = Inl AssertionError) \<and>
    (fid = 2 \<longrightarrow> (\<exists>s4. NVSimGetFeature command' sq' cq' s3 = (Inr (), s4) \<and> answered s3 command' sq' cq' 0 ps s4)) \<and>
    (fid \<noteq> 2 \<longrightarrow> NVSimGetFeature command' sq' cq' s3 = (Inl UnboundLocalError, s3))"
proof -
  let ?s1 = "s\<lparr>dev := (dev s)\<lparr>power_state := ps\<rparr>\<rparr>"
  have same: "command_bytes ?s1 command = command_bytes s command" by (simp add: command_bytes_def)
  have ps: "ps < 16"
  proof -
    have "attr_kind (cc_layout SetFeaturePowerManagement) ''PS'' = IntField (352, 4)" by code_simp
    then show ?thesis using getf_less [of "(352, 4)"] assms(3) by (simp add: cmd_field_def)
  qed
  obtain s1' where c: "complete command sq cq (Inr 0) 0 ?s1 = (Inr (), s1')" "dev s1' = dev ?s1"
    using complete_answers [of ?s1 cq command sq 0 0] assms(2) answered_dev by fastforce
  have set: "NVSimSetFeature command sq cq s = (if cmd_field SetFeaturePowerManagement ''SV'' (command_bytes s command) = 0
      then (Inr (), s1') else (Inl AssertionError, ?s1))"
    using assms(1,3) c same by (simp add: NVSimSetFeature_def bindS_apply thenS_def sc_int_values)
  then have "power_state (dev s3) = ps"
    using assms(4,5) c(2) by (auto split: if_splits)
  moreover have "le_nat (setf (0, 4) ps (zeros 4)) = ps"
    using ps le_nat_setf [of "(0, 4)" "zeros 4" ps] by (simp add: fits_def zeros_def put_bits_def take_bit_nat_eq_self)
  ultimately have "fid = 2 \<Longrightarrow> NVSimGetFeature command' sq' cq' s3 = complete command' sq' cq' (Inr 0) ps s3"
    "fid \<noteq> 2 \<Longrightarrow> NVSimGetFeature command' sq' cq' s3 = (Inl UnboundLocalError, s3)"
    using assms(6) by (simp_all add: NVSimGetFeature_def sc_int_values)
  then show ?thesis
    using set assms(4) complete_answers [OF assms(7), of command' sq' 0 ps] by (auto split: if_splits)
qed

section \<open>Queues\<close>

text \<open>The command lies apart from the memory of the queue it creates and from the new cell.\<close>

definition create_safe :: "('c, 'a) sim \<Rightarrow> nat \<Rightarrow> nat \<Rightarrow> nat \<Rightarrow> bool" where
  "create_safe s command base size' \<longleftrightarrow>
     separate base size' command 64 \<and> separate (new_cell s (cells s)) 4 command 64"

lemma check_mem_access_safe:
  assumes "0 < n"
  shows "\<exists>m'. check_mem_access a n s = (Inr (), s\<lparr>mem := m'\<rparr>) \<and>
    (\<forall>b k. separate a n b k \<longrightarrow> read_bytes m' b k = read_bytes (mem s) b k)"
  using assms
  by (intro exI [of _ "write_bytes (write_bytes (mem s) a [0xFF]) (a + n - 1) [0xFF]"])
    (auto simp: check_mem_access_def read_write_separate separate_def)

lemma first_of_filter:
  "(if length (filter P xs) = 0 then x else g (filter P xs ! 0)) = (case find P xs of None \<Rightarrow> x | Some c \<Rightarrow> g c)"
  by (induction xs) auto

lemma create_sq_result:
  fixes s :: "('c, 'a) sim" and command :: nat
  defines "bs \<equiv> command_bytes s command"
  defines "base \<equiv> getf SQE_PRP1 bs" and "n \<equiv> cmd_field CreateIOSubmissionQueue ''QSIZE'' bs + 1"
    and "sqid \<equiv> cmd_field CreateIOSubmissionQueue ''QID'' bs" and "cqid \<equiv> cmd_field CreateIOSubmissionQueue ''CQID'' bs"
  assumes "create_safe s command base (n * 64)"
  shows "\<exists>s' new_sq. qid new_sq = sqid \<and> base_address new_sq = base \<and> entries new_sq = n \<and> dev s' = dev s \<and>
    (\<forall>b k. separate base (n * 64) b k \<longrightarrow> separate (new_cell s (cells s)) 4 b k \<longrightarrow> read_bytes (mem s') b k = read_bytes (mem s) b k) \<and>
    NVSimCreateIOSubmissionQueue command sq cq s =
      (case find (\<lambda>c. qid c = cqid) (completion_queues (dev s)) of
         None \<Rightarrow> complete command sq cq (Inr 2) 0 s'
       | Some c \<Rightarrow> complete command sq cq (Inr 0) 0 (s'\<lparr>dev := (dev s)\<lparr>sim_queue_mgr :=
           qm_add sqid new_sq (qid c) c (sim_queue_mgr (dev s))\<rparr>\<rparr>))"
proof -
  obtain m1 where m1: "check_mem_access base (n * 64) s = (Inr (), s\<lparr>mem := m1\<rparr>)"
      "\<And>b k. separate base (n * 64) b k \<Longrightarrow> read_bytes m1 b k = read_bytes (mem s) b k"
    using check_mem_access_safe [of "n * 64" base s] by (auto simp: n_def)
  let ?own = "new_cell s (cells s)"
  let ?q = "snd (new_submission_queue m1 ?own base n 64 sqid (sqtail_addr s sqid))"
  let ?s1 = "s\<lparr>mem := m1\<rparr>" let ?s2 = "?s1\<lparr>mem := write32 m1 ?own 0, cells := cells s @ [?own]\<rparr>"
  have b1: "command_bytes ?s1 command = bs"
    using m1(2) [of command 64] assms(6) by (simp add: command_bytes_def bs_def create_safe_def)
  have b2: "command_bytes ?s2 command = bs"
    using m1(2) [of command 64] assms(6) by (simp add: command_bytes_def bs_def create_safe_def read_write32_separate)
  have mk: "make_sq base n 64 sqid (sqtail_addr s sqid) ?s1 = (Inr ?q, ?s2)"
    by (simp add: make_sq_def new_submission_queue_def Let_def)
  have "NVSimCreateIOSubmissionQueue command sq cq s =
      (case find (\<lambda>c. qid c = cqid) (completion_queues (dev s)) of
         None \<Rightarrow> complete command sq cq (Inr 2) 0 ?s2
       | Some c \<Rightarrow> complete command sq cq (Inr 0) 0 (?s2\<lparr>dev := (dev s)\<lparr>sim_queue_mgr :=
           qm_add sqid ?q (qid c) c (sim_queue_mgr (dev s))\<rparr>\<rparr>))"
    unfolding first_of_filter [symmetric] n_def
    using m1(1) [unfolded n_def, simplified] mk [unfolded n_def, simplified] b1 b2 [unfolded n_def, simplified]
    by (simp add: NVSimCreateIOSubmissionQueue_def bindS_apply thenS_def bs_def [symmetric] base_def [symmetric]
        sqid_def [symmetric] cqid_def [symmetric] sqtail_addr_def sc_int_values new_submission_queue_def)
  then show ?thesis
    using m1(2) by (intro exI [of _ ?s2] exI [of _ ?q]) (simp add: new_submission_queue_def read_write32_separate)
qed

lemma delete_keeps_completion_queues: "keeps (\<lambda>s. P (completion_queues (dev s))) (NVSimDeleteIOCompletionQueue command sq cq)"
  unfolding NVSimDeleteIOCompletionQueue_def fieldS_def complete_def
  by (intro keeps_intros) (auto simp: keeps_def storeS_def split: sum.splits)

lemma create_cq_keeps_first:
  "keeps (\<lambda>s. find P (completion_queues (dev s)) = Some c) (NVSimCreateIOCompletionQueue command sq cq)"
  unfolding NVSimCreateIOCompletionQueue_def fieldS_def complete_def prp1S_def check_mem_access_def
  by (intro keeps_intros) (auto simp: keeps_def storeS_def find_append make_cq_def Let_def split: sum.splits prod.splits)

text \<open>
  Property C23. A completion queue that is deleted stays in the list of the simulator, so one that is created again under the same
  identifier is not the one that a new submission queue gets: its completions go to the memory of the deleted
  queue, with the tail of that queue.
\<close>

theorem nvsim_recreated_cq_stale:
  assumes "find (\<lambda>c. qid c = cqid) (completion_queues (dev s)) = Some old"
    and "NVSimDeleteIOCompletionQueue command1 sq cq s = (r1, s1)" "dev s1' = dev s1"
    and "NVSimCreateIOCompletionQueue command2 sq cq s1' = (r2, s2)" "dev s2' = dev s2"
    and "NVSimCreateIOSubmissionQueue command3 sq cq s2' = (Inr (), s3)"
    and "create_safe s2' command3 (getf SQE_PRP1 (command_bytes s2' command3))
      ((cmd_field CreateIOSubmissionQueue ''QSIZE'' (command_bytes s2' command3) + 1) * 64)"
    and "cmd_field CreateIOSubmissionQueue ''CQID'' (command_bytes s2' command3) = cqid"
    and "cmd_field CreateIOSubmissionQueue ''QID'' (command_bytes s2' command3) = sqid"
  shows "\<exists>new_sq. map_of (nvme_queues (sim_queue_mgr (dev s3))) (sqid, cqid) = Some (Some new_sq, Some old)"
proof -
  have "find (\<lambda>c. qid c = cqid) (completion_queues (dev s1')) = Some old"
    using keepsD [OF delete_keeps_completion_queues [where P = "\<lambda>cs. find (\<lambda>c. qid c = cqid) cs = Some old"] assms(1,2)]
      assms(3) by simp
  with keepsD [OF create_cq_keeps_first _ assms(4), of "\<lambda>c. qid c = cqid" old] assms(5)
  have first: "find (\<lambda>c. qid c = cqid) (completion_queues (dev s2')) = Some old" by simp
  then have id: "qid old = cqid" by (auto simp: find_Some_iff)
  obtain s' new_sq where c: "complete command3 sq cq (Inr 0) 0 (s'\<lparr>dev := (dev s2')\<lparr>sim_queue_mgr :=
      qm_add sqid new_sq cqid old (sim_queue_mgr (dev s2'))\<rparr>\<rparr>) = (Inr (), s3)"
    using create_sq_result [OF assms(7), of sq cq] assms(6,8,9) first id by auto
  have "keeps (\<lambda>s. sim_queue_mgr (dev s) = qm_add sqid new_sq cqid old (sim_queue_mgr (dev s2'))) (complete command3 sq cq (Inr 0) 0)"
    unfolding complete_def by (intro keeps_intros) (auto simp: keeps_def storeS_def split: sum.splits)
  from keepsD [OF this _ c] have "sim_queue_mgr (dev s3) = qm_add sqid new_sq cqid old (sim_queue_mgr (dev s2'))" by simp
  then show ?thesis by (auto simp: qm_add_def Let_def update_conv)
qed

section \<open>Instances\<close>

text \<open>The simulator of \<open>Nvsim_Io\<close> with another command in the slot.\<close>

definition example_at :: "byte list \<Rightarrow> sim_config \<Rightarrow> (unit, unit) sim" where
  "example_at bs c = example_sim\<lparr>mem := write_bytes (\<lambda>_. 0) 256 bs, dev := c\<rparr>"

lemma example_at:
  assumes "length bs = 64"
  shows "command_bytes (example_at bs c) 256 = bs" "dev (example_at bs c) = c" "\<not> is_full (mem (example_at bs c)) example_sim_cq"
    "ht_value (mem (example_at bs c)) (tail example_sim_cq) = 0"
proof -
  show "command_bytes (example_at bs c) 256 = bs" "dev (example_at bs c) = c"
    using assms by (simp_all add: example_at_def command_bytes_def)
  have v: "ht_value (mem (example_at bs c)) h = 0" if "ht_address h \<ge> 320" for h
    using assms that by (simp add: example_at_def ht_value_def read32_write_separate separate_def)
  then show "\<not> is_full (mem (example_at bs c)) example_sim_cq" "ht_value (mem (example_at bs c)) (tail example_sim_cq) = 0"
    unfolding is_full_def ht_peek_def by (simp_all add: example_sim_cq_def new_completion_queue_def)
qed

lemma example_lengths [simp]: "length (zeros 64) = 64" by simp

lemma nvsim_dispatch_witness:
  "\<exists>s'. dispatch admin_cmd_handlers 256 example_sim_sq example_sim_cq (example_at ((zeros 64)[0 := 0x7F]) example_sim_config) = (Inr (), s')"
proof -
  have "getf SQE_OPC ((zeros 64)[0 := 0x7F]) = 0x7F" by code_simp
  then show ?thesis
    using nvsim_dispatch [where table = admin_cmd_handlers and known = admin_by_opcode and opc = "0x7F" and command = 256
        and s = "example_at ((zeros 64)[0 := 0x7F]) example_sim_config" and sq = example_sim_sq and cq = example_sim_cq]
    by (auto simp: example_at admin_by_opcode_def)
qed

lemma example_identify: "cmd_field Identify ''CNS'' ((zeros 64)[0 := 6, 25 := 16, 40 := 1]) = 1"
  "getf SQE_PRP1 ((zeros 64)[0 := 6, 25 := 16, 40 := 1]) = 4096"
proof -
  have f: "attr_kind (cc_layout Identify) ''CNS'' = IntField (8 * 40, 8 * 1)" "SQE_PRP1 = (8 * 24, 8 * 8)" by code_simp+
  show "cmd_field Identify ''CNS'' ((zeros 64)[0 := 6, 25 := 16, 40 := 1]) = 1"
    "getf SQE_PRP1 ((zeros 64)[0 := 6, 25 := 16, 40 := 1]) = 4096"
    unfolding cmd_field_def f attr_kind.case getf_bytes by code_simp+
qed

lemma nvsim_identify_witness:
  "\<exists>s2. NVSimIdentify 256 example_sim_sq example_sim_cq (example_at ((zeros 64)[0 := 6, 25 := 16, 40 := 1]) example_sim_config) =
      (Inr (), s2) \<and> read_bytes (mem s2) 4096 4096 = zeros 4096"
proof -
  let ?s = "example_at ((zeros 64)[0 := 6, 25 := 16, 40 := 1]) example_sim_config"
  have "cq_apart (mem ?s) example_sim_cq 4096 4096"
    by (simp add: cq_apart_def example_at slot_def separate_def) (simp add: example_sim_cq_def new_completion_queue_def)
  moreover have "id_data_ok example_sim_config"
    by (auto simp: id_data_ok_def example_sim_config_def nth_Cons' less_Suc_eq)
  moreover have "identify_answer example_sim_config 1 n = (0, Some (zeros 4096))" for n
    by (simp add: identify_answer_def example_sim_config_def)
  moreover have "config_mps example_sim_config = 4096" by (simp add: example_sim_config_def)
  moreover have "separate 4096 4096 (ht_address (head example_sim_cq)) 4" "separate 4096 4096 (ht_address (tail example_sim_cq)) 4"
    "separate 4096 4096 256 64"
    by (simp_all add: example_sim_cq_def new_completion_queue_def separate_def)
  ultimately have "\<exists>s1 s2. NVSimIdentify 256 example_sim_sq example_sim_cq ?s = (Inr (), s2) \<and>
      answered s1 256 example_sim_sq example_sim_cq 0 0 s2 \<and> dev s2 = dev ?s \<and> command_bytes s1 256 = command_bytes ?s 256 \<and>
      (case Some (zeros 4096) of None \<Rightarrow> s1 = ?s | Some d \<Rightarrow> 0 = (0::nat) \<and> read_bytes (mem s2) 4096 4096 = d)"
    by (intro nvsim_identify) (simp_all only: example_at example_identify length_list_update length_zeros, simp_all)
  then show ?thesis by auto
qed

lemma example_features:
  "cmd_field GetLogPage ''LID'' ((zeros 64)[0 := 2, 40 := 1]) = 1"
  "cmd_field SetFeature ''FID'' ((zeros 64)[0 := 9, 40 := 2, 44 := 3]) = 2"
  "cmd_field SetFeaturePowerManagement ''PS'' ((zeros 64)[0 := 9, 40 := 2, 44 := 3]) = 3"
  "cmd_field SetFeaturePowerManagement ''SV'' ((zeros 64)[0 := 9, 40 := 2, 44 := 3]) = 0"
  "cmd_field GetFeature ''FID'' ((zeros 64)[0 := 0x0A, 40 := 2]) = 2"
proof -
  have w: "getf (320, 32) bs = getf (8 * 40, 8 * 4) bs" for bs by simp
  have f: "attr_kind (cc_layout GetLogPage) ''LID'' = IntField (8 * 40, 8 * 1)"
    "attr_kind (cc_layout SetFeature) ''FID'' = IntField (8 * 40, 8 * 1)"
    "attr_kind (cc_layout GetFeature) ''FID'' = IntField (8 * 40, 8 * 1)"
    "attr_kind (cc_layout SetFeaturePowerManagement) ''PS'' = IntField (352, 4)"
    "attr_kind (cc_layout SetFeaturePowerManagement) ''SV'' = IntField (351, 1)" by code_simp+
  have "getf (352, 4) xs = getf (0, 4) (take 1 (drop 44 xs))" "getf (351, 1) xs = getf (7, 1) (take 1 (drop 43 xs))"
    if "length xs = 64" for xs
    using getf_within [of 0 4 1 44 xs] getf_within [of 7 1 1 43 xs] that by simp_all
  note g = this
  show "cmd_field GetLogPage ''LID'' ((zeros 64)[0 := 2, 40 := 1]) = 1"
    "cmd_field SetFeature ''FID'' ((zeros 64)[0 := 9, 40 := 2, 44 := 3]) = 2"
    "cmd_field GetFeature ''FID'' ((zeros 64)[0 := 0x0A, 40 := 2]) = 2"
    unfolding cmd_field_def f attr_kind.case getf_bytes by code_simp+
  show "cmd_field SetFeaturePowerManagement ''PS'' ((zeros 64)[0 := 9, 40 := 2, 44 := 3]) = 3"
    "cmd_field SetFeaturePowerManagement ''SV'' ((zeros 64)[0 := 9, 40 := 2, 44 := 3]) = 0"
    unfolding cmd_field_def f attr_kind.case by (subst g, simp, code_simp)+
qed

lemma nvsim_log_page_misread_witness:
  "\<exists>s'. NVSimGetLogPage 256 example_sim_sq example_sim_cq (example_at ((zeros 64)[0 := 2, 40 := 1]) example_sim_config) = (Inr (), s')"
  using nvsim_log_page_misread [of "example_at ((zeros 64)[0 := 2, 40 := 1]) example_sim_config" 256 example_sim_cq example_sim_sq]
  by (auto simp: example_at example_features)

lemma nvsim_power_state_witness:
  "\<exists>s2 s4. NVSimSetFeature 256 example_sim_sq example_sim_cq (example_at ((zeros 64)[0 := 9, 40 := 2, 44 := 3]) example_sim_config) =
      (Inr (), s2) \<and>
    NVSimGetFeature 256 example_sim_sq example_sim_cq (example_at ((zeros 64)[0 := 0x0A, 40 := 2]) (dev s2)) = (Inr (), s4)"
proof -
  let ?s = "example_at ((zeros 64)[0 := 9, 40 := 2, 44 := 3]) example_sim_config"
  obtain r s2 where r: "NVSimSetFeature 256 example_sim_sq example_sim_cq ?s = (r, s2)"
    by (cases "NVSimSetFeature 256 example_sim_sq example_sim_cq ?s")
  let ?s3 = "example_at ((zeros 64)[0 := 0x0A, 40 := 2]) (dev s2)"
  have "dev ?s3 = dev s2" by (simp add: example_at)
  from nvsim_power_state [OF _ _ refl r this, of 256 2 example_sim_cq example_sim_sq]
  show ?thesis using r by (auto simp: example_at example_features)
qed

abbreviation "example_create_sq \<equiv> (zeros 64)[0 := 1, 25 := 16, 40 := 1, 42 := 3, 46 := (1::byte)]"

lemma example_create_sq:
  "cmd_field CreateIOSubmissionQueue ''QID'' example_create_sq = 1"
  "cmd_field CreateIOSubmissionQueue ''QSIZE'' example_create_sq = 3"
  "cmd_field CreateIOSubmissionQueue ''CQID'' example_create_sq = 1" "getf SQE_PRP1 example_create_sq = 4096"
proof -
  have f: "attr_kind (cc_layout CreateIOSubmissionQueue) ''QID'' = IntField (8 * 40, 8 * 2)"
    "attr_kind (cc_layout CreateIOSubmissionQueue) ''QSIZE'' = IntField (8 * 42, 8 * 2)"
    "attr_kind (cc_layout CreateIOSubmissionQueue) ''CQID'' = IntField (8 * 46, 8 * 2)" "SQE_PRP1 = (8 * 24, 8 * 8)"
    by code_simp+
  show "cmd_field CreateIOSubmissionQueue ''QID'' example_create_sq = 1"
    "cmd_field CreateIOSubmissionQueue ''QSIZE'' example_create_sq = 3"
    "cmd_field CreateIOSubmissionQueue ''CQID'' example_create_sq = 1" "getf SQE_PRP1 example_create_sq = 4096"
    unfolding cmd_field_def f attr_kind.case getf_bytes by code_simp+
qed

lemma nvsim_recreated_cq_stale_witness:
  "\<exists>s1 s2 s3 new_sq.
    snd (NVSimDeleteIOCompletionQueue 256 example_sim_sq example_sim_cq
      (example_at (zeros 64) (example_sim_config\<lparr>completion_queues := [example_sim_cq]\<rparr>))) = s1 \<and>
    snd (NVSimCreateIOCompletionQueue 256 example_sim_sq example_sim_cq (example_at (zeros 64) (dev s1))) = s2 \<and>
    NVSimCreateIOSubmissionQueue 256 example_sim_sq example_sim_cq (example_at example_create_sq (dev s2)) = (Inr (), s3) \<and>
    map_of (nvme_queues (sim_queue_mgr (dev s3))) (1, 1) = Some (Some new_sq, Some example_sim_cq)"
proof -
  let ?s = "example_at (zeros 64) (example_sim_config\<lparr>completion_queues := [example_sim_cq]\<rparr>)"
  obtain r1 s1 where 1: "NVSimDeleteIOCompletionQueue 256 example_sim_sq example_sim_cq ?s = (r1, s1)" by fastforce
  let ?s1 = "example_at (zeros 64) (dev s1)"
  obtain r2 s2 where 2: "NVSimCreateIOCompletionQueue 256 example_sim_sq example_sim_cq ?s1 = (r2, s2)" by fastforce
  let ?s2 = "example_at example_create_sq (dev s2)"
  have cq: "qid example_sim_cq = 1" "ht_address (tail example_sim_cq) = 16388" "ht_address (head example_sim_cq) = 32780"
    "ht_entries (tail example_sim_cq) = 4"
    by (simp_all add: example_sim_cq_def new_completion_queue_def)
  have first: "find (\<lambda>c. qid c = 1) (completion_queues (dev ?s)) = Some example_sim_cq" by (simp add: example_at cq)
  have bytes: "command_bytes ?s2 256 = example_create_sq" by (simp add: example_at)
  have cell: "new_cell ?s2 (cells ?s2) = 65536" by (simp add: example_at_def example_sim_def)
  have safe: "create_safe ?s2 256 (getf SQE_PRP1 (command_bytes ?s2 256))
      ((cmd_field CreateIOSubmissionQueue ''QSIZE'' (command_bytes ?s2 256) + 1) * 64)"
    by (simp add: bytes example_create_sq create_safe_def cell separate_def)
  obtain s' new_sq where s': "\<And>b k. separate 4096 256 b k \<Longrightarrow> separate 65536 4 b k \<Longrightarrow> read_bytes (mem s') b k = read_bytes (mem ?s2) b k"
    "NVSimCreateIOSubmissionQueue 256 example_sim_sq example_sim_cq ?s2 =
      (case find (\<lambda>c. qid c = 1) (completion_queues (dev ?s2)) of
         None \<Rightarrow> complete 256 example_sim_sq example_sim_cq (Inr 2) 0 s'
       | Some c \<Rightarrow> complete 256 example_sim_sq example_sim_cq (Inr 0) 0 (s'\<lparr>dev := (dev ?s2)\<lparr>sim_queue_mgr :=
           qm_add 1 new_sq (qid c) c (sim_queue_mgr (dev ?s2))\<rparr>\<rparr>))"
    using create_sq_result [OF safe, of example_sim_sq example_sim_cq] unfolding bytes example_create_sq cell by auto
  have "is_full (mem s') example_sim_cq = is_full (mem ?s2) example_sim_cq"
    using s'(1) [of 16388 4] s'(1) [of 32780 4]
    by (simp add: is_full_def ht_peek_def ht_value_def read32_def cq separate_def)
  then have "\<not> is_full (mem s') example_sim_cq" by (simp add: example_at)
  then have "\<exists>s3. NVSimCreateIOSubmissionQueue 256 example_sim_sq example_sim_cq ?s2 = (Inr (), s3)"
    using complete_answers [of s' example_sim_cq 256 example_sim_sq 2 0]
      complete_answers [of "s'\<lparr>dev := d\<rparr>" example_sim_cq 256 example_sim_sq 0 0 for d]
    unfolding s'(2) by (auto split: option.split)
  then obtain s3 where 3: "NVSimCreateIOSubmissionQueue 256 example_sim_sq example_sim_cq ?s2 = (Inr (), s3)" by blast
  have "dev ?s1 = dev s1" "dev ?s2 = dev s2" by (simp_all add: example_at)
  from nvsim_recreated_cq_stale [OF first 1 this(1) 2 this(2) 3 safe] 1 2 3 show ?thesis
    by (auto simp: bytes example_create_sq)
qed

end
