(* ===== verification/Host_State.thy ===== *)
theory Host_State
  imports Effects Queue_Manager PRP Commands Status_Codes Nvsim_Config
begin

text \<open>
  The host driver, first part (\<open>NVMeDeviceCommon\<close> in \<open>lone/nvme/device/__init__.py\<close>): the state of a device object, the
  manager of command identifiers, and what the driver does to the controller registers: enabling, disabling and
  resetting it. The object shares memory and registers with the device (\<open>Effects\<close>); what the device and
  other threads do while the driver sleeps in a polling loop is a parameter.
\<close>

section \<open>Command identifiers: \<open>CidMgr\<close>\<close>

record cid_mgr =
  init_value :: nat
  max_value :: nat
  cid_value :: nat

definition new_cid_mgr :: "nat \<Rightarrow> nat \<Rightarrow> cid_mgr" where
  "new_cid_mgr init_value' max_value' = \<lparr>init_value = init_value', max_value = max_value', cid_value = init_value'\<rparr>"

definition cid_alloc :: "cid_mgr \<Rightarrow> nat \<times> cid_mgr" where
  "cid_alloc c =
     (let v = cid_value c; v' = v + 1
      in (v, c\<lparr>cid_value := (if v' \<ge> max_value c then init_value c else v')\<rparr>))"

section \<open>Commands and the device object\<close>

text \<open>
  A command object: its class and its bytes, and the attributes the driver adds. Commands and completion queues are
  objects that several places refer to and that change, so they are entries of lists and a reference is an index. A
  submission queue object does not change, its head and tail are in memory.
\<close>

record command =
  c_class :: cmd_class
  c_bytes :: "byte list"
  c_sq :: "nvme_queue option"
  c_cq :: "nat option"
  c_posted :: bool
  c_complete :: bool
  c_cqe :: "byte list"
  c_data_in :: "byte list option"
  c_prp :: "prp option"

datatype int_type = POLLING | INTX | MSI | MSIX

text \<open>\<open>outstanding_commands\<close> is a dictionary from pairs of command and queue identifiers; \<open>'m\<close> is the memory manager.\<close>

record ('d, 'm) host = "'d shared" +
  host_cqs :: "completion_queue list"
  host_queue_mgr :: "(nvme_queue, nat) queue_mgr"
  cmds :: "command list"
  outstanding :: "((nat \<times> nat) \<times> nat) list"
  cid_mgr :: cid_mgr
  mem_mgr :: 'm
  host_int_type :: int_type
  num_msix_vectors :: nat
  host_capabilities :: "capability list"

text \<open>
  The surroundings of the driver: the memory manager, the hook that subclasses override, what everybody else does
  while the driver sleeps, how many rounds of a polling loop start before a timeout in seconds has passed, and the
  pending count of an interrupt vector. The device side sees only the shared part of the state.
\<close>

record ('d, 'm) platform =
  pf_malloc :: "'m malloc"
  pf_page_size :: nat
  pf_posted_command :: "('d shared, unit) st"
  pf_others :: "'d shared \<Rightarrow> 'd shared"
  pf_rounds :: "nat \<Rightarrow> nat"
  pf_pending_count :: "nat option \<Rightarrow> ('d shared, nat) st"

type_synonym ('d, 'm, 'a) host_op = "(('d, 'm) host, 'a) st"

definition sharedS :: "('d shared, 'a) st \<Rightarrow> ('d, 'm, 'a) host_op" where
  "sharedS f = (\<lambda>s. case f (shared.truncate s) of (r, s') \<Rightarrow> (r, shared.extend s' (shared.more s)))"

definition sleepS :: "('d, 'm) platform \<Rightarrow> ('d, 'm, unit) host_op" where
  "sleepS pf = sharedS (modifyS (pf_others pf))"

lemma extend_host [simp]:
  fixes s :: "('d, 'm) host"
  shows "host_cqs (shared.extend t (shared.more s)) = host_cqs s" "host_queue_mgr (shared.extend t (shared.more s)) = host_queue_mgr s"
    "cmds (shared.extend t (shared.more s)) = cmds s" "outstanding (shared.extend t (shared.more s)) = outstanding s"
    "cid_mgr (shared.extend t (shared.more s)) = cid_mgr s" "mem_mgr (shared.extend t (shared.more s)) = mem_mgr s"
    "host_int_type (shared.extend t (shared.more s)) = host_int_type s"
    "num_msix_vectors (shared.extend t (shared.more s)) = num_msix_vectors s"
    "host_capabilities (shared.extend t (shared.more s)) = host_capabilities s"
  by (cases s; simp add: shared.defs)+

lemma extend_shared [simp]:
  "mem (shared.extend t e) = mem t" "regs (shared.extend t e) = regs t" "pcie (shared.extend t e) = pcie t"
  "nvme_event (shared.extend t e) = nvme_event t" "sqndbs (shared.extend t e) = sqndbs t" "dev (shared.extend t e) = dev t"
  "new_cell (shared.extend t e) = new_cell t" "cells (shared.extend t e) = cells t" "shared.more (shared.extend t e) = e"
  by (simp_all add: shared.defs)

definition alloc_cid :: "('d, 'm, nat) host_op" where
  "alloc_cid = (\<lambda>s. case cid_alloc (cid_mgr s) of (v, c) \<Rightarrow> (Inr v, s\<lparr>cid_mgr := c\<rparr>))"

text \<open>\<open>__init__\<close>, over the shared state and the memory manager.\<close>

definition new_device :: "'d shared \<Rightarrow> 'm \<Rightarrow> capability list \<Rightarrow> ('d, 'm) host" where
  "new_device s mgr caps = shared.extend s
     \<lparr>host_cqs = [], host_queue_mgr = new_queue_mgr, cmds = [], outstanding = [], cid_mgr = new_cid_mgr 0x1000 0xFFFE,
      mem_mgr = mgr, host_int_type = POLLING, num_msix_vectors = 0, host_capabilities = caps\<rparr>"

section \<open>Resetting, disabling and enabling the controller\<close>

text \<open>
  \<open>initiate_flr\<close>: the first capability with the identifier of the PCI Express capability, and its device control
  register at the offset that \<open>set_offsets\<close> gave it.
\<close>

definition initiate_flr :: "('d, 'm, unit) host_op" where
  "initiate_flr =
     bindS (getS (\<lambda>s. filter (\<lambda>c. cap_id (cap_type c) = cap_id PCICapExpress) (host_capabilities s))) (\<lambda>caps.
     bindS (liftS (list_get caps 0)) (\<lambda>c.
       set_pcie (PCIe_PCICapExpress_Pxdc\<lparr>rc_base := map_of (set_offsets (cap_type c) (base_offset c)) ''PXDC''\<rparr>) ''IFLR'' 1))"

text \<open>The polling loops, with the number of rounds that start in time.\<close>

fun wait_disabled :: "('d, 'm) platform \<Rightarrow> nat \<Rightarrow> ('d, 'm, unit) host_op" where
  "wait_disabled pf 0 = raiseS AssertionError"
| "wait_disabled pf (Suc n) =
     bindS (getS regs) (\<lambda>r.
       if CSTS_CFS r = 1 then retS ()
       else if CSTS_RDY r = 0 then retS ()
       else thenS (sleepS pf) (wait_disabled pf n))"

fun wait_enabled :: "('d, 'm) platform \<Rightarrow> nat \<Rightarrow> ('d, 'm, unit) host_op" where
  "wait_enabled pf 0 = raiseS AssertionError"
| "wait_enabled pf (Suc n) =
     bindS (getS regs) (\<lambda>r.
       if CSTS_CFS r = 1 then raiseS AssertionError
       else if CSTS_RDY r = 1 then retS ()
       else thenS (sleepS pf) (wait_enabled pf n))"

text \<open>All 1024 pairs of doorbells are set to zero, one assignment each.\<close>

definition clear_doorbells :: "(('d, 'a) shared_scheme, unit) st" where
  "clear_doorbells = modifyS (\<lambda>s. s\<lparr>mem := write_bytes (mem s) (sqndbs s) (zeros (8 * 1024)), nvme_event := True\<rparr>)"

definition cc_disable :: "('d, 'm) platform \<Rightarrow> nat \<Rightarrow> ('d, 'm, unit) host_op" where
  "cc_disable pf timeout_s =
     thenS (set_regs (\<lambda>r. r\<lparr>CC_EN := 0\<rparr>)) (
     thenS (set_pcie PCIe_Cmd ''BME'' 0) (
     thenS (wait_disabled pf (pf_rounds pf timeout_s)) (
     thenS clear_doorbells (
       modifyS (\<lambda>s. s\<lparr>host_queue_mgr := new_queue_mgr, outstanding := []\<rparr>)))))"

definition cc_enable :: "('d, 'm) platform \<Rightarrow> nat \<Rightarrow> ('d, 'm, unit) host_op" where
  "cc_enable pf timeout_s =
     thenS (set_regs (\<lambda>r. r\<lparr>CC_EN := 1\<rparr>)) (wait_enabled pf (pf_rounds pf timeout_s))"

section \<open>The admin queues\<close>

definition make_host_cq :: "nat \<Rightarrow> nat \<Rightarrow> nat \<Rightarrow> nat \<Rightarrow> nat \<Rightarrow> nat option \<Rightarrow> ('d, 'm, nat) host_op" where
  "make_host_cq base n esize qid' dbh_addr iv =
     bindS (make_cq base n esize qid' dbh_addr iv) (\<lambda>q s. (Inr (length (host_cqs s)), s\<lparr>host_cqs := host_cqs s @ [q]\<rparr>))"

definition mallocS :: "('d, 'm) platform \<Rightarrow> nat \<Rightarrow> dma_direction \<Rightarrow> ('d, 'm, mem_loc) host_op" where
  "mallocS pf n dir = (\<lambda>s. case pf_malloc pf (mem s) (mem_mgr s) n dir of
     Inl e \<Rightarrow> (Inl e, s) | Inr (l, m, mgr) \<Rightarrow> (Inr l, s\<lparr>mem := m, mem_mgr := mgr\<rparr>))"

text \<open>
  The objects of a queue pair are made and added to the queue manager; the queue identifiers are the ones the queues
  are made with.
\<close>

definition add_queue_pair :: "mem_loc \<Rightarrow> nat \<Rightarrow> nat \<Rightarrow> mem_loc \<Rightarrow> nat \<Rightarrow> nat \<Rightarrow> nat \<Rightarrow> ('d, 'm, unit) host_op" where
  "add_queue_pair sq_mem sq_entries sq_id cq_mem cq_entries cq_id cq_iv =
     bindS (getS (\<lambda>s. sqtail_addr s sq_id)) (\<lambda>dbt.
     bindS (make_sq (vaddr sq_mem) sq_entries 64 sq_id dbt) (\<lambda>sq.
     bindS (getS (\<lambda>s. cqhead_addr s cq_id)) (\<lambda>dbh.
     bindS (make_host_cq (vaddr cq_mem) cq_entries 16 cq_id dbh (Some cq_iv)) (\<lambda>cq.
       modifyS (\<lambda>s. s\<lparr>host_queue_mgr := qm_add sq_id sq cq_id cq (host_queue_mgr s)\<rparr>)))))"

text \<open>The registers that tell the controller about its admin queues and entry sizes, set while it may not use the bus.\<close>

definition program_admin_queues :: "nat \<Rightarrow> nat \<Rightarrow> nat \<Rightarrow> nat \<Rightarrow> ('d, 'm, unit) host_op" where
  "program_admin_queues asq_entries asq_iova acq_entries acq_iova =
     thenS (set_pcie PCIe_Cmd ''BME'' 0) (
     thenS (set_regs (\<lambda>r. r\<lparr>AQA_ASQS := word_of_int (int asq_entries - 1)\<rparr>)) (
     thenS (set_regs (\<lambda>r. r\<lparr>ASQ_ASQB := of_nat asq_iova\<rparr>)) (
     thenS (set_regs (\<lambda>r. r\<lparr>AQA_ACQS := word_of_int (int acq_entries - 1)\<rparr>)) (
     thenS (set_regs (\<lambda>r. r\<lparr>ACQ_ACQB := of_nat acq_iova\<rparr>)) (
     thenS (set_regs (\<lambda>r. r\<lparr>CC_IOSQES := 6\<rparr>)) (
     thenS (set_regs (\<lambda>r. r\<lparr>CC_IOCQES := 4\<rparr>)) (
     bindS (getS (\<lambda>s. CAP_CSS (regs s))) (\<lambda>css.
     thenS (if css = 0x40 then set_regs (\<lambda>r. r\<lparr>CC_CSS := 0x06\<rparr>) else retS ())
       (set_pcie PCIe_Cmd ''BME'' 1)))))))))"

definition init_admin_queues :: "('d, 'm) platform \<Rightarrow> nat \<Rightarrow> nat \<Rightarrow> ('d, 'm, unit) host_op" where
  "init_admin_queues pf asq_entries acq_entries =
     thenS (cc_disable pf 10) (
     bindS (mallocS pf (64 * asq_entries) HOST_TO_DEVICE) (\<lambda>asq_mem.
     bindS (mallocS pf (16 * acq_entries) DEVICE_TO_HOST) (\<lambda>acq_mem.
     thenS (program_admin_queues asq_entries (iova asq_mem) acq_entries (iova acq_mem))
       (add_queue_pair asq_mem asq_entries 0 acq_mem acq_entries 0 0))))"

end
