(* ===== verification/Host_Commands.thy ===== *)
theory Host_Commands
  imports Host_State Features
begin

text \<open>
  The host driver, second part: the life of a command. It is created, gets its data buffer (\<open>alloc\<close>), is posted
  with a new identifier (\<open>start_cmd\<close>), is found in a completion queue by polling or after an interrupt
  (\<open>get_completion\<close>) and completed, or all of it at once (\<open>sync_cmd\<close>).
\<close>

section \<open>Command objects\<close>

definition make_command :: "cmd_class \<Rightarrow> (string \<times> int) list \<Rightarrow> ('d, 'm, nat) host_op" where
  "make_command c kwargs = bindS (liftS (new_command c kwargs)) (\<lambda>bs s.
     (Inr (length (cmds s)),
      s\<lparr>cmds := cmds s @ [\<lparr>c_class = c, c_bytes = bs, c_sq = None, c_cq = None, c_posted = False, c_complete = False,
         c_cqe = zeros 16, c_data_in = map_option (\<lambda>t. zeros (csize t)) (cc_data_in c), c_prp = None\<rparr>]\<rparr>))"

definition commandS :: "nat \<Rightarrow> ('d, 'm, command) host_op" where
  "commandS i = bindS (getS cmds) (\<lambda>cs. liftS (list_get cs i))"

definition update_command :: "nat \<Rightarrow> (command \<Rightarrow> command) \<Rightarrow> ('d, 'm, unit) host_op" where
  "update_command i f = modifyS (\<lambda>s. s\<lparr>cmds := (cmds s)[i := f (cmds s ! i)]\<rparr>)"

definition set_cmd_attr :: "nat \<Rightarrow> string \<Rightarrow> int \<Rightarrow> ('d, 'm, unit) host_op" where
  "set_cmd_attr i name v = bindS (commandS i) (\<lambda>c.
     bindS (liftS (set_attr (cc_layout (c_class c)) (c_bytes c) (name, v))) (\<lambda>bs.
       update_command i (c_bytes_update (\<lambda>_. bs))))"

definition set_cmd_prp :: "nat \<Rightarrow> nat \<times> nat \<Rightarrow> nat \<Rightarrow> ('d, 'm, unit) host_op" where
  "set_cmd_prp i f v = update_command i (c_bytes_update (setf f v))"

definition c_cid :: "command \<Rightarrow> nat" where
  "c_cid c = getf SQE_CID (c_bytes c)"

text \<open>Using an attribute of an object that is None.\<close>

definition the_attr :: "'a option \<Rightarrow> ('s, 'a) st" where
  "the_attr x = liftS (case x of None \<Rightarrow> Inl AttributeError | Some y \<Rightarrow> Inr y)"

section \<open>Posting\<close>

definition post_command :: "('d, 'm) platform \<Rightarrow> nat \<Rightarrow> ('d, 'm, unit) host_op" where
  "post_command pf i =
     bindS alloc_cid (\<lambda>cid.
     thenS (update_command i (c_bytes_update (setf SQE_CID cid))) (
     bindS (commandS i) (\<lambda>c.
     bindS (the_attr (c_sq c)) (\<lambda>sq.
     thenS (storeS (\<lambda>m. sq_post_command m sq (c_bytes c))) (
     thenS (sharedS (pf_posted_command pf))
       (modifyS (\<lambda>s. s\<lparr>outstanding := AList.update (c_cid c, qid sq) i (outstanding s)\<rparr>)))))))"

text \<open>The queues for a command; \<open>get\<close> without identifiers gives a pair of numbers, which have no \<open>qid\<close>.\<close>

definition queues_for :: "nat option \<Rightarrow> nat option \<Rightarrow> ('d, 'm, nvme_queue \<times> nat) host_op" where
  "queues_for sqid cqid =
     bindS (getS host_queue_mgr) (\<lambda>qm.
     bindS (liftS (qm_get sqid cqid qm)) (\<lambda>g. case g of
       Ids a b \<Rightarrow> raiseS AttributeError
     | Queues sq cq \<Rightarrow> (case (sq, cq) of (Some q, Some c) \<Rightarrow> retS (q, c) | _ \<Rightarrow> raiseS AssertionError)))"

definition next_iosq :: "('d, 'm, nat option) host_op" where
  "next_iosq = (\<lambda>s. case qm_next_iosq_id (host_queue_mgr s) of
     Inl e \<Rightarrow> (Inl e, s) | Inr (i, qm) \<Rightarrow> (Inr i, s\<lparr>host_queue_mgr := qm\<rparr>))"

definition start_queues :: "nat option \<Rightarrow> nat option \<Rightarrow> command \<Rightarrow> ('d, 'm, nat option \<times> nat option) host_op" where
  "start_queues sqid cqid c =
     (if sqid = None
      then if cc_admin (c_class c) then retS (Some 0, Some 0) else bindS next_iosq (\<lambda>sqid. retS (sqid, cqid))
      else retS (sqid, cqid))"

text \<open>The rest of \<open>start_cmd\<close>: the command gets its queues before the checks whether it is posted already.\<close>

definition start_on :: "('d, 'm) platform \<Rightarrow> nat \<Rightarrow> nvme_queue \<Rightarrow> nat \<Rightarrow> ('d, 'm, unit) host_op" where
  "start_on pf i sq cq =
     thenS (update_command i (\<lambda>c. c\<lparr>c_sq := Some sq, c_cq := Some cq\<rparr>)) (
     bindS (commandS i) (\<lambda>c.
     bindS (getS outstanding) (\<lambda>out.
     thenS (assertS ((c_cid c, qid sq) \<notin> fst ` set out)) (
     thenS (assertS (\<not> c_posted c)) (
     thenS (assertS (\<not> c_complete c)) (
     thenS (post_command pf i) (update_command i (c_posted_update (\<lambda>_. True)))))))))"

definition start_cmd :: "('d, 'm) platform \<Rightarrow> nat \<Rightarrow> nat option \<Rightarrow> nat option \<Rightarrow> ('d, 'm, nat option \<times> nat) host_op" where
  "start_cmd pf i sqid cqid =
     bindS (commandS i) (\<lambda>c.
     bindS (start_queues sqid cqid c) (\<lambda>(sqid, cqid).
     bindS (queues_for sqid cqid) (\<lambda>(sq, cq).
     thenS (start_on pf i sq cq) (bindS (getS (\<lambda>s. qid (host_cqs s ! cq))) (\<lambda>cqid'. retS (sqid, cqid'))))))"

section \<open>Completion\<close>

text \<open>\<open>data_in_type.from_buffer_copy\<close>\<close>

definition buffer_copy :: "nat \<Rightarrow> byte list \<Rightarrow> byte list res" where
  "buffer_copy n bs = (if length bs < n then Inl ValueError else Inr (take n bs))"

definition copy_data_in :: "nat \<Rightarrow> ('d, 'm, unit) host_op" where
  "copy_data_in i =
     bindS (commandS i) (\<lambda>c. case c_data_in c of
       None \<Rightarrow> retS ()
     | Some _ \<Rightarrow>
         bindS (the_attr (c_prp c)) (\<lambda>p.
         bindS (getS mem) (\<lambda>m.
         bindS (liftS (get_data_buffer m p)) (\<lambda>bs.
         bindS (the_attr (cc_data_in (c_class c))) (\<lambda>t.
         bindS (liftS (buffer_copy (csize t) bs)) (\<lambda>data.
           update_command i (c_data_in_update (\<lambda>_. Some data))))))))"

definition consume_host :: "nat \<Rightarrow> ('d, 'm, unit) host_op" where
  "consume_host cq = (\<lambda>s. case consume_completion (mem s) (host_cqs s ! cq) of
     (m, q) \<Rightarrow> (Inr (), s\<lparr>mem := m, host_cqs := (host_cqs s)[cq := q]\<rparr>))"

text \<open>
  \<open>complete_command\<close> gets the completion as an object over its slot in the ring, at the address \<open>cqe\<close>; the last
  statement reads the slot again, after the head has moved past it.
\<close>

definition cqe_field :: "nat \<times> nat \<Rightarrow> nat \<Rightarrow> ('d, 'm, nat) host_op" where
  "cqe_field f cqe = getS (\<lambda>s. getf f (read_bytes (mem s) cqe 16))"

definition complete_command :: "nat \<Rightarrow> nat \<Rightarrow> ('d, 'm, unit) host_op" where
  "complete_command i cqe =
     bindS (commandS i) (\<lambda>c.
     thenS (assertS (c_posted c)) (
     bindS (cqe_field CQE_CID cqe) (\<lambda>cid.
     thenS (assertS (c_cid c = cid)) (
     bindS (the_attr (c_sq c)) (\<lambda>sq.
     bindS (cqe_field CQE_SQID cqe) (\<lambda>sqid.
     thenS (assertS (qid sq = sqid)) (
     bindS (getS (\<lambda>s. read_bytes (mem s) cqe 16)) (\<lambda>entry.
     thenS (update_command i (\<lambda>c. c\<lparr>c_posted := False, c_complete := True, c_cqe := entry\<rparr>)) (
     bindS (getS outstanding) (\<lambda>out.
     thenS (if (c_cid c, qid sq) \<in> fst ` set out
            then modifyS (\<lambda>s. s\<lparr>outstanding := AList.delete (c_cid c, qid sq) out\<rparr>) else raiseS KeyError) (
     thenS (copy_data_in i) (
     bindS (the_attr (c_cq c)) (\<lambda>cq.
     thenS (consume_host cq) (
     bindS (cqe_field CQE_SQHD cqe) (\<lambda>sqhd.
       storeS (\<lambda>m. Inr (ht_set m (head sq) sqhd)))))))))))))))))"

definition cq_of :: "nat \<Rightarrow> ('d, 'm, nat) host_op" where
  "cq_of cqid =
     bindS (getS host_queue_mgr) (\<lambda>qm.
     bindS (liftS (if cqid = 0 then qm_get (Some 0) (Some 0) qm else qm_get None (Some cqid) qm)) (\<lambda>g. case g of
       Queues _ (Some cq) \<Rightarrow> retS cq | _ \<Rightarrow> raiseS AttributeError))"

definition get_completion :: "nat \<Rightarrow> ('d, 'm, bool) host_op" where
  "get_completion cqid =
     bindS (cq_of cqid) (\<lambda>cq.
     bindS (getS (\<lambda>s. get_next_completion (mem s) (host_cqs s ! cq))) (\<lambda>cqe.
     bindS (cqe_field CQE_P cqe) (\<lambda>p.
     bindS (getS (\<lambda>s. phase (host_cqs s ! cq))) (\<lambda>ph.
     if p = ph
     then bindS (cqe_field CQE_CID cqe) (\<lambda>cid.
          bindS (cqe_field CQE_SQID cqe) (\<lambda>sqid.
          bindS (getS outstanding) (\<lambda>out.
          bindS (liftS (case map_of out (cid, sqid) of None \<Rightarrow> Inl KeyError | Some i \<Rightarrow> Inr i)) (\<lambda>i.
          thenS (complete_command i cqe) (retS True)))))
     else retS False))))"

section \<open>Evaluation\<close>

lemma assertS_Inr_iff [simp]: "assertS b s = (Inr u, s') \<longleftrightarrow> b \<and> s' = s"
  by auto

lemma thenS_assertS [simp]: "thenS (assertS b) f s = (if b then f s else (Inl AssertionError, s))"
  by (simp add: thenS_def bindS_apply)

lemma commandS_apply: "commandS i s = (if i < length (cmds s) then Inr (cmds s ! i) else Inl IndexError, s)"
  by (simp add: commandS_def list_get_def)

lemma list_get_eq_Inr [simp]: "list_get xs i = Inr x \<longleftrightarrow> i < length xs \<and> x = xs ! i"
  by (auto simp: list_get_def)

lemma commandS_Inr [simp]: "commandS i s = (Inr c, s') \<longleftrightarrow> i < length (cmds s) \<and> c = cmds s ! i \<and> s' = s"
  by (auto simp: commandS_def bindS_apply list_get_def)

lemma the_attr_Inr [simp]: "the_attr x s = (Inr y, s') \<longleftrightarrow> x = Some y \<and> s' = s"
  by (auto simp: the_attr_def split: option.splits)

lemma cqe_field_apply [simp]: "cqe_field f a s = (Inr (getf f (read_bytes (mem s) a 16)), s)"
  by (simp add: cqe_field_def)

lemma delete_shorter: "k \<in> fst ` set al \<Longrightarrow> length (AList.delete k al) < length al"
  by (induction al) (auto simp: AList.delete_eq intro: le_imp_less_Suc length_filter_le)

lemma outstanding_copy: "copy_data_in i s = (r, s') \<Longrightarrow> outstanding s' = outstanding s"
proof -
  have "keeps (\<lambda>t. outstanding t = outstanding s) (copy_data_in i)"
    unfolding copy_data_in_def commandS_def the_attr_def update_command_def
    by (auto intro!: keeps_intros keeps_modify split: option.split)
  from keepsD [OF this] show "copy_data_in i s = (r, s') \<Longrightarrow> outstanding s' = outstanding s" by blast
qed

lemma complete_command_shorter:
  assumes "complete_command i cqe s = (Inr u, s')"
  shows "length (outstanding s') < length (outstanding s)"
  using assms unfolding complete_command_def
  by (auto simp: st_iffs update_command_def consume_host_def storeS_def case_prod_beta dest!: outstanding_copy
      split: if_splits intro!: delete_shorter) (force simp: case_prod_beta)+

lemma get_completion_shorter:
  assumes "get_completion cqid s = (Inr True, s')"
  shows "length (outstanding s') < length (outstanding s)"
proof -
  have cq: "cq_of cqid s = (r, t) \<Longrightarrow> t = s" for r t
    by (auto simp: cq_of_def bindS_apply raiseS_def retS_def split: sum.splits got.splits option.splits if_splits)
  show ?thesis
    using assms unfolding get_completion_def
    by (auto simp: st_iffs complete_command_shorter dest: cq split: if_splits option.splits)
qed

end
