(* ===== verification/Host_Sync.thy ===== *)
theory Host_Sync
  imports Host_Commands
begin

text \<open>
  The host driver, third part: the loops that look for completions, by polling and after MSI-X interrupts, synchronous
  commands, and the allocation of data buffers. Each waiting loop has the number of rounds that start in time.
\<close>

section \<open>Looking for completions\<close>

datatype cqids = AllCqs | OneCq nat | ListCqs "nat list"

fun count_completions :: "nat list \<Rightarrow> nat \<Rightarrow> ('d, 'm, nat) host_op" where
  "count_completions [] k = retS k"
| "count_completions (cqid # cqids) k =
     bindS (get_completion cqid) (\<lambda>found. count_completions cqids (if found then k + 1 else k))"

definition cqids_of :: "cqids \<Rightarrow> ('d, 'm, nat list) host_op" where
  "cqids_of c = (case c of
     AllCqs \<Rightarrow> (\<lambda>s. (collect_vectors (\<lambda>cq. qid (host_cqs s ! cq)) (qm_get_cqs (host_queue_mgr s)), s))
   | OneCq cqid \<Rightarrow> retS [cqid]
   | ListCqs l \<Rightarrow> retS l)"

text \<open>The polling loop with the rounds left before the time is up; the time is looked at in every round, even the first.\<close>

fun poll_loop :: "('d, 'm) platform \<Rightarrow> nat \<Rightarrow> nat list \<Rightarrow> nat \<Rightarrow> nat \<Rightarrow> ('d, 'm, nat) host_op" where
  "poll_loop pf n cqids max_completions num_completions =
     bindS (count_completions cqids num_completions) (\<lambda>num_completions.
     if num_completions \<ge> max_completions then retS num_completions
     else (case n of
       0 \<Rightarrow> retS num_completions
     | Suc n \<Rightarrow> bindS (getS regs) (\<lambda>r.
         if CSTS_CFS r = 1 then retS num_completions
         else thenS (sleepS pf) (poll_loop pf n cqids max_completions num_completions))))"

definition poll_cq_completions :: "('d, 'm) platform \<Rightarrow> cqids \<Rightarrow> nat \<Rightarrow> nat \<Rightarrow> ('d, 'm, nat) host_op" where
  "poll_cq_completions pf cqids max_completions max_time_s =
     bindS (cqids_of cqids) (\<lambda>l. poll_loop pf (pf_rounds pf max_time_s) l max_completions 0)"

text \<open>
  \<open>get_msix_completions\<close>. The inner loop ends because every completion found takes a command off the outstanding ones.
\<close>

function drain :: "nat \<Rightarrow> ('d, 'm, nat) host_op" where
  "drain cqid s = (case get_completion cqid s of
     (Inl e, s') \<Rightarrow> (Inl e, s')
   | (Inr found, s') \<Rightarrow> if found then (case drain cqid s' of (Inl e, t) \<Rightarrow> (Inl e, t) | (Inr k, t) \<Rightarrow> (Inr (k + 1), t)) else (Inr 0, s'))"
  by auto
termination
  by (relation "measure (\<lambda>(cqid, s). length (outstanding s))") (auto dest: get_completion_shorter [OF sym])

declare drain.simps [simp del]

fun msix_pass :: "('d, 'm) platform \<Rightarrow> nat option list \<Rightarrow> nat \<Rightarrow> ('d, 'm, nat) host_op" where
  "msix_pass pf [] k = retS k"
| "msix_pass pf (cq # cqs) k =
     bindS (the_attr cq) (\<lambda>cq.
     bindS (getS (\<lambda>s. (int_vector (host_cqs s ! cq), qid (host_cqs s ! cq)))) (\<lambda>(vector, cqid).
     bindS (sharedS (pf_pending_count pf vector)) (\<lambda>pending.
     bindS (if pending \<noteq> 0 then drain cqid else retS 0) (\<lambda>found. msix_pass pf cqs (k + found)))))"

fun msix_loop :: "('d, 'm) platform \<Rightarrow> nat \<Rightarrow> nat option list \<Rightarrow> nat \<Rightarrow> nat \<Rightarrow> ('d, 'm, nat) host_op" where
  "msix_loop pf n cqs max_completions num_completions =
     thenS (sleepS pf) (
     bindS (msix_pass pf cqs num_completions) (\<lambda>num_completions.
     if num_completions \<ge> max_completions then retS num_completions
     else (case n of
       0 \<Rightarrow> retS num_completions
     | Suc n \<Rightarrow> bindS (getS regs) (\<lambda>r.
         if CSTS_CFS r = 1 then retS num_completions else msix_loop pf n cqs max_completions num_completions))))"

definition msix_cqs :: "cqids \<Rightarrow> ('d, 'm, nat option list) host_op" where
  "msix_cqs c =
     bindS (getS host_queue_mgr) (\<lambda>qm. case c of
       AllCqs \<Rightarrow> retS (qm_get_cqs qm)
     | OneCq cqid \<Rightarrow> bindS (liftS (qm_get None (Some cqid) qm)) (\<lambda>g. case g of
         Queues _ (Some cq) \<Rightarrow> retS [Some cq] | _ \<Rightarrow> retS [])
     | ListCqs _ \<Rightarrow> raiseS AssertionError)"

definition get_msix_completions :: "('d, 'm) platform \<Rightarrow> cqids \<Rightarrow> nat \<Rightarrow> nat \<Rightarrow> ('d, 'm, nat) host_op" where
  "get_msix_completions pf cqids max_completions max_time_s =
     bindS (msix_cqs cqids) (\<lambda>cqs.
       if cqs = [] then retS 0 else msix_loop pf (pf_rounds pf max_time_s) cqs max_completions 0)"

text \<open>\<open>get_completions\<close> is the polling method until MSI-X interrupts are initialised.\<close>

definition get_completions :: "('d, 'm) platform \<Rightarrow> cqids \<Rightarrow> nat \<Rightarrow> nat \<Rightarrow> ('d, 'm, nat) host_op" where
  "get_completions pf cqids max_completions max_time_s =
     bindS (getS host_int_type) (\<lambda>t.
       if t = MSIX then get_msix_completions pf cqids max_completions max_time_s
       else poll_cq_completions pf cqids max_completions max_time_s)"

definition process_completions :: "('d, 'm) platform \<Rightarrow> cqids \<Rightarrow> nat \<Rightarrow> nat \<Rightarrow> ('d, 'm, nat) host_op" where
  "process_completions pf cqids max_completions max_time_s = get_completions pf cqids max_completions max_time_s"

section \<open>Synchronous commands\<close>

definition sync_cmd :: "('d, 'm) platform \<Rightarrow> nat \<Rightarrow> nat option \<Rightarrow> nat option \<Rightarrow> nat \<Rightarrow> bool \<Rightarrow> ('d, 'm, unit) host_op" where
  "sync_cmd pf i sqid cqid timeout_s check =
     thenS (start_cmd pf i sqid cqid) (
     bindS (commandS i) (\<lambda>c.
     bindS (the_attr (c_cq c)) (\<lambda>cq.
     bindS (getS (\<lambda>s. qid (host_cqs s ! cq))) (\<lambda>cqid.
     thenS (get_completions pf (OneCq cqid) 1 timeout_s) (
     bindS (commandS i) (\<lambda>c.
     thenS (assertS (c_complete c))
       (if check then liftS (sc_check status_codes (c_class c) (getf CQE_SCT (c_cqe c)) (getf CQE_SC (c_cqe c)) True)
        else retS ())))))))"

section \<open>Data buffers\<close>

text \<open>\<open>alloc\<close>; no command class of the repository has a \<open>data_out_type\<close>.\<close>

definition buffer_size :: "command \<Rightarrow> nat option \<Rightarrow> (dma_direction \<times> nat) res" where
  "buffer_size c bytes_per_block =
     (let n = cc_name (c_class c) in
      if n = ''Write'' \<or> n = ''Read''
      then (case bytes_per_block of
          None \<Rightarrow> Inl AssertionError
        | Some b \<Rightarrow> bindR (case get_attr (cc_layout (c_class c)) ''NLB'' (c_bytes c) of
              None \<Rightarrow> Inl AttributeError | Some nlb \<Rightarrow> Inr nlb) (\<lambda>nlb.
            Inr (if n = ''Write'' then HOST_TO_DEVICE else DEVICE_TO_HOST, (nlb + 1) * b)))
      else (case (cc_data_in (c_class c), c_data_in c) of
          (Some _, Some data) \<Rightarrow> Inr (DEVICE_TO_HOST, length data)
        | _ \<Rightarrow> Inl AssertionError))"

definition new_prpS :: "('d, 'm) platform \<Rightarrow> nat \<Rightarrow> dma_direction \<Rightarrow> ('d, 'm, prp) host_op" where
  "new_prpS pf n dir = (\<lambda>s. case new_prp (pf_malloc pf) n (pf_page_size pf) dir (mem s) (mem_mgr s) of
     Inl e \<Rightarrow> (Inl e, s) | Inr (p, m, mgr) \<Rightarrow> (Inr p, s\<lparr>mem := m, mem_mgr := mgr\<rparr>))"

definition alloc :: "('d, 'm) platform \<Rightarrow> nat \<Rightarrow> nat option \<Rightarrow> ('d, 'm, unit) host_op" where
  "alloc pf i bytes_per_block =
     bindS (commandS i) (\<lambda>c.
     bindS (liftS (buffer_size c bytes_per_block)) (\<lambda>(dir, n).
     bindS (new_prpS pf n dir) (\<lambda>p.
     thenS (update_command i (c_prp_update (\<lambda>_. Some p))) (
     thenS (set_cmd_prp i SQE_PRP1 (prp1 p))
       (set_cmd_prp i SQE_PRP2 (prp2 p))))))"

end
