(* ===== verification/Host_Wf.thy ===== *)
theory Host_Wf
  imports Host_Sync
begin

text \<open>
  What holds of the driver at all times: its references are valid, its commands keep the sizes of their classes, and
  the dictionary of outstanding commands agrees with the commands.
\<close>

section \<open>Well-formed driver states\<close>

definition command_wf :: "nat \<Rightarrow> command \<Rightarrow> bool" where
  "command_wf n c \<longleftrightarrow> length (c_bytes c) = csize (cc_layout (c_class c)) \<and> length (c_cqe c) = 16 \<and>
     (\<forall>k. c_cq c = Some k \<longrightarrow> k < n) \<and> (c_posted c \<longrightarrow> \<not> c_complete c) \<and>
     map_option length (c_data_in c) = map_option csize (cc_data_in (c_class c))"

definition refs_wf :: "nat \<Rightarrow> (nvme_queue, nat) queue_mgr \<Rightarrow> bool" where
  "refs_wf n qm \<longleftrightarrow> (\<forall>(k, v) \<in> set (nvme_queues qm). \<forall>r. snd v = Some r \<longrightarrow> r < n)"

definition outstanding_wf :: "command list \<Rightarrow> ((nat \<times> nat) \<times> nat) list \<Rightarrow> bool" where
  "outstanding_wf cs out \<longleftrightarrow> distinct (map fst out) \<and> (\<forall>((cid, sqid), i) \<in> set out. i < length cs \<and>
     c_posted (cs ! i) \<and> c_cid (cs ! i) = cid \<and> (\<exists>sq. c_sq (cs ! i) = Some sq \<and> qid sq = sqid) \<and> c_cq (cs ! i) \<noteq> None)"

definition cid_wf :: "cid_mgr \<Rightarrow> bool" where
  "cid_wf c \<longleftrightarrow> init_value c = 0x1000 \<and> max_value c = 0xFFFE \<and> 0x1000 \<le> cid_value c \<and> cid_value c < 0xFFFE"

definition host_wf :: "('d, 'm) host \<Rightarrow> bool" where
  "host_wf s \<longleftrightarrow> refs_wf (length (host_cqs s)) (host_queue_mgr s) \<and>
     (\<forall>c \<in> set (cmds s). command_wf (length (host_cqs s)) c) \<and> outstanding_wf (cmds s) (outstanding s) \<and>
     cid_wf (cid_mgr s)"

lemma host_wf_shared [simp]:
  "host_wf (s\<lparr>mem := m\<rparr>) = host_wf s" "host_wf (s\<lparr>regs := r\<rparr>) = host_wf s" "host_wf (s\<lparr>pcie := p\<rparr>) = host_wf s"
  "host_wf (s\<lparr>nvme_event := e\<rparr>) = host_wf s" "host_wf (s\<lparr>pcie_event := e\<rparr>) = host_wf s" "host_wf (s\<lparr>cells := c\<rparr>) = host_wf s"
  "host_wf (s\<lparr>dev := d\<rparr>) = host_wf s" "host_wf (s\<lparr>mem_mgr := g\<rparr>) = host_wf s"
  "host_wf (shared.extend t (shared.more s)) = host_wf s"
  by (simp_all add: host_wf_def)

lemma keeps_wf_shared [keeps_intros]:
  "keeps host_wf (sharedS f)" "keeps host_wf (sleepS pf)" "keeps host_wf (storeS g)" "keeps host_wf (set_regs h)"
  "keeps host_wf (set_pcie rc n v)" "keeps host_wf clear_doorbells" "keeps host_wf (mallocS pf k dir)"
  "keeps host_wf (new_prpS pf k dir)" "keeps host_wf (make_sq b j e i d)"
  by (auto simp: keeps_def sharedS_def sleepS_def storeS_def set_pcie_def clear_doorbells_def mallocS_def new_prpS_def
      make_sq_def Let_def split: prod.splits sum.splits)

section \<open>Identifiers\<close>

lemma alloc_cid_apply: "alloc_cid s = (Inr (cid_value (cid_mgr s)), s\<lparr>cid_mgr := snd (cid_alloc (cid_mgr s))\<rparr>)"
  by (simp add: alloc_cid_def cid_alloc_def Let_def)

lemma cid_alloc_wf: "cid_wf c \<Longrightarrow> cid_wf (snd (cid_alloc c))"
  by (auto simp: cid_alloc_def cid_wf_def Let_def)

lemma keeps_alloc_cid [keeps_intros]: "keeps host_wf alloc_cid"
  by (auto simp: keeps_def alloc_cid_apply host_wf_def cid_alloc_wf)

section \<open>Commands\<close>

lemma length_set_attr: "set_attr t bs nv = Inr bs' \<Longrightarrow> length bs' = length bs"
  by (auto simp: set_attr_def split: attr_kind.splits)

lemma length_set_attrs: "set_attrs t nvs bs = Inr bs' \<Longrightarrow> length bs' = length bs"
  by (induction nvs arbitrary: bs) (auto simp: bindR_eq_Inr_iff dest!: length_set_attr)

lemma length_new_command: "new_command c kwargs = Inr bs \<Longrightarrow> length bs = csize (cc_layout c)"
  by (auto simp: new_command_def bindR_eq_Inr_iff dest!: length_set_attrs)

lemma outstanding_wf_append: "outstanding_wf cs out \<Longrightarrow> outstanding_wf (cs @ [c]) out"
  by (fastforce simp: outstanding_wf_def nth_append)

lemma outstanding_wf_update:
  assumes "outstanding_wf cs out"
    and "c_posted (cs ! i) \<Longrightarrow> c_posted c \<and> c_cid c = c_cid (cs ! i) \<and> c_sq c = c_sq (cs ! i) \<and> c_cq c = c_cq (cs ! i)"
  shows "outstanding_wf (cs[i := c]) out"
proof -
  have "c_posted (cs ! j) \<Longrightarrow> j < length cs \<Longrightarrow> c_posted (cs[i := c] ! j) \<and> c_cid (cs[i := c] ! j) = c_cid (cs ! j) \<and>
    c_sq (cs[i := c] ! j) = c_sq (cs ! j) \<and> c_cq (cs[i := c] ! j) = c_cq (cs ! j)" for j
    using assms(2) by (cases "i = j") auto
  with assms(1) show ?thesis by (auto simp: outstanding_wf_def split: prod.splits)
qed

lemma command_at_wf: "host_wf s \<Longrightarrow> i < length (cmds s) \<Longrightarrow> command_wf (length (host_cqs s)) (cmds s ! i)"
  by (simp add: host_wf_def)

lemma update_command_wf:
  assumes "host_wf s" "command_wf (length (host_cqs s)) (f (cmds s ! i))"
    and "c_posted (cmds s ! i) \<Longrightarrow> c_posted (f (cmds s ! i)) \<and> c_cid (f (cmds s ! i)) = c_cid (cmds s ! i) \<and>
      c_sq (f (cmds s ! i)) = c_sq (cmds s ! i) \<and> c_cq (f (cmds s ! i)) = c_cq (cmds s ! i)"
  shows "host_wf (s\<lparr>cmds := (cmds s)[i := f (cmds s ! i)]\<rparr>)"
  using assms outstanding_wf_update [of "cmds s" "outstanding s" i "f (cmds s ! i)"]
  by (auto simp: host_wf_def dest!: set_update_subset_insert [THEN subsetD])

lemma keeps_make_command [keeps_intros]: "keeps host_wf (make_command c kwargs)"
  by (auto simp: keeps_def make_command_def bindS_apply host_wf_def outstanding_wf_append command_wf_def
      option.map_comp comp_def dest!: length_new_command split: sum.splits)

lemma keeps_update:
  assumes "\<And>c n. command_wf n c \<Longrightarrow> command_wf n (f c)"
    and "\<And>c. c_posted (f c) = c_posted c \<and> c_cid (f c) = c_cid c \<and> c_sq (f c) = c_sq c \<and> c_cq (f c) = c_cq c"
  shows "keeps host_wf (update_command i f)"
proof (unfold keeps_def, intro allI impI)
  fix s :: "('a, 'b) host" assume wf: "host_wf s"
  show "host_wf (snd (update_command i f s))"
  proof (cases "i < length (cmds s)")
    case True
    then show ?thesis
      using update_command_wf [OF wf, of f i] assms command_at_wf [OF wf True] by (simp add: update_command_def)
  qed (use wf in \<open>simp add: update_command_def list_update_beyond\<close>)
qed

section \<open>Starting a command\<close>

lemma command_wf_setf: "command_wf n c \<Longrightarrow> command_wf n (c_bytes_update (setf f v) c)"
  by (simp add: command_wf_def)

lemma update_unposted_wf:
  assumes "host_wf s" "i < length (cmds s)" "\<not> c_posted (cmds s ! i)" "command_wf (length (host_cqs s)) c"
  shows "host_wf (s\<lparr>cmds := (cmds s)[i := c]\<rparr>)"
  using update_command_wf [OF assms(1), of "\<lambda>_. c" i] assms(3,4) by simp

text \<open>What posting does to a command that has its queues.\<close>

lemma post_command_result:
  assumes "i < length (cmds s)" "c_sq (cmds s ! i) = Some sq"
  defines "c \<equiv> c_bytes_update (setf SQE_CID (cid_value (cid_mgr s))) (cmds s ! i)"
  defines "s1 \<equiv> s\<lparr>cid_mgr := snd (cid_alloc (cid_mgr s)), cmds := (cmds s)[i := c]\<rparr>"
  shows "post_command pf i s =
    (case sq_post_command (mem s) sq (c_bytes c) of
       Inl e \<Rightarrow> (Inl e, s1)
     | Inr m \<Rightarrow> (case sharedS (pf_posted_command pf) (s1\<lparr>mem := m\<rparr>) of
         (Inl e, s2) \<Rightarrow> (Inl e, s2)
       | (Inr _, s2) \<Rightarrow> (Inr (), s2\<lparr>outstanding := AList.update (c_cid c, qid sq) i (outstanding s2)\<rparr>)))"
  using assms(1,2) unfolding post_command_def s1_def c_def
  by (auto simp: alloc_cid_apply update_command_def bindS_apply thenS_def commandS_apply the_attr_def storeS_def
      split: sum.splits prod.splits)

lemma outstanding_wf_insert:
  assumes "outstanding_wf cs out" "i < length cs" "\<not> c_posted (cs ! i)" "c_sq (cs ! i) = Some sq" "c_cq (cs ! i) \<noteq> None"
  shows "outstanding_wf (cs[i := (cs ! i)\<lparr>c_posted := True\<rparr>]) (AList.update (c_cid (cs ! i), qid sq) i out)"
proof -
  let ?k = "(c_cid (cs ! i), qid sq)" and ?cs = "cs[i := (cs ! i)\<lparr>c_posted := True\<rparr>]"
  have "outstanding_wf ?cs out" using outstanding_wf_update [OF assms(1), of i] assms(3) by simp
  moreover have "x \<in> set (AList.update ?k i out) \<Longrightarrow> x = (?k, i) \<or> x \<in> set out" for x
    by (induction out) (auto split: if_splits)
  moreover have "distinct (map fst (AList.update ?k i out))" if "distinct (map fst out)"
    using that by (rule distinct_update)
  ultimately show ?thesis
    using assms(2-5) by (fastforce simp: outstanding_wf_def c_cid_def)
qed

lemma keeps_queues [keeps_intros]: "keeps P (queues_for sqid cqid)"
  unfolding queues_for_def by (auto intro!: keeps_intros split: got.splits prod.splits option.splits)

lemma qm_next_queues: "qm_next_iosq_id qm = Inr (i, qm') \<Longrightarrow> nvme_queues qm' = nvme_queues qm"
  by (auto simp: qm_next_iosq_id_def bindR_eq_Inr_iff Let_def split: if_splits)

lemma keeps_next_iosq [keeps_intros]: "keeps host_wf next_iosq"
  by (auto simp: keeps_def next_iosq_def host_wf_def refs_wf_def dest!: qm_next_queues split: sum.splits prod.splits)

lemma post_command_started_wf:
  assumes "host_wf s" "i < length (cmds s)" "\<not> c_posted (cmds s ! i)" "\<not> c_complete (cmds s ! i)"
    and "c_sq (cmds s ! i) = Some sq" "c_cq (cmds s ! i) \<noteq> None"
    and "thenS (post_command pf i) (update_command i (c_posted_update (\<lambda>_. True))) s = (r, s')"
  shows "host_wf s' \<and> host_cqs s' = host_cqs s"
proof -
  define c where "c = c_bytes_update (setf SQE_CID (cid_value (cid_mgr s))) (cmds s ! i)"
  define s1 where "s1 = s\<lparr>cid_mgr := snd (cid_alloc (cid_mgr s)), cmds := (cmds s)[i := c]\<rparr>"
  have c: "\<not> c_posted c" "c_sq c = Some sq" "c_cq c \<noteq> None" "\<not> c_complete c" "command_wf (length (host_cqs s)) c"
    using assms(3-6) command_at_wf [OF assms(1,2)] by (simp_all add: c_def command_wf_setf)
  have wf1: "host_wf s1"
    using update_unposted_wf [OF assms(1-3) c(5)] cid_alloc_wf by (simp add: s1_def host_wf_def)
  have post: "post_command pf i s =
    (case sq_post_command (mem s) sq (c_bytes c) of
       Inl e \<Rightarrow> (Inl e, s1)
     | Inr m \<Rightarrow> (case sharedS (pf_posted_command pf) (s1\<lparr>mem := m\<rparr>) of
         (Inl e, s2) \<Rightarrow> (Inl e, s2)
       | (Inr _, s2) \<Rightarrow> (Inr (), s2\<lparr>outstanding := AList.update (c_cid c, qid sq) i (outstanding s2)\<rparr>)))"
    using post_command_result [OF assms(2,5)] unfolding c_def s1_def .
  show ?thesis
  proof (cases "sq_post_command (mem s) sq (c_bytes c)")
    case (Inl e)
    then show ?thesis using post assms(7) wf1 by (auto simp: s1_def)
  next
    case (Inr m)
    obtain r2 s2 where hook: "sharedS (pf_posted_command pf) (s1\<lparr>mem := m\<rparr>) = (r2, s2)"
      by (cases "sharedS (pf_posted_command pf) (s1\<lparr>mem := m\<rparr>)")
    have wf2: "host_wf s2" using keepsD [OF keeps_wf_shared(1) _ hook] wf1 by simp
    have same: "cmds s2 = (cmds s)[i := c]" "host_cqs s2 = host_cqs s" "outstanding s2 = outstanding s1"
      using hook by (auto simp: sharedS_def s1_def split: prod.splits)
    show ?thesis
    proof (cases r2)
      case (Inl e)
      then show ?thesis using post assms(7) Inr hook wf2 same by auto
    next
      case (Inr u)
      have "outstanding_wf ((cmds s2)[i := c\<lparr>c_posted := True\<rparr>]) (AList.update (c_cid c, qid sq) i (outstanding s2))"
        using outstanding_wf_insert [of "cmds s2" "outstanding s2" i sq] wf2 same assms(2) c by (simp add: host_wf_def)
      moreover have "command_wf (length (host_cqs s)) (c\<lparr>c_posted := True\<rparr>)" using c by (simp add: command_wf_def)
      moreover have "s' = s2\<lparr>outstanding := AList.update (c_cid c, qid sq) i (outstanding s2), cmds := (cmds s2)[i := c\<lparr>c_posted := True\<rparr>]\<rparr>"
        using post assms(2,7) \<open>sq_post_command (mem s) sq (c_bytes c) = Inr m\<close> hook Inr same by (auto simp: update_command_def)
      ultimately show ?thesis
        using wf2 same assms(1) by (auto simp: host_wf_def dest!: set_update_subset_insert [THEN subsetD])
    qed
  qed
qed

lemma find_in_set: "find P xs = Some x \<Longrightarrow> x \<in> set xs"
  by (auto simp: find_Some_iff)

lemma qm_get_ref:
  assumes "refs_wf n qm" "qm_get sqid cqid qm = Inr (Queues x (Some r))"
  shows "r < n"
proof -
  have "\<exists>k v. (k, v) \<in> set (nvme_queues qm) \<and> snd v = Some r"
  proof (cases sqid)
    case None
    then show ?thesis using assms(2)
      by (cases cqid) (auto split: option.splits list.splits prod.splits dest!: find_in_set)
  next
    case (Some a)
    then show ?thesis using assms(2)
      by (cases cqid) (auto split: option.splits prod.splits dest!: find_in_set map_of_SomeD)
  qed
  then show ?thesis using assms(1) by (auto simp: refs_wf_def)
qed

lemma queues_for_result:
  assumes "queues_for sqid cqid s = (r, s')"
  shows "s' = s \<and> (\<forall>sq cq. r = Inr (sq, cq) \<longrightarrow> qm_get sqid cqid (host_queue_mgr s) = Inr (Queues (Some sq) (Some cq)))"
  using assms by (auto simp: queues_for_def bindS_apply raiseS_def retS_def split: sum.splits got.splits option.splits)

lemma start_queues_result:
  assumes "start_queues sqid cqid c s = (r, s')"
  shows "\<exists>qm. s' = s\<lparr>host_queue_mgr := qm\<rparr> \<and> nvme_queues qm = nvme_queues (host_queue_mgr s)"
  using assms by (auto simp: start_queues_def bindS_apply next_iosq_def split: if_splits sum.splits prod.splits
      dest!: qm_next_queues intro: exI [of _ "host_queue_mgr s"])

lemma start_on_wf:
  assumes "host_wf s" "i < length (cmds s)" "\<not> c_posted (cmds s ! i)" "cq < length (host_cqs s)"
    and "start_on pf i sq cq s = (r, s')"
  shows "host_wf s' \<and> host_cqs s' = host_cqs s"
proof -
  let ?c = "(cmds s ! i)\<lparr>c_sq := Some sq, c_cq := Some cq\<rparr>"
  define s1 where "s1 = s\<lparr>cmds := (cmds s)[i := ?c]\<rparr>"
  have "command_wf (length (host_cqs s)) ?c"
    using command_at_wf [OF assms(1,2)] assms(4) by (simp add: command_wf_def)
  then have wf1: "host_wf s1" "host_cqs s1 = host_cqs s" using update_unposted_wf [OF assms(1-3)] by (simp_all add: s1_def)
  have eq: "start_on pf i sq cq s = (if (c_cid ?c, qid sq) \<notin> fst ` set (outstanding s) \<and> \<not> c_complete ?c
      then thenS (post_command pf i) (update_command i (c_posted_update (\<lambda>_. True))) s1 else (Inl AssertionError, s1))"
    using assms(2,3) by (simp add: start_on_def update_command_def commandS_apply s1_def)
  then show ?thesis
    using post_command_started_wf [OF wf1(1), of i sq pf r s'] assms(2,3,5) wf1
    by (auto simp: s1_def c_cid_def split: if_splits)
qed

text \<open>\<open>start_cmd\<close> keeps the driver well-formed unless the command is posted already.\<close>

lemma start_cmd_wf:
  assumes "host_wf s" "i < length (cmds s) \<Longrightarrow> \<not> c_posted (cmds s ! i)" "start_cmd pf i sqid cqid s = (r, s')"
  shows "host_wf s'"
proof (cases "i < length (cmds s)")
  case False
  then show ?thesis using assms(1,3) by (simp add: start_cmd_def bindS_apply commandS_apply)
next
  case i: True
  obtain r1 s1 where q: "start_queues sqid cqid (cmds s ! i) s = (r1, s1)" by fastforce
  from start_queues_result [OF q] obtain qm where s1: "s1 = s\<lparr>host_queue_mgr := qm\<rparr>"
    and qm: "nvme_queues qm = nvme_queues (host_queue_mgr s)" by blast
  have wf1: "host_wf s1" using assms(1) qm by (simp add: s1 host_wf_def refs_wf_def)
  show ?thesis
  proof (cases r1)
    case (Inl e)
    then show ?thesis using assms(3) q wf1 i by (simp add: start_cmd_def bindS_apply commandS_apply)
  next
    case (Inr p)
    obtain a b where p: "p = (a, b)" by fastforce
    obtain r2 s2 where q2: "queues_for a b s1 = (r2, s2)" by fastforce
    note got = queues_for_result [OF q2]
    show ?thesis
    proof (cases r2)
      case (Inl e)
      then show ?thesis using assms(3) q wf1 i Inr p q2 got by (simp add: start_cmd_def bindS_apply commandS_apply)
    next
      case r2: (Inr qs)
      obtain sq cq where qs: "qs = (sq, cq)" by fastforce
      have cq: "cq < length (host_cqs s1)" using qm_get_ref [of _ "host_queue_mgr s1" a b] got r2 qs wf1 by (auto simp: host_wf_def)
      obtain r3 s3 where on: "start_on pf i sq cq s1 = (r3, s3)" by fastforce
      have "host_wf s3" using start_on_wf [OF wf1 _ _ cq on] i assms(2) by (simp add: s1)
      moreover have "s' = s3" using assms(3) q i Inr p q2 got r2 qs on
        by (auto simp: start_cmd_def bindS_apply commandS_apply thenS_def split: sum.splits)
      ultimately show ?thesis by simp
    qed
  qed
qed

section \<open>Completing a command\<close>

text \<open>The data that a completed command gets.\<close>

definition data_for :: "memory \<Rightarrow> command \<Rightarrow> byte list option res" where
  "data_for m c =
     (case c_data_in c of
        None \<Rightarrow> Inr None
      | Some _ \<Rightarrow>
          bindR (case c_prp c of None \<Rightarrow> Inl AttributeError | Some p \<Rightarrow> get_data_buffer m p) (\<lambda>bs.
          bindR (case cc_data_in (c_class c) of None \<Rightarrow> Inl AttributeError | Some t \<Rightarrow> buffer_copy (csize t) bs) (\<lambda>d.
            Inr (Some d))))"

lemma copy_data_in_result:
  assumes "i < length (cmds s)"
  shows "copy_data_in i s = (case data_for (mem s) (cmds s ! i) of
    Inl e \<Rightarrow> (Inl e, s)
  | Inr d \<Rightarrow> (Inr (), s\<lparr>cmds := (cmds s)[i := (cmds s ! i)\<lparr>c_data_in := d\<rparr>]\<rparr>))"
proof (cases "c_data_in (cmds s ! i)")
  case None
  then have "(cmds s ! i)\<lparr>c_data_in := None\<rparr> = cmds s ! i" by (cases "cmds s ! i") simp
  then have "s\<lparr>cmds := (cmds s)[i := (cmds s ! i)\<lparr>c_data_in := None\<rparr>]\<rparr> = s" by simp
  with None assms show ?thesis by (simp add: copy_data_in_def data_for_def bindS_apply commandS_apply)
next
  case (Some d0)
  have "c_data_in_update (\<lambda>_. d) c = c\<lparr>c_data_in := d\<rparr>" for d and c :: command by simp
  with Some assms show ?thesis
    by (auto simp: copy_data_in_def data_for_def bindS_apply commandS_apply the_attr_def update_command_def bindR_def
        split: option.splits sum.splits)
qed

definition completed :: "byte list \<Rightarrow> command \<Rightarrow> command" where
  "completed entry c = c\<lparr>c_posted := False, c_complete := True, c_cqe := entry\<rparr>"

lemma completed_simps [simp]:
  "c_data_in (completed e c) = c_data_in c" "c_prp (completed e c) = c_prp c" "c_class (completed e c) = c_class c"
  "c_cq (completed e c) = c_cq c" "c_sq (completed e c) = c_sq c" "c_complete (completed e c)" "\<not> c_posted (completed e c)"
  "c_cqe (completed e c) = e" "c_bytes (completed e c) = c_bytes c"
  by (simp_all add: completed_def)

lemma data_for_completed [simp]: "data_for m (completed e c) = data_for m c"
  by (cases "c_data_in c") (simp_all add: data_for_def)

definition settle :: "nat \<Rightarrow> command \<Rightarrow> nat \<times> nat \<Rightarrow> ('d, 'm) host \<Rightarrow> ('d, 'm) host" where
  "settle i c k s = s\<lparr>cmds := (cmds s)[i := c], outstanding := AList.delete k (outstanding s)\<rparr>"

definition advanced :: "nat \<Rightarrow> nvme_queue \<Rightarrow> nat \<Rightarrow> ('d, 'm) host \<Rightarrow> ('d, 'm) host" where
  "advanced cq sq cqe s = (case consume_completion (mem s) (host_cqs s ! cq) of
     (m, q) \<Rightarrow> s\<lparr>mem := ht_set m (head sq) (getf CQE_SQHD (read_bytes m cqe 16)), host_cqs := (host_cqs s)[cq := q]\<rparr>)"

lemma complete_command_result:
  assumes "i < length (cmds s)" "c = cmds s ! i" "c_posted c" "c_cid c = getf CQE_CID entry" "c_sq c = Some sq"
    and "qid sq = getf CQE_SQID entry" "c_cq c = Some cq" "entry = read_bytes (mem s) cqe 16"
    and "(c_cid c, qid sq) \<in> fst ` set (outstanding s)"
  shows "complete_command i cqe s = (case data_for (mem s) c of
    Inl e \<Rightarrow> (Inl e, settle i (completed entry c) (c_cid c, qid sq) s)
  | Inr d \<Rightarrow> (Inr (), advanced cq sq cqe (settle i ((completed entry c)\<lparr>c_data_in := d\<rparr>) (c_cid c, qid sq) s)))"
proof -
  define s1 where "s1 = settle i (completed entry c) (c_cid c, qid sq) s"
  have upd: "s1\<lparr>cmds := (cmds s1)[i := c']\<rparr> = settle i c' (c_cid c, qid sq) s" for c' by (simp add: s1_def settle_def)
  have "complete_command i cqe s = thenS (copy_data_in i) (
     bindS (the_attr (c_cq c)) (\<lambda>cq.
     thenS (consume_host cq) (
     bindS (cqe_field CQE_SQHD cqe) (\<lambda>sqhd.
       storeS (\<lambda>m. Inr (ht_set m (head sq) sqhd)))))) s1"
    using assms unfolding complete_command_def completed_def s1_def settle_def
    by (simp add: commandS_apply the_attr_def update_command_def bindS_apply thenS_def)
  then show ?thesis
    using assms(1,2,7) copy_data_in_result [of i s1] upd [of "(completed entry c)\<lparr>c_data_in := d\<rparr>" for d]
    by (auto simp: s1_def [symmetric] thenS_def bindS_apply the_attr_def consume_host_def advanced_def storeS_def
        split: sum.splits prod.splits) (simp_all add: s1_def settle_def)
qed

lemma cq_of_result:
  assumes "cq_of cqid s = (r, s')"
  shows "s' = s"
  using assms by (auto simp: cq_of_def bindS_apply raiseS_def retS_def split: sum.splits got.splits option.splits if_splits)

text \<open>What \<open>get_completion\<close> does on every branch, in a well-formed driver.\<close>

lemma get_completion_result:
  assumes "host_wf s" "cq_of cqid s = (Inr cq, s)" "cqe = get_next_completion (mem s) (host_cqs s ! cq)"
    and "entry = read_bytes (mem s) cqe 16"
  shows "(getf CQE_P entry \<noteq> phase (host_cqs s ! cq) \<longrightarrow> get_completion cqid s = (Inr False, s)) \<and>
    (getf CQE_P entry = phase (host_cqs s ! cq) \<longrightarrow>
      (case map_of (outstanding s) (getf CQE_CID entry, getf CQE_SQID entry) of
         None \<Rightarrow> get_completion cqid s = (Inl KeyError, s)
       | Some i \<Rightarrow> \<exists>c sq cq'. i < length (cmds s) \<and> c = cmds s ! i \<and> c_posted c \<and> \<not> c_complete c \<and> c_sq c = Some sq \<and> c_cq c = Some cq' \<and>
           get_completion cqid s =
             (case data_for (mem s) c of
                Inl e \<Rightarrow> (Inl e, settle i (completed entry c) (getf CQE_CID entry, getf CQE_SQID entry) s)
              | Inr d \<Rightarrow> (Inr True, advanced cq' sq cqe
                  (settle i ((completed entry c)\<lparr>c_data_in := d\<rparr>) (getf CQE_CID entry, getf CQE_SQID entry) s)))))"
proof (cases "getf CQE_P entry = phase (host_cqs s ! cq)")
  case False
  then show ?thesis using assms by (simp add: get_completion_def)
next
  case ph: True
  let ?k = "(getf CQE_CID entry, getf CQE_SQID entry)"
  show ?thesis
  proof (cases "map_of (outstanding s) ?k")
    case None
    then show ?thesis using assms ph by (simp add: get_completion_def)
  next
    case (Some i)
    then have mem: "(?k, i) \<in> set (outstanding s)" by (rule map_of_SomeD)
    with assms(1) obtain sq cq' where c: "i < length (cmds s)" "c_posted (cmds s ! i)" "c_cid (cmds s ! i) = getf CQE_CID entry"
        "c_sq (cmds s ! i) = Some sq" "qid sq = getf CQE_SQID entry" "c_cq (cmds s ! i) = Some cq'"
      by (fastforce simp: host_wf_def outstanding_wf_def)
    have "\<not> c_complete (cmds s ! i)" using command_at_wf [OF assms(1) c(1)] c(2) by (simp add: command_wf_def)
    moreover have "?k \<in> fst ` set (outstanding s)" using mem by force
    ultimately show ?thesis
      using Some ph assms(2) c complete_command_result [OF c(1) refl c(2,3,4,5,6) assms(4)]
      by (simp add: get_completion_def thenS_def bindS_apply assms(3) [symmetric] assms(4) [symmetric] Let_def
          split: sum.splits)
  qed
qed

lemma data_for_length:
  assumes "data_for m c = Inr d" "command_wf n c"
  shows "map_option length d = map_option csize (cc_data_in (c_class c))"
  using assms by (auto simp: data_for_def command_wf_def bindR_eq_Inr_iff buffer_copy_def split: option.splits if_splits)

lemma outstandingD:
  assumes "outstanding_wf cs out" "((cid, sqid), i) \<in> set out"
  shows "i < length cs \<and> c_posted (cs ! i) \<and> c_cid (cs ! i) = cid \<and> (\<exists>sq. c_sq (cs ! i) = Some sq \<and> qid sq = sqid) \<and>
    c_cq (cs ! i) \<noteq> None"
proof -
  from assms(1) have "\<forall>((cid, sqid), i) \<in> set out. i < length cs \<and> c_posted (cs ! i) \<and> c_cid (cs ! i) = cid \<and>
    (\<exists>sq. c_sq (cs ! i) = Some sq \<and> qid sq = sqid) \<and> c_cq (cs ! i) \<noteq> None" by (simp add: outstanding_wf_def)
  from bspec [OF this assms(2)] show ?thesis by simp
qed

lemma outstanding_wf_completed:
  assumes "outstanding_wf cs out" "((cid, sqid), i) \<in> set out"
  shows "outstanding_wf (cs[i := c]) (AList.delete (cid, sqid) out)"
proof -
  have "j \<noteq> i" if "((cid', sqid'), j) \<in> set (AList.delete (cid, sqid) out)" for cid' sqid' j
  proof
    assume "j = i"
    from that have "((cid', sqid'), j) \<in> set out" "(cid', sqid') \<noteq> (cid, sqid)" by (auto simp: AList.delete_eq)
    with outstandingD [OF assms] outstandingD [OF assms(1)] \<open>j = i\<close> show False by fastforce
  qed
  moreover have "set (AList.delete (cid, sqid) out) \<subseteq> set out" by (auto simp: AList.delete_eq)
  moreover have "distinct (map fst (AList.delete (cid, sqid) out))"
    using assms(1) by (simp add: outstanding_wf_def distinct_delete)
  ultimately show ?thesis using assms(1) by (fastforce simp: outstanding_wf_def)
qed

lemma completed_wf:
  assumes "host_wf s" "((cid, sqid), i) \<in> set (outstanding s)" "command_wf (length (host_cqs s)) c"
  shows "host_wf (settle i c (cid, sqid) s)"
  using assms(1,3) outstanding_wf_completed [OF _ assms(2), of "cmds s" c]
  by (auto simp: settle_def host_wf_def dest!: set_update_subset_insert [THEN subsetD])

lemma advanced_wf: "host_wf s \<Longrightarrow> host_wf (advanced cq sq cqe s)"
  by (auto simp: advanced_def host_wf_def split: prod.splits)

lemma get_completion_wf:
  assumes "host_wf s" "get_completion cqid s = (r, s')"
  shows "host_wf s'"
proof -
  obtain r0 s0 where cq: "cq_of cqid s = (r0, s0)" by fastforce
  then have s0: "s0 = s" by (rule cq_of_result)
  show ?thesis
  proof (cases r0)
    case (Inl e)
    then show ?thesis using assms cq s0 by (simp add: get_completion_def)
  next
    case (Inr cq)
    let ?entry = "read_bytes (mem s) (get_next_completion (mem s) (host_cqs s ! cq)) 16"
    note res = get_completion_result [OF assms(1) _ refl refl, of cqid cq]
    consider "getf CQE_P ?entry \<noteq> phase (host_cqs s ! cq)"
      | "getf CQE_P ?entry = phase (host_cqs s ! cq)" "map_of (outstanding s) (getf CQE_CID ?entry, getf CQE_SQID ?entry) = None"
      | i where "getf CQE_P ?entry = phase (host_cqs s ! cq)" "map_of (outstanding s) (getf CQE_CID ?entry, getf CQE_SQID ?entry) = Some i"
      by blast
    then show ?thesis
    proof cases
      case 3
      let ?k = "(getf CQE_CID ?entry, getf CQE_SQID ?entry)" and ?c = "cmds s ! i"
      from 3 res cq s0 Inr obtain sq cq' where i: "i < length (cmds s)" and g: "get_completion cqid s =
             (case data_for (mem s) ?c of
                Inl e \<Rightarrow> (Inl e, settle i (completed ?entry ?c) ?k s)
              | Inr d \<Rightarrow> (Inr True, advanced cq' sq (get_next_completion (mem s) (host_cqs s ! cq))
                  (settle i ((completed ?entry ?c)\<lparr>c_data_in := d\<rparr>) ?k s)))"
        by auto
      have mem: "(?k, i) \<in> set (outstanding s)" using 3(2) by (rule map_of_SomeD)
      have c: "command_wf (length (host_cqs s)) ?c" by (rule command_at_wf [OF assms(1) i])
      then have "command_wf (length (host_cqs s)) (completed ?entry ?c)" by (simp add: command_wf_def)
      note wf1 = completed_wf [OF assms(1) mem this]
      have "host_wf (settle i ((completed ?entry ?c)\<lparr>c_data_in := d\<rparr>) ?k s)" if "data_for (mem s) ?c = Inr d" for d
        using completed_wf [OF assms(1) mem, of "(completed ?entry ?c)\<lparr>c_data_in := d\<rparr>"] c data_for_length [OF that c]
        by (simp add: command_wf_def completed_def)
      then show ?thesis
        using assms(2) wf1 unfolding g by (auto simp: advanced_wf split: sum.splits)
    qed (use res cq s0 Inr assms in auto)
  qed
qed

section \<open>Looking for completions\<close>

lemma keeps_get_completion [keeps_intros]: "keeps host_wf (get_completion cqid)"
  by (metis get_completion_wf keeps_def prod.collapse)

lemma keeps_count_completions [keeps_intros]: "keeps host_wf (count_completions l k)"
  by (induction l arbitrary: k) (auto intro!: keeps_intros)

lemma keeps_poll_loop [keeps_intros]: "keeps host_wf (poll_loop pf n l m k)"
proof (induction n arbitrary: k)
  case 0
  show ?case by (subst poll_loop.simps) (auto intro!: keeps_intros)
next
  case (Suc n)
  show ?case by (subst poll_loop.simps) (auto intro!: keeps_intros Suc)
qed

lemma drain_wf: "host_wf s \<Longrightarrow> host_wf (snd (drain cqid s))"
proof (induction cqid s rule: drain.induct)
  case (1 cqid s)
  obtain r t where g: "get_completion cqid s = (r, t)" by fastforce
  have t: "host_wf t" by (rule get_completion_wf [OF 1(2) g])
  show ?case using t 1(1) g by (subst drain.simps) (force split: sum.split prod.split)
qed

lemma keeps_drain [keeps_intros]: "keeps host_wf (drain cqid)"
  by (simp add: keeps_def drain_wf)

lemma keeps_msix_pass [keeps_intros]: "keeps host_wf (msix_pass pf cqs k)"
  by (induction cqs arbitrary: k) (auto intro!: keeps_intros simp: the_attr_def split: prod.split)

lemma keeps_msix_loop [keeps_intros]: "keeps host_wf (msix_loop pf n cqs m k)"
proof (induction n arbitrary: k)
  case 0
  show ?case by (subst msix_loop.simps) (auto intro!: keeps_intros)
next
  case (Suc n)
  show ?case by (subst msix_loop.simps) (auto intro!: keeps_intros Suc)
qed

lemma keeps_get_completions [keeps_intros]: "keeps host_wf (get_completions pf c m t)"
  unfolding get_completions_def get_msix_completions_def poll_cq_completions_def msix_cqs_def
  by (auto intro!: keeps_intros split: cqids.split got.split option.split) (auto simp: keeps_def cqids_of_def split: cqids.split)

section \<open>Commands that are not posted\<close>

text \<open>The driver is well-formed and a command is not posted, as it is when the user fills it in.\<close>

definition unposted :: "nat \<Rightarrow> ('d, 'm) host \<Rightarrow> bool" where
  "unposted i s \<longleftrightarrow> host_wf s \<and> (i < length (cmds s) \<longrightarrow> \<not> c_posted (cmds s ! i))"

definition leads :: "('s \<Rightarrow> bool) \<Rightarrow> ('s \<Rightarrow> bool) \<Rightarrow> ('s, 'a) st \<Rightarrow> bool" where
  "leads P Q f \<longleftrightarrow> (\<forall>s. P s \<longrightarrow> Q (snd (f s)))"

lemma leads_then: "keeps P f \<Longrightarrow> leads P Q g \<Longrightarrow> (\<And>s. P s \<Longrightarrow> Q s) \<Longrightarrow> leads P Q (thenS f g)"
  by (auto simp: keeps_def leads_def thenS_def bindS_def split: prod.splits sum.splits)

lemma leads_bind: "keeps P f \<Longrightarrow> (\<And>x. leads P Q (g x)) \<Longrightarrow> (\<And>s. P s \<Longrightarrow> Q s) \<Longrightarrow> leads P Q (bindS f g)"
  by (auto simp: keeps_def leads_def bindS_def split: prod.splits sum.splits)

lemma leads_keeps: "leads P Q f \<Longrightarrow> keeps Q g \<Longrightarrow> leads P Q (thenS f g)"
  by (auto simp: keeps_def leads_def thenS_def bindS_def split: prod.splits sum.splits)

lemma unposted_wf: "unposted i s \<Longrightarrow> host_wf s"
  by (simp add: unposted_def)

lemma keeps_unposted_update:
  assumes "\<And>c n. command_wf n c \<Longrightarrow> command_wf n (f c)" "\<And>c. c_posted (f c) = c_posted c"
  shows "keeps (unposted i) (update_command i f)"
proof (unfold keeps_def, intro allI impI)
  fix s :: "('a, 'b) host" assume un: "unposted i s"
  show "unposted i (snd (update_command i f s))"
  proof (cases "i < length (cmds s)")
    case True
    then show ?thesis using un update_unposted_wf [of s i "f (cmds s ! i)"] assms command_at_wf [of s i]
      by (simp add: unposted_def update_command_def)
  qed (use un in \<open>simp add: update_command_def list_update_beyond\<close>)
qed

lemma keeps_unposted_shared [keeps_intros]:
  "keeps (unposted i) (sharedS f)" "keeps (unposted i) (mallocS pf k dir)" "keeps (unposted i) (new_prpS pf k dir)"
  "keeps (unposted i) (commandS j)"
  by (auto simp: keeps_def unposted_def sharedS_def mallocS_def new_prpS_def commandS_def split: prod.splits sum.splits)

lemma set_attr_wf: "set_attr (cc_layout (c_class c)) (c_bytes c) (n, v) = Inr bs \<Longrightarrow> command_wf k c \<Longrightarrow> command_wf k (c\<lparr>c_bytes := bs\<rparr>)"
  using length_set_attr by (auto simp: command_wf_def)

lemma keeps_unposted_prp [keeps_intros]: "keeps (unposted i) (set_cmd_prp i f w)"
  unfolding set_cmd_prp_def by (rule keeps_unposted_update) (simp_all add: command_wf_setf)

lemma keeps_unposted_alloc [keeps_intros]: "keeps (unposted i) (alloc pf i b)"
proof -
  have "keeps (unposted i) (update_command i (c_prp_update (\<lambda>_. Some p)))" for p
    by (rule keeps_unposted_update) (simp_all add: command_wf_def)
  then show ?thesis unfolding alloc_def by (auto intro!: keeps_intros)
qed

lemma keeps_unposted_set [keeps_intros]: "keeps (unposted i) (set_cmd_attr i name v)"
proof (unfold keeps_def, intro allI impI)
  fix s :: "('a, 'b) host" assume un: "unposted i s"
  show "unposted i (snd (set_cmd_attr i name v s))"
  proof (cases "i < length (cmds s)")
    case True
    have "unposted i (s\<lparr>cmds := (cmds s)[i := (cmds s ! i)\<lparr>c_bytes := bs\<rparr>]\<rparr>)"
      if "set_attr (cc_layout (c_class (cmds s ! i))) (c_bytes (cmds s ! i)) (name, v) = Inr bs" for bs
      using un True update_unposted_wf [of s i "(cmds s ! i)\<lparr>c_bytes := bs\<rparr>"] set_attr_wf [OF that] command_at_wf [of s i]
      by (simp add: unposted_def)
    moreover have "c_bytes_update (\<lambda>_. bs) c = c\<lparr>c_bytes := bs\<rparr>" for bs and c :: command by simp
    ultimately show ?thesis using un True
      by (simp add: set_cmd_attr_def bindS_apply commandS_apply update_command_def split: sum.split)
  qed (use un in \<open>simp add: set_cmd_attr_def bindS_apply commandS_apply\<close>)
qed

lemma make_command_unposted:
  assumes "host_wf s" "make_command c kwargs s = (r, s')"
  shows "host_wf s' \<and> (\<forall>i. r = Inr i \<longrightarrow> unposted i s')"
proof -
  have "host_wf s'" using keepsD [OF keeps_make_command assms] .
  then show ?thesis using assms(2)
    by (auto simp: make_command_def bindS_apply unposted_def split: sum.splits)
qed

lemma keeps_with_command:
  assumes "\<And>i. leads (unposted i) host_wf (f i)"
  shows "keeps host_wf (bindS (make_command c kwargs) f)"
  using make_command_unposted assms
  by (fastforce simp: keeps_def leads_def bindS_def split: prod.splits sum.splits)

lemma start_cmd_leads: "leads (unposted i) host_wf (start_cmd pf i sqid cqid)"
  using start_cmd_wf by (metis leads_def prod.collapse unposted_def)

lemma sync_cmd_leads: "leads (unposted i) host_wf (sync_cmd pf i sqid cqid t b)"
  unfolding sync_cmd_def the_attr_def commandS_def
  by (rule leads_keeps [OF start_cmd_leads]) (auto intro!: keeps_intros)

end
