(* ===== verification/Host_Queues.thy ===== *)
theory Host_Queues
  imports Host_Wf Command_Classes
begin

text \<open>
  The host driver, fourth part: the creation and deletion of I/O queues, by commands on the admin queues.
\<close>

section \<open>Creating a queue pair\<close>

definition create_iocq :: "('d, 'm) platform \<Rightarrow> nat \<Rightarrow> nat \<Rightarrow> nat \<Rightarrow> nat \<Rightarrow> nat \<Rightarrow> ('d, 'm, mem_loc) host_op" where
  "create_iocq pf cq_entries cq_id cq_iv cq_ien cq_pc =
     bindS (mallocS pf (16 * cq_entries) DEVICE_TO_HOST) (\<lambda>cq_mem.
     bindS (make_command CreateIOCompletionQueue []) (\<lambda>i.
     thenS (set_cmd_prp i SQE_PRP1 (iova cq_mem)) (
     thenS (set_cmd_attr i ''QSIZE'' (int cq_entries - 1)) (
     thenS (set_cmd_attr i ''QID'' (int cq_id)) (
     thenS (set_cmd_attr i ''IEN'' (int cq_ien)) (
     thenS (set_cmd_attr i ''PC'' (int cq_pc)) (
     bindS (getS (\<lambda>s. (host_int_type s, num_msix_vectors s))) (\<lambda>(int_type, vectors).
     thenS (if int_type = MSIX then thenS (assertS (cq_iv \<le> vectors)) (set_cmd_attr i ''IV'' (int cq_iv))
            else set_cmd_attr i ''IV'' 0) (
     thenS (sync_cmd pf i None None 10 True) (retS cq_mem))))))))))"

definition create_iosq :: "('d, 'm) platform \<Rightarrow> nat \<Rightarrow> nat \<Rightarrow> nat \<Rightarrow> nat \<Rightarrow> nat \<Rightarrow> nat \<Rightarrow> ('d, 'm, mem_loc) host_op" where
  "create_iosq pf sq_entries sq_id cq_id sq_prio sq_pc sq_setid =
     bindS (mallocS pf (64 * sq_entries) HOST_TO_DEVICE) (\<lambda>sq_mem.
     bindS (make_command CreateIOSubmissionQueue []) (\<lambda>i.
     thenS (set_cmd_prp i SQE_PRP1 (iova sq_mem)) (
     thenS (set_cmd_attr i ''QSIZE'' (int sq_entries - 1)) (
     thenS (set_cmd_attr i ''QID'' (int sq_id)) (
     thenS (set_cmd_attr i ''CQID'' (int cq_id)) (
     thenS (set_cmd_attr i ''QPRIO'' (int sq_prio)) (
     thenS (set_cmd_attr i ''PC'' (int sq_pc)) (
     thenS (set_cmd_attr i ''NVMSETID'' (int sq_setid)) (
     thenS (sync_cmd pf i None None 1 True) (retS sq_mem))))))))))"

definition create_io_queue_pair ::
  "('d, 'm) platform \<Rightarrow> nat \<Rightarrow> nat \<Rightarrow> nat \<Rightarrow> nat \<Rightarrow> nat \<Rightarrow> nat \<Rightarrow> nat \<Rightarrow> nat \<Rightarrow> nat \<Rightarrow> nat \<Rightarrow> ('d, 'm, unit) host_op" where
  "create_io_queue_pair pf cq_entries cq_id cq_iv cq_ien cq_pc sq_entries sq_id sq_prio sq_pc sq_setid =
     bindS (create_iocq pf cq_entries cq_id cq_iv cq_ien cq_pc) (\<lambda>cq_mem.
     bindS (create_iosq pf sq_entries sq_id cq_id sq_prio sq_pc sq_setid) (\<lambda>sq_mem.
       add_queue_pair sq_mem sq_entries sq_id cq_mem cq_entries cq_id cq_iv))"

text \<open>The set identifier that the caller passes is not used.\<close>

definition create_io_queues :: "('d, 'm) platform \<Rightarrow> nat \<Rightarrow> nat \<Rightarrow> nat \<Rightarrow> ('d, 'm, unit) host_op" where
  "create_io_queues pf num_queues queue_entries sq_nvme_set_id =
     bindS (getS regs) (\<lambda>r.
     thenS (assertS (AQA_ASQS r \<noteq> 0)) (
     thenS (assertS (ASQ_ASQB r \<noteq> 0)) (
     thenS (assertS (AQA_ACQS r \<noteq> 0)) (
     thenS (assertS (ACQ_ACQB r \<noteq> 0))
       (forS [1..<num_queues + 1] (\<lambda>queue_id.
          create_io_queue_pair pf queue_entries queue_id queue_id 1 1 queue_entries queue_id 0 1 0))))))"

section \<open>Deleting the queues\<close>

definition remove_sqS :: "nat \<Rightarrow> ('d, 'm, unit) host_op" where
  "remove_sqS sqid = (\<lambda>s. case qm_remove_sq sqid (host_queue_mgr s) of
     Inl e \<Rightarrow> (Inl e, s) | Inr qm \<Rightarrow> (Inr (), s\<lparr>host_queue_mgr := qm\<rparr>))"

definition remove_cqS :: "nat \<Rightarrow> ('d, 'm, unit) host_op" where
  "remove_cqS cqid = (\<lambda>s. case qm_remove_cq cqid (host_queue_mgr s) of
     Inl e \<Rightarrow> (Inl e, s) | Inr qm \<Rightarrow> (Inr (), s\<lparr>host_queue_mgr := qm\<rparr>))"

definition delete_command :: "('d, 'm) platform \<Rightarrow> cmd_class \<Rightarrow> nat \<Rightarrow> ('d, 'm, unit) host_op" where
  "delete_command pf c q = bindS (make_command c [(''QID'', int q)]) (\<lambda>i. sync_cmd pf i None None 1 True)"

text \<open>
  The first loop goes over the dictionary itself, whose keys do not change while submission queues are removed; the
  second goes over a copy.
\<close>

definition delete_io_queues :: "('d, 'm) platform \<Rightarrow> ('d, 'm, unit) host_op" where
  "delete_io_queues pf =
     bindS (getS (\<lambda>s. map fst (nvme_queues (host_queue_mgr s)))) (\<lambda>keys.
     thenS (forS keys (\<lambda>(sqid, cqid).
       if sqid = 0 \<and> cqid = 0 then retS ()
       else thenS (delete_command pf DeleteIOSubmissionQueue sqid) (remove_sqS sqid))) (
     bindS (getS (\<lambda>s. map fst (nvme_queues (host_queue_mgr s)))) (\<lambda>keys.
       forS keys (\<lambda>(sqid, cqid).
         if sqid = 0 \<and> cqid = 0 then retS ()
         else thenS (delete_command pf DeleteIOCompletionQueue cqid) (remove_cqS cqid)))))"

section \<open>The driver stays well-formed\<close>

lemma keeps_wait [keeps_intros]: "keeps host_wf (wait_disabled pf n)" "keeps host_wf (wait_enabled pf n)"
  by (induction n) (auto intro!: keeps_intros)

lemma refs_wf_new [simp]: "refs_wf n new_queue_mgr"
  by (simp add: refs_wf_def new_queue_mgr_def)

lemma keeps_cc [keeps_intros]: "keeps host_wf (cc_disable pf t)" "keeps host_wf (cc_enable pf t)"
  unfolding cc_disable_def cc_enable_def
  by (auto intro!: keeps_intros keeps_modify simp: host_wf_def outstanding_wf_def)

lemma command_wf_mono: "command_wf n c \<Longrightarrow> n \<le> k \<Longrightarrow> command_wf k c"
  by (auto simp: command_wf_def)

lemma refs_wf_add: "refs_wf n qm \<Longrightarrow> cq < n \<Longrightarrow> refs_wf n (qm_add a sq b cq qm)"
proof -
  assume n: "refs_wf n qm" "cq < n"
  have "x \<in> set (AList.update k v al) \<Longrightarrow> x = (k, v) \<or> x \<in> set al" for x k and v :: "nvme_queue option \<times> nat option" and al
    by (induction al) (auto split: if_splits)
  with n show ?thesis by (fastforce simp: refs_wf_def qm_add_def Let_def)
qed

lemma keeps_add_queue_pair [keeps_intros]: "keeps host_wf (add_queue_pair a b c d e f g)"
proof -
  have "host_wf (s\<lparr>mem := m, cells := x, host_cqs := host_cqs s @ [q],
      host_queue_mgr := qm_add k sq j (length (host_cqs s)) (host_queue_mgr s)\<rparr>)" if wf: "host_wf s"
    for s :: "('a, 'b) host" and x m q k sq j
  proof -
    let ?n = "length (host_cqs s)"
    have "refs_wf (Suc ?n) (host_queue_mgr s)" using wf unfolding host_wf_def refs_wf_def using less_SucI by blast
    from refs_wf_add [OF this] have "refs_wf (Suc ?n) (qm_add k sq j ?n (host_queue_mgr s))" by simp
    then show ?thesis using wf command_wf_mono [of ?n _ "Suc ?n"] by (simp add: host_wf_def)
  qed
  then show ?thesis
    by (auto simp: keeps_def add_queue_pair_def bindS_apply make_host_cq_def make_sq_def make_cq_def Let_def
        split: prod.splits)
qed

lemma keeps_init_admin [keeps_intros]: "keeps host_wf (init_admin_queues pf a b)"
  unfolding init_admin_queues_def program_admin_queues_def by (auto intro!: keeps_intros)

lemma leads_sync_last: "leads (unposted i) host_wf (thenS (sync_cmd pf i a b t c) (retS x))"
  by (rule leads_keeps [OF sync_cmd_leads]) (rule keeps_intros)

lemma keeps_create_iocq [keeps_intros]: "keeps host_wf (create_iocq pf n q iv ien pc)"
  unfolding create_iocq_def
  by (rule keeps_bind, rule keeps_wf_shared, rule keeps_with_command, intro leads_then leads_bind leads_sync_last)
    (auto intro!: keeps_intros leads_then leads_sync_last simp: unposted_wf split: prod.split)

lemma keeps_create_iosq [keeps_intros]: "keeps host_wf (create_iosq pf n q cq p pc sid)"
  unfolding create_iosq_def
  by (rule keeps_bind, rule keeps_wf_shared, rule keeps_with_command, intro leads_then leads_bind leads_sync_last)
    (auto intro!: keeps_intros leads_then leads_sync_last simp: unposted_wf split: prod.split)

lemma keeps_create_io_queues [keeps_intros]: "keeps host_wf (create_io_queues pf n k z)"
  unfolding create_io_queues_def create_io_queue_pair_def
  by (auto intro!: keeps_intros)

definition dict_refs :: "nat \<Rightarrow> (nvme_queue, nat) queue_dict \<Rightarrow> bool" where
  "dict_refs n d \<longleftrightarrow> list_all (\<lambda>(k, v). \<forall>r. snd v = Some r \<longrightarrow> r < n) d"

lemma refs_wf_dict: "refs_wf n qm = dict_refs n (nvme_queues qm)"
  by (simp add: refs_wf_def dict_refs_def list_all_iff)

lemma remove_sq_loop_refs:
  "remove_sq_loop i d l = Inr (d', l') \<Longrightarrow> dict_refs n d \<Longrightarrow> dict_refs n d'"
  by (induction i d l arbitrary: d' l' rule: remove_sq_loop.induct)
    (fastforce simp: bindR_eq_Inr_iff dict_refs_def split: if_splits)+

lemma remove_cq_loop_refs:
  "remove_cq_loop i d l = Inr (d', l') \<Longrightarrow> dict_refs n d \<Longrightarrow> dict_refs n d'"
  by (induction i d l arbitrary: d' l' rule: remove_cq_loop.induct)
    (fastforce simp: bindR_eq_Inr_iff dict_refs_def split: if_splits)+

lemma qm_remove_sq_refs: "qm_remove_sq i qm = Inr qm' \<Longrightarrow> refs_wf n qm \<Longrightarrow> refs_wf n qm'"
  by (auto simp: qm_remove_sq_def refs_wf_dict bindR_eq_Inr_iff dest: remove_sq_loop_refs)

lemma qm_remove_cq_refs: "qm_remove_cq i qm = Inr qm' \<Longrightarrow> refs_wf n qm \<Longrightarrow> refs_wf n qm'"
  using remove_cq_loop_refs [of i "nvme_queues qm" "io_cqids qm" _ _ n]
  by (fastforce simp: qm_remove_cq_def refs_wf_dict bindR_eq_Inr_iff dict_refs_def list_all_iff)

lemma keeps_remove [keeps_intros]: "keeps host_wf (remove_sqS a)" "keeps host_wf (remove_cqS a)"
  by (auto simp: keeps_def remove_sqS_def remove_cqS_def host_wf_def dest: qm_remove_sq_refs qm_remove_cq_refs split: sum.splits)

lemma keeps_delete_command [keeps_intros]: "keeps host_wf (delete_command pf c a)"
  unfolding delete_command_def by (rule keeps_with_command) (rule sync_cmd_leads)

lemma keeps_delete_io_queues [keeps_intros]: "keeps host_wf (delete_io_queues pf)"
  unfolding delete_io_queues_def by (auto intro!: keeps_intros)

end
