(* ===== verification/Host_Driver.thy ===== *)
theory Host_Driver
  imports Host_Queues
begin

text \<open>
  Executions of the driver: the calls its user makes and the activity of the device in any order, and what
  holds in every state they reach. The user fills in and starts only commands that are not posted.
\<close>

section \<open>Reachable states\<close>

inductive driver_step :: "('d, 'm) platform \<Rightarrow> ('d, 'm) host \<Rightarrow> ('d, 'm) host \<Rightarrow> bool" for pf :: "('d, 'm) platform" where
  device: "driver_step pf s (shared.extend t (shared.more s))"
| flr: "initiate_flr s = (r, s') \<Longrightarrow> driver_step pf s s'"
| disable: "cc_disable pf n s = (r, s') \<Longrightarrow> driver_step pf s s'"
| enable: "cc_enable pf n s = (r, s') \<Longrightarrow> driver_step pf s s'"
| admin: "init_admin_queues pf a b s = (r, s') \<Longrightarrow> driver_step pf s s'"
| create: "create_io_queues pf n k z s = (r, s') \<Longrightarrow> driver_step pf s s'"
| create_pair: "create_io_queue_pair pf a b c d e f g h i j s = (r, s') \<Longrightarrow> driver_step pf s s'"
| delete: "delete_io_queues pf s = (r, s') \<Longrightarrow> driver_step pf s s'"
| command: "make_command c kwargs s = (r, s') \<Longrightarrow> driver_step pf s s'"
| fill: "unposted i s \<Longrightarrow> set_cmd_attr i name v s = (r, s') \<Longrightarrow> driver_step pf s s'"
| alloc: "unposted i s \<Longrightarrow> alloc pf i b s = (r, s') \<Longrightarrow> driver_step pf s s'"
| start: "unposted i s \<Longrightarrow> start_cmd pf i sqid cqid s = (r, s') \<Longrightarrow> driver_step pf s s'"
| sync: "unposted i s \<Longrightarrow> sync_cmd pf i sqid cqid n check s = (r, s') \<Longrightarrow> driver_step pf s s'"
| complete: "get_completion cqid s = (r, s') \<Longrightarrow> driver_step pf s s'"
| process: "process_completions pf cqs k n s = (r, s') \<Longrightarrow> driver_step pf s s'"

inductive driver_reach :: "('d, 'm) platform \<Rightarrow> ('d, 'm) host \<Rightarrow> bool" for pf :: "('d, 'm) platform" where
  init: "driver_reach pf (new_device s mgr caps)"
| step: "driver_reach pf s \<Longrightarrow> driver_step pf s s' \<Longrightarrow> driver_reach pf s'"

inductive_cases driver_stepE: "driver_step pf s s'"

lemma new_device_wf: "host_wf (new_device s mgr caps)"
  by (simp add: new_device_def shared.defs host_wf_def outstanding_wf_def cid_wf_def new_cid_mgr_def)

lemma driver_step_wf:
  assumes "driver_step pf s s'" "host_wf s"
  shows "host_wf s'"
proof -
  have k: "keeps host_wf f \<Longrightarrow> f s = (r, s') \<Longrightarrow> host_wf s'" for f :: "('a, 'b, 'c) host_op" and r
    using assms(2) keepsD by metis
  have flr: "keeps host_wf initiate_flr" unfolding initiate_flr_def by (intro keeps_intros)
  have pair: "keeps host_wf (create_io_queue_pair pf a b c d e f g h i j)" for a b c d e f g h i j
    unfolding create_io_queue_pair_def by (intro keeps_intros)
  have l: "leads (unposted i) host_wf f \<Longrightarrow> unposted i s \<Longrightarrow> f s = (r, s') \<Longrightarrow> host_wf s'"
    and u: "keeps (unposted i) f \<Longrightarrow> unposted i s \<Longrightarrow> f s = (r, s') \<Longrightarrow> host_wf s'"
    for f :: "('a, 'b, 'c) host_op" and i r
    by (metis leads_def snd_conv) (metis keepsD unposted_wf)
  show ?thesis
    using assms(1)
  proof (cases rule: driver_step.cases)
    case (fill i name v r)
    then show ?thesis using u [OF keeps_unposted_set] by blast
  next
    case (alloc i b r)
    then show ?thesis using u [OF keeps_unposted_alloc] by blast
  next
    case (start i sqid cqid r)
    then show ?thesis using l [OF start_cmd_leads] by blast
  next
    case (sync i sqid cqid n check r)
    then show ?thesis using l [OF sync_cmd_leads] by blast
  qed (use assms(2) in \<open>auto simp: process_completions_def dest!: k [OF flr] k [OF pair] k [OF keeps_cc(1)]
      k [OF keeps_cc(2)] k [OF keeps_init_admin] k [OF keeps_create_io_queues] k [OF keeps_delete_io_queues]
      k [OF keeps_make_command] k [OF keeps_get_completion] k [OF keeps_get_completions]\<close>)
qed

lemma driver_reach_wf: "driver_reach pf s \<Longrightarrow> host_wf s"
  by (induction rule: driver_reach.induct) (auto intro: new_device_wf driver_step_wf)


section \<open>Completions\<close>


lemma settle_simps [simp]:
  "mem (settle i c k s) = mem s" "host_cqs (settle i c k s) = host_cqs s" "host_queue_mgr (settle i c k s) = host_queue_mgr s"
  "outstanding (settle i c k s) = AList.delete k (outstanding s)" "cmds (settle i c k s) = (cmds s)[i := c]"
  "regs (settle i c k s) = regs s"
  by (simp_all add: settle_def)

lemma advanced_simps [simp]:
  "outstanding (advanced cq sq a s) = outstanding s" "cmds (advanced cq sq a s) = cmds s"
  "host_queue_mgr (advanced cq sq a s) = host_queue_mgr s" "regs (advanced cq sq a s) = regs s"
  by (simp_all add: advanced_def case_prod_beta)

lemma cq_of_same: "host_queue_mgr t = host_queue_mgr s \<Longrightarrow> cq_of cqid s = (Inr cq, s) \<Longrightarrow> cq_of cqid t = (Inr cq, t)"
  by (auto simp: cq_of_def bindS_apply raiseS_def retS_def split: sum.splits got.splits option.splits if_splits)


section \<open>Identifiers\<close>

definition cid_next :: "cid_mgr \<Rightarrow> cid_mgr" where
  "cid_next c = snd (cid_alloc c)"

lemma cid_after:
  assumes "i < m"
  shows "(cid_next ^^ n) (new_cid_mgr i m) = \<lparr>init_value = i, max_value = m, cid_value = i + n mod (m - i)\<rparr>"
proof (induction n)
  case (Suc n)
  have "n mod (m - i) < m - i" using assms by simp
  then have "Suc (n mod (m - i)) = m - i \<longleftrightarrow> m \<le> Suc (i + n mod (m - i))" using assms by linarith
  then show ?case using Suc by (simp add: cid_next_def cid_alloc_def Let_def mod_Suc)
qed (simp add: new_cid_mgr_def)

text \<open>
  The manager gives out the identifiers from its first to the one below its limit, over and over; so any two
  of them closer together than the size of that range differ, and the identifiers of the driver repeat after 61438
  commands.
\<close>

theorem cid_sequence:
  assumes "i < m" "\<And>n. cid n = fst (cid_alloc ((cid_next ^^ n) (new_cid_mgr i m)))"
  shows "cid n = i + n mod (m - i) \<and> i \<le> cid n \<and> cid n < m \<and> (k < n \<and> n < k + (m - i) \<longrightarrow> cid k \<noteq> cid n) \<and>
    cid (n + (m - i)) = cid n"
proof -
  have c: "cid n = i + n mod (m - i)" for n by (simp add: assms(2) cid_after [OF assms(1)] cid_alloc_def Let_def)
  have "n mod (m - i) < m - i" using assms(1) by simp
  moreover have "k mod (m - i) \<noteq> n mod (m - i)" if "k < n" "n < k + (m - i)"
  proof
    assume "k mod (m - i) = n mod (m - i)"
    with mod_eq_within [OF less_imp_le [OF that(1)] that(2)] that(1) show False by simp
  qed
  moreover have "(n + (m - i)) mod (m - i) = n mod (m - i)" by simp
  ultimately show ?thesis unfolding c by simp
qed

section \<open>Starting a posted command again\<close>


section \<open>The drain of an interrupted queue\<close>

lemma outstanding_delete_length:
  assumes "distinct (map fst al)" "(k, v) \<in> set al"
  shows "length (AList.delete k al) + 1 = length al"
  using assms
proof (induction al)
  case (Cons x al)
  have "AList.delete k al = al" if "k \<notin> fst ` set al"
    using that by (simp add: delete_idem)
  with Cons show ?case by (cases "fst x = k") (auto simp: image_iff)
qed simp

lemma get_completion_one:
  assumes "host_wf s" "get_completion cqid s = (Inr True, s')"
  shows "length (outstanding s') + 1 = length (outstanding s)"
proof -
  obtain r0 s0 where cq: "cq_of cqid s = (r0, s0)" by fastforce
  with assms(2) cq_of_result [OF cq] obtain cq where cq: "cq_of cqid s = (Inr cq, s)"
    by (cases r0) (auto simp: get_completion_def)
  let ?entry = "read_bytes (mem s) (get_next_completion (mem s) (host_cqs s ! cq)) 16"
  let ?k = "(getf CQE_CID ?entry, getf CQE_SQID ?entry)"
  note res = get_completion_result [OF assms(1) cq refl refl]
  have ph: "getf CQE_P ?entry = phase (host_cqs s ! cq)" using res assms(2) by fastforce
  then obtain i where i: "map_of (outstanding s) ?k = Some i" using res assms(2) by (fastforce split: option.splits)
  have "outstanding s' = AList.delete ?k (outstanding s)"
    using res ph i assms(2) by (cases "data_for (mem s) (cmds s ! i)") auto
  with outstanding_delete_length [OF _ map_of_SomeD [OF i]] assms(1) show ?thesis
    by (simp add: host_wf_def outstanding_wf_def)
qed

lemma get_completion_none: "get_completion cqid s = (Inr False, s') \<Longrightarrow> s' = s"
  using cq_of_result [of cqid s] by (auto simp: get_completion_def bindS_apply thenS_def split: prod.splits sum.splits if_splits option.splits)

lemma drain_result:
  assumes "host_wf s" "drain cqid s = (r, s')"
  shows "case r of
      Inr k \<Rightarrow> k + length (outstanding s') = length (outstanding s) \<and> get_completion cqid s' = (Inr False, s')
    | Inl e \<Rightarrow> \<exists>t. get_completion cqid t = (Inl e, s')"
  using assms
proof (induction cqid s arbitrary: r rule: drain.induct)
  case (1 cqid s)
  obtain r0 t where g: "get_completion cqid s = (r0, t)" by fastforce
  have t: "host_wf t" by (rule get_completion_wf [OF 1(2) g])
  have dr: "drain cqid s = (case r0 of
      Inl e \<Rightarrow> (Inl e, t)
    | Inr found \<Rightarrow> if found then (case drain cqid t of (Inl e, t) \<Rightarrow> (Inl e, t) | (Inr k, t) \<Rightarrow> (Inr (k + 1), t)) else (Inr 0, t))"
    by (subst drain.simps) (simp add: g)
  show ?case
  proof (cases "r0 = Inr True")
    case True
    obtain r1 t1 where d: "drain cqid t = (r1, t1)" by fastforce
    then have r: "t1 = s'" "r = (case r1 of Inl e \<Rightarrow> Inl e | Inr j \<Rightarrow> Inr (j + 1))"
      using 1(3) dr True by (auto split: sum.splits)
    have "case r1 of
        Inr k \<Rightarrow> k + length (outstanding t1) = length (outstanding t) \<and> get_completion cqid t1 = (Inr False, t1)
      | Inl e \<Rightarrow> \<exists>t. get_completion cqid t = (Inl e, t1)"
      using 1(1) [OF g [symmetric] True TrueI t d [unfolded r(1)]] unfolding r(1) .
    with get_completion_one [OF 1(2)] g True r show ?thesis by (auto split: sum.splits)
  next
    case False
    show ?thesis
    proof (cases r0)
      case (Inl e)
      then have "r = Inl e" "s' = t" using 1(3) dr by simp_all
      then show ?thesis using g Inl by auto
    next
      case (Inr b)
      then have b: "\<not> b" using False by simp
      then have "r = Inr 0" "s' = t" "t = s" using 1(3) dr g Inr get_completion_none [of cqid s t] by simp_all
      then show ?thesis using g Inr b by simp
    qed
  qed
qed

text \<open>
  Property C15. The loop that serves an interrupt ends whatever the device has written: it finds at most as many completions as
  commands are outstanding, and every one it finds completes a command.
\<close>

theorem drain_terminates:
  assumes "driver_reach pf s"
  shows "(\<exists>k s'. drain cqid s = (Inr k, s') \<and> k + length (outstanding s') = length (outstanding s) \<and>
      get_completion cqid s' = (Inr False, s')) \<or>
    (\<exists>e t s'. drain cqid s = (Inl e, s') \<and> get_completion cqid t = (Inl e, s'))"
proof -
  obtain r s' where "drain cqid s = (r, s')" by fastforce
  with drain_result [OF driver_reach_wf [OF assms] this] show ?thesis by (auto split: sum.splits)
qed

end
