(* ===== verification/Host_Init.thy ===== *)
theory Host_Init
  imports Host_Driver
begin

text \<open>
  What the admin queues look like after \<open>init_admin_queues\<close>, and concrete drivers for the instances of the properties.
\<close>

section \<open>Results of the register operations\<close>

lemma set_pcie_BME: "\<exists>p. set_pcie PCIe_Cmd ''BME'' v s = (Inr (), s\<lparr>pcie := p, pcie_event := True\<rparr>)"
  by (auto simp: set_pcie_def reg_setattr_def PCIe_Cmd_def field_pos_def last_match_def struct_places_def)

lemma cc_disable_result:
  assumes "CSTS_CFS (regs s) = 1 \<or> CSTS_RDY (regs s) = 0" "0 < pf_rounds pf n"
  shows "\<exists>p. cc_disable pf n s = (Inr (), s\<lparr>regs := (regs s)\<lparr>CC_EN := 0\<rparr>, nvme_event := True, pcie := p, pcie_event := True,
    mem := write_bytes (mem s) (sqndbs s) (zeros (8 * 1024)), host_queue_mgr := new_queue_mgr, outstanding := []\<rparr>)"
proof -
  let ?s = "s\<lparr>regs := (regs s)\<lparr>CC_EN := 0\<rparr>, nvme_event := True\<rparr>"
  obtain p where p: "set_pcie PCIe_Cmd ''BME'' 0 ?s = (Inr (), ?s\<lparr>pcie := p, pcie_event := True\<rparr>)"
    using set_pcie_BME by blast
  obtain k where k: "pf_rounds pf n = Suc k" using assms(2) by (cases "pf_rounds pf n") auto
  show ?thesis
    using assms(1) p by (intro exI [of _ p]) (auto simp: cc_disable_def thenS_def bindS_apply k clear_doorbells_def)
qed

definition admin_regs :: "nat \<Rightarrow> nat \<Rightarrow> nat \<Rightarrow> nat \<Rightarrow> nvme_regs \<Rightarrow> nvme_regs" where
  "admin_regs a asq_iova b acq_iova r =
     r\<lparr>AQA_ASQS := word_of_int (int a - 1), ASQ_ASQB := of_nat asq_iova,
       AQA_ACQS := word_of_int (int b - 1), ACQ_ACQB := of_nat acq_iova, CC_IOSQES := 6, CC_IOCQES := 4,
       CC_CSS := (if CAP_CSS r = 0x40 then 0x06 else CC_CSS r)\<rparr>"

lemma program_admin_result:
  "\<exists>p. program_admin_queues a x b y s = (Inr (), s\<lparr>regs := admin_regs a x b y (regs s), nvme_event := True, pcie := p, pcie_event := True\<rparr>)"
proof -
  obtain h0 where h0: "\<forall>t :: ('a, 'b) host. set_pcie PCIe_Cmd ''BME'' 0 t = (Inr (), t\<lparr>pcie := h0 t, pcie_event := True\<rparr>)"
    using choice [of "\<lambda>t p. set_pcie PCIe_Cmd ''BME'' 0 t = (Inr (), t\<lparr>pcie := p, pcie_event := True\<rparr>)"] set_pcie_BME by blast
  obtain h1 where h1: "\<forall>t :: ('a, 'b) host. set_pcie PCIe_Cmd ''BME'' 1 t = (Inr (), t\<lparr>pcie := h1 t, pcie_event := True\<rparr>)"
    using choice [of "\<lambda>t p. set_pcie PCIe_Cmd ''BME'' 1 t = (Inr (), t\<lparr>pcie := p, pcie_event := True\<rparr>)"] set_pcie_BME by blast
  have "r\<lparr>CC_CSS := CC_CSS r\<rparr> = r" for r by (cases r) simp
  then show ?thesis
    by (cases s) (auto simp: program_admin_queues_def thenS_def bindS_apply h0 h1 h1 [simplified] admin_regs_def)
qed

definition admin_sq :: "nat \<Rightarrow> nat \<Rightarrow> nat \<Rightarrow> nat \<Rightarrow> nvme_queue" where
  "admin_sq base a own dbs = snd (new_submission_queue (\<lambda>_. 0) own base a 64 0 dbs)"

definition admin_cq :: "nat \<Rightarrow> nat \<Rightarrow> nat \<Rightarrow> nat \<Rightarrow> nat option \<Rightarrow> completion_queue" where
  "admin_cq base b own dbs iv = snd (new_completion_queue (\<lambda>_. 0) own base b 16 0 (dbs + 4) iv)"

lemma add_queue_pair_result:
  assumes "own1 = new_cell s (cells s)" "own2 = new_cell s (cells s @ [own1])"
  shows "add_queue_pair l1 a 0 l2 b 0 iv s = (Inr (), s\<lparr>mem := write32 (write32 (mem s) own1 0) own2 0, cells := cells s @ [own1, own2],
    host_cqs := host_cqs s @ [admin_cq (vaddr l2) b own2 (sqndbs s) (Some iv)],
    host_queue_mgr := qm_add 0 (admin_sq (vaddr l1) a own1 (sqndbs s)) 0 (length (host_cqs s)) (host_queue_mgr s)\<rparr>)"
  using assms
  by (simp add: add_queue_pair_def bindS_apply make_sq_def make_cq_def make_host_cq_def new_submission_queue_def
      new_completion_queue_def admin_sq_def admin_cq_def sqtail_addr_def cqhead_addr_def Let_def)

text \<open>The registers, the memory and the queues after \<open>init_admin_queues\<close>.\<close>

lemma init_admin_result:
  assumes "CSTS_CFS (regs s) = 1 \<or> CSTS_RDY (regs s) = 0" "0 < pf_rounds pf 10"
    and "pf_malloc pf (write_bytes (mem s) (sqndbs s) (zeros (8 * 1024))) (mem_mgr s) (64 * a) HOST_TO_DEVICE = Inr (l1, m1, g1)"
    and "pf_malloc pf m1 g1 (16 * b) DEVICE_TO_HOST = Inr (l2, m2, g2)"
    and "own1 = new_cell s (cells s)" "own2 = new_cell s (cells s @ [own1])"
  obtains s' where "init_admin_queues pf a b s = (Inr (), s')" "host_cqs s' = host_cqs s @ [admin_cq (vaddr l2) b own2 (sqndbs s) (Some 0)]"
    "host_queue_mgr s' = qm_add 0 (admin_sq (vaddr l1) a own1 (sqndbs s)) 0 (length (host_cqs s)) new_queue_mgr"
    "mem s' = write32 (write32 m2 own1 0) own2 0" "cells s' = cells s @ [own1, own2]" "mem_mgr s' = g2" "outstanding s' = []"
    "regs s' = admin_regs a (iova l1) b (iova l2) ((regs s)\<lparr>CC_EN := 0\<rparr>)" "new_cell s' = new_cell s" "sqndbs s' = sqndbs s"
    "dev s' = dev s" "cmds s' = cmds s" "host_int_type s' = host_int_type s" "nvme_event s'" "pcie_event s'" "cid_mgr s' = cid_mgr s"
proof -
  obtain p where d: "cc_disable pf 10 s = (Inr (), s\<lparr>regs := (regs s)\<lparr>CC_EN := 0\<rparr>, nvme_event := True, pcie := p, pcie_event := True,
    mem := write_bytes (mem s) (sqndbs s) (zeros (8 * 1024)), host_queue_mgr := new_queue_mgr, outstanding := []\<rparr>)"
    (is "_ = (_, ?s1)") using cc_disable_result [OF assms(1,2)] by blast
  let ?s2 = "?s1\<lparr>mem := m2, mem_mgr := g2\<rparr>"
  obtain p' where q: "program_admin_queues a (iova l1) b (iova l2) ?s2 =
      (Inr (), ?s2\<lparr>regs := admin_regs a (iova l1) b (iova l2) (regs ?s2), nvme_event := True, pcie := p', pcie_event := True\<rparr>)"
    (is "_ = (_, ?s3)") using program_admin_result by blast
  have "init_admin_queues pf a b s = add_queue_pair l1 a 0 l2 b 0 0 ?s3"
    using assms(3,4) q by (simp add: init_admin_queues_def thenS_def bindS_apply d mallocS_def)
  moreover have "own1 = new_cell ?s3 (cells ?s3)" "own2 = new_cell ?s3 (cells ?s3 @ [own1])" using assms(5,6) by simp_all
  note add_queue_pair_result [OF this, of l1 a l2 b 0]
  ultimately show ?thesis using that by simp
qed

section \<open>Starting and finishing a command\<close>

text \<open>What \<open>start_cmd\<close> does when nothing fails, and what \<open>sync_cmd\<close> makes of a completion that is there at the first look.\<close>

definition started_command :: "nat \<Rightarrow> nvme_queue \<Rightarrow> nat \<Rightarrow> command \<Rightarrow> command" where
  "started_command cid sq cq c = c\<lparr>c_sq := Some sq, c_cq := Some cq, c_bytes := setf SQE_CID cid (c_bytes c)\<rparr>"

lemma started_command_simps [simp]:
  "c_sq (started_command cid sq cq c) = Some sq" "c_cq (started_command cid sq cq c) = Some cq"
  "c_bytes (started_command cid sq cq c) = setf SQE_CID cid (c_bytes c)" "c_class (started_command cid sq cq c) = c_class c"
  "c_posted (started_command cid sq cq c) = c_posted c" "c_complete (started_command cid sq cq c) = c_complete c"
  "c_data_in (started_command cid sq cq c) = c_data_in c" "c_prp (started_command cid sq cq c) = c_prp c"
  by (simp_all add: started_command_def)

lemma start_cmd_result:
  assumes i: "i < length (cmds s)" "c = cmds s ! i" "\<not> c_posted c" "\<not> c_complete c"
    and q: "start_queues sqid cqid c s = (Inr (a, b), s)" "qm_get a b (host_queue_mgr s) = Inr (Queues (Some sq) (Some cq))"
    and k: "(c_cid c, qid sq) \<notin> fst ` set (outstanding s)"
    and c': "c' = started_command (cid_value (cid_mgr s)) sq cq c"
    and post: "sq_post_command (mem s) sq (c_bytes c') = Inr m"
    and s1: "s1 = s\<lparr>cmds := (cmds s)[i := c'], cid_mgr := snd (cid_alloc (cid_mgr s)), mem := m\<rparr>"
    and hook: "pf_posted_command pf (shared.truncate s1) = (Inr (), t)"
  defines "s2 \<equiv> shared.extend t (shared.more s1)"
  shows "start_cmd pf i sqid cqid s = (Inr (a, qid (host_cqs s ! cq)),
    s2\<lparr>outstanding := AList.update (c_cid c', qid sq) i (outstanding s), cmds := (cmds s)[i := c'\<lparr>c_posted := True\<rparr>]\<rparr>)"
proof -
  let ?c = "c\<lparr>c_sq := Some sq, c_cq := Some cq\<rparr>" and ?s = "s\<lparr>cmds := (cmds s)[i := c\<lparr>c_sq := Some sq, c_cq := Some cq\<rparr>]\<rparr>"
  have c'': "c_bytes_update (setf SQE_CID (cid_value (cid_mgr s))) ?c = c'" by (simp add: c' started_command_def)
  have same: "cmds s2 = (cmds s)[i := c']" "host_cqs s2 = host_cqs s" "outstanding s2 = outstanding s"
    by (simp_all add: s2_def s1)
  have "?s\<lparr>cid_mgr := snd (cid_alloc (cid_mgr ?s)), cmds := (cmds ?s)[i := c'], mem := m\<rparr> = s1" by (simp add: s1)
  then have "sharedS (pf_posted_command pf) (?s\<lparr>cid_mgr := snd (cid_alloc (cid_mgr ?s)), cmds := (cmds ?s)[i := c'], mem := m\<rparr>) = (Inr (), s2)"
    using hook by (simp add: sharedS_def s2_def)
  then have "post_command pf i ?s = (Inr (), s2\<lparr>outstanding := AList.update (c_cid c', qid sq) i (outstanding s)\<rparr>)"
    using post_command_result [of i ?s sq pf] i post c'' same by (simp add: c')
  then have "start_on pf i sq cq s = (Inr (),
      s2\<lparr>outstanding := AList.update (c_cid c', qid sq) i (outstanding s), cmds := (cmds s)[i := c'\<lparr>c_posted := True\<rparr>]\<rparr>)"
    using i k same by (simp add: start_on_def update_command_def commandS_apply c_cid_def)
  then show ?thesis using i q same
    by (simp add: start_cmd_def bindS_apply commandS_apply queues_for_def)
qed

lemma sync_cmd_result:
  assumes "start_cmd pf i sqid cqid s = (Inr x, s3)" "i < length (cmds s3)" "c_cq (cmds s3 ! i) = Some cq" "host_int_type s3 \<noteq> MSIX"
    and "get_completion (qid (host_cqs s3 ! cq)) s3 = (Inr True, s4)" "i < length (cmds s4)" "c_complete (cmds s4 ! i)"
  shows "sync_cmd pf i sqid cqid t check s =
    ((if check then sc_check status_codes (c_class (cmds s4 ! i)) (getf CQE_SCT (c_cqe (cmds s4 ! i))) (getf CQE_SC (c_cqe (cmds s4 ! i))) True
      else Inr ()), s4)"
proof -
  have "poll_loop pf n [qid (host_cqs s3 ! cq)] 1 0 s3 = (Inr 1, s4)" for n
    using assms(5) by (subst poll_loop.simps) (simp add: bindS_apply)
  then show ?thesis
    using assms by (simp add: sync_cmd_def commandS_apply the_attr_def get_completions_def poll_cq_completions_def cqids_of_def bindS_apply)
qed

end
