(* ===== verification/Host_Examples.thy ===== *)
theory Host_Examples
  imports Host_Init
begin

text \<open>Concrete drivers, at which the properties of the driver are instantiated.\<close>

section \<open>A driver with its admin queues\<close>

definition example_shared :: "unit shared" where
  "example_shared = \<lparr>mem = \<lambda>_. 0, regs = zero_regs, pcie = \<lambda>_. 0, nvme_event = False, pcie_event = False, sqndbs = 0x8000,
     cells = [], new_cell = (\<lambda>cs. 0x10000 + 4 * length cs), dev = ()\<rparr>"

text \<open>Memory is given out in order, the device does nothing, and every loop has one round.\<close>

definition example_platform :: "(unit, nat) platform" where
  "example_platform = \<lparr>pf_malloc = (\<lambda>m a n d. Inr (\<lparr>vaddr = a, iova = a, msize = n\<rparr>, m, a + n)), pf_page_size = 4096,
     pf_posted_command = retS (), pf_others = id, pf_rounds = (\<lambda>_. 1), pf_pending_count = (\<lambda>_. raiseS AttributeError)\<rparr>"

lemma zero_memory [simp]: "write_bytes (\<lambda>_. 0) a (zeros n) = (\<lambda>_. 0)" "write32 (\<lambda>_. 0) a 0 = (\<lambda>_. 0)"
proof -
  have z: "write_bytes (\<lambda>_. 0) a (zeros n) = (\<lambda>_. 0)" for a n
    by (auto simp: write_bytes_def zeros_def fun_eq_iff)
  have z4: "to_le k 0 = replicate k 0" for k by (induction k) simp_all
  show "write_bytes (\<lambda>_. 0) a (zeros n) = (\<lambda>_. 0)" by (rule z)
  show "write32 (\<lambda>_. 0) a 0 = (\<lambda>_. 0)" using z [of a 4] z4 by (simp add: write32_def zeros_def)
qed

lemma example_admin:
  obtains s where "driver_reach example_platform s" "host_cqs s = [admin_cq 0x100400 16 0x10004 0x8000 (Some 0)]"
    "host_queue_mgr s = qm_add 0 (admin_sq 0x100000 16 0x10000 0x8000) 0 0 new_queue_mgr"
    "mem s = (\<lambda>_. 0)" "outstanding s = []"
proof -
  let ?s = "new_device example_shared 0x100000 [] :: (unit, nat) host"
  have p: "CSTS_CFS (regs ?s) = 1 \<or> CSTS_RDY (regs ?s) = 0" "0 < pf_rounds example_platform 10"
    and a: "pf_malloc example_platform (write_bytes (mem ?s) (sqndbs ?s) (zeros (8 * 1024))) (mem_mgr ?s) (64 * 16) HOST_TO_DEVICE =
      Inr (\<lparr>vaddr = 0x100000, iova = 0x100000, msize = 64 * 16\<rparr>, \<lambda>_. 0, 0x100400)"
    and b: "pf_malloc example_platform (\<lambda>_. 0) 0x100400 (16 * 16) DEVICE_TO_HOST =
      Inr (\<lparr>vaddr = 0x100400, iova = 0x100400, msize = 16 * 16\<rparr>, \<lambda>_. 0, 0x100500)"
    and c: "0x10000 = new_cell ?s (cells ?s)" "0x10004 = new_cell ?s (cells ?s @ [0x10000])"
    by (simp_all add: new_device_def shared.defs example_shared_def example_platform_def zero_regs_def)
  show ?thesis
  proof (rule init_admin_result [OF p a b c])
    fix s' assume s': "init_admin_queues example_platform 16 16 ?s = (Inr (), s')"
      "host_cqs s' = host_cqs ?s @ [admin_cq (vaddr \<lparr>vaddr = 0x100400, iova = 0x100400, msize = 16 * 16\<rparr>) 16 0x10004 (sqndbs ?s) (Some 0)]"
      "host_queue_mgr s' = qm_add 0 (admin_sq (vaddr \<lparr>vaddr = 0x100000, iova = 0x100000, msize = 64 * 16\<rparr>) 16 0x10000 (sqndbs ?s)) 0
        (length (host_cqs ?s)) new_queue_mgr"
      "mem s' = write32 (write32 (\<lambda>_. 0) 0x10000 0) 0x10004 0" "outstanding s' = []"
    have "driver_reach example_platform s'"
      by (rule driver_reach.step [OF driver_reach.init driver_step.admin [OF s'(1)]])
    then show ?thesis
      using that [of s'] s' by (simp add: new_device_def shared.defs example_shared_def)
  qed
qed


lemma drain_terminates_witness:
  "\<exists>s. driver_reach example_platform s \<and> ((\<exists>k s'. drain 0 s = (Inr k, s') \<and> get_completion 0 s' = (Inr False, s')) \<or>
    (\<exists>e s'. drain 0 s = (Inl e, s')))"
proof (rule example_admin)
  fix s assume "driver_reach example_platform s"
  with drain_terminates [OF this, of 0] show ?thesis by blast
qed

text \<open>The device writes an entry that belongs to no command.\<close>

definition example_entry :: "byte list" where
  "example_entry = setf CQE_P 1 (completion_entry 0x1000 0 0 1 0)"

lemma example_entry [simp]: "getf CQE_P example_entry = 1" "getf CQE_CID example_entry = 0x1000" "getf CQE_SQID example_entry = 0"
  "length example_entry = 16"
  by (simp_all add: example_entry_def getf_setf_apart completion_entry_fields completion_entry_def set_fields_def)

lemma example_next: "get_next_completion (write_bytes (\<lambda>_. 0) 0x100400 example_entry) (admin_cq 0x100400 16 0x10004 0x8000 (Some 0)) = 0x100400"
proof -
  have h: "ht_value (write_bytes (\<lambda>_. 0) 0x100400 example_entry) (head (admin_cq 0x100400 16 0x10004 0x8000 (Some 0))) = 0"
    by (simp add: admin_cq_def new_completion_queue_def ht_value_write_separate separate_def)
      (simp add: ht_value_def)
  then show ?thesis
    unfolding get_next_completion_def h by (simp add: slot_def admin_cq_def new_completion_queue_def)
qed


section \<open>A driver with a command outstanding\<close>

text \<open>
  A driver with two pairs of queues that has posted an Identify Controller command, without a buffer for its data, as the
  first command on the admin queue.
\<close>

definition example_command :: command where
  "example_command = \<lparr>c_class = IdentifyController, c_bytes = setf SQE_CID 0x1000 (zeros 64),
     c_sq = Some (admin_sq 0x100000 16 0x10000 0x8000), c_cq = Some 0, c_posted = True, c_complete = False, c_cqe = zeros 16,
     c_data_in = Some (zeros 4096), c_prp = None\<rparr>"

definition example_queues :: "(nvme_queue, nat) queue_mgr" where
  "example_queues = \<lparr>nvme_queues = [((0, 0), (Some (admin_sq 0x100000 16 0x10000 0x8000), Some 0)),
     ((1, 1), (Some ((admin_sq 0x200000 16 0x10008 0x8008)\<lparr>qid := 1\<rparr>), Some 1))], io_sqids = [1], io_sqid_index = 0, io_cqids = [1]\<rparr>"

definition example_driver :: "(unit, nat) host" where
  "example_driver = shared.extend (example_shared\<lparr>mem := write_bytes (\<lambda>_. 0) 0x100400 example_entry\<rparr>)
     \<lparr>host_cqs = [admin_cq 0x100400 16 0x10004 0x8000 (Some 0), admin_cq 0x200400 16 0x1000C 0x8008 (Some 1)],
      host_queue_mgr = example_queues, cmds = [example_command], outstanding = [((0x1000, 0), 0)],
      cid_mgr = \<lparr>init_value = 0x1000, max_value = 0xFFFE, cid_value = 0x1001\<rparr>, mem_mgr = 0,
      host_int_type = POLLING, num_msix_vectors = 0, host_capabilities = []\<rparr>"

lemma example_driver_simps [simp]:
  "mem example_driver = write_bytes (\<lambda>_. 0) 0x100400 example_entry"
  "host_cqs example_driver = [admin_cq 0x100400 16 0x10004 0x8000 (Some 0), admin_cq 0x200400 16 0x1000C 0x8008 (Some 1)]"
  "host_queue_mgr example_driver = example_queues" "cmds example_driver = [example_command]"
  "outstanding example_driver = [((0x1000, 0), 0)]"
  "cid_mgr example_driver = \<lparr>init_value = 0x1000, max_value = 0xFFFE, cid_value = 0x1001\<rparr>"
  by (simp_all add: example_driver_def shared.defs)

lemma example_command_simps [simp]:
  "c_posted example_command" "c_cid example_command = 0x1000" "c_sq example_command = Some (admin_sq 0x100000 16 0x10000 0x8000)"
  "c_cq example_command = Some 0" "c_prp example_command = None" "c_data_in example_command = Some (zeros 4096)"
  by (simp_all add: example_command_def c_cid_def)

lemma admin_sq_qid [simp]: "qid (admin_sq b n own d) = 0"
  by (simp add: admin_sq_def new_submission_queue_def Let_def)

lemma example_command_wf: "command_wf 2 example_command"
proof -
  have "csize (cc_layout Identify) = 64" using basic_headers by (simp add: header_ok_def)
  moreover have "cc_data_in IdentifyController = Some IdentifyControllerData" by (simp add: IdentifyController_def)
  ultimately show ?thesis by (simp add: command_wf_def example_command_def)
qed

lemma example_driver_wf: "host_wf example_driver"
  using example_command_wf
  by (simp add: host_wf_def outstanding_wf_def cid_wf_def refs_wf_def example_queues_def numeral_2_eq_2)

lemma example_driver_entry:
  "cq_of 0 example_driver = (Inr 0, example_driver)"
  "get_next_completion (mem example_driver) (host_cqs example_driver ! 0) = 0x100400"
  "read_bytes (mem example_driver) 0x100400 16 = example_entry"
  "phase (host_cqs example_driver ! 0) = 1"
proof -
  show "cq_of 0 example_driver = (Inr 0, example_driver)" by (simp add: cq_of_def bindS_apply example_queues_def)
  show "read_bytes (mem example_driver) 0x100400 16 = example_entry" by simp
  show "phase (host_cqs example_driver ! 0) = 1" by (simp add: admin_cq_def new_completion_queue_def)
  show "get_next_completion (mem example_driver) (host_cqs example_driver ! 0) = 0x100400"
    using example_next by simp
qed



lemma cid_sequence_witness:
  "fst (cid_alloc ((cid_next ^^ 61438) (new_cid_mgr 0x1000 0xFFFE))) = 0x1000"
  using cid_sequence [where i = "0x1000" and m = "0xFFFE" and n = "61438" and k = "0" and cid = "\<lambda>n. fst (cid_alloc ((cid_next ^^ n) (new_cid_mgr 0x1000 0xFFFE)))"] by simp

end
