(* ===== verification/Hugepages.thy ===== *)
theory Hugepages
  imports Effects Dma_Memory
begin

text \<open>
  The memory manager of a physical device (\<open>lone/system/linux/hugepages_mgr.py\<close>): huge pages from the operating system
  are split into pages of the controller's size, runs of adjacent free pages are given out, and each
  location gets a bus address of its own and is mapped there. The extension module \<open>hugepages\<close> and the functions that
  map and unmap memory are attributes of the manager object.
\<close>

section \<open>Bus addresses: \<open>HugePagesIovaMgr\<close>\<close>

record iova_mgr =
  iova_ranges :: "(nat \<times> nat) list"
  max_iovas :: nat
  increment :: nat
  free_iovas :: "nat list"

definition max_range :: "nat \<Rightarrow> nat \<times> nat \<Rightarrow> int" where
  "max_range inc r = int (snd r) - int inc"

text \<open>The loop of \<open>reset\<close>: rounds left, index of the range, next address and the last that fits the range.\<close>

fun reset_loop :: "(nat \<times> nat) list \<Rightarrow> nat \<Rightarrow> nat \<Rightarrow> nat \<Rightarrow> nat \<Rightarrow> int \<Rightarrow> nat list \<Rightarrow> nat list res" where
  "reset_loop ranges inc 0 range_index next_iova max_iova iovas = Inr iovas"
| "reset_loop ranges inc (Suc n) range_index next_iova max_iova iovas =
     (let iovas = iovas @ [next_iova]; next_iova = next_iova + inc in
      if int next_iova > max_iova
      then bindR (assertR (range_index + 1 < length ranges)) (\<lambda>_.
        reset_loop ranges inc n (range_index + 1) (fst (ranges ! (range_index + 1)))
          (max_range inc (ranges ! (range_index + 1))) iovas)
      else reset_loop ranges inc n range_index next_iova max_iova iovas)"

definition iova_reset :: "iova_mgr \<Rightarrow> iova_mgr res" where
  "iova_reset im =
     bindR (list_get (iova_ranges im) 0) (\<lambda>r.
     bindR (if fst r = 0 then bindR (assertR (0x1000 \<le> max_range (increment im) r)) (\<lambda>_. Inr 0x1000) else Inr (fst r)) (\<lambda>start.
     bindR (reset_loop (iova_ranges im) (increment im) (max_iovas im) 0 start (max_range (increment im) r) []) (\<lambda>iovas.
       Inr (im\<lparr>free_iovas := iovas\<rparr>))))"

definition new_iova_mgr :: "(nat \<times> nat) list \<Rightarrow> iova_mgr res" where
  "new_iova_mgr ranges = iova_reset \<lparr>iova_ranges = ranges, max_iovas = 1000, increment = 2 * 1024 * 1024, free_iovas = []\<rparr>"

definition num_allocated_iovas :: "iova_mgr \<Rightarrow> int" where
  "num_allocated_iovas im = int (max_iovas im) - int (length (free_iovas im))"

definition iova_get :: "nat \<Rightarrow> iova_mgr \<Rightarrow> (nat \<times> iova_mgr) res" where
  "iova_get n im =
     bindR (assertR (n \<le> increment im)) (\<lambda>_. case free_iovas im of
       [] \<Rightarrow> Inl IndexError
     | a # as \<Rightarrow> Inr (a, im\<lparr>free_iovas := as\<rparr>))"

definition iova_free :: "nat \<Rightarrow> iova_mgr \<Rightarrow> iova_mgr" where
  "iova_free a im = im\<lparr>free_iovas := free_iovas im @ [a]\<rparr>"

section \<open>The manager: \<open>HugePagesMemoryMgr\<close> and \<open>HugePagesMemory\<close>\<close>

text \<open>
  A \<open>MemoryLocation\<close> object with all its attributes. The lists \<open>pages\<close>, \<open>malloc_mem\<close> and \<open>linked_mem\<close> hold references to the
  objects, which are indices into \<open>locs\<close>.
\<close>

record location = mem_loc +
  client :: string
  in_use :: bool
  iova_mapped :: bool
  iova_direction :: "dma_direction option"
  linked_mem :: "nat list"

definition new_location :: "nat \<Rightarrow> nat \<Rightarrow> nat \<Rightarrow> string \<Rightarrow> location" where
  "new_location v i n c = \<lparr>vaddr = v, iova = i, msize = n, client = c, in_use = False, iova_mapped = False,
     iova_direction = None, linked_mem = []\<rparr>"

text \<open>
  \<open>hugepages_malloc areas n align\<close> is what the extension module returns when the areas given out before are \<open>areas\<close>, or None when
  it raises; \<open>hugepages_freed\<close> are the addresses handed back to it. \<open>'v\<close> is the state of the bus mappings, with the functions that
  change them.
\<close>

record 'v hp_mgr =
  hp_mem :: memory
  locs :: "location list"
  hp_page_size :: nat
  sc_page_size :: nat
  hugepages_size :: nat
  allocated_memory :: "(nat \<times> nat) list"
  hugepages_freed :: "nat list"
  hp_pages :: "nat list"
  malloc_mem :: "nat list"
  hp_iovas :: iova_mgr
  bus :: 'v
  hugepages_malloc :: "(nat \<times> nat) list \<Rightarrow> nat \<Rightarrow> nat \<Rightarrow> int option"
  map_read_func :: "nat \<Rightarrow> nat \<Rightarrow> nat \<Rightarrow> ('v, unit) st"
  map_write_func :: "nat \<Rightarrow> nat \<Rightarrow> nat \<Rightarrow> ('v, unit) st"
  unmap_func :: "nat \<Rightarrow> nat \<Rightarrow> ('v, unit) st"

type_synonym ('v, 'a) hp_op = "('v hp_mgr, 'a) st"

definition update_loc :: "nat \<Rightarrow> (location \<Rightarrow> location) \<Rightarrow> ('v, unit) hp_op" where
  "update_loc i f = modifyS (\<lambda>s. s\<lparr>locs := (locs s)[i := f (locs s ! i)]\<rparr>)"

definition busS :: "('v, 'a) st \<Rightarrow> ('v, 'a) hp_op" where
  "busS f = (\<lambda>s. case f (bus s) of (r, v) \<Rightarrow> (r, s\<lparr>bus := v\<rparr>))"

definition divS :: "nat \<Rightarrow> nat \<Rightarrow> ('s, nat) st" where
  "divS a b = (if b = 0 then raiseS ZeroDivisionError else retS (a div b))"

subsection \<open>Huge pages\<close>

definition hp_memory_malloc :: "nat \<Rightarrow> ('v, nat \<times> nat) hp_op" where
  "hp_memory_malloc n =
     bindS (getS id) (\<lambda>s.
     thenS (if n = 0 then raiseS ZeroDivisionError else retS ()) (
     thenS (assertS (hugepages_size s mod n = 0)) (
     thenS (assertS (n mod sc_page_size s = 0)) (
       case hugepages_malloc s (allocated_memory s) n (sc_page_size s) of
         None \<Rightarrow> raiseS MemoryError
       | Some v \<Rightarrow> if v = 0 \<or> v = -1 then raiseS MemoryError
           else thenS (modifyS (\<lambda>s. s\<lparr>allocated_memory := allocated_memory s @ [(nat v, n)]\<rparr>)) (retS (nat v, n))))))"

text \<open>\<open>_free_all\<close> removes from the list it iterates over: the loop goes by position.\<close>

function hp_free_loop :: "nat \<Rightarrow> (nat \<times> nat) list \<Rightarrow> nat list \<Rightarrow> (nat \<times> nat) list \<times> nat list" where
  "hp_free_loop i areas freed =
     (if i < length areas then hp_free_loop (i + 1) (remove1 (areas ! i) areas) (freed @ [fst (areas ! i)]) else (areas, freed))"
  by pat_completeness auto

termination
  by (relation "measure (\<lambda>(i, areas, freed). length areas - i)") (auto simp: length_remove1)

declare hp_free_loop.simps [simp del]

definition hp_memory_free_all :: "('v, unit) hp_op" where
  "hp_memory_free_all = modifyS (\<lambda>s. case hp_free_loop 0 (allocated_memory s) (hugepages_freed s) of
     (areas, freed) \<Rightarrow> s\<lparr>allocated_memory := areas, hugepages_freed := freed\<rparr>)"

definition split_page :: "nat \<Rightarrow> nat \<Rightarrow> nat \<Rightarrow> location list" where
  "split_page P v n = map (\<lambda>k. new_location (v + k * P) 0 P ''HugePagesMemoryMgr'') [0..<n]"

definition malloc_hp :: "('v, unit) hp_op" where
  "malloc_hp =
     bindS (getS hugepages_size) (\<lambda>n.
     bindS (hp_memory_malloc n) (\<lambda>(v, n).
     bindS (getS hp_page_size) (\<lambda>P.
     bindS (divS n P) (\<lambda>k.
       modifyS (\<lambda>s. s\<lparr>locs := locs s @ split_page P v k, hp_pages := hp_pages s @ [length (locs s)..<length (locs s) + k]\<rparr>)))))"

definition malloc_hps :: "nat \<Rightarrow> ('v, unit) hp_op" where
  "malloc_hps num_hps = forS [0..<num_hps] (\<lambda>_. malloc_hp)"

subsection \<open>Allocation\<close>

definition free_pages :: "'v hp_mgr \<Rightarrow> nat list" where
  "free_pages s = filter (\<lambda>i. \<not> in_use (locs s ! i)) (hp_pages s)"

definition grouper :: "'a list \<Rightarrow> nat \<Rightarrow> 'a list list" where
  "grouper xs n = map (\<lambda>i. take n (drop i xs)) [0..<length xs - (n - 1)]"

definition adjacent :: "location list \<Rightarrow> nat \<Rightarrow> nat \<Rightarrow> bool" where
  "adjacent ls a b \<longleftrightarrow> vaddr (ls ! a) + msize (ls ! a) = vaddr (ls ! b)"

definition find_group :: "location list \<Rightarrow> nat list \<Rightarrow> nat \<Rightarrow> nat list option" where
  "find_group ls free n =
     find (\<lambda>g. \<not> list_ex (\<lambda>i. in_use (ls ! i)) g \<and> successively (adjacent ls) g) (grouper free n)"

text \<open>Taking a page of the group: it is in use, and linked to the first one.\<close>

definition link_page :: "nat \<Rightarrow> nat \<Rightarrow> location list \<Rightarrow> location list" where
  "link_page r m ls =
     (let ls = ls[m := (ls ! m)\<lparr>in_use := True\<rparr>] in ls[r := (ls ! r)\<lparr>linked_mem := linked_mem (ls ! r) @ [m]\<rparr>])"

definition iova_getS :: "nat \<Rightarrow> ('v, nat) hp_op" where
  "iova_getS n = (\<lambda>s. case iova_get n (hp_iovas s) of Inl e \<Rightarrow> (Inl e, s) | Inr (a, im) \<Rightarrow> (Inr a, s\<lparr>hp_iovas := im\<rparr>))"

definition map_iova :: "nat \<Rightarrow> dma_direction \<Rightarrow> ('v, unit) hp_op" where
  "map_iova i dir =
     bindS (getS id) (\<lambda>s. let l = locs s ! i in
     thenS (case dir of
         HOST_TO_DEVICE \<Rightarrow> busS (map_read_func s (vaddr l) (iova l) (msize l))
       | DEVICE_TO_HOST \<Rightarrow> busS (map_write_func s (vaddr l) (iova l) (msize l))
       | BIDIRECTIONAL \<Rightarrow> raiseS AssertionError)
       (update_loc i (\<lambda>l. l\<lparr>iova_direction := Some dir, iova_mapped := True\<rparr>)))"

definition pages_for :: "nat \<Rightarrow> ('v, nat \<times> nat) hp_op" where
  "pages_for n = bindS (getS id) (\<lambda>s.
     let n = (if n < sc_page_size s then sc_page_size s else n) in
     bindS (divS n (hp_page_size s)) (\<lambda>k. retS (n, max 1 k)))"

definition more_pages :: "nat \<Rightarrow> ('v, unit) hp_op" where
  "more_pages needed = bindS (getS id) (\<lambda>s.
     bindS (divS (hugepages_size s) (hp_page_size s)) (\<lambda>pages_per_hp.
     if needed > length (free_pages s)
     then bindS (divS (needed - length (free_pages s)) pages_per_hp) (\<lambda>k. malloc_hps (max 1 k))
     else retS ()))"

definition take_group :: "nat list \<Rightarrow> nat \<Rightarrow> dma_direction \<Rightarrow> string \<Rightarrow> ('v, nat) hp_op" where
  "take_group g n dir client' =
     (let r = hd g in
      thenS (modifyS (\<lambda>s. s\<lparr>locs := fold (link_page r) (tl g) (locs s)\<rparr>)) (
      thenS (update_loc r (\<lambda>l. l\<lparr>msize := n, client := client'\<rparr>)) (
      bindS (iova_getS n) (\<lambda>a.
      thenS (update_loc r (\<lambda>l. l\<lparr>iova := a, in_use := True\<rparr>)) (
      thenS (modifyS (\<lambda>s. s\<lparr>malloc_mem := malloc_mem s @ [r]\<rparr>)) (
      thenS (map_iova r dir) (retS r)))))))"

definition hp_malloc :: "nat \<Rightarrow> dma_direction \<Rightarrow> string \<Rightarrow> ('v, nat) hp_op" where
  "hp_malloc n dir client' =
     bindS (pages_for n) (\<lambda>(n, needed).
     thenS (more_pages needed) (
     bindS (getS id) (\<lambda>s. case find_group (locs s) (free_pages s) needed of
       None \<Rightarrow> raiseS MemoryError
     | Some g \<Rightarrow> take_group g n dir client')))"

definition malloc_pages :: "nat \<Rightarrow> ('v, nat list) hp_op" where
  "malloc_pages num_pages =
     bindS (getS id) (\<lambda>s.
     bindS (divS (hugepages_size s) (hp_page_size s)) (\<lambda>pages_per_hp.
     thenS (if num_pages > length (free_pages s)
            then if pages_per_hp = 0 then raiseS ZeroDivisionError
                 else malloc_hps (max 1 (ceil_div (num_pages - length (free_pages s)) pages_per_hp))
            else retS ()) (
     bindS (getS (\<lambda>s. take num_pages (free_pages s))) (\<lambda>ps.
     thenS (forS ps (\<lambda>p. update_loc p (\<lambda>l. l\<lparr>in_use := True\<rparr>))) (
     thenS (assertS (length ps = num_pages)) (retS ps))))))"

subsection \<open>Release\<close>

definition free_page :: "nat \<Rightarrow> ('v, unit) hp_op" where
  "free_page i =
     bindS (getS (\<lambda>s. in_use (locs s ! i))) (\<lambda>used.
     thenS (assertS used) (
     bindS (getS hp_page_size) (\<lambda>P.
       update_loc i (\<lambda>l. l\<lparr>in_use := False, msize := P\<rparr>))))"

definition hp_free :: "nat \<Rightarrow> ('v, unit) hp_op" where
  "hp_free i =
     bindS (getS (\<lambda>s. linked_mem (locs s ! i))) (\<lambda>ms.
     thenS (forS ms free_page) (
     thenS (update_loc i (\<lambda>l. l\<lparr>linked_mem := []\<rparr>)) (
     thenS (free_page i) (
     bindS (getS id) (\<lambda>s. let l = locs s ! i in
     thenS (assertS (iova_mapped l)) (
     thenS (busS (unmap_func s (iova l) (msize l))) (
     thenS (update_loc i (\<lambda>l. l\<lparr>iova_mapped := False\<rparr>)) (
     thenS (modifyS (\<lambda>s. s\<lparr>hp_iovas := iova_free (iova l) (hp_iovas s)\<rparr>)) (
     thenS (modifyS (\<lambda>s. s\<lparr>hp_mem := write_bytes (hp_mem s) (vaddr l) (zeros (msize l))\<rparr>)) (
     bindS (getS malloc_mem) (\<lambda>ms.
     bindS (liftS (list_remove i ms)) (\<lambda>ms. modifyS (\<lambda>s. s\<lparr>malloc_mem := ms\<rparr>)))))))))))))"

definition hp_free_all :: "('v, unit) hp_op" where
  "hp_free_all =
     bindS (getS malloc_mem) (\<lambda>malloc.
     thenS (forS malloc hp_free) (
     thenS (modifyS (\<lambda>s. s\<lparr>hp_pages := []\<rparr>)) (
     thenS hp_memory_free_all (
     bindS (getS malloc_mem) (\<lambda>ms. assertS (ms = []))))))"

definition new_hp_mgr :: "(nat \<times> nat) list \<Rightarrow> ('v, unit) hp_op" where
  "new_hp_mgr ranges =
     thenS (modifyS (\<lambda>s. s\<lparr>allocated_memory := [], hp_pages := []\<rparr>)) (
     thenS (malloc_hps 1) (
     thenS (modifyS (\<lambda>s. s\<lparr>malloc_mem := []\<rparr>)) (
     bindS (liftS (new_iova_mgr ranges)) (\<lambda>im. modifyS (\<lambda>s. s\<lparr>hp_iovas := im\<rparr>)))))"

section \<open>Bus addresses\<close>

text \<open>Addresses from \<open>lo\<close> on that fit the ranges with their increment and, when the ranges are in order, do not overlap.\<close>

definition iovas_from :: "(nat \<times> nat) list \<Rightarrow> nat \<Rightarrow> nat \<Rightarrow> nat list \<Rightarrow> bool" where
  "iovas_from ranges inc lo xs \<longleftrightarrow>
     (\<forall>x \<in> set xs. \<exists>r \<in> set ranges. fst r \<le> x \<and> x + inc \<le> snd r) \<and>
     (sorted_wrt (\<lambda>r r'. snd r \<le> fst r') ranges \<longrightarrow> sorted_wrt (\<lambda>x y. x + inc \<le> y) xs \<and> (\<forall>x \<in> set xs. lo \<le> x))"

lemma iovas_from_Cons:
  assumes "iovas_from ranges inc lo' xs" "r \<in> set ranges" "fst r \<le> lo" "lo + inc \<le> snd r"
    and "sorted_wrt (\<lambda>r r'. snd r \<le> fst r') ranges \<Longrightarrow> lo + inc \<le> lo'"
  shows "iovas_from ranges inc lo (lo # xs)"
  using assms by (fastforce simp: iovas_from_def)

lemma reset_loop_ok:
  assumes "\<forall>r \<in> set ranges. int (fst r) \<le> max_range inc r" "k < length ranges" "fst (ranges ! k) \<le> next_iova"
    and "int next_iova \<le> max_range inc (ranges ! k)"
  shows "reset_loop ranges inc n k next_iova (max_range inc (ranges ! k)) acc = Inl AssertionError \<or>
    (\<exists>xs. reset_loop ranges inc n k next_iova (max_range inc (ranges ! k)) acc = Inr (acc @ xs) \<and> length xs = n \<and>
      iovas_from ranges inc next_iova xs)"
  using assms
proof (induction n arbitrary: k next_iova acc)
  case 0
  then show ?case by (simp add: iovas_from_def)
next
  case (Suc n)
  have r: "ranges ! k \<in> set ranges" "next_iova + inc \<le> snd (ranges ! k)" using Suc.prems by (auto simp: max_range_def)
  note cons = iovas_from_Cons [OF _ r(1) Suc.prems(3) r(2)]
  show ?case
  proof (cases "int (next_iova + inc) > max_range inc (ranges ! k)")
    case False
    from Suc.IH [of k "next_iova + inc" "acc @ [next_iova]"] Suc.prems False
    consider "reset_loop ranges inc n k (next_iova + inc) (max_range inc (ranges ! k)) (acc @ [next_iova]) = Inl AssertionError"
      | xs where "reset_loop ranges inc n k (next_iova + inc) (max_range inc (ranges ! k)) (acc @ [next_iova]) =
          Inr ((acc @ [next_iova]) @ xs)" "length xs = n" "iovas_from ranges inc (next_iova + inc) xs"
      by fastforce
    then show ?thesis
    proof cases
      case 2
      with False cons [OF 2(3)] show ?thesis by (intro disjI2 exI [of _ "next_iova # xs"]) simp
    qed (use False in simp)
  next
    case True
    let ?a = "fst (ranges ! (k + 1))"
    show ?thesis
    proof (cases "k + 1 < length ranges")
      case more: True
      have le: "next_iova + inc \<le> ?a" if "sorted_wrt (\<lambda>r r'. snd r \<le> fst r') ranges"
        using sorted_wrt_nth_less [OF that, of k "k + 1"] more r(2) by simp
      from Suc.IH [of "k + 1" ?a "acc @ [next_iova]"] Suc.prems more
      consider "reset_loop ranges inc n (k + 1) ?a (max_range inc (ranges ! (k + 1))) (acc @ [next_iova]) = Inl AssertionError"
        | xs where "reset_loop ranges inc n (k + 1) ?a (max_range inc (ranges ! (k + 1))) (acc @ [next_iova]) =
            Inr ((acc @ [next_iova]) @ xs)" "length xs = n" "iovas_from ranges inc ?a xs"
        by fastforce
      then show ?thesis
      proof cases
        case 2
        with True more cons [OF 2(3) le] show ?thesis by (intro disjI2 exI [of _ "next_iova # xs"]) simp
      qed (use True more in simp)
    qed (use True in \<open>simp add: Let_def\<close>)
  qed
qed

lemma reset_loop_single:
  assumes "int next_iova \<le> max_range inc r"
  shows "reset_loop [r] inc n 0 next_iova (max_range inc r) acc =
    (if n = 0 \<or> int (next_iova + n * inc) \<le> max_range inc r then Inr (acc @ map (\<lambda>i. next_iova + i * inc) [0..<n])
     else Inl AssertionError)"
  using assms
proof (induction n arbitrary: next_iova acc)
  case (Suc n)
  have m: "map (\<lambda>i. next_iova + i * inc) [0..<Suc n] = next_iova # map (\<lambda>i. next_iova + inc + i * inc) [0..<n]"
    by (simp add: upt_conv_Cons map_Suc_upt [symmetric] comp_def del: upt_Suc)
  show ?case
  proof (cases "int (next_iova + inc) > max_range inc r")
    case True
    moreover have "int (next_iova + inc) \<le> int (next_iova + Suc n * inc)" by (simp del: of_nat_add of_nat_mult)
    ultimately have "\<not> int (next_iova + Suc n * inc) \<le> max_range inc r" by linarith
    with True show ?thesis by (simp add: Let_def)
  next
    case False
    then show ?thesis using Suc.IH [of "next_iova + inc" "acc @ [next_iova]"] m by (auto simp: Let_def algebra_simps)
  qed
qed simp

end
