(* ===== verification/Hugepages_Wf.thy ===== *)
theory Hugepages_Wf
  imports Hugepages
begin

text \<open>
  What holds of the huge page manager: its pages are disjoint, every location it has given out owns a block of adjacent pages that nobody
  else owns, and bus addresses are used once. Each operation is shown to keep it, with its exact effect on the location objects.
\<close>

section \<open>The state of the manager\<close>

definition block_of :: "location list \<Rightarrow> nat \<Rightarrow> nat list" where
  "block_of ls i = i # linked_mem (ls ! i)"

definition follows :: "nat \<Rightarrow> location list \<Rightarrow> nat \<Rightarrow> nat \<Rightarrow> bool" where
  "follows P ls a b \<longleftrightarrow> vaddr (ls ! a) + P = vaddr (ls ! b)"

text \<open>
  What the extension module guarantees of a huge page: it lies apart from those given out before. Removing a mapping
  never fails (the type 1 driver of the kernel accepts any part of a mapping), and the page size of
  the controller is at least that of the system.
\<close>

definition hugepages_heap :: "((nat \<times> nat) list \<Rightarrow> nat \<Rightarrow> nat \<Rightarrow> int option) \<Rightarrow> bool" where
  "hugepages_heap f \<longleftrightarrow> (\<forall>areas n align v. f areas n align = Some v \<longrightarrow> 0 < v \<longrightarrow>
     (\<forall>(a, k) \<in> set areas. separate (nat v) n a k))"

definition hp_config :: "'v hp_mgr \<Rightarrow> bool" where
  "hp_config s \<longleftrightarrow> 0 < sc_page_size s \<and> sc_page_size s \<le> hp_page_size s \<and> hugepages_heap (hugepages_malloc s) \<and>
     (\<forall>a n v. fst (unmap_func s a n v) = Inr ()) \<and>
     (\<forall>areas n align v. hugepages_malloc s areas n align = Some v \<longrightarrow> v \<noteq> 0 \<longrightarrow> v \<noteq> -1 \<longrightarrow> 0 < v)"

definition within :: "(nat \<times> nat) list \<Rightarrow> nat \<Rightarrow> nat \<Rightarrow> bool" where
  "within areas v n \<longleftrightarrow> (\<exists>(a, k) \<in> set areas. a \<le> v \<and> v + n \<le> a + k)"

definition pages_wf :: "'v hp_mgr \<Rightarrow> bool" where
  "pages_wf s \<longleftrightarrow> distinct (hp_pages s) \<and>
     (\<forall>i \<in> set (hp_pages s). i < length (locs s) \<and> within (allocated_memory s) (vaddr (locs s ! i)) (hp_page_size s)) \<and>
     (\<forall>i \<in> set (hp_pages s). \<forall>j \<in> set (hp_pages s). i \<noteq> j \<longrightarrow>
        separate (vaddr (locs s ! i)) (hp_page_size s) (vaddr (locs s ! j)) (hp_page_size s)) \<and>
     (\<forall>i \<in> set (hp_pages s) - set (malloc_mem s). msize (locs s ! i) = hp_page_size s \<and> linked_mem (locs s ! i) = [])"

definition block_ok :: "nat \<Rightarrow> nat list \<Rightarrow> location list \<Rightarrow> nat \<Rightarrow> bool" where
  "block_ok P ps ls i \<longleftrightarrow> set (block_of ls i) \<subseteq> set ps \<and> (\<forall>j \<in> set (block_of ls i). in_use (ls ! j)) \<and>
     successively (follows P ls) (block_of ls i) \<and> 0 < msize (ls ! i) \<and> msize (ls ! i) \<le> P * length (block_of ls i) \<and> iova_mapped (ls ! i)"

definition blocks_wf :: "'v hp_mgr \<Rightarrow> bool" where
  "blocks_wf s \<longleftrightarrow> distinct (concat (map (block_of (locs s)) (malloc_mem s))) \<and>
     (\<forall>i \<in> set (malloc_mem s). block_ok (hp_page_size s) (hp_pages s) (locs s) i)"

definition iovas_wf :: "'v hp_mgr \<Rightarrow> bool" where
  "iovas_wf s \<longleftrightarrow> distinct (map (\<lambda>i. iova (locs s ! i)) (malloc_mem s) @ free_iovas (hp_iovas s)) \<and>
     (\<forall>a \<in> set (map (\<lambda>i. iova (locs s ! i)) (malloc_mem s) @ free_iovas (hp_iovas s)). 0 < a \<and> a < 2 ^ 64)"

definition hp_inv :: "'v hp_mgr \<Rightarrow> bool" where
  "hp_inv s \<longleftrightarrow> hp_config s \<and> pages_wf s \<and> blocks_wf s \<and> iovas_wf s"

definition hp_live :: "'v hp_mgr \<Rightarrow> mem_loc list" where
  "hp_live s = map (\<lambda>i. mem_loc.truncate (locs s ! i)) (malloc_mem s)"

lemma truncate_loc [simp]:
  "vaddr (mem_loc.truncate l) = vaddr l" "iova (mem_loc.truncate l) = iova l" "msize (mem_loc.truncate l) = msize l"
  by (simp_all add: mem_loc.defs)

lemma block_covers:
  assumes "successively (follows P ls) (i # ms)" "vaddr (ls ! i) \<le> x" "x < vaddr (ls ! i) + P * length (i # ms)"
  shows "\<exists>j \<in> set (i # ms). vaddr (ls ! j) \<le> x \<and> x < vaddr (ls ! j) + P"
  using assms
proof (induction ms arbitrary: i)
  case (Cons m ms)
  show ?case
  proof (cases "x < vaddr (ls ! i) + P")
    case False
    with Cons.prems have "vaddr (ls ! m) \<le> x" "x < vaddr (ls ! m) + P * length (m # ms)" "successively (follows P ls) (m # ms)"
      by (auto simp: follows_def)
    from Cons.IH [OF this(3,1,2)] show ?thesis by auto
  qed (use Cons.prems in auto)
qed auto

lemma not_separate: "0 < n \<Longrightarrow> 0 < k \<Longrightarrow> \<not> separate a n b k \<Longrightarrow> \<exists>x. a \<le> x \<and> x < a + n \<and> b \<le> x \<and> x < b + k"
  by (intro exI [of _ "max a b"]) (auto simp: separate_def)

lemma blocks_separate:
  assumes "pages_wf s" "blocks_wf s" "i \<in> set (malloc_mem s)" "j \<in> set (malloc_mem s)" "i \<noteq> j"
    and "0 < n" "n \<le> hp_page_size s * length (block_of (locs s) i)"
  shows "separate (vaddr (locs s ! i)) n (vaddr (locs s ! j)) (msize (locs s ! j))"
proof (rule ccontr)
  assume no: "\<not> ?thesis"
  let ?P = "hp_page_size s"
  have b: "0 < msize (locs s ! k)" "msize (locs s ! k) \<le> ?P * length (block_of (locs s) k)"
    "successively (follows ?P (locs s)) (block_of (locs s) k)" "set (block_of (locs s) k) \<subseteq> set (hp_pages s)"
    if "k \<in> set (malloc_mem s)" for k
    using assms(2) that by (auto simp: blocks_wf_def block_ok_def)
  obtain x where x: "vaddr (locs s ! i) \<le> x" "x < vaddr (locs s ! i) + n"
    "vaddr (locs s ! j) \<le> x" "x < vaddr (locs s ! j) + msize (locs s ! j)"
    using not_separate [OF assms(6) b(1) [OF assms(4)] no] by blast
  obtain a where a: "a \<in> set (block_of (locs s) i)" "vaddr (locs s ! a) \<le> x" "x < vaddr (locs s ! a) + ?P"
    using block_covers [of ?P "locs s" i "linked_mem (locs s ! i)" x] b [OF assms(3)] assms(7) x by (auto simp: block_of_def)
  obtain c where c: "c \<in> set (block_of (locs s) j)" "vaddr (locs s ! c) \<le> x" "x < vaddr (locs s ! c) + ?P"
    using block_covers [of ?P "locs s" j "linked_mem (locs s ! j)" x] b [OF assms(4)] x by (auto simp: block_of_def)
  have "a \<noteq> c"
  proof
    assume "a = c"
    with a(1) c(1) have "set (block_of (locs s) i) \<inter> set (block_of (locs s) j) \<noteq> {}" by blast
    moreover have "block_of (locs s) i \<noteq> block_of (locs s) j" using assms(5) by (simp add: block_of_def)
    ultimately show False
      using assms(2-4) by (auto simp: blocks_wf_def distinct_concat_iff)
  qed
  moreover have "a \<in> set (hp_pages s)" "c \<in> set (hp_pages s)" using a(1) c(1) b(4) assms(3,4) by auto
  ultimately have "separate (vaddr (locs s ! a)) ?P (vaddr (locs s ! c)) ?P" using assms(1) by (auto simp: pages_wf_def)
  then show False using a c by (auto simp: separate_def)
qed

lemma blocks_distinct: "distinct (concat (map (block_of ls) ms)) \<Longrightarrow> distinct ms"
  by (induction ms) (auto simp: block_of_def)

lemma malloc_mem_distinct: "blocks_wf s \<Longrightarrow> distinct (malloc_mem s)"
  unfolding blocks_wf_def using blocks_distinct by blast

lemma hp_live_separate:
  assumes "hp_inv s"
  shows "sorted_wrt loc_separate (hp_live s)"
proof -
  have wf: "pages_wf s" "blocks_wf s" "iovas_wf s" using assms by (auto simp: hp_inv_def)
  have "distinct (map (\<lambda>i. iova (locs s ! i)) (malloc_mem s))" using wf(3) by (simp add: iovas_wf_def)
  then have io: "iova (locs s ! (malloc_mem s ! i)) \<noteq> iova (locs s ! (malloc_mem s ! j))"
    if "i < j" "j < length (malloc_mem s)" for i j
    using that by (auto simp: distinct_conv_nth)
  have "malloc_mem s ! i \<noteq> malloc_mem s ! j" if "i < j" "j < length (malloc_mem s)" for i j
    using malloc_mem_distinct [OF wf(2)] that by (simp add: distinct_conv_nth)
  moreover have "0 < msize (locs s ! k) \<and> msize (locs s ! k) \<le> hp_page_size s * length (block_of (locs s) k)"
    if "k \<in> set (malloc_mem s)" for k using wf(2) that by (simp add: blocks_wf_def block_ok_def)
  ultimately show ?thesis
    using blocks_separate [OF wf(1,2)] io by (simp add: hp_live_def sorted_wrt_iff_nth_less loc_separate_def)
qed

section \<open>Huge pages\<close>

text \<open>More pages come in behind the old ones; nothing that is there changes.\<close>

definition grown :: "'v hp_mgr \<Rightarrow> 'v hp_mgr \<Rightarrow> bool" where
  "grown s0 s \<longleftrightarrow> hp_inv s \<and> malloc_mem s = malloc_mem s0 \<and> (\<exists>ls. locs s = locs s0 @ ls) \<and>
     hp_mem s = hp_mem s0 \<and> hp_iovas s = hp_iovas s0 \<and> hp_page_size s = hp_page_size s0 \<and>
     unmap_func s = unmap_func s0 \<and> map_read_func s = map_read_func s0 \<and> map_write_func s = map_write_func s0 \<and> bus s = bus s0"

lemma split_page_nth [simp]: "k < n \<Longrightarrow> split_page P v n ! k = new_location (v + k * P) 0 P ''HugePagesMemoryMgr''"
  "length (split_page P v n) = n"
  by (simp_all add: split_page_def)

lemma new_location_simps [simp]: "vaddr (new_location v i n c) = v" "msize (new_location v i n c) = n"
  "linked_mem (new_location v i n c) = []" "\<not> in_use (new_location v i n c)"
  by (simp_all add: new_location_def)

lemma pages_of_area_separate:
  "i \<noteq> j \<Longrightarrow> separate (v + i * P) P (v + j * P) (P :: nat)"
proof (cases "i < j")
  case True
  then have "Suc i * P \<le> j * P" by (intro mult_le_mono1) simp
  then show ?thesis by (simp add: separate_def)
next
  case False
  assume "i \<noteq> j"
  with False have "Suc j * P \<le> i * P" by (intro mult_le_mono1) simp
  then show ?thesis by (simp add: separate_def)
qed

lemma separate_sub:
  "separate a n b k \<Longrightarrow> a \<le> a' \<Longrightarrow> a' + n' \<le> a + n \<Longrightarrow> b \<le> b' \<Longrightarrow> b' + k' \<le> b + k \<Longrightarrow> separate a' n' b' k'"
  by (auto simp: separate_def)

lemma block_ok_cong:
  assumes "\<And>j. j \<in> set (block_of ls i) \<Longrightarrow> ls' ! j = ls ! j"
  shows "block_of ls' i = block_of ls i" "block_ok P ps ls' i = block_ok P ps ls i"
proof -
  have i: "ls' ! i = ls ! i" using assms by (simp add: block_of_def)
  then show b: "block_of ls' i = block_of ls i" by (simp add: block_of_def)
  have "successively (follows P ls') (block_of ls i) = successively (follows P ls) (block_of ls i)"
    by (rule successively_cong) (use assms in \<open>auto simp: follows_def\<close>)
  with assms b i show "block_ok P ps ls' i = block_ok P ps ls i" by (auto simp: block_ok_def)
qed

lemma block_ok_mono: "block_ok P ps ls i \<Longrightarrow> set ps \<subseteq> set ps' \<Longrightarrow> block_ok P ps' ls i"
  by (auto simp: block_ok_def)

lemma blocks_wf_cong:
  assumes "blocks_wf s" "malloc_mem t = malloc_mem s" "set (hp_pages s) \<subseteq> set (hp_pages t)" "hp_page_size t = hp_page_size s"
    and "\<And>i. i \<in> set (hp_pages s) \<Longrightarrow> locs t ! i = locs s ! i"
  shows "blocks_wf t"
proof -
  have same: "locs t ! j = locs s ! j" if "i \<in> set (malloc_mem s)" "j \<in> set (block_of (locs s) i)" for i j
    using assms(1,5) that by (auto simp: blocks_wf_def block_ok_def)
  have m: "map (block_of (locs t)) (malloc_mem s) = map (block_of (locs s)) (malloc_mem s)"
  proof (intro map_cong refl)
    fix i assume "i \<in> set (malloc_mem s)"
    from block_ok_cong(1) [OF same [OF this]] show "block_of (locs t) i = block_of (locs s) i" .
  qed
  have "block_ok (hp_page_size s) (hp_pages t) (locs t) i" if "i \<in> set (malloc_mem s)" for i
    using block_ok_mono [OF _ assms(3)] block_ok_cong(2) [OF same [OF that]] assms(1) that by (auto simp: blocks_wf_def)
  then show ?thesis
    using assms(1) unfolding blocks_wf_def assms(2,4) m by blast
qed

lemma iovas_wf_cong:
  assumes "iovas_wf s" "malloc_mem t = malloc_mem s" "hp_iovas t = hp_iovas s"
    and "\<And>i. i \<in> set (malloc_mem s) \<Longrightarrow> locs t ! i = locs s ! i"
  shows "iovas_wf t"
proof -
  have "map (\<lambda>i. iova (locs t ! i)) (malloc_mem s) = map (\<lambda>i. iova (locs s ! i)) (malloc_mem s)" using assms(4) by simp
  then show ?thesis using assms(1) unfolding iovas_wf_def assms(2,3) by (rule ssubst)
qed

lemma blocks_pages: "blocks_wf s \<Longrightarrow> i \<in> set (malloc_mem s) \<Longrightarrow> i \<in> set (hp_pages s)"
  by (auto simp: blocks_wf_def block_ok_def block_of_def)

lemma keeps_malloc_hp: "keeps (grown s0) malloc_hp"
  unfolding keeps_def
proof (intro allI impI)
  fix s assume g: "grown s0 s"
  then have inv: "hp_config s" "pages_wf s" "blocks_wf s" "iovas_wf s" by (auto simp: grown_def hp_inv_def)
  let ?P = "hp_page_size s" and ?n = "hugepages_size s" and ?l = "length (locs s)"
  have P: "0 < ?P" using inv(1) by (simp add: hp_config_def)
  let ?k = "?n div ?P"
  show "grown s0 (snd (malloc_hp s))"
  proof (cases "fst (hp_memory_malloc ?n s)")
    case (Inl e)
    then have "snd (malloc_hp s) = s"
      by (auto simp: malloc_hp_def hp_memory_malloc_def bindS_apply thenS_def split: if_splits option.splits)
    then show ?thesis using g by simp
  next
    case (Inr vn)
    then obtain v where v: "hugepages_malloc s (allocated_memory s) ?n (sc_page_size s) = Some v" "v \<noteq> 0" "v \<noteq> -1"
      by (auto simp: hp_memory_malloc_def bindS_apply thenS_def split: if_splits option.splits)
    then have "0 < v" using inv(1) by (auto simp: hp_config_def)
    with v inv(1) have apart: "separate (nat v) ?n a k" if "(a, k) \<in> set (allocated_memory s)" for a k
      using that by (fastforce simp: hp_config_def hugepages_heap_def)
    let ?t = "s\<lparr>allocated_memory := allocated_memory s @ [(nat v, ?n)], locs := locs s @ split_page ?P (nat v) ?k,
      hp_pages := hp_pages s @ [?l..<?l + ?k]\<rparr>"
    have t: "snd (malloc_hp s) = ?t"
      using Inr v P
      by (auto simp: malloc_hp_def hp_memory_malloc_def bindS_apply thenS_def divS_def split: if_splits)
    have old: "locs ?t ! i = locs s ! i" if "i \<in> set (hp_pages s)" for i
      using inv(2) that by (auto simp: pages_wf_def nth_append)
    have new: "locs ?t ! (?l + k) = new_location (nat v + k * ?P) 0 ?P ''HugePagesMemoryMgr''" if "k < ?k" for k
      using that by (simp add: nth_append)
    have inside: "nat v \<le> nat v + k * ?P \<and> nat v + k * ?P + ?P \<le> nat v + ?n" if "k < ?k" for k
    proof -
      have "Suc k * ?P \<le> ?k * ?P" using that by (intro mult_le_mono1) simp
      also have "\<dots> \<le> ?n" by simp
      finally show ?thesis by simp
    qed
    have fresh: "separate (nat v + k * ?P) ?P (vaddr (locs s ! i)) ?P" if i: "i \<in> set (hp_pages s)" and k: "k < ?k" for i k
    proof -
      obtain a n where a: "(a, n) \<in> set (allocated_memory s)" "a \<le> vaddr (locs s ! i)" "vaddr (locs s ! i) + ?P \<le> a + n"
        using inv(2) i by (auto simp: pages_wf_def within_def)
      show ?thesis using separate_sub [OF apart [OF a(1)]] inside [OF k] a by blast
    qed
    have pages: "i \<in> set (hp_pages ?t) \<longleftrightarrow> i \<in> set (hp_pages s) \<or> (\<exists>k < ?k. i = ?l + k)" for i
      by (auto simp: le_iff_add)
    have "pages_wf ?t"
      unfolding pages_wf_def
    proof (intro conjI ballI impI)
      show "distinct (hp_pages ?t)" using inv(2) by (auto simp: pages_wf_def)
    next
      fix i assume "i \<in> set (hp_pages ?t)"
      then consider "i \<in> set (hp_pages s)" | k where "k < ?k" "i = ?l + k" using pages by blast
      then have "i < length (locs ?t) \<and> within (allocated_memory ?t) (vaddr (locs ?t ! i)) (hp_page_size ?t)"
      proof cases
        case 1
        then have "i < length (locs s)" "within (allocated_memory s) (vaddr (locs s ! i)) ?P"
          using inv(2) unfolding pages_wf_def by blast+
        then show ?thesis unfolding old [OF 1] by (auto simp: within_def)
      next
        case 2
        then show ?thesis using new [OF 2(1)] inside [OF 2(1)] by (simp add: within_def)
      qed
      then show "i < length (locs ?t)" "within (allocated_memory ?t) (vaddr (locs ?t ! i)) (hp_page_size ?t)" by blast+
    next
      fix i j assume ij: "i \<in> set (hp_pages ?t)" "j \<in> set (hp_pages ?t)" "i \<noteq> j"
      consider "i \<in> set (hp_pages s)" "j \<in> set (hp_pages s)" | k where "i \<in> set (hp_pages s)" "k < ?k" "j = ?l + k"
        | k where "j \<in> set (hp_pages s)" "k < ?k" "i = ?l + k" | k k' where "k < ?k" "i = ?l + k" "k' < ?k" "j = ?l + k'"
        using ij pages by blast
      then show "separate (vaddr (locs ?t ! i)) (hp_page_size ?t) (vaddr (locs ?t ! j)) (hp_page_size ?t)"
      proof cases
        case 1
        then show ?thesis using inv(2) old ij(3) by (auto simp: pages_wf_def)
      next
        case 2
        then show ?thesis using fresh [OF 2(1,2)] old [OF 2(1)] new [OF 2(2)] by (simp add: separate_sym)
      next
        case 3
        then show ?thesis using fresh [OF 3(1,2)] old [OF 3(1)] new [OF 3(2)] by simp
      next
        case 4
        then show ?thesis using pages_of_area_separate [of k k'] new [OF 4(1)] new [OF 4(3)] ij(3) by simp
      qed
    next
      fix i assume "i \<in> set (hp_pages ?t) - set (malloc_mem ?t)"
      then consider "i \<in> set (hp_pages s)" "i \<notin> set (malloc_mem s)" | k where "k < ?k" "i = ?l + k" using pages by auto
      then have "msize (locs ?t ! i) = hp_page_size ?t \<and> linked_mem (locs ?t ! i) = []"
      proof cases
        case 1
        then have "msize (locs s ! i) = ?P \<and> linked_mem (locs s ! i) = []" using inv(2) unfolding pages_wf_def by blast
        then show ?thesis unfolding old [OF 1(1)] by simp
      next
        case 2
        then show ?thesis unfolding 2(2) new [OF 2(1)] by simp
      qed
      then show "msize (locs ?t ! i) = hp_page_size ?t" "linked_mem (locs ?t ! i) = []" by blast+
    qed
    moreover have "blocks_wf ?t" by (rule blocks_wf_cong [OF inv(3)]) (use old in auto)
    moreover have "iovas_wf ?t" by (rule iovas_wf_cong [OF inv(4)]) (use old blocks_pages [OF inv(3)] in auto)
    ultimately have "hp_inv ?t" using inv(1) by (simp add: hp_inv_def hp_config_def)
    moreover have "\<exists>ls. locs ?t = locs s0 @ ls" using g by (auto simp: grown_def)
    ultimately show ?thesis using g unfolding t by (simp add: grown_def)
  qed
qed

lemma keeps_more_pages: "keeps (grown s0) (more_pages n)"
  unfolding more_pages_def malloc_hps_def divS_def
  by (intro keeps_intros keeps_malloc_hp)

lemma grown_refl: "hp_inv s \<Longrightarrow> grown s s"
  by (simp add: grown_def)

lemma pages_for_result:
  "pages_for n s = (r, s') \<Longrightarrow> s' = s \<and> (\<forall>n' k. r = Inr (n', k) \<longrightarrow> n' = max n (sc_page_size s) \<and> k = max 1 (n' div hp_page_size s))"
  by (auto simp: pages_for_def bindS_apply divS_def Let_def max_def split: if_splits)

section \<open>Giving out a group of pages\<close>

lemma fold_link_page:
  assumes "distinct (r # ms)" "r < length ls" "\<forall>m \<in> set ms. m < length ls"
  shows "length (fold (link_page r) ms ls) = length ls" "k < length ls \<Longrightarrow> fold (link_page r) ms ls ! k =
    (if k = r then (ls ! r)\<lparr>linked_mem := linked_mem (ls ! r) @ ms\<rparr> else if k \<in> set ms then (ls ! k)\<lparr>in_use := True\<rparr> else ls ! k)"
  using assms
proof (induction ms arbitrary: ls)
  case (Cons m ms)
  { case 1 then show ?case using Cons.IH(1) [of "link_page r m ls"] by (simp add: link_page_def Let_def) }
  { case 2
    have "length (link_page r m ls) = length ls" by (simp add: link_page_def Let_def)
    then show ?case using Cons.IH(2) [of "link_page r m ls"] 2 by (auto simp: link_page_def Let_def nth_list_update) }
qed auto

lemma find_group_Some:
  assumes "find_group ls free n = Some g" "distinct free" "0 < n"
  shows "g \<noteq> []" "length g = n" "set g \<subseteq> set free" "distinct g" "successively (adjacent ls) g" "\<forall>i \<in> set g. \<not> in_use (ls ! i)"
proof -
  from assms(1) obtain i where g: "g = take n (drop i free)" "i < length free - (n - 1)"
    and f: "\<not> list_ex (\<lambda>i. in_use (ls ! i)) g" "successively (adjacent ls) g"
    by (auto simp: find_group_def find_Some_iff grouper_def)
  from g assms(3) show "length g = n" by simp
  with assms(3) show "g \<noteq> []" by auto
  show "set g \<subseteq> set free" using g by (metis in_set_dropD in_set_takeD subsetI)
  show "distinct g" using g assms(2) by simp
  show "successively (adjacent ls) g" "\<forall>i \<in> set g. \<not> in_use (ls ! i)" using f by (auto simp: list_ex_iff)
qed

definition taken :: "nat \<Rightarrow> nat \<Rightarrow> nat \<Rightarrow> string \<Rightarrow> dma_direction \<Rightarrow> nat list \<Rightarrow> location \<Rightarrow> location" where
  "taken r a n c dir ms l = l\<lparr>linked_mem := linked_mem l @ ms, msize := n, client := c, iova := a, in_use := True,
     iova_direction := Some dir, iova_mapped := True\<rparr>"

lemma taken_simps [simp]: "vaddr (taken r a n c dir ms l) = vaddr l" "msize (taken r a n c dir ms l) = n"
  "iova (taken r a n c dir ms l) = a" "in_use (taken r a n c dir ms l)" "iova_mapped (taken r a n c dir ms l)"
  "linked_mem (taken r a n c dir ms l) = linked_mem l @ ms"
  by (simp_all add: taken_def)

lemma map_iova_Inr:
  assumes "map_iova i dir s = (Inr u, s')"
  shows "\<exists>v. dir \<noteq> BIDIRECTIONAL \<and>
    (dir = HOST_TO_DEVICE \<longrightarrow> map_read_func s (vaddr (locs s ! i)) (iova (locs s ! i)) (msize (locs s ! i)) (bus s) = (Inr (), v)) \<and>
    (dir = DEVICE_TO_HOST \<longrightarrow> map_write_func s (vaddr (locs s ! i)) (iova (locs s ! i)) (msize (locs s ! i)) (bus s) = (Inr (), v)) \<and>
    s' = s\<lparr>bus := v, locs := (locs s)[i := (locs s ! i)\<lparr>iova_direction := Some dir, iova_mapped := True\<rparr>]\<rparr>"
  using assms
  by (cases dir) (auto simp: map_iova_def Let_def busS_def update_loc_def bindS_apply thenS_def split: prod.splits sum.splits)

lemma take_group_result:
  assumes "take_group (r # ms) n dir c s = (Inr i, s')" "distinct (r # ms)" "r < length (locs s)" "\<forall>m \<in> set ms. m < length (locs s)"
  shows "\<exists>a as v. i = r \<and> n \<le> increment (hp_iovas s) \<and> free_iovas (hp_iovas s) = a # as \<and> dir \<noteq> BIDIRECTIONAL \<and>
    (dir = HOST_TO_DEVICE \<longrightarrow> map_read_func s (vaddr (locs s ! r)) a n (bus s) = (Inr (), v)) \<and>
    (dir = DEVICE_TO_HOST \<longrightarrow> map_write_func s (vaddr (locs s ! r)) a n (bus s) = (Inr (), v)) \<and>
    s' = s\<lparr>locs := locs s', malloc_mem := malloc_mem s @ [r], hp_iovas := (hp_iovas s)\<lparr>free_iovas := as\<rparr>, bus := v\<rparr> \<and>
    length (locs s') = length (locs s) \<and>
    (\<forall>k < length (locs s). locs s' ! k = (if k = r then taken r a n c dir ms (locs s ! r)
       else if k \<in> set ms then (locs s ! k)\<lparr>in_use := True\<rparr> else locs s ! k))"
proof -
  let ?ls = "fold (link_page r) ms (locs s)"
  note link = fold_link_page [OF assms(2,3,4)]
  from assms(1) obtain a as where a: "n \<le> increment (hp_iovas s)" "free_iovas (hp_iovas s) = a # as"
    by (auto simp: take_group_def Let_def update_loc_def iova_getS_def iova_get_def bindS_apply thenS_def bindR_eq_Inr_iff
        split: sum.splits list.splits prod.splits)
  let ?s = "s\<lparr>hp_iovas := (hp_iovas s)\<lparr>free_iovas := as\<rparr>,
    locs := ?ls[r := (?ls ! r)\<lparr>msize := n, client := c, iova := a, in_use := True\<rparr>], malloc_mem := malloc_mem s @ [r]\<rparr>"
  have "take_group (r # ms) n dir c s = thenS (map_iova r dir) (retS r) ?s"
    using a link assms(3) by (simp add: take_group_def Let_def update_loc_def iova_getS_def iova_get_def bindS_apply thenS_def)
  then have m: "map_iova r dir ?s = (Inr (), s')" "i = r"
    using assms(1) by (auto simp: thenS_def bindS_apply split: prod.splits sum.splits)
  have l: "locs ?s ! r = (locs s ! r)\<lparr>linked_mem := linked_mem (locs s ! r) @ ms, msize := n, client := c, iova := a, in_use := True\<rparr>"
    using link assms(3) by simp
  obtain v where v: "dir \<noteq> BIDIRECTIONAL"
    "dir = HOST_TO_DEVICE \<longrightarrow> map_read_func s (vaddr (locs s ! r)) a n (bus s) = (Inr (), v)"
    "dir = DEVICE_TO_HOST \<longrightarrow> map_write_func s (vaddr (locs s ! r)) a n (bus s) = (Inr (), v)"
    "s' = ?s\<lparr>bus := v, locs := (locs ?s)[r := (locs ?s ! r)\<lparr>iova_direction := Some dir, iova_mapped := True\<rparr>]\<rparr>"
    using map_iova_Inr [OF m(1)] unfolding l by auto
  have len: "length ?ls = length (locs s)" using link(1) .
  have "locs s' ! k = (if k = r then taken r a n c dir ms (locs s ! r) else if k \<in> set ms then (locs s ! k)\<lparr>in_use := True\<rparr> else locs s ! k)"
    if "k < length (locs s)" for k
  proof -
    have "locs s' ! k = (if k = r then (locs ?s ! r)\<lparr>iova_direction := Some dir, iova_mapped := True\<rparr> else ?ls ! k)"
      using v(4) len assms(3) that by simp
    then show ?thesis using link(2) [OF that] unfolding l by (simp add: taken_def)
  qed
  moreover have "s' = s\<lparr>locs := locs s', malloc_mem := malloc_mem s @ [r], hp_iovas := (hp_iovas s)\<lparr>free_iovas := as\<rparr>, bus := v\<rparr>"
    using v(4) by (cases s) simp
  moreover have "length (locs s') = length (locs s)" using v(4) len by simp
  ultimately show ?thesis using a v(1-3) m(2) by blast
qed

text \<open>
  A size that the manager honours: at most one page, or whole pages. \<open>malloc\<close> takes the quotient by the
  page size, so any other size gets a run of pages that is too short.
\<close>

definition hp_fits :: "'v hp_mgr \<Rightarrow> nat \<Rightarrow> bool" where
  "hp_fits s n \<longleftrightarrow> n \<le> hp_page_size s \<or> hp_page_size s dvd n"

lemma hp_fits_pages:
  assumes "hp_fits s n" "0 < sc_page_size s" "sc_page_size s \<le> hp_page_size s" "n' = max n (sc_page_size s)" "k = max 1 (n' div hp_page_size s)"
  shows "0 < n'" "n' \<le> hp_page_size s * k" "0 < k"
proof -
  have P: "0 < hp_page_size s" using assms(2,3) by simp
  show "n' \<le> hp_page_size s * k"
  proof (cases "n' \<le> hp_page_size s")
    case True
    also have "hp_page_size s * 1 \<le> hp_page_size s * k" using assms(5) by (intro mult_le_mono2) simp
    finally show ?thesis by simp
  next
    case False
    then have "hp_page_size s dvd n'" using assms(1,3,4) by (auto simp: hp_fits_def max_def)
    then have "n' = hp_page_size s * (n' div hp_page_size s)" by simp
    with assms(5) show ?thesis by (metis max.cobounded2 mult_le_mono2)
  qed
qed (use assms in auto)

lemma free_pages_wf:
  assumes "hp_inv s" "i \<in> set (free_pages s)"
  shows "i \<in> set (hp_pages s)" "\<not> in_use (locs s ! i)" "i \<notin> set (concat (map (block_of (locs s)) (malloc_mem s)))"
    "i \<notin> set (malloc_mem s)" "msize (locs s ! i) = hp_page_size s" "linked_mem (locs s ! i) = []" "i < length (locs s)"
proof -
  show i: "i \<in> set (hp_pages s)" "\<not> in_use (locs s ! i)" using assms(2) by (auto simp: free_pages_def)
  have b: "j \<in> set (malloc_mem s) \<Longrightarrow> i \<notin> set (block_of (locs s) j)" for j
    using assms(1) i(2) by (auto simp: hp_inv_def blocks_wf_def block_ok_def)
  then show "i \<notin> set (concat (map (block_of (locs s)) (malloc_mem s)))" by auto
  show m: "i \<notin> set (malloc_mem s)" using b [of i] by (auto simp: block_of_def)
  have "pages_wf s" using assms(1) by (simp add: hp_inv_def)
  then show "msize (locs s ! i) = hp_page_size s" "linked_mem (locs s ! i) = []" "i < length (locs s)"
    using i(1) m unfolding pages_wf_def by blast+
qed

lemma take_group_inv:
  assumes inv: "hp_inv s" and g: "find_group (locs s) (free_pages s) k = Some g" "0 < k"
    and n: "0 < n" "n \<le> hp_page_size s * k" and t: "take_group g n dir c s = (Inr i, s')"
  shows "hp_inv s'" "malloc_mem s' = malloc_mem s @ [i]" "hp_live s' = hp_live s @ [mem_loc.truncate (locs s' ! i)]"
    "msize (locs s' ! i) = n" "hp_mem s' = hp_mem s"
proof -
  let ?P = "hp_page_size s"
  have wf: "hp_config s" "pages_wf s" "blocks_wf s" "iovas_wf s" using inv by (auto simp: hp_inv_def)
  have "distinct (free_pages s)" using wf(2) by (simp add: free_pages_def pages_wf_def)
  note grp = find_group_Some [OF g(1) this g(2)]
  then obtain r ms where rm: "g = r # ms" by (cases g) auto
  have free: "j \<in> set g \<Longrightarrow> j \<in> set (free_pages s)" for j using grp(3) by blast
  note fp = free_pages_wf [OF inv free]
  have len: "r < length (locs s)" "\<forall>m \<in> set ms. m < length (locs s)" using fp(7) rm by auto
  have dis: "distinct (r # ms)" using grp(4) rm by simp
  from take_group_result [OF t [unfolded rm] dis len] obtain a as v where res: "i = r" "free_iovas (hp_iovas s) = a # as"
    "s' = s\<lparr>locs := locs s', malloc_mem := malloc_mem s @ [r], hp_iovas := (hp_iovas s)\<lparr>free_iovas := as\<rparr>, bus := v\<rparr>"
    "length (locs s') = length (locs s)" and
    nth: "\<And>k. k < length (locs s) \<Longrightarrow> locs s' ! k = (if k = r then taken r a n c dir ms (locs s ! r)
       else if k \<in> set ms then (locs s ! k)\<lparr>in_use := True\<rparr> else locs s ! k)" by blast
  have same: "hp_pages s' = hp_pages s" "hp_page_size s' = ?P" "malloc_mem s' = malloc_mem s @ [r]"
    "allocated_memory s' = allocated_memory s" "hp_iovas s' = (hp_iovas s)\<lparr>free_iovas := as\<rparr>" "hp_mem s' = hp_mem s"
    "sc_page_size s' = sc_page_size s" "hugepages_malloc s' = hugepages_malloc s" "unmap_func s' = unmap_func s"
    by (subst res(3); simp)+
  have pg: "p < length (locs s)" if "p \<in> set (hp_pages s)" for p using wf(2) that by (simp add: pages_wf_def)
  have va: "vaddr (locs s' ! p) = vaddr (locs s ! p)" if "p \<in> set (hp_pages s)" for p
    using nth [OF pg [OF that]] by simp
  have old: "locs s' ! j = locs s ! j" if "m \<in> set (malloc_mem s)" "j \<in> set (block_of (locs s) m)" for j m
  proof -
    have "j \<in> set (hp_pages s)" using wf(3) that by (auto simp: blocks_wf_def block_ok_def)
    moreover have "j \<notin> set g" using fp(3) that by auto
    ultimately show ?thesis using nth [OF pg] rm by auto
  qed
  have oldm: "locs s' ! m = locs s ! m" if "m \<in> set (malloc_mem s)" for m using old [OF that, of m] by (simp add: block_of_def)
  have new: "block_of (locs s') r = g" "msize (locs s' ! r) = n" "iova (locs s' ! r) = a" "iova_mapped (locs s' ! r)"
    using nth [OF len(1)] fp(6) [of r] rm by (simp_all add: block_of_def)
  have blocks: "map (block_of (locs s')) (malloc_mem s) = map (block_of (locs s)) (malloc_mem s)"
  proof (intro map_cong refl)
    fix m assume "m \<in> set (malloc_mem s)"
    from block_ok_cong(1) [OF old [OF this]] show "block_of (locs s') m = block_of (locs s) m" .
  qed
  have "pages_wf s'"
    unfolding pages_wf_def same
  proof (intro conjI ballI impI)
    show "distinct (hp_pages s)" using wf(2) by (simp add: pages_wf_def)
    fix p assume p: "p \<in> set (hp_pages s)"
    show "p < length (locs s')" using pg [OF p] res(4) by simp
    show "within (allocated_memory s) (vaddr (locs s' ! p)) ?P" using wf(2) p va [OF p] by (simp add: pages_wf_def)
    fix q assume q: "q \<in> set (hp_pages s)" "p \<noteq> q"
    show "separate (vaddr (locs s' ! p)) ?P (vaddr (locs s' ! q)) ?P"
      using wf(2) p q va [OF p] va [OF q(1)] by (simp add: pages_wf_def)
  next
    fix p assume p: "p \<in> set (hp_pages s) - set (malloc_mem s @ [r])"
    then have "msize (locs s ! p) = ?P" "linked_mem (locs s ! p) = []" using wf(2) by (auto simp: pages_wf_def)
    then show "msize (locs s' ! p) = ?P" "linked_mem (locs s' ! p) = []" using nth [OF pg, of p] p by auto
  qed
  moreover have "blocks_wf s'"
    unfolding blocks_wf_def same
  proof (intro conjI ballI)
    show "distinct (concat (map (block_of (locs s')) (malloc_mem s @ [r])))"
      using wf(3) new(1) grp(4) fp(3) unfolding map_append blocks blocks_wf_def by auto
    fix m assume "m \<in> set (malloc_mem s @ [r])"
    then consider "m \<in> set (malloc_mem s)" | "m = r" by auto
    then show "block_ok ?P (hp_pages s) (locs s') m"
    proof cases
      case 1
      then show ?thesis using block_ok_cong(2) [OF old [OF 1]] wf(3) by (simp add: blocks_wf_def)
    next
      case 2
      have "in_use (locs s' ! j)" if "j \<in> set g" for j
        using nth [OF fp(7) [OF that]] that rm by auto
      moreover have "successively (follows ?P (locs s')) g"
        using grp(5) by (rule successively_mono) (use va fp(1,5) in \<open>auto simp: adjacent_def follows_def\<close>)
      ultimately show ?thesis using 2 new fp(1) n grp(2) by (auto simp: block_ok_def)
    qed
  qed
  moreover have "iovas_wf s'"
  proof -
    have eq: "map (\<lambda>i. iova (locs s' ! i)) (malloc_mem s) = map (\<lambda>i. iova (locs s ! i)) (malloc_mem s)" using oldm by simp
    show ?thesis using wf(4) unfolding iovas_wf_def same res(2) map_append eq by (auto simp: new(3))
  qed
  ultimately show "hp_inv s'" using wf(1) by (simp add: hp_inv_def hp_config_def same)
  show "malloc_mem s' = malloc_mem s @ [i]" "msize (locs s' ! i) = n" "hp_mem s' = hp_mem s" using same new res(1) by simp_all
  show "hp_live s' = hp_live s @ [mem_loc.truncate (locs s' ! i)]"
    using oldm by (simp add: hp_live_def same res(1))
qed

lemma grown_live:
  assumes "hp_inv s" "grown s t"
  shows "hp_live t = hp_live s"
proof -
  have "i < length (locs s)" if "i \<in> set (malloc_mem s)" for i
    using assms(1) blocks_pages [of s i] that by (auto simp: hp_inv_def pages_wf_def)
  then show ?thesis using assms(2) by (auto simp: grown_def hp_live_def nth_append)
qed

lemma hp_malloc_inv:
  assumes "hp_inv s" "hp_fits s n" "hp_malloc n dir c s = (Inr i, s')"
  shows "hp_inv s'" "i \<in> set (malloc_mem s')" "hp_live s' = hp_live s @ [mem_loc.truncate (locs s' ! i)]"
    "msize (locs s' ! i) = max n (sc_page_size s)" "hp_mem s' = hp_mem s"
proof -
  have conf: "0 < sc_page_size s" "sc_page_size s \<le> hp_page_size s" using assms(1) by (auto simp: hp_inv_def hp_config_def)
  obtain r0 s0 where p: "pages_for n s = (r0, s0)" by fastforce
  then have "r0 \<noteq> Inl e" for e using assms(3) by (auto simp: hp_malloc_def)
  then obtain n' k where r0: "r0 = Inr (n', k)" by (cases r0) auto
  with pages_for_result [OF p] have n: "s0 = s" "n' = max n (sc_page_size s)" "k = max 1 (n' div hp_page_size s)" by blast+
  obtain r1 t where m: "more_pages k s = (r1, t)" by fastforce
  have gr: "grown s t" using keepsD [OF keeps_more_pages grown_refl [OF assms(1)] m] .
  have run: "hp_malloc n dir c s = (case r1 of Inl e \<Rightarrow> (Inl e, t) | Inr u \<Rightarrow> (case find_group (locs t) (free_pages t) k of
      None \<Rightarrow> (Inl MemoryError, t) | Some g \<Rightarrow> take_group g n' dir c t))"
    unfolding hp_malloc_def bindS_apply p r0 n(1) thenS_def by (simp add: m bindS_apply split: sum.split option.split)
  obtain g where f: "find_group (locs t) (free_pages t) k = Some g" "take_group g n' dir c t = (Inr i, s')"
    using assms(3) unfolding run by (auto split: sum.splits option.splits)
  note fit = hp_fits_pages [OF assms(2) conf n(2,3)]
  have t: "hp_inv t" "hp_page_size t = hp_page_size s" "hp_mem t = hp_mem s" using gr by (auto simp: grown_def)
  note inv = take_group_inv [OF t(1) f(1) fit(3,1) _ f(2)]
  show "hp_inv s'" "i \<in> set (malloc_mem s')" "hp_live s' = hp_live s @ [mem_loc.truncate (locs s' ! i)]"
    "msize (locs s' ! i) = max n (sc_page_size s)" "hp_mem s' = hp_mem s"
    using inv fit(2) t grown_live [OF assms(1) gr] n(2) by simp_all
qed

section \<open>Release\<close>

definition released :: "nat \<Rightarrow> location \<Rightarrow> location" where
  "released P l = l\<lparr>in_use := False, msize := P\<rparr>"

lemma free_pages_loop:
  assumes "distinct ms" "\<forall>m \<in> set ms. m < length (locs s) \<and> in_use (locs s ! m)"
  shows "\<exists>s'. forS ms free_page s = (Inr (), s') \<and> s' = s\<lparr>locs := locs s'\<rparr> \<and> length (locs s') = length (locs s) \<and>
    (\<forall>k < length (locs s). locs s' ! k = (if k \<in> set ms then released (hp_page_size s) (locs s ! k) else locs s ! k))"
  using assms
proof (induction ms arbitrary: s)
  case (Cons m ms)
  let ?t = "s\<lparr>locs := (locs s)[m := released (hp_page_size s) (locs s ! m)]\<rparr>"
  have "free_page m s = (Inr (), ?t)"
    using Cons.prems by (simp add: free_page_def update_loc_def bindS_apply thenS_def released_def)
  moreover have "\<forall>k \<in> set ms. k < length (locs ?t) \<and> in_use (locs ?t ! k)" using Cons.prems by (auto simp: nth_list_update)
  from Cons.IH [OF _ this] Cons.prems obtain s' where s': "forS ms free_page ?t = (Inr (), s')" "s' = ?t\<lparr>locs := locs s'\<rparr>"
    "length (locs s') = length (locs ?t)"
    "\<forall>k < length (locs ?t). locs s' ! k = (if k \<in> set ms then released (hp_page_size ?t) (locs ?t ! k) else locs ?t ! k)" by auto
  moreover have "s' = s\<lparr>locs := locs s'\<rparr>" using s'(2) by (cases s) simp
  ultimately show ?case using Cons.prems by (intro exI [of _ s']) (auto simp: nth_list_update)
qed auto

text \<open>\<open>free\<close> of a location that was given out: all pages of its block are free again, and one page of it is unmapped and cleared.\<close>

lemma hp_free_result:
  assumes inv: "hp_inv s" and i: "i \<in> set (malloc_mem s)"
    and u: "unmap_func s (iova (locs s ! i)) (hp_page_size s) (bus s) = (Inr (), v)"
  shows "\<exists>s'. hp_free i s = (Inr (), s') \<and> s' = s\<lparr>locs := locs s', bus := v, malloc_mem := remove1 i (malloc_mem s),
      hp_iovas := iova_free (iova (locs s ! i)) (hp_iovas s),
      hp_mem := write_bytes (hp_mem s) (vaddr (locs s ! i)) (zeros (hp_page_size s))\<rparr> \<and>
    length (locs s') = length (locs s) \<and> (\<forall>k < length (locs s). locs s' ! k =
      (if k = i then (released (hp_page_size s) (locs s ! k))\<lparr>linked_mem := [], iova_mapped := False\<rparr>
       else if k \<in> set (linked_mem (locs s ! i)) then released (hp_page_size s) (locs s ! k) else locs s ! k))"
proof -
  let ?P = "hp_page_size s" and ?ms = "linked_mem (locs s ! i)"
  have wf: "pages_wf s" "blocks_wf s" using inv by (auto simp: hp_inv_def)
  then have blk: "block_ok ?P (hp_pages s) (locs s) i" "distinct (block_of (locs s) i)"
    using i by (auto simp: blocks_wf_def distinct_concat_iff)
  have use: "\<forall>m \<in> set (i # ?ms). m < length (locs s) \<and> in_use (locs s ! m)"
    using blk(1) wf(1) by (auto simp: block_ok_def block_of_def pages_wf_def)
  have d: "distinct ?ms" "i \<notin> set ?ms" using blk(2) by (simp_all add: block_of_def)
  have "\<forall>m \<in> set ?ms. m < length (locs s) \<and> in_use (locs s ! m)" using use by simp
  from free_pages_loop [OF d(1) this] obtain s1 where s1: "forS ?ms free_page s = (Inr (), s1)" "s1 = s\<lparr>locs := locs s1\<rparr>"
    "length (locs s1) = length (locs s)"
    "\<And>k. k < length (locs s) \<Longrightarrow> locs s1 ! k = (if k \<in> set ?ms then released ?P (locs s ! k) else locs s ! k)" by blast
  have i1: "locs s1 ! i = locs s ! i" "i < length (locs s)" using s1(4) use d(2) by auto
  have same: "hp_page_size s1 = ?P" "unmap_func s1 = unmap_func s" "bus s1 = bus s" "malloc_mem s1 = malloc_mem s"
    "hp_mem s1 = hp_mem s" "hp_iovas s1 = hp_iovas s" by (subst s1(2); simp)+
  let ?l = "(locs s ! i)\<lparr>linked_mem := [], in_use := False, msize := ?P, iova_mapped := False\<rparr>"
  have l: "?l = (released ?P (locs s ! i))\<lparr>linked_mem := [], iova_mapped := False\<rparr>"
    by (cases "locs s ! i") (simp add: released_def)
  let ?s' = "s1\<lparr>bus := v, locs := (locs s1)[i := ?l], hp_iovas := iova_free (iova (locs s ! i)) (hp_iovas s),
    hp_mem := write_bytes (hp_mem s) (vaddr (locs s ! i)) (zeros ?P), malloc_mem := remove1 i (malloc_mem s)\<rparr>"
  have mapped: "iova_mapped (locs s ! i)" using blk(1) by (simp add: block_ok_def)
  have "in_use (locs s ! i)" using use by simp
  then have "hp_free i s = (Inr (), ?s')"
    using s1(1,3) i1 same mapped u i
    by (simp add: hp_free_def free_page_def update_loc_def busS_def bindS_apply thenS_def Let_def list_remove_def released_def)
  moreover have "?s' = s\<lparr>locs := locs ?s', bus := v, malloc_mem := remove1 i (malloc_mem s),
      hp_iovas := iova_free (iova (locs s ! i)) (hp_iovas s), hp_mem := write_bytes (hp_mem s) (vaddr (locs s ! i)) (zeros ?P)\<rparr>"
    by (subst s1(2)) (cases s; simp)
  ultimately show ?thesis
    using s1(3,4) i1(2) l by (intro exI [of _ ?s']) (auto simp: nth_list_update)
qed

lemma map_remove1_inj: "distinct (map f xs) \<Longrightarrow> x \<in> set xs \<Longrightarrow> map f (remove1 x xs) = remove1 (f x) (map f xs)"
  by (induction xs) (auto simp: image_iff)

lemma distinct_concat_remove1: "distinct (concat (map f xs)) \<Longrightarrow> distinct (concat (map f (remove1 x xs)))"
  by (induction xs) (auto dest: set_remove1_subset [THEN subsetD])

lemma hp_free_inv:
  assumes inv: "hp_inv s" and i: "i \<in> set (malloc_mem s)"
  shows "\<exists>s'. hp_free i s = (Inr (), s') \<and> hp_inv s' \<and> hp_live s' = remove1 (mem_loc.truncate (locs s ! i)) (hp_live s) \<and>
    malloc_mem s' = remove1 i (malloc_mem s) \<and>
    (\<forall>x \<in> set (hp_live s'). read_bytes (hp_mem s') (vaddr x) (msize x) = read_bytes (hp_mem s) (vaddr x) (msize x)) \<and>
    (\<forall>k \<in> set (block_of (locs s) i). k \<in> set (free_pages s'))"
proof -
  let ?P = "hp_page_size s" and ?ms = "linked_mem (locs s ! i)"
  have wf: "hp_config s" "pages_wf s" "blocks_wf s" "iovas_wf s" using inv by (auto simp: hp_inv_def)
  have P: "0 < ?P" using wf(1) by (simp add: hp_config_def)
  obtain v where u: "unmap_func s (iova (locs s ! i)) ?P (bus s) = (Inr (), v)"
    using wf(1) by (metis hp_config_def prod.collapse)
  obtain s' where s': "hp_free i s = (Inr (), s')"
    "s' = s\<lparr>locs := locs s', bus := v, malloc_mem := remove1 i (malloc_mem s), hp_iovas := iova_free (iova (locs s ! i)) (hp_iovas s),
      hp_mem := write_bytes (hp_mem s) (vaddr (locs s ! i)) (zeros ?P)\<rparr>" "length (locs s') = length (locs s)" and
    nth: "\<And>k. k < length (locs s) \<Longrightarrow> locs s' ! k =
      (if k = i then (released ?P (locs s ! k))\<lparr>linked_mem := [], iova_mapped := False\<rparr>
       else if k \<in> set ?ms then released ?P (locs s ! k) else locs s ! k)"
    using hp_free_result [OF inv i u] by blast
  have same: "hp_pages s' = hp_pages s" "hp_page_size s' = ?P" "malloc_mem s' = remove1 i (malloc_mem s)"
    "allocated_memory s' = allocated_memory s" "hp_iovas s' = iova_free (iova (locs s ! i)) (hp_iovas s)"
    "sc_page_size s' = sc_page_size s" "hugepages_malloc s' = hugepages_malloc s" "unmap_func s' = unmap_func s"
    "hp_mem s' = write_bytes (hp_mem s) (vaddr (locs s ! i)) (zeros ?P)"
    by (subst s'(2); simp)+
  have mm: "set (remove1 i (malloc_mem s)) = set (malloc_mem s) - {i}" using malloc_mem_distinct [OF wf(3)] by simp
  have blki: "set (block_of (locs s) i) \<subseteq> set (hp_pages s)" using wf(3) i by (simp add: blocks_wf_def block_ok_def)
  have pg: "p < length (locs s)" if "p \<in> set (hp_pages s)" for p using wf(2) that by (simp add: pages_wf_def)
  have va: "vaddr (locs s' ! p) = vaddr (locs s ! p)" "iova (locs s' ! p) = iova (locs s ! p)" if "p \<in> set (hp_pages s)" for p
    using nth [OF pg [OF that]] by (simp_all add: released_def)
  have old: "locs s' ! q = locs s ! q" if "j \<in> set (remove1 i (malloc_mem s))" "q \<in> set (block_of (locs s) j)" for j q
  proof -
    have j: "j \<in> set (malloc_mem s)" "j \<noteq> i" using that(1) mm by auto
    then have "block_of (locs s) j \<noteq> block_of (locs s) i" by (simp add: block_of_def)
    then have "q \<notin> set (block_of (locs s) i)"
      using wf(3) i j(1) that(2) by (auto simp: blocks_wf_def distinct_concat_iff)
    moreover have "q \<in> set (hp_pages s)" using wf(3) j(1) that(2) by (auto simp: blocks_wf_def block_ok_def)
    ultimately show ?thesis using nth [OF pg] by (auto simp: block_of_def)
  qed
  have oldm: "locs s' ! j = locs s ! j" if "j \<in> set (remove1 i (malloc_mem s))" for j
    using old [OF that, of j] by (simp add: block_of_def)
  have "pages_wf s'"
    unfolding pages_wf_def same
  proof (intro conjI ballI impI)
    show "distinct (hp_pages s)" using wf(2) by (simp add: pages_wf_def)
    fix p assume p: "p \<in> set (hp_pages s)"
    show "p < length (locs s')" using pg [OF p] s'(3) by simp
    show "within (allocated_memory s) (vaddr (locs s' ! p)) ?P" using wf(2) p va [OF p] by (simp add: pages_wf_def)
    fix q assume q: "q \<in> set (hp_pages s)" "p \<noteq> q"
    show "separate (vaddr (locs s' ! p)) ?P (vaddr (locs s' ! q)) ?P"
      using wf(2) p q va [OF p] va [OF q(1)] by (simp add: pages_wf_def)
  next
    fix p assume "p \<in> set (hp_pages s) - set (remove1 i (malloc_mem s))"
    then have p: "p \<in> set (hp_pages s)" "p = i \<or> p \<notin> set (malloc_mem s)" using mm by auto
    have "p \<noteq> i \<Longrightarrow> msize (locs s ! p) = ?P \<and> linked_mem (locs s ! p) = []" using wf(2) p unfolding pages_wf_def by blast
    then show "msize (locs s' ! p) = ?P" "linked_mem (locs s' ! p) = []" using nth [OF pg [OF p(1)]] by (auto simp: released_def)
  qed
  moreover have "blocks_wf s'"
    unfolding blocks_wf_def same
  proof (intro conjI ballI)
    have "map (block_of (locs s')) (remove1 i (malloc_mem s)) = map (block_of (locs s)) (remove1 i (malloc_mem s))"
    proof (intro map_cong refl)
      fix j assume "j \<in> set (remove1 i (malloc_mem s))"
      from block_ok_cong(1) [OF old [OF this]] show "block_of (locs s') j = block_of (locs s) j" .
    qed
    then show "distinct (concat (map (block_of (locs s')) (remove1 i (malloc_mem s))))"
      using wf(3) distinct_concat_remove1 [of "block_of (locs s)" "malloc_mem s" i] unfolding blocks_wf_def by (simp only:)
    fix j assume j: "j \<in> set (remove1 i (malloc_mem s))"
    then show "block_ok ?P (hp_pages s) (locs s') j" using block_ok_cong(2) [OF old [OF j]] wf(3) mm by (simp add: blocks_wf_def)
  qed
  moreover have "iovas_wf s'"
  proof -
    have eq: "map (\<lambda>i. iova (locs s' ! i)) (remove1 i (malloc_mem s)) = map (\<lambda>i. iova (locs s ! i)) (remove1 i (malloc_mem s))"
      using oldm by simp
    have d: "distinct (map (\<lambda>i. iova (locs s ! i)) (malloc_mem s))" using wf(4) by (simp add: iovas_wf_def)
    show ?thesis
      using wf(4) i d unfolding iovas_wf_def same eq map_remove1_inj [OF d i]
      by (auto simp: iova_free_def dest: set_remove1_subset [THEN subsetD])
  qed
  ultimately have inv': "hp_inv s'" using wf(1) by (simp add: hp_inv_def hp_config_def same)
  have "distinct (map (\<lambda>i. mem_loc.truncate (locs s ! i)) (malloc_mem s))"
    using separate_distinct [OF hp_live_separate [OF inv]] by (simp add: hp_live_def)
  note eq = map_remove1_inj [OF this i]
  have "map (\<lambda>i. mem_loc.truncate (locs s' ! i)) (remove1 i (malloc_mem s)) =
      map (\<lambda>i. mem_loc.truncate (locs s ! i)) (remove1 i (malloc_mem s))" using oldm by simp
  then have live: "hp_live s' = remove1 (mem_loc.truncate (locs s ! i)) (hp_live s)"
    unfolding hp_live_def same eq .
  have mem: "read_bytes (hp_mem s') (vaddr x) (msize x) = read_bytes (hp_mem s) (vaddr x) (msize x)" if x: "x \<in> set (hp_live s')" for x
  proof -
    obtain j where j: "j \<in> set (malloc_mem s)" "j \<noteq> i" "x = mem_loc.truncate (locs s' ! j)" "locs s' ! j = locs s ! j"
      using x oldm mm by (auto simp: hp_live_def same)
    have "separate (vaddr (locs s ! i)) ?P (vaddr (locs s ! j)) (msize (locs s ! j))"
      using blocks_separate [OF wf(2,3) i j(1) _ P] j(2) by (simp add: block_of_def)
    then show ?thesis using j by (simp add: same read_write_separate zeros_def)
  qed
  have "k \<in> set (free_pages s')" if "k \<in> set (block_of (locs s) i)" for k
  proof -
    have k: "k \<in> set (hp_pages s)" "k = i \<or> k \<in> set ?ms" using that blki by (auto simp: block_of_def)
    then have "\<not> in_use (locs s' ! k)" using nth [OF pg [OF k(1)]] by (auto simp: released_def)
    with k(1) show ?thesis by (simp add: free_pages_def same)
  qed
  with s'(1) inv' live same(3) mem show ?thesis by blast
qed

section \<open>Pages given out one by one\<close>

definition marked :: "nat set \<Rightarrow> 'v hp_mgr \<Rightarrow> 'v hp_mgr \<Rightarrow> bool" where
  "marked ps s s' \<longleftrightarrow> s' = s\<lparr>locs := locs s'\<rparr> \<and> length (locs s') = length (locs s) \<and>
     (\<forall>k < length (locs s). locs s' ! k = (if k \<in> ps then (locs s ! k)\<lparr>in_use := True\<rparr> else locs s ! k))"

lemma mark_loop:
  "\<forall>p \<in> set ps. p < length (locs s) \<Longrightarrow>
    \<exists>s'. forS ps (\<lambda>p. update_loc p (\<lambda>l. l\<lparr>in_use := True\<rparr>)) s = (Inr (), s') \<and> marked (set ps) s s'"
proof (induction ps arbitrary: s)
  case (Cons p ps)
  let ?t = "s\<lparr>locs := (locs s)[p := (locs s ! p)\<lparr>in_use := True\<rparr>]\<rparr>"
  obtain s' where s': "forS ps (\<lambda>p. update_loc p (\<lambda>l. l\<lparr>in_use := True\<rparr>)) ?t = (Inr (), s')" "marked (set ps) ?t s'"
    using Cons.IH [of ?t] Cons.prems by auto
  have "s' = s\<lparr>locs := locs s'\<rparr>" using s'(2) by (cases s) (simp add: marked_def)
  then have "marked (set (p # ps)) s s'" using s'(2) Cons.prems by (auto simp: marked_def nth_list_update)
  moreover have "update_loc p (\<lambda>l. l\<lparr>in_use := True\<rparr>) s = (Inr (), ?t)" by (simp add: update_loc_def)
  ultimately show ?case using s'(1) by (intro exI [of _ s']) simp
qed (auto simp: marked_def)

lemma marked_inv:
  assumes inv: "hp_inv s" and ps: "ps \<subseteq> set (free_pages s)" and m: "marked ps s s'"
  shows "hp_inv s'" "malloc_mem s' = malloc_mem s" "hp_live s' = hp_live s" "hp_mem s' = hp_mem s"
proof -
  have wf: "hp_config s" "pages_wf s" "blocks_wf s" "iovas_wf s" using inv by (auto simp: hp_inv_def)
  have eq: "s' = s\<lparr>locs := locs s'\<rparr>" "length (locs s') = length (locs s)" using m by (auto simp: marked_def)
  have same: "hp_pages s' = hp_pages s" "hp_page_size s' = hp_page_size s" "malloc_mem s' = malloc_mem s"
    "allocated_memory s' = allocated_memory s" "hp_iovas s' = hp_iovas s" "sc_page_size s' = sc_page_size s"
    "hugepages_malloc s' = hugepages_malloc s" "unmap_func s' = unmap_func s" "hp_mem s' = hp_mem s" by (subst eq(1); simp)+
  have fld: "vaddr (locs s' ! p) = vaddr (locs s ! p)" "msize (locs s' ! p) = msize (locs s ! p)"
    "linked_mem (locs s' ! p) = linked_mem (locs s ! p)" if "p \<in> set (hp_pages s)" for p
    using wf(2) that m by (auto simp: pages_wf_def marked_def)
  have old: "locs s' ! j = locs s ! j" if "i \<in> set (malloc_mem s)" "j \<in> set (block_of (locs s) i)" for i j
  proof -
    have "j \<in> set (hp_pages s)" "in_use (locs s ! j)" using wf(3) that by (auto simp: blocks_wf_def block_ok_def)
    moreover have "j \<notin> ps" using ps \<open>in_use (locs s ! j)\<close> by (auto simp: free_pages_def)
    ultimately show ?thesis using wf(2) m by (auto simp: pages_wf_def marked_def)
  qed
  have oldm: "locs s' ! i = locs s ! i" if "i \<in> set (malloc_mem s)" for i using old [OF that, of i] by (simp add: block_of_def)
  have "pages_wf s'"
    using wf(2) eq(2) fld unfolding pages_wf_def same by simp
  moreover have "blocks_wf s'"
    unfolding blocks_wf_def same
  proof (intro conjI ballI)
    have "map (block_of (locs s')) (malloc_mem s) = map (block_of (locs s)) (malloc_mem s)"
    proof (intro map_cong refl)
      fix j assume "j \<in> set (malloc_mem s)"
      from block_ok_cong(1) [OF old [OF this]] show "block_of (locs s') j = block_of (locs s) j" .
    qed
    then show "distinct (concat (map (block_of (locs s')) (malloc_mem s)))" using wf(3) unfolding blocks_wf_def by (simp only:)
    fix j assume j: "j \<in> set (malloc_mem s)"
    then show "block_ok (hp_page_size s) (hp_pages s) (locs s') j"
      using block_ok_cong(2) [OF old [OF j]] wf(3) by (simp add: blocks_wf_def)
  qed
  moreover have "iovas_wf s'" by (rule iovas_wf_cong [OF wf(4)]) (use same oldm in auto)
  ultimately show "hp_inv s'" using wf(1) by (simp add: hp_inv_def hp_config_def same)
  show "malloc_mem s' = malloc_mem s" "hp_live s' = hp_live s" "hp_mem s' = hp_mem s"
    using oldm by (simp_all add: hp_live_def same)
qed

lemma malloc_pages_inv:
  assumes "hp_inv s" "malloc_pages n s = (r, s')"
  shows "hp_inv s'" "hp_live s' = hp_live s" "hp_mem s' = hp_mem s"
proof -
  obtain r0 t where g: "(if n > length (free_pages s)
      then if hugepages_size s div hp_page_size s = 0 then raiseS ZeroDivisionError
           else malloc_hps (max 1 (ceil_div (n - length (free_pages s)) (hugepages_size s div hp_page_size s)))
      else retS ()) s = (r0, t)" by fastforce
  have "keeps (grown s) (if b then if c then raiseS ZeroDivisionError else malloc_hps k else retS ())" for b c k
    unfolding malloc_hps_def by (intro keeps_intros keeps_malloc_hp)
  from keepsD [OF this grown_refl [OF assms(1)] g] have gr: "grown s t" .
  then have t: "hp_inv t" "hp_live t = hp_live s" "hp_mem t = hp_mem s"
    using grown_live [OF assms(1) gr] by (auto simp: grown_def)
  have "hp_page_size s \<noteq> 0" using assms(1) by (simp add: hp_inv_def hp_config_def)
  then have run: "malloc_pages n s = (case r0 of Inl e \<Rightarrow> (Inl e, t) | Inr u \<Rightarrow>
      thenS (forS (take n (free_pages t)) (\<lambda>p. update_loc p (\<lambda>l. l\<lparr>in_use := True\<rparr>)))
        (thenS (assertS (length (take n (free_pages t)) = n)) (retS (take n (free_pages t)))) t)"
    unfolding malloc_pages_def using g by (auto simp: divS_def bindS_apply thenS_def split: sum.splits)
  have "hp_inv s' \<and> hp_live s' = hp_live s \<and> hp_mem s' = hp_mem s"
  proof (cases r0)
    case (Inr u)
    have sub: "set (take n (free_pages t)) \<subseteq> set (free_pages t)" by (rule set_take_subset)
    then have "\<forall>p \<in> set (take n (free_pages t)). p < length (locs t)" using free_pages_wf(7) [OF t(1)] by blast
    from mark_loop [OF this] obtain t' where t': "forS (take n (free_pages t)) (\<lambda>p. update_loc p (\<lambda>l. l\<lparr>in_use := True\<rparr>)) t = (Inr (), t')"
      "marked (set (take n (free_pages t))) t t'" by blast
    have "s' = t'" using assms(2) unfolding run Inr by (simp add: t'(1) thenS_def bindS_apply split: if_splits)
    with marked_inv [OF t(1) sub t'(2)] t show ?thesis by simp
  qed (use assms(2) t run in simp)
  then show "hp_inv s'" "hp_live s' = hp_live s" "hp_mem s' = hp_mem s" by blast+
qed

end
