(* ===== verification/Hugepages_Contract.thy ===== *)
theory Hugepages_Contract
  imports Hugepages_Wf
begin

text \<open>
  The huge page manager as a manager of DMA memory: it satisfies the contract \<open>dma_locations\<close> for sizes of at most one page and of whole pages. For other
  sizes it does not, and it never satisfies the stronger contract of the simulator, because it does not clear what it gives out.
\<close>

section \<open>The contract\<close>

definition hp_malloc_at :: "memory \<Rightarrow> 'v hp_mgr \<Rightarrow> nat \<Rightarrow> dma_direction \<Rightarrow> (mem_loc \<times> memory \<times> 'v hp_mgr) res" where
  "hp_malloc_at m s n dir = (case hp_malloc n dir ''HugePagesMemoryMgr'' (s\<lparr>hp_mem := m\<rparr>) of
     (Inl e, s') \<Rightarrow> Inl e | (Inr i, s') \<Rightarrow> Inr (mem_loc.truncate (locs s' ! i), hp_mem s', s'))"

definition hp_free_at :: "memory \<Rightarrow> 'v hp_mgr \<Rightarrow> mem_loc \<Rightarrow> (memory \<times> 'v hp_mgr) res" where
  "hp_free_at m s l = (case find (\<lambda>i. mem_loc.truncate (locs s ! i) = l) (malloc_mem s) of
     None \<Rightarrow> Inl ValueError
   | Some i \<Rightarrow> (case hp_free i (s\<lparr>hp_mem := m\<rparr>) of (Inl e, s') \<Rightarrow> Inl e | (Inr u, s') \<Rightarrow> Inr (hp_mem s', s')))"

lemma hp_inv_mem [simp]: "hp_inv (s\<lparr>hp_mem := m\<rparr>) = hp_inv s" "hp_live (s\<lparr>hp_mem := m\<rparr>) = hp_live s"
  "hp_fits (s\<lparr>hp_mem := m\<rparr>) n = hp_fits s n"
  by (simp_all add: hp_inv_def hp_config_def pages_wf_def blocks_wf_def iovas_wf_def hp_live_def hp_fits_def)

interpretation hp: dma_locations hp_inv hp_live hp_fits hp_malloc_at hp_free_at
proof unfold_locales
  fix s s' :: "'v hp_mgr" and n m dir l m'
  assume inv: "hp_inv s" "0 < n" "hp_fits s n" "hp_malloc_at m s n dir = Inr (l, m', s')"
  then obtain i where r: "hp_malloc n dir ''HugePagesMemoryMgr'' (s\<lparr>hp_mem := m\<rparr>) = (Inr i, s')" "l = mem_loc.truncate (locs s' ! i)" "m' = hp_mem s'"
    by (auto simp: hp_malloc_at_def split: prod.splits sum.splits)
  note a = hp_malloc_inv [OF _ _ r(1)]
  show "hp_inv s' \<and> hp_live s' = hp_live s @ [l] \<and> n \<le> msize l" using a inv r(2) by simp
  fix x assume "x \<in> set (hp_live s)"
  show "read_bytes m' (vaddr x) (msize x) = read_bytes m (vaddr x) (msize x)" using a inv r(3) by simp
next
  fix m and s :: "'v hp_mgr" and l
  assume inv: "hp_inv s" and "l \<in> set (hp_live s)"
  then obtain i where i: "find (\<lambda>i. mem_loc.truncate (locs s ! i) = l) (malloc_mem s) = Some i"
    by (cases "find (\<lambda>i. mem_loc.truncate (locs s ! i) = l) (malloc_mem s)") (auto simp: find_None_iff hp_live_def)
  then have l: "i \<in> set (malloc_mem s)" "l = mem_loc.truncate (locs s ! i)" by (auto simp: find_Some_iff)
  have "hp_inv (s\<lparr>hp_mem := m\<rparr>)" "i \<in> set (malloc_mem (s\<lparr>hp_mem := m\<rparr>))" using inv l(1) by simp_all
  from hp_free_inv [OF this] obtain s' where f: "hp_free i (s\<lparr>hp_mem := m\<rparr>) = (Inr (), s')" "hp_inv s'"
    "hp_live s' = remove1 l (hp_live s)"
    "\<forall>x \<in> set (hp_live s'). read_bytes (hp_mem s') (vaddr x) (msize x) = read_bytes m (vaddr x) (msize x)"
    using l(2) by auto
  then show "\<exists>m' s'. hp_free_at m s l = Inr (m', s') \<and> hp_inv s' \<and> hp_live s' = remove1 l (hp_live s) \<and>
      (\<forall>x \<in> set (hp_live s'). read_bytes m' (vaddr x) (msize x) = read_bytes m (vaddr x) (msize x))"
    by (intro exI [of _ "hp_mem s'"] exI [of _ s']) (simp add: hp_free_at_def i)
next
  fix s :: "'v hp_mgr" and l
  assume "hp_inv s"
  then show "sorted_wrt loc_separate (hp_live s)" by (rule hp_live_separate)
  assume "l \<in> set (hp_live s)"
  with \<open>hp_inv s\<close> show "0 < iova l \<and> iova l < 2 ^ 64" by (auto simp: hp_inv_def iovas_wf_def hp_live_def)
qed

section \<open>Bus addresses\<close>

definition ranges_ok :: "nat \<Rightarrow> (nat \<times> nat) list \<Rightarrow> bool" where
  "ranges_ok inc ranges \<longleftrightarrow> ranges \<noteq> [] \<and> (\<forall>r \<in> set ranges. fst r + inc \<le> snd r) \<and>
     (fst (hd ranges) = 0 \<longrightarrow> 0x1000 + inc \<le> snd (hd ranges))"

lemma iova_reset_result:
  assumes "ranges_ok (increment im) (iova_ranges im)"
  shows "\<exists>lo > 0. iova_reset im = Inl AssertionError \<or>
    (\<exists>xs. iova_reset im = Inr (im\<lparr>free_iovas := xs\<rparr>) \<and> length xs = max_iovas im \<and> iovas_from (iova_ranges im) (increment im) lo xs)"
proof -
  obtain r rs where r: "iova_ranges im = r # rs" using assms by (cases "iova_ranges im") (auto simp: ranges_ok_def)
  let ?lo = "if fst r = 0 then 0x1000 else fst r"
  have lo: "fst r \<le> ?lo" "int ?lo \<le> max_range (increment im) r" "0 < ?lo"
    using assms by (auto simp: ranges_ok_def r max_range_def)
  have ok: "\<forall>r \<in> set (r # rs). int (fst r) \<le> max_range (increment im) r"
  proof
    fix q assume "q \<in> set (r # rs)"
    then have "fst q + increment im \<le> snd q" using assms by (auto simp: ranges_ok_def r)
    then show "int (fst q) \<le> max_range (increment im) q" by (simp add: max_range_def)
  qed
  have run: "iova_reset im = bindR (reset_loop (r # rs) (increment im) (max_iovas im) 0 ?lo (max_range (increment im) r) [])
      (\<lambda>iovas. Inr (im\<lparr>free_iovas := iovas\<rparr>))"
    using lo(2) by (cases "fst r = 0") (simp_all add: iova_reset_def r)
  from reset_loop_ok [OF ok, of 0 ?lo "max_iovas im" "[]"] lo(1,2)
  consider "reset_loop (r # rs) (increment im) (max_iovas im) 0 ?lo (max_range (increment im) r) [] = Inl AssertionError"
    | xs where "reset_loop (r # rs) (increment im) (max_iovas im) 0 ?lo (max_range (increment im) r) [] = Inr xs"
      "length xs = max_iovas im" "iovas_from (r # rs) (increment im) ?lo xs" by auto
  then show ?thesis
  proof cases
    case 1
    with run lo(3) show ?thesis by (intro exI [of _ ?lo]) simp
  next
    case 2
    with run have "iova_reset im = Inr (im\<lparr>free_iovas := xs\<rparr>)" by (simp only: bindR_simps)
    with 2(2,3) lo(3) show ?thesis unfolding r by blast
  qed
qed



section \<open>Every use of the manager\<close>

text \<open>
  A manager object before its constructor has run, and what its users do afterwards: allocate locations of
  sizes it honours, allocate single pages, and free locations they got.
\<close>

definition hp_blank :: "'v hp_mgr \<Rightarrow> bool" where
  "hp_blank s \<longleftrightarrow> hp_config s \<and> malloc_mem s = [] \<and> free_iovas (hp_iovas s) = []"

inductive hp_reach :: "(nat \<times> nat) list \<Rightarrow> 'v hp_mgr \<Rightarrow> bool" for ranges :: "(nat \<times> nat) list" where
  create: "hp_blank s0 \<Longrightarrow> new_hp_mgr ranges s0 = (Inr (), s) \<Longrightarrow> hp_reach ranges s"
| malloc: "hp_reach ranges s \<Longrightarrow> hp_fits s n \<Longrightarrow> hp_malloc n dir c s = (Inr i, s') \<Longrightarrow> hp_reach ranges s'"
| pages: "hp_reach ranges s \<Longrightarrow> malloc_pages n s = (r, s') \<Longrightarrow> hp_reach ranges s'"
| free: "hp_reach ranges s \<Longrightarrow> i \<in> set (malloc_mem s) \<Longrightarrow> hp_free i s = (r, s') \<Longrightarrow> hp_reach ranges s'"
| memory: "hp_reach ranges s \<Longrightarrow> hp_reach ranges (s\<lparr>hp_mem := m\<rparr>)"

lemma new_hp_mgr_inv:
  assumes "hp_blank s0" "new_hp_mgr ranges s0 = (Inr (), s)" "ranges_ok (2 * 1024 * 1024) ranges"
    and "sorted_wrt (\<lambda>r r'. snd r \<le> fst r') ranges" "\<forall>r \<in> set ranges. snd r \<le> 2 ^ 64"
  shows "hp_inv s"
proof -
  let ?s1 = "s0\<lparr>allocated_memory := [], hp_pages := []\<rparr>"
  have "hp_inv ?s1"
    using assms(1) by (simp add: hp_blank_def hp_inv_def hp_config_def pages_wf_def blocks_wf_def iovas_wf_def)
  moreover obtain r t where t: "malloc_hps 1 ?s1 = (r, t)" by fastforce
  moreover have "keeps (grown ?s1) (malloc_hps 1)" unfolding malloc_hps_def by (intro keeps_intros keeps_malloc_hp)
  ultimately have g: "grown ?s1 t" using keepsD grown_refl by metis
  then have inv: "hp_inv t" "malloc_mem t = []" using assms(1) by (auto simp: grown_def hp_blank_def)
  have run: "new_hp_mgr ranges s0 = (case r of Inl e \<Rightarrow> (Inl e, t) | Inr u \<Rightarrow> (case new_iova_mgr ranges of
      Inl e \<Rightarrow> (Inl e, t\<lparr>malloc_mem := []\<rparr>) | Inr im \<Rightarrow> (Inr (), t\<lparr>malloc_mem := [], hp_iovas := im\<rparr>)))"
    using t by (simp add: new_hp_mgr_def thenS_def bindS_apply split: sum.split)
  obtain im where im: "new_iova_mgr ranges = Inr im" "s = t\<lparr>malloc_mem := [], hp_iovas := im\<rparr>"
    using assms(2) unfolding run by (auto split: sum.splits)
  let ?im = "\<lparr>iova_ranges = ranges, max_iovas = 1000, increment = 2 * 1024 * 1024, free_iovas = []\<rparr>"
  have "iova_reset ?im = Inr im" using im(1) unfolding new_iova_mgr_def .
  moreover have "ranges_ok (increment ?im) (iova_ranges ?im)" using assms(3) by (simp only: iova_mgr.simps)
  ultimately obtain lo xs where xs: "0 < lo" "im = ?im\<lparr>free_iovas := xs\<rparr>" "iovas_from ranges (2 * 1024 * 1024) lo xs"
    using iova_reset_result [of ?im] by (auto simp only: iova_mgr.simps sum.inject sum.distinct)
  have "sorted_wrt (\<lambda>x y. x + 2 * 1024 * 1024 \<le> y) xs" using xs(3) assms(4) by (simp add: iovas_from_def)
  then have "sorted_wrt (<) xs" by (rule sorted_wrt_mono_rel [rotated]) simp
  then have "distinct xs" by (simp add: strict_sorted_iff)
  moreover have "0 < x \<and> x < 2 ^ 64" if "x \<in> set xs" for x
  proof -
    have "lo \<le> x" using xs(3) assms(4) that by (simp add: iovas_from_def)
    moreover have "\<forall>x \<in> set xs. \<exists>r \<in> set ranges. fst r \<le> x \<and> x + 2 * 1024 * 1024 \<le> snd r"
      using xs(3) unfolding iovas_from_def by (rule conjunct1)
    from bspec [OF this that] obtain r where r: "r \<in> set ranges" "x + 2 * 1024 * 1024 \<le> snd r" by (elim bexE conjE)
    moreover have "snd r \<le> 2 ^ 64" using bspec [OF assms(5) r(1)] .
    ultimately show ?thesis using xs(1) by simp
  qed
  ultimately have "iovas_wf s" by (simp add: iovas_wf_def im(2) xs(2))
  then show ?thesis using inv im(2) by (simp add: hp_inv_def hp_config_def pages_wf_def blocks_wf_def)
qed

lemma hp_reach_inv:
  assumes "hp_reach ranges s" "ranges_ok (2 * 1024 * 1024) ranges" "sorted_wrt (\<lambda>r r'. snd r \<le> fst r') ranges"
    and "\<forall>r \<in> set ranges. snd r \<le> 2 ^ 64"
  shows "hp_inv s"
  using assms(1)
proof (induction rule: hp_reach.induct)
  case (create s0 s)
  then show ?case using new_hp_mgr_inv assms(2-4) by blast
next
  case (malloc s n dir c i s')
  then show ?case using hp_malloc_inv(1) by blast
next
  case (pages s n r s')
  then show ?case using malloc_pages_inv(1) by blast
next
  case (free s i r s')
  obtain t where t: "hp_free i s = (Inr (), t)" "hp_inv t" using hp_free_inv [OF free.IH free.hyps(2)] by blast
  with free.hyps(3) show ?case by simp
next
  case (memory s m)
  then show ?case by simp
qed


section \<open>What \<open>malloc\<close> returns\<close>

definition maps_ok :: "'v hp_mgr \<Rightarrow> bool" where
  "maps_ok s \<longleftrightarrow> (\<forall>v i n x. fst (map_read_func s v i n x) = Inr () \<and> fst (map_write_func s v i n x) = Inr ())"

lemma maps_okD: "maps_ok s \<Longrightarrow> map_read_func s v i n x \<noteq> (Inl e, y) \<and> map_write_func s v i n x \<noteq> (Inl e, y)"
  unfolding maps_ok_def by (metis fst_conv sum.distinct(1))

lemma map_iova_ok: "maps_ok s \<Longrightarrow> dir \<noteq> BIDIRECTIONAL \<Longrightarrow> fst (map_iova i dir s) = Inr ()"
  using maps_okD [of s]
  by (cases dir) (auto simp: map_iova_def Let_def busS_def update_loc_def bindS_apply thenS_def split: prod.splits sum.splits)

lemma take_group_ok:
  assumes "maps_ok s" "dir \<noteq> BIDIRECTIONAL" "n \<le> increment (hp_iovas s)" "free_iovas (hp_iovas s) \<noteq> []"
  shows "\<exists>s'. take_group (r # ms) n dir c s = (Inr r, s')"
proof -
  obtain a as where a: "free_iovas (hp_iovas s) = a # as" using assms(4) by (cases "free_iovas (hp_iovas s)") auto
  let ?ls = "fold (link_page r) ms (locs s)"
  let ?ls' = "?ls[r := (?ls ! r)\<lparr>msize := n, client := c\<rparr>]"
  let ?s = "s\<lparr>hp_iovas := (hp_iovas s)\<lparr>free_iovas := as\<rparr>, locs := ?ls'[r := (?ls' ! r)\<lparr>iova := a, in_use := True\<rparr>],
    malloc_mem := malloc_mem s @ [r]\<rparr>"
  have "maps_ok ?s" using assms(1) by (simp add: maps_ok_def)
  from map_iova_ok [OF this assms(2)] obtain t where "map_iova r dir ?s = (Inr (), t)" by (metis prod.collapse)
  then have "thenS (map_iova r dir) (retS r) ?s = (Inr r, t)" by simp
  moreover have "take_group (r # ms) n dir c s = thenS (map_iova r dir) (retS r) ?s"
    using a assms(3) by (simp add: take_group_def Let_def update_loc_def iova_getS_def iova_get_def bindS_apply thenS_def)
  ultimately show ?thesis by auto
qed

lemma malloc_first_run:
  assumes "hp_inv s" "maps_ok s" "dir \<noteq> BIDIRECTIONAL" "free_iovas (hp_iovas s) = a # as" "n' = max n (sc_page_size s)"
    and "n' \<le> increment (hp_iovas s)" "k = max 1 (n' div hp_page_size s)" "k \<le> length (free_pages s)"
    and "find_group (locs s) (free_pages s) k = Some g"
  shows "\<exists>s'. hp_malloc n dir c s = (Inr (hd g), s') \<and> malloc_mem s' = malloc_mem s @ [hd g] \<and>
    vaddr (locs s' ! hd g) = vaddr (locs s ! hd g) \<and> msize (locs s' ! hd g) = n' \<and> iova (locs s' ! hd g) = a \<and>
    iova_mapped (locs s' ! hd g) \<and> iova_direction (locs s' ! hd g) = Some dir \<and> linked_mem (locs s' ! hd g) = tl g \<and>
    free_iovas (hp_iovas s') = as \<and> hp_mem s' = hp_mem s \<and> free_pages s' = filter (\<lambda>i. i \<notin> set g) (free_pages s)"
proof -
  have conf: "0 < hp_page_size s" "0 < sc_page_size s" using assms(1) by (auto simp: hp_inv_def hp_config_def)
  have "distinct (free_pages s)" using assms(1) by (simp add: free_pages_def hp_inv_def pages_wf_def)
  note grp = find_group_Some [OF assms(9) this] 
  have k: "0 < k" using assms(7) by simp
  obtain r ms where g: "g = r # ms" using grp(1) [OF k] by (cases g) auto
  have free: "j \<in> set g \<Longrightarrow> j \<in> set (free_pages s)" for j using grp(3) [OF k] by blast
  note fp = free_pages_wf [OF assms(1) free]
  have p: "pages_for n s = (Inr (n', k), s)"
    using conf assms(5,7) by (auto simp: pages_for_def divS_def bindS_apply Let_def max_def)
  have "more_pages k s = (Inr (), s)" using conf assms(8) by (simp add: more_pages_def divS_def bindS_apply)
  then have run: "hp_malloc n dir c s = take_group g n' dir c s"
    unfolding hp_malloc_def bindS_apply p by (simp add: thenS_def bindS_apply assms(9))
  obtain s' where t: "take_group g n' dir c s = (Inr r, s')"
    using take_group_ok [OF assms(2,3,6), of r ms c] assms(4) g by auto
  have "r < length (locs s)" "\<forall>m \<in> set ms. m < length (locs s)" using fp(7) g by auto
  from take_group_result [OF t [unfolded g] _ this] grp(4) [OF k] g assms(4) obtain v where res:
    "s' = s\<lparr>locs := locs s', malloc_mem := malloc_mem s @ [r], hp_iovas := (hp_iovas s)\<lparr>free_iovas := as\<rparr>, bus := v\<rparr>" and
    nth: "\<And>k. k < length (locs s) \<Longrightarrow> locs s' ! k = (if k = r then taken r a n' c dir ms (locs s ! r)
       else if k \<in> set ms then (locs s ! k)\<lparr>in_use := True\<rparr> else locs s ! k)" by auto
  have same: "hp_pages s' = hp_pages s" "malloc_mem s' = malloc_mem s @ [r]" "free_iovas (hp_iovas s') = as" "hp_mem s' = hp_mem s"
    by (subst res; simp)+
  have "in_use (locs s' ! i) = (in_use (locs s ! i) \<or> i \<in> set g)" if "i \<in> set (hp_pages s)" for i
  proof -
    have "i < length (locs s)" using assms(1) that by (simp add: hp_inv_def pages_wf_def)
    from nth [OF this] show ?thesis by (simp add: g)
  qed
  then have "free_pages s' = filter (\<lambda>i. i \<notin> set g) (free_pages s)"
    by (auto simp: free_pages_def same intro!: filter_cong)
  with t run same nth [OF fp(7)] fp(6) g show ?thesis by (auto simp: taken_def)
qed

text \<open>
  When the free pages suffice, \<open>malloc\<close> gives out the first run of adjacent free pages that is long enough, in the order of the pages,
  under the first free bus address, mapped in the direction asked for; no other page changes hands.
\<close>

theorem hp_malloc_first_run:
  assumes "hp_inv s" "maps_ok s" "dir \<noteq> BIDIRECTIONAL" "free_iovas (hp_iovas s) = a # as" "n' = max n (sc_page_size s)"
    and "n' \<le> increment (hp_iovas s)" "k = max 1 (n' div hp_page_size s)" "k \<le> length (free_pages s)"
    and "find_group (locs s) (free_pages s) k = Some g"
  shows "\<exists>s'. hp_malloc n dir c s = (Inr (hd g), s') \<and> malloc_mem s' = malloc_mem s @ [hd g] \<and>
    vaddr (locs s' ! hd g) = vaddr (locs s ! hd g) \<and> msize (locs s' ! hd g) = n' \<and> iova (locs s' ! hd g) = a \<and>
    iova_mapped (locs s' ! hd g) \<and> iova_direction (locs s' ! hd g) = Some dir \<and> linked_mem (locs s' ! hd g) = tl g \<and>
    free_iovas (hp_iovas s') = as \<and> hp_mem s' = hp_mem s \<and> free_pages s' = filter (\<lambda>i. i \<notin> set g) (free_pages s)"
  using malloc_first_run [OF assms] .

section \<open>Sizes that are not honoured\<close>

lemma find_group_one: "\<not> in_use (ls ! a) \<Longrightarrow> find_group ls (a # rest) 1 = Some [a]"
  by (simp add: find_group_def grouper_def upt_conv_Cons del: upt_Suc)

text \<open>
  Property C28. A size between one and two pages gets a single page: the location overlaps the one behind it when that page is in use.
\<close>

theorem hp_malloc_overlaps:
  assumes "hp_inv s" "maps_ok s" "dir \<noteq> BIDIRECTIONAL" "free_iovas (hp_iovas s) \<noteq> []" "n \<le> increment (hp_iovas s)"
    and "hp_page_size s < n" "n < 2 * hp_page_size s" "free_pages s = a # rest" "i \<in> set (malloc_mem s)" "adjacent (locs s) a i"
  shows "\<exists>s' l l'. hp_malloc n dir c s = (Inr a, s') \<and> l = locs s' ! a \<and> l' = locs s' ! i \<and>
    {mem_loc.truncate l, mem_loc.truncate l'} \<subseteq> set (hp_live s') \<and> a \<noteq> i \<and> \<not> separate (vaddr l) (msize l) (vaddr l') (msize l')"
proof -
  let ?P = "hp_page_size s"
  have wf: "hp_config s" "pages_wf s" "blocks_wf s" using assms(1) by (auto simp: hp_inv_def)
  obtain x as where x: "free_iovas (hp_iovas s) = x # as" using assms(4) by (cases "free_iovas (hp_iovas s)") auto
  have "n div ?P = 1" using assms(6,7) by (intro div_nat_eqI) auto
  moreover have "max n (sc_page_size s) = n" using wf(1) assms(6) by (simp add: hp_config_def)
  moreover have fp: "a \<in> set (free_pages s)" using assms(8) by simp
  note free = free_pages_wf [OF assms(1) fp]
  ultimately obtain s' where s': "hp_malloc n dir c s = (Inr a, s')" "malloc_mem s' = malloc_mem s @ [a]"
    "vaddr (locs s' ! a) = vaddr (locs s ! a)" "msize (locs s' ! a) = n"
    using malloc_first_run [OF assms(1,2,3) x refl _ refl _, of n "[a]" c] find_group_one [OF free(2), of rest] assms(5,8) by auto
  have t: "take_group [a] n dir c s = (Inr a, s')"
  proof -
    have p: "pages_for n s = (Inr (n, 1), s)" using \<open>n div ?P = 1\<close> \<open>max n (sc_page_size s) = n\<close> wf(1)
      by (auto simp: pages_for_def divS_def bindS_apply Let_def max_def hp_config_def split: if_splits)
    have "more_pages 1 s = (Inr (), s)" using wf(1) assms(8) by (simp add: more_pages_def divS_def bindS_apply hp_config_def)
    then have "hp_malloc n dir c s = take_group [a] n dir c s"
      unfolding hp_malloc_def bindS_apply p using find_group_one [OF free(2), of rest] assms(8) by (simp add: thenS_def bindS_apply)
    with s'(1) show ?thesis by simp
  qed
  have ai: "a \<noteq> i" "i < length (locs s)" using free(4) assms(9) blocks_pages [OF wf(3) assms(9)] wf(2) by (auto simp: pages_wf_def)
  have i: "locs s' ! i = locs s ! i" using take_group_result [OF t] free(7) ai by auto
  have "0 < msize (locs s ! i)" using wf(3) assms(9) by (simp add: blocks_wf_def block_ok_def)
  moreover have "vaddr (locs s ! i) = vaddr (locs s ! a) + ?P" using assms(10) free(5) by (simp add: adjacent_def)
  ultimately have "\<not> separate (vaddr (locs s' ! a)) (msize (locs s' ! a)) (vaddr (locs s' ! i)) (msize (locs s' ! i))"
    using s'(3,4) i assms(6) by (auto simp: separate_def)
  then show ?thesis using s'(1,2) assms(9) ai(1) by (auto simp: hp_live_def)
qed

text \<open>
  A size above the increment of the bus addresses raises an assertion, but only after the pages of the run have been taken: all but the
  first stay in use, and no location that could be freed holds them.
\<close>

theorem hp_malloc_oversize:
  assumes "hp_inv s" "hp_page_size s dvd n" "increment (hp_iovas s) < n" "k = max 1 (n div hp_page_size s)"
    and "sc_page_size s \<le> n" "k \<le> length (free_pages s)" "find_group (locs s) (free_pages s) k = Some (r # ms)"
  shows "\<exists>s'. hp_malloc n dir c s = (Inl AssertionError, s') \<and> malloc_mem s' = malloc_mem s \<and>
    (\<forall>m \<in> set ms. in_use (locs s' ! m) \<and> m \<notin> set (concat (map (block_of (locs s')) (malloc_mem s')))) \<and>
    free_pages s' = filter (\<lambda>i. i \<notin> set ms) (free_pages s)"
proof -
  have conf: "0 < hp_page_size s" "0 < sc_page_size s" using assms(1) by (auto simp: hp_inv_def hp_config_def)
  have wf: "pages_wf s" "blocks_wf s" using assms(1) by (auto simp: hp_inv_def)
  have "distinct (free_pages s)" using wf(1) by (simp add: free_pages_def pages_wf_def)
  note grp = find_group_Some [OF assms(7) this]
  have k: "0 < k" using assms(4) by simp
  have free: "j \<in> set (r # ms) \<Longrightarrow> j \<in> set (free_pages s)" for j using grp(3) [OF k] by blast
  note fp = free_pages_wf [OF assms(1) free]
  have p: "pages_for n s = (Inr (n, k), s)"
    using conf assms(4,5) by (auto simp: pages_for_def divS_def bindS_apply Let_def max_def)
  have "more_pages k s = (Inr (), s)" using conf assms(6) by (simp add: more_pages_def divS_def bindS_apply)
  then have run: "hp_malloc n dir c s = take_group (r # ms) n dir c s"
    unfolding hp_malloc_def bindS_apply p by (simp add: thenS_def bindS_apply assms(7))
  let ?ls = "fold (link_page r) ms (locs s)"
  obtain s' where s': "s' = s\<lparr>locs := ?ls[r := (?ls ! r)\<lparr>msize := n, client := c\<rparr>]\<rparr>" by blast
  have t: "take_group (r # ms) n dir c s = (Inl AssertionError, s')"
    using assms(3) unfolding s' by (simp add: take_group_def Let_def update_loc_def iova_getS_def iova_get_def bindS_apply thenS_def)
  have len: "r < length (locs s)" "\<forall>m \<in> set ms. m < length (locs s)" using fp(7) by auto
  note link = fold_link_page [OF grp(4) [OF k] len]
  have nth: "locs s' ! j = (if j = r then (locs s ! r)\<lparr>linked_mem := linked_mem (locs s ! r) @ ms, msize := n, client := c\<rparr>
      else if j \<in> set ms then (locs s ! j)\<lparr>in_use := True\<rparr> else locs s ! j)" if "j < length (locs s)" for j
    using link(1) link(2) [OF that] len(1) link(2) [OF len(1)] that by (auto simp: nth_list_update s')
  have same: "malloc_mem s' = malloc_mem s" "hp_pages s' = hp_pages s" by (simp_all add: s')
  have pg: "j < length (locs s)" if "j \<in> set (hp_pages s)" for j using wf(1) that by (simp add: pages_wf_def)
  have old: "locs s' ! j = locs s ! j" if "i \<in> set (malloc_mem s)" "j \<in> set (block_of (locs s) i)" for i j
  proof -
    have "j \<in> set (hp_pages s)" using wf(2) that by (auto simp: blocks_wf_def block_ok_def)
    moreover have "j \<notin> set (r # ms)" using fp(3) that by auto
    ultimately show ?thesis using nth [OF pg] by auto
  qed
  have blocks: "map (block_of (locs s')) (malloc_mem s) = map (block_of (locs s)) (malloc_mem s)"
  proof (intro map_cong refl)
    fix i assume "i \<in> set (malloc_mem s)"
    from block_ok_cong(1) [OF old [OF this]] show "block_of (locs s') i = block_of (locs s) i" .
  qed
  have "in_use (locs s' ! m) \<and> m \<notin> set (concat (map (block_of (locs s')) (malloc_mem s)))" if m: "m \<in> set ms" for m
  proof -
    have "m \<noteq> r" using grp(4) [OF k] m by auto
    then show ?thesis using nth [OF fp(7)] m fp(3) [of m] unfolding blocks by simp
  qed
  moreover have "in_use (locs s' ! i) = (in_use (locs s ! i) \<or> i \<in> set ms)" if "i \<in> set (hp_pages s)" for i
    using nth [OF pg [OF that]] grp(4) [OF k] by auto
  then have "free_pages s' = filter (\<lambda>i. i \<notin> set ms) (free_pages s)"
    by (auto simp: free_pages_def same intro!: filter_cong)
  ultimately show ?thesis using run t same by (intro exI [of _ s']) auto
qed

section \<open>A manager in use\<close>

text \<open>
  A huge page of four pages, of which the second has been given out. The functions that map and unmap do nothing, and every
  huge page lies behind all others.
\<close>

definition hp_bump :: "(nat \<times> nat) list \<Rightarrow> nat \<Rightarrow> nat \<Rightarrow> int option" where
  "hp_bump areas n align = Some (int (0x1000 + foldr (\<lambda>(a, k) t. max (a + k) t) areas 0))"

lemma hugepages_heap_bump: "hugepages_heap hp_bump"
proof -
  have "a + k \<le> foldr (\<lambda>(a, k) t. max (a + k) t) areas 0" if "(a, k) \<in> set areas" for a k :: nat and areas
    using that by (induction areas) (auto simp: le_max_iff_disj)
  then show ?thesis by (fastforce simp: hugepages_heap_def hp_bump_def separate_def)
qed

definition example_hp_blank :: "unit hp_mgr" where
  "example_hp_blank = \<lparr>hp_mem = (\<lambda>_. 0), locs = [], hp_page_size = 0x1000, sc_page_size = 0x1000, hugepages_size = 0x4000,
     allocated_memory = [], hugepages_freed = [], hp_pages = [], malloc_mem = [],
     hp_iovas = \<lparr>iova_ranges = [], max_iovas = 0, increment = 0, free_iovas = []\<rparr>, bus = (), hugepages_malloc = hp_bump,
     map_read_func = (\<lambda>_ _ _. retS ()), map_write_func = (\<lambda>_ _ _. retS ()), unmap_func = (\<lambda>_ _. retS ())\<rparr>"

definition example_used :: location where
  "example_used = \<lparr>vaddr = 0x2000, iova = 0x1000, msize = 0x1000, client = ''nvme'', in_use = True, iova_mapped = True,
     iova_direction = Some HOST_TO_DEVICE, linked_mem = []\<rparr>"

definition example_hp :: "unit hp_mgr" where
  "example_hp = example_hp_blank\<lparr>locs := [new_location 0x1000 0 0x1000 ''HugePagesMemoryMgr'', example_used,
       new_location 0x3000 0 0x1000 ''HugePagesMemoryMgr'', new_location 0x4000 0 0x1000 ''HugePagesMemoryMgr''], hp_pages := [0, 1, 2, 3],
     allocated_memory := [(0x1000, 0x4000)], malloc_mem := [1],
     hp_iovas := \<lparr>iova_ranges = [(0x1000, 0x9000)], max_iovas = 3, increment = 0x1800, free_iovas = [0x2800, 0x4000]\<rparr>\<rparr>"

lemma example_locs: "locs example_hp = [new_location 0x1000 0 0x1000 ''HugePagesMemoryMgr'', example_used,
    new_location 0x3000 0 0x1000 ''HugePagesMemoryMgr'', new_location 0x4000 0 0x1000 ''HugePagesMemoryMgr'']"
  by (simp add: example_hp_def)

lemma example_hp_simps [simp]: "hp_pages example_hp = [0, 1, 2, 3]" "malloc_mem example_hp = [1]" "hp_page_size example_hp = 0x1000"
  "sc_page_size example_hp = 0x1000" "increment (hp_iovas example_hp) = 0x1800" "free_iovas (hp_iovas example_hp) = [0x2800, 0x4000]"
  "allocated_memory example_hp = [(0x1000, 0x4000)]"
  by (simp_all add: example_hp_def example_hp_blank_def)

lemma example_used_simps [simp]: "in_use example_used" "linked_mem example_used = []" "vaddr example_used = 0x2000"
  "msize example_used = 0x1000" "iova example_used = 0x1000" "iova_mapped example_used"
  by (simp_all add: example_used_def)

lemma example_hp_config: "hp_config example_hp" "maps_ok example_hp" "hp_config example_hp_blank" "maps_ok example_hp_blank"
  using hugepages_heap_bump
  by (auto simp: hp_config_def maps_ok_def example_hp_def example_hp_blank_def hp_bump_def)

lemma example_hp_inv: "hp_inv example_hp"
proof -
  have "pages_wf example_hp"
    by (auto simp: pages_wf_def example_locs within_def separate_def)
  moreover have "blocks_wf example_hp"
    by (simp add: blocks_wf_def block_ok_def block_of_def example_locs)
  moreover have "iovas_wf example_hp"
    by (simp add: iovas_wf_def example_locs)
  ultimately show ?thesis using example_hp_config by (simp add: hp_inv_def)
qed

lemma example_hp_free: "free_pages example_hp = [0, 2, 3]"
  by (simp add: free_pages_def example_locs)

lemma hp_malloc_first_run_witness:
  "\<exists>s'. hp_malloc 100 HOST_TO_DEVICE ''queue'' example_hp = (Inr 0, s') \<and> malloc_mem s' = [1, 0] \<and> free_pages s' = [2, 3]"
proof -
  have "find_group (locs example_hp) (free_pages example_hp) 1 = Some [0]"
    unfolding example_hp_free by (rule find_group_one) (simp add: example_locs)
  from hp_malloc_first_run [OF example_hp_inv example_hp_config(2) _ _ refl _ refl _, of HOST_TO_DEVICE "0x2800" "[0x4000]" 100 "[0]" "''queue''"] this
  show ?thesis by (auto simp: example_hp_free)
qed

lemma hp_malloc_overlaps_witness:
  "\<exists>s'. hp_malloc 0x1800 HOST_TO_DEVICE ''queue'' example_hp = (Inr 0, s') \<and>
    \<not> separate (vaddr (locs s' ! 0)) (msize (locs s' ! 0)) (vaddr (locs s' ! 1)) (msize (locs s' ! 1))"
  using hp_malloc_overlaps [OF example_hp_inv example_hp_config(2), of HOST_TO_DEVICE "0x1800" 0 "[2, 3]" 1 "''queue''"]
  by (auto simp: example_hp_free example_locs adjacent_def)

lemma hp_malloc_oversize_witness:
  "\<exists>s'. hp_malloc 0x2000 HOST_TO_DEVICE ''queue'' example_hp = (Inl AssertionError, s') \<and> free_pages s' = [0, 2]"
proof -
  have "find_group (locs example_hp) (free_pages example_hp) 2 = Some [2, 3]"
    by (simp add: example_hp_free find_group_def grouper_def example_locs adjacent_def upt_conv_Cons)
  note f = this
  have p: "hp_page_size example_hp dvd 0x2000" "increment (hp_iovas example_hp) < 0x2000" "2 = max 1 (0x2000 div hp_page_size example_hp)"
    "sc_page_size example_hp \<le> 0x2000" "2 \<le> length (free_pages example_hp)" by (simp_all add: example_hp_free)
  obtain s' where "hp_malloc 0x2000 HOST_TO_DEVICE ''queue'' example_hp = (Inl AssertionError, s')"
    "free_pages s' = filter (\<lambda>i. i \<notin> set [3]) (free_pages example_hp)"
    using hp_malloc_oversize [OF example_hp_inv p f, of HOST_TO_DEVICE "''queue''"] by blast
  then show ?thesis by (simp add: example_hp_free)
qed

text \<open>The manager as it is created, with the bus addresses \<open>xs\<close>.\<close>

definition example_hp_new :: "nat list \<Rightarrow> unit hp_mgr" where
  "example_hp_new xs = example_hp_blank\<lparr>allocated_memory := [(0x1000, 0x4000)], locs := split_page 0x1000 0x1000 4, hp_pages := [0..<4],
     malloc_mem := [], hp_iovas := \<lparr>iova_ranges = [(0x1000, 2 ^ 40)], max_iovas = 1000, increment = 2 * 1024 * 1024, free_iovas = xs\<rparr>\<rparr>"

lemma example_hp_new_simps [simp]: "free_iovas (hp_iovas (example_hp_new xs)) = xs" "increment (hp_iovas (example_hp_new xs)) = 0x200000"
  "sc_page_size (example_hp_new xs) = 0x1000" "hp_page_size (example_hp_new xs) = 0x1000" "maps_ok (example_hp_new xs)"
  "\<not> in_use (locs (example_hp_new xs) ! 0)"
  using example_hp_config(4) by (simp_all add: example_hp_new_def maps_ok_def example_hp_blank_def)

lemma example_hp_new_free: "free_pages (example_hp_new xs) = 0 # [1..<4]"
proof -
  have "free_pages (example_hp_new xs) = [0..<4]" by (auto simp: free_pages_def example_hp_new_def intro!: filter_True)
  then show ?thesis by (simp add: upt_conv_Cons)
qed

lemma example_hp_created:
  assumes "new_iova_mgr [(0x1000, 2 ^ 40)] = Inr \<lparr>iova_ranges = [(0x1000, 2 ^ 40)], max_iovas = 1000, increment = 2 * 1024 * 1024, free_iovas = xs\<rparr>"
  shows "hp_reach [(0x1000, 2 ^ 40)] (example_hp_new xs)"
proof -
  have "hp_blank example_hp_blank" using example_hp_config(3) by (simp add: hp_blank_def example_hp_blank_def)
  moreover have "new_hp_mgr [(0x1000, 2 ^ 40)] example_hp_blank = (Inr (), example_hp_new xs)"
    by (simp add: new_hp_mgr_def assms [simplified] malloc_hps_def malloc_hp_def hp_memory_malloc_def divS_def thenS_def bindS_apply
        example_hp_blank_def example_hp_new_def hp_bump_def)
  ultimately show ?thesis by (rule hp_reach.create)
qed


end
