(* ===== verification/Queue_Frames.thy ===== *)
theory Queue_Frames
  imports Queue_Contracts
begin

text \<open>
  What the operations of a pair of queues leave alone. Every operation changes only the memory of its own queue, so that a
  submission queue and a completion queue in disjoint memory keep their contracts side by side, and so does any data buffer
  apart from both. The pair together is what \<open>queue_link\<close> describes.
\<close>

section \<open>Changes of memory\<close>

definition region :: "nat \<Rightarrow> nat \<Rightarrow> nat set" where
  "region a n = {a..<a + n}"

definition only :: "nat set \<Rightarrow> memory \<Rightarrow> memory \<Rightarrow> bool" where
  "only A m m' \<longleftrightarrow> (\<forall>x. x \<notin> A \<longrightarrow> m' x = m x)"

lemma only_refl [simp]: "only A m m"
  by (simp add: only_def)

lemma only_trans: "only A m m' \<Longrightarrow> only A m' m'' \<Longrightarrow> only A m m''"
  by (simp add: only_def)

lemma only_mono: "only A m m' \<Longrightarrow> A \<subseteq> B \<Longrightarrow> only B m m'"
  by (auto simp: only_def)

lemma only_write: "region a (length bs) \<subseteq> A \<Longrightarrow> only A m (write_bytes m a bs)"
  by (auto simp: only_def write_bytes_def region_def subset_iff)

lemma only_write32: "region a 4 \<subseteq> A \<Longrightarrow> only A m (write32 m a v)"
  using only_write [of a "to_le 4 v" A m] by (simp add: write32_def)

lemma only_advance: "region (ht_address h) 4 \<subseteq> A \<Longrightarrow> only A m (ht_advance m h)"
  by (simp add: ht_advance_def Let_def only_write32)

lemma only_set: "region (ht_address h) 4 \<subseteq> A \<Longrightarrow> only A m (ht_set m h v)"
  by (simp add: ht_set_def only_write32)

lemma only_read: "only A m m' \<Longrightarrow> region a n \<inter> A = {} \<Longrightarrow> read_bytes m' a n = read_bytes m a n"
  by (rule read_bytes_eqI) (auto simp: only_def region_def)

lemma only_ht_value: "only A m m' \<Longrightarrow> region (ht_address h) 4 \<inter> A = {} \<Longrightarrow> ht_value m' h = ht_value m h"
  by (simp add: ht_value_def read32_def only_read)

lemma region_sub: "a \<le> b \<Longrightarrow> b + k \<le> a + n \<Longrightarrow> region b k \<subseteq> region a n"
  by (auto simp: region_def)

lemma separate_region: "0 < n \<Longrightarrow> 0 < k \<Longrightarrow> region a n \<inter> region b k = {} \<longleftrightarrow> separate a n b k"
  by (auto simp: region_def separate_def disjoint_iff)

section \<open>The memory of a queue\<close>

definition sq_area :: "nvme_queue \<Rightarrow> nvme_queue \<Rightarrow> nat set" where
  "sq_area hq dq = region (base_address hq) (64 * entries hq) \<union> region (ht_address (tail hq)) 4 \<union>
     region (ht_address (head hq)) 4 \<union> region (ht_address (head dq)) 4"

definition cq_area :: "completion_queue \<Rightarrow> completion_queue \<Rightarrow> nat set" where
  "cq_area hc dc = region (base_address hc) (16 * entries hc) \<union> region (ht_address (head hc)) 4 \<union> region (ht_address (tail dc)) 4"

lemma slot_in_area: "i < entries q \<Longrightarrow> entry_size q = z \<Longrightarrow> region (slot q i) z \<subseteq> region (base_address q) (z * entries q)"
  by (rule region_sub) (use slot_region [of i "entries q" "entry_size q"] in \<open>auto simp: slot_def mult.commute\<close>)

lemma sq_area_cong:
  assumes "sq_inv (m, hq, dq)" "only A m m'" "A \<inter> sq_area hq dq = {}"
  shows "sq_inv (m', hq, dq)" "sq_contents (m', hq, dq) = sq_contents (m, hq, dq)"
    "ht_value m' (tail hq) = ht_value m (tail hq)" "ht_value m' (head hq) = ht_value m (head hq)" "ht_value m' (head dq) = ht_value m (head dq)"
proof -
  have link: "sq_linked hq dq" "queue_ok m hq" "queue_ok m dq" using assms(1) by (auto simp: sq_inv_def)
  then have shared: "tail dq = tail hq" "entries dq = entries hq" "entry_size hq = 64" by (auto simp: sq_linked_def)
  show v: "ht_value m' (tail hq) = ht_value m (tail hq)" "ht_value m' (head hq) = ht_value m (head hq)"
    "ht_value m' (head dq) = ht_value m (head dq)"
    by (rule only_ht_value [OF assms(2)]; use assms(3) in \<open>auto simp: sq_area_def\<close>)+
  show "sq_inv (m', hq, dq)" using assms(1) v shared by (auto simp: sq_inv_def queue_ok_def)
  have "read_bytes m' (slot hq i) 64 = read_bytes m (slot hq i) 64" if "i < entries hq" for i
    by (rule only_read [OF assms(2)]) (use slot_in_area [OF that shared(3)] assms(3) in \<open>auto simp: sq_area_def\<close>)
  then show "sq_contents (m', hq, dq) = sq_contents (m, hq, dq)"
    using v shared link set_ring_slots_less [of "ht_value m (head dq)" "entries hq" "ht_value m (tail hq)"]
    by (auto simp: sq_contents_def queue_ok_def)
qed

lemma cq_area_cong:
  assumes "cq_inv (m, hc, dc)" "only A m m'" "A \<inter> cq_area hc dc = {}"
  shows "cq_inv (m', hc, dc)" "cq_contents (m', hc, dc) = cq_contents (m, hc, dc)"
    "ht_value m' (head hc) = ht_value m (head hc)" "ht_value m' (tail dc) = ht_value m (tail dc)"
proof -
  have link: "cq_linked hc dc" and lt: "ht_value m (head hc) < entries hc" "ht_value m (tail dc) < entries hc"
    using assms(1) by (auto simp: cq_inv_def Let_def)
  then have size: "entry_size hc = 16" by (auto simp: cq_linked_def)
  show v: "ht_value m' (head hc) = ht_value m (head hc)" "ht_value m' (tail dc) = ht_value m (tail dc)"
    by (rule only_ht_value [OF assms(2)]; use assms(3) in \<open>auto simp: cq_area_def\<close>)+
  have r: "read_bytes m' (slot hc i) 16 = read_bytes m (slot hc i) 16" if "i < entries hc" for i
    by (rule only_read [OF assms(2)]) (use slot_in_area [OF that size] assms(3) in \<open>auto simp: cq_area_def\<close>)
  then have "slot_phase m' hc i = slot_phase m hc i" if "i < entries hc" for i using that by (simp add: slot_phase_def)
  then show "cq_inv (m', hc, dc)" using assms(1) v by (auto simp: cq_inv_def Let_def)
  show "cq_contents (m', hc, dc) = cq_contents (m, hc, dc)"
    using r v lt set_ring_slots_less [OF lt] by (auto simp: cq_contents_def)
qed

section \<open>A pair of queues between host and device\<close>

text \<open>
  The host's queue objects \<open>hq\<close> and \<open>hc\<close>, the device's \<open>dq\<close> and \<open>dc\<close> over the same memory, the commands \<open>xs\<close> that the device has still to fetch and
  the completions \<open>ys\<close> that the host has still to consume.
\<close>

definition queue_link :: "memory \<Rightarrow> nvme_queue \<Rightarrow> completion_queue \<Rightarrow> nvme_queue \<Rightarrow> completion_queue \<Rightarrow> byte list list \<Rightarrow> byte list list \<Rightarrow> bool" where
  "queue_link m hq hc dq dc xs ys \<longleftrightarrow> sq_inv (m, hq, dq) \<and> cq_inv (m, hc, dc) \<and> sq_contents (m, hq, dq) = xs \<and> cq_contents (m, hc, dc) = ys \<and>
     sq_area hq dq \<inter> cq_area hc dc = {} \<and> 1 < entries hq \<and> entries hq \<le> 2 ^ 16 \<and> 1 < entries hc \<and> qid dq = qid hq \<and> qid hc = qid hq"

text \<open>The host has heard of everything that the device has fetched.\<close>

definition acknowledged :: "memory \<Rightarrow> nvme_queue \<Rightarrow> nvme_queue \<Rightarrow> bool" where
  "acknowledged m hq dq \<longleftrightarrow> ht_value m (head hq) = ht_value m (head dq)"

definition link_area :: "nvme_queue \<Rightarrow> completion_queue \<Rightarrow> nvme_queue \<Rightarrow> completion_queue \<Rightarrow> nat set" where
  "link_area hq hc dq dc = sq_area hq dq \<union> cq_area hc dc"

lemma link_write:
  assumes "queue_link m hq hc dq dc xs ys" "only A m m'" "A \<inter> link_area hq hc dq dc = {}"
  shows "queue_link m' hq hc dq dc xs ys" "acknowledged m' hq dq = acknowledged m hq dq"
proof -
  have d: "A \<inter> sq_area hq dq = {}" "A \<inter> cq_area hc dc = {}" using assms(3) by (auto simp: link_area_def)
  have i: "sq_inv (m, hq, dq)" "cq_inv (m, hc, dc)" using assms(1) by (auto simp: queue_link_def)
  show "queue_link m' hq hc dq dc xs ys"
    using assms(1) sq_area_cong [OF i(1) assms(2) d(1)] cq_area_cong [OF i(2) assms(2) d(2)] by (simp add: queue_link_def)
  show "acknowledged m' hq dq = acknowledged m hq dq"
    using sq_area_cong [OF i(1) assms(2) d(1)] by (simp add: acknowledged_def)
qed

lemma sq_no_room_empty:
  assumes "sq_inv (m, hq, dq)" "sq_contents (m, hq, dq) = []" "acknowledged m hq dq" "1 < entries hq"
  shows "\<not> is_full m hq"
proof -
  have ok: "queue_ok m hq" and "tail dq = tail hq" using assms(1) by (auto simp: sq_inv_def sq_linked_def)
  then have "ring_dist (entries hq) (ht_value m (head hq)) (ht_value m (tail hq)) = 0"
    using assms(2,3) by (simp add: sq_contents_def acknowledged_def ring_slots_def)
  then have "num_entries m hq = 0" using num_entries_dist [OF ok] by simp
  then show ?thesis using assms(4) ok by (auto simp: num_entries_dist [OF ok] is_full_iff [OF ok] ring_succ_def ring_dist_def queue_ok_def split: if_splits)
qed

lemma link_post:
  assumes "queue_link m hq hc dq dc [] ys" "acknowledged m hq dq" "length bs = 64"
  shows "\<exists>m'. sq_post_command m hq bs = Inr m' \<and> queue_link m' hq hc dq dc [bs] ys \<and> only (sq_area hq dq) m m'"
proof -
  have i: "sq_inv (m, hq, dq)" "sq_contents (m, hq, dq) = []" "1 < entries hq" "cq_inv (m, hc, dc)"
    using assms(1) by (auto simp: queue_link_def)
  have room: "\<not> is_full m hq" by (rule sq_no_room_empty [OF i(1,2) assms(2) i(3)])
  have link: "sq_linked hq dq" "queue_ok m hq" using i(1) by (auto simp: sq_inv_def)
  then have t: "ht_value m (tail hq) < entries hq" "entry_size hq = 64" by (auto simp: queue_ok_def sq_linked_def)
  obtain m' where m': "sq_post_command m hq bs = Inr m'" "sq_inv (m', hq, dq)" "sq_contents (m', hq, dq) = [bs]"
    using sq_post_room [OF i(1) room assms(3)] i(2) by auto
  have "m' = ht_advance (write_bytes m (slot hq (ht_value m (tail hq))) bs) (tail hq)"
    using m'(1) sq_post_command_eq [OF room assms(3) t(2)] by simp
  moreover have "only (sq_area hq dq) m (write_bytes m (slot hq (ht_value m (tail hq))) bs)"
    by (rule only_write) (use slot_in_area [OF t] assms(3) in \<open>auto simp: sq_area_def\<close>)
  moreover have "only (sq_area hq dq) x (ht_advance x (tail hq))" for x by (rule only_advance) (auto simp: sq_area_def)
  ultimately have o: "only (sq_area hq dq) m m'" using only_trans by blast
  have "sq_area hq dq \<inter> cq_area hc dc = {}" using assms(1) by (simp add: queue_link_def)
  from cq_area_cong [OF i(4) o this] m' o assms(1) show ?thesis by (auto simp: queue_link_def)
qed

lemma link_take:
  assumes "queue_link m hq hc dq dc (bs # xs) ys"
  shows "\<exists>a m'. sq_get_command m dq = (Some a, m') \<and> read_bytes m' a 64 = bs \<and> region a 64 \<subseteq> sq_area hq dq \<and>
    queue_link m' hq hc dq dc xs ys \<and> only (sq_area hq dq) m m' \<and> ht_value m' (head hq) = ht_value m (head hq)"
proof -
  have i: "sq_inv (m, hq, dq)" "sq_contents (m, hq, dq) = bs # xs" "cq_inv (m, hc, dc)"
    using assms(1) by (auto simp: queue_link_def)
  have link: "sq_linked hq dq" "queue_ok m hq" "queue_ok m dq" using i(1) by (auto simp: sq_inv_def)
  obtain st where st: "sq_take (m, hq, dq) = Some (bs, st)" "sq_inv st" "sq_contents st = xs" using sq_take_Some [OF i(1,2)] by blast
  then obtain a m' where g: "sq_get_command m dq = (Some a, m')" "read_bytes m' a 64 = bs" "st = (m', hq, dq)"
    by (auto simp: sq_take_def split: prod.splits option.splits)
  then have a: "a = slot dq (ht_value m (head dq))" "m' = ht_advance m (head dq)"
    by (auto simp: sq_get_command_def Let_def split: if_splits)
  have d: "ht_value m (head dq) < entries hq" "entry_size hq = 64" "slot dq (ht_value m (head dq)) = slot hq (ht_value m (head dq))"
    using link by (auto simp: queue_ok_def sq_linked_def slot_def)
  have o: "only (sq_area hq dq) m m'" unfolding a by (rule only_advance) (auto simp: sq_area_def)
  have "region a 64 \<subseteq> sq_area hq dq" using slot_in_area [OF d(1,2)] a(1) d(3) by (auto simp: sq_area_def)
  moreover have "sq_area hq dq \<inter> cq_area hc dc = {}" using assms(1) by (simp add: queue_link_def)
  moreover have "ht_value m' (head hq) = ht_value m (head hq)" unfolding a
    by (rule ht_value_advance_separate) (use link(1) in \<open>simp add: sq_linked_def separate_sym\<close>)
  ultimately show ?thesis using cq_area_cong [OF i(3) o] g st o assms by (auto simp: queue_link_def)
qed

lemma link_idle:
  assumes "queue_link m hq hc dq dc [] ys"
  shows "sq_get_command m dq = (None, m)"
proof -
  have i: "sq_inv (m, hq, dq)" "sq_contents (m, hq, dq) = []" using assms(1) by (auto simp: queue_link_def)
  from sq_take_None [OF i] have "fst (sq_get_command m dq) = None" by (auto simp: sq_take_def split: prod.splits option.splits)
  then show ?thesis by (auto simp: sq_get_command_def Let_def split: if_splits)
qed

lemma link_answer:
  assumes "queue_link m hq hc dq dc xs []" "length e = 16"
  shows "\<exists>m'. post_completion m dc e = Inr m' \<and> queue_link m' hq hc dq dc xs [untagged e] \<and> only (cq_area hc dc) m m'"
proof -
  have i: "sq_inv (m, hq, dq)" "cq_inv (m, hc, dc)" "cq_contents (m, hc, dc) = []" "1 < entries hc" "sq_area hq dq \<inter> cq_area hc dc = {}"
    using assms(1) by (auto simp: queue_link_def)
  have link: "cq_linked hc dc" "ht_value m (head hc) < entries hc" "ht_value m (tail dc) < entries hc"
    using i(2) by (auto simp: cq_inv_def Let_def)
  then have size: "entry_size hc = 16" "entries dc = entries hc" "head dc = head hc" "slot dc = slot hc" "entry_size dc = 16"
    by (auto simp: cq_linked_def slot_def)
  have "ht_value m (head hc) = ht_value m (tail dc)"
    using i(3) link ring_slots_succ_head [OF link(2,3)] by (cases "ht_value m (head hc) = ht_value m (tail dc)") (auto simp: cq_contents_def)
  then have room: "\<not> is_full m dc" using is_full_iff [OF queue_ok_cq [OF i(2)]] size i(4) by (auto simp: ring_succ_def)
  obtain m' where m': "post_completion m dc e = Inr m'" "cq_inv (m', hc, dc)" "cq_contents (m', hc, dc) = [untagged e]"
    using cq_post_room [OF i(2) room assms(2)] i(3) by auto
  let ?e = "setf CQE_P (if getf CQE_P (read_bytes m (slot hc (ht_value m (tail dc))) 16) = 1 then 0 else 1) e"
  have "m' = ht_advance (write_bytes m (slot hc (ht_value m (tail dc))) ?e) (tail dc)"
    using m'(1) room size assms(2) by (auto simp: post_completion_def Let_def)
  moreover have "only (cq_area hc dc) m (write_bytes m (slot hc (ht_value m (tail dc))) ?e)"
    by (rule only_write) (use slot_in_area [OF link(3) size(1)] assms(2) in \<open>auto simp: cq_area_def\<close>)
  moreover have "only (cq_area hc dc) x (ht_advance x (tail dc))" for x by (rule only_advance) (auto simp: cq_area_def)
  ultimately have o: "only (cq_area hc dc) m m'" using only_trans by blast
  moreover have "cq_area hc dc \<inter> sq_area hq dq = {}" using i(5) by blast
  ultimately show ?thesis using sq_area_cong [OF i(1) o] m' assms(1) by (auto simp: queue_link_def)
qed

lemma sq_ack_area:
  "only (sq_area hq dq) m (ht_set m (head hq) v)"
  by (rule only_set) (auto simp: sq_area_def)

text \<open>The host takes the next completion and learns the device's head from it.\<close>

lemma link_consume:
  assumes "queue_link m hq hc dq dc xs (e # ys)" "a = get_next_completion m hc" "consume_completion m hc = (m1, hc')"
  shows "untagged (read_bytes m a 16) = e" "getf CQE_P (read_bytes m a 16) = phase hc" "read_bytes m1 a 16 = read_bytes m a 16"
    "region a 16 \<subseteq> cq_area hc dc" "qid hc' = qid hc" "link_area hq hc' dq dc = link_area hq hc dq dc"
    "queue_link (ht_set m1 (head hq) (ht_value m (head dq))) hq hc' dq dc xs ys"
    "acknowledged (ht_set m1 (head hq) (ht_value m (head dq))) hq dq"
    "only (link_area hq hc dq dc) m (ht_set m1 (head hq) v)"
proof -
  have i: "sq_inv (m, hq, dq)" "sq_contents (m, hq, dq) = xs" "cq_inv (m, hc, dc)" "cq_contents (m, hc, dc) = e # ys"
    "sq_area hq dq \<inter> cq_area hc dc = {}" using assms(1) by (auto simp: queue_link_def)
  obtain st where st: "cq_take (m, hc, dc) = Some (e, st)" "cq_inv st" "cq_contents st = ys" using cq_take_Some [OF i(3,4)] by blast
  have link: "cq_linked hc dc" "ht_value m (head hc) < entries hc" using i(3) by (auto simp: cq_inv_def Let_def)
  then have size: "entry_size hc = 16" by (auto simp: cq_linked_def)
  show r: "untagged (read_bytes m a 16) = e" "getf CQE_P (read_bytes m a 16) = phase hc"
    using st(1) assms(2) by (auto simp: cq_take_def cq_poll_def Let_def split: prod.splits option.splits if_splits)
  have st': "st = (m1, hc', dc)" using st(1) assms(3) by (auto simp: cq_take_def split: prod.splits option.splits)
  note eq = consume_completion_eq [OF link, unfolded assms(3)]
  then have m1: "m1 = ht_advance m (head hc)" and hc': "\<exists>p. hc' = hc\<lparr>phase := p\<rparr>" by blast+
  then have same: "base_address hc' = base_address hc" "entries hc' = entries hc" "head hc' = head hc" by auto
  show q: "qid hc' = qid hc" using hc' by auto
  have area: "cq_area hc' dc = cq_area hc dc" by (simp add: cq_area_def same)
  then show "link_area hq hc' dq dc = link_area hq hc dq dc" by (simp add: link_area_def)
  have o: "only (cq_area hc dc) m m1" unfolding m1 by (rule only_advance) (auto simp: cq_area_def)
  show "read_bytes m1 a 16 = read_bytes m a 16" unfolding m1 assms(2) get_next_completion_def
    by (rule read_bytes_advance_separate) (use slot_outside(2) [of hc "head hc"] link size in \<open>auto simp: cq_linked_def\<close>)
  show "region a 16 \<subseteq> cq_area hc dc" using slot_in_area [OF link(2) size] by (auto simp: cq_area_def assms(2) get_next_completion_def)
  let ?m2 = "ht_set m1 (head hq) (ht_value m (head dq))"
  have "cq_area hc dc \<inter> sq_area hq dq = {}" using i(5) by blast
  note sq = sq_area_cong [OF i(1) o this]
  have "?m2 = ht_set m1 (head hq) (ht_value m1 (head dq))" using sq(5) by simp
  with sq_ack [OF sq(1)] have ack: "sq_inv (?m2, hq, dq)" "sq_contents (?m2, hq, dq) = xs" using sq(2) i(2) by simp_all
  have "sq_area hq dq \<inter> cq_area hc' dc = {}" using i(5) by (simp add: area)
  from cq_area_cong [OF st(2) [unfolded st'] sq_ack_area this] st(3)
  have cq: "cq_inv (?m2, hc', dc)" "cq_contents (?m2, hc', dc) = ys" by (simp_all add: st')
  show "queue_link ?m2 hq hc' dq dc xs ys"
    using assms(1) ack cq same q by (simp add: queue_link_def area)
  have ok: "queue_ok m dq" "entries dq \<le> 2 ^ 32" "sq_linked hq dq" using i(1) by (auto simp: sq_inv_def queue_ok_def)
  then have "ht_value m (head dq) < 2 ^ 32" by (simp add: queue_ok_def)
  then have "ht_value ?m2 (head hq) = ht_value m (head dq)" by simp
  moreover have "ht_value ?m2 (head dq) = ht_value m1 (head dq)"
    by (rule ht_value_set_separate) (use ok(3) in \<open>simp add: sq_linked_def\<close>)
  ultimately show "acknowledged ?m2 hq dq" using sq(5) by (simp add: acknowledged_def)
  show "only (link_area hq hc dq dc) m (ht_set m1 (head hq) v)"
    by (rule only_trans [OF only_mono [OF o] only_mono [OF sq_ack_area]]) (auto simp: link_area_def)
qed

end
