(* ===== verification/Admin_Service.thy ===== *)
theory Admin_Service
  imports Host_Init Queue_Frames
begin

text \<open>
  The driver and a device that serves its admin queue: the contract of such a device as the driver sees it through its
  queues, and what \<open>sync_cmd\<close> promises over any device that keeps it.
\<close>

section \<open>The state of driver and device\<close>

text \<open>
  The admin queues of the driver and of the device lie over the same memory, there is nothing in them, and the
  driver knows how far the device has got.
\<close>

definition admin_ready :: "('d \<Rightarrow> (nvme_queue \<times> completion_queue) option) \<Rightarrow> ('d, 'm) host \<Rightarrow> nvme_queue \<Rightarrow> nat \<Rightarrow> nvme_queue \<Rightarrow> completion_queue \<Rightarrow> bool" where
  "admin_ready queues s hq k dq dc \<longleftrightarrow> host_wf s \<and> k < length (host_cqs s) \<and>
     qm_get (Some 0) (Some 0) (host_queue_mgr s) = Inr (Queues (Some hq) (Some k)) \<and> qid hq = 0 \<and>
     queues (dev s) = Some (dq, dc) \<and> queue_link (mem s) hq (host_cqs s ! k) dq dc [] [] \<and> acknowledged (mem s) hq dq \<and>
     host_int_type s \<noteq> MSIX \<and> outstanding s = []"

lemma untagged_fields [simp]:
  "length e = 16 \<Longrightarrow> getf CQE_CID (untagged e) = getf CQE_CID e" "length e = 16 \<Longrightarrow> getf CQE_SQID (untagged e) = getf CQE_SQID e"
  "length e = 16 \<Longrightarrow> getf CQE_SQHD (untagged e) = getf CQE_SQHD e" "length e = 16 \<Longrightarrow> getf CQE_SC (untagged e) = getf CQE_SC e"
  "length e = 16 \<Longrightarrow> getf CQE_SCT (untagged e) = getf CQE_SCT e"
  by (simp_all add: untagged_def getf_setf_apart)

lemma cq_of_admin: "qm_get (Some 0) (Some 0) (host_queue_mgr s) = Inr (Queues (Some hq) (Some k)) \<Longrightarrow> cq_of 0 s = (Inr k, s)"
  by (simp add: cq_of_def bindS_apply)

lemma data_for_cong: "c_data_in c' = c_data_in c \<Longrightarrow> c_prp c' = c_prp c \<Longrightarrow> c_class c' = c_class c \<Longrightarrow> data_for m c' = data_for m c"
  by (simp add: data_for_def split: option.split)

section \<open>Devices that serve the admin queue\<close>

text \<open>
  \<open>hook\<close> is what happens when the driver has posted a command, \<open>queues\<close> the admin queues of the device, \<open>answers\<close> the status with which it answers the bytes of a
  command and the data it writes, and \<open>after\<close> its state afterwards. The hook takes the command from the queue, writes
  that data and nothing else outside the queues, and posts one completion, for that command.
\<close>

locale admin_device =
  fixes hook :: "('d shared, unit) st"
    and queues :: "'d \<Rightarrow> (nvme_queue \<times> completion_queue) option"
    and answers :: "'d \<Rightarrow> byte list \<Rightarrow> nat \<Rightarrow> (nat \<times> byte list) list \<Rightarrow> bool"
    and after :: "'d \<Rightarrow> byte list \<Rightarrow> 'd"
  assumes serve: "queues (dev s) = Some (dq, dc) \<Longrightarrow> qid hq = 0 \<Longrightarrow> queue_link (mem s) hq hc dq dc [bs] [] \<Longrightarrow> answers (dev s) bs sc ds \<Longrightarrow>
      length bs = 64 \<Longrightarrow> (\<And>a d. (a, d) \<in> set ds \<Longrightarrow> region a (length d) \<inter> link_area hq hc dq dc = {}) \<Longrightarrow>
      \<exists>m e. hook s = (Inr (), s\<lparr>mem := m, dev := after (dev s) bs\<rparr>) \<and> queue_link m hq hc dq dc [] [untagged e] \<and> length e = 16 \<and>
        getf CQE_CID e = getf SQE_CID bs \<and> getf CQE_SQID e = 0 \<and> getf CQE_SQHD e = ht_value m (head dq) \<and>
        getf CQE_SC e = sc \<and> getf CQE_SCT e = 0 \<and> (\<forall>(a, d) \<in> set ds. read_bytes m a (length d) = d) \<and>
        only (link_area hq hc dq dc \<union> (\<Union>(a, d) \<in> set ds. region a (length d))) (mem s) m"
    and queues_after: "queues (after x bs) = queues x"
begin

text \<open>
  Over such a device a synchronous admin command completes: the driver finds its completion at the first look, the command gets the
  data and the status, the other commands are untouched, and driver and device are ready for the next command.
\<close>

lemma sync_cmd_served:
  fixes s :: "('d, 'm) host"
  assumes ready: "admin_ready queues s hq k dq dc" and hook: "pf_posted_command pf = hook"
    and c: "i < length (cmds s)" "c = cmds s ! i" "\<not> c_posted c" "\<not> c_complete c" "cc_admin (c_class c)" "length (c_bytes c) = 64"
    and bs: "bs = setf SQE_CID (cid_value (cid_mgr s)) (c_bytes c)"
    and a: "answers (dev s) bs sc ds" "\<And>a d. (a, d) \<in> set ds \<Longrightarrow> region a (length d) \<inter> link_area hq (host_cqs s ! k) dq dc = {}"
    and d: "\<And>m. \<forall>(a, d) \<in> set ds. read_bytes m a (length d) = d \<Longrightarrow> data_for m c = Inr (dd m)"
  shows "\<exists>s' c' m. sync_cmd pf i None None t check s = ((if check then sc_check status_codes (c_class c) 0 sc True else Inr ()), s') \<and>
    cmds s' = (cmds s)[i := c'] \<and> c_complete c' \<and> \<not> c_posted c' \<and> c_data_in c' = dd m \<and> (\<forall>(a, d) \<in> set ds. read_bytes m a (length d) = d) \<and> getf CQE_SC (c_cqe c') = sc \<and> c_class c' = c_class c \<and>
    dev s' = after (dev s) bs \<and> admin_ready queues s' hq k dq dc \<and> link_area hq (host_cqs s' ! k) dq dc = link_area hq (host_cqs s ! k) dq dc \<and>
    cid_mgr s' = snd (cid_alloc (cid_mgr s)) \<and> mem_mgr s' = mem_mgr s \<and>
    only (link_area hq (host_cqs s ! k) dq dc \<union> (\<Union>(a, d) \<in> set ds. region a (length d))) (mem s) (mem s')"
proof -
  let ?hc = "host_cqs s ! k" and ?cid = "cid_value (cid_mgr s)"
  let ?A = "link_area hq ?hc dq dc" and ?D = "\<Union>(a, d) \<in> set ds. region a (length d)"
  have wf: "host_wf s" "k < length (host_cqs s)" and q: "qm_get (Some 0) (Some 0) (host_queue_mgr s) = Inr (Queues (Some hq) (Some k))" "qid hq = 0"
    and dv: "queues (dev s) = Some (dq, dc)" and link: "queue_link (mem s) hq ?hc dq dc [] []" "acknowledged (mem s) hq dq"
    and it: "host_int_type s \<noteq> MSIX" "outstanding s = []" using ready by (auto simp: admin_ready_def)
  have len: "length bs = 64" using bs c(6) by simp
  define c' where "c' = started_command ?cid hq k c"
  have c': "c_bytes c' = bs" "c_class c' = c_class c" "c_data_in c' = c_data_in c" "c_prp c' = c_prp c" "c_posted c' = c_posted c"
    "c_complete c' = c_complete c" "c_sq c' = Some hq" "c_cq c' = Some k" by (simp_all add: c'_def bs)
  obtain m1 where m1: "sq_post_command (mem s) hq (c_bytes c') = Inr m1" "queue_link m1 hq ?hc dq dc [bs] []" "only (sq_area hq dq) (mem s) m1"
    using link_post [OF link len] c'(1) by auto
  define s1 where "s1 = s\<lparr>cmds := (cmds s)[i := c'], cid_mgr := snd (cid_alloc (cid_mgr s)), mem := m1\<rparr>"
  have t1: "mem (shared.truncate s1) = m1" "dev (shared.truncate s1) = dev s" by (simp_all add: s1_def shared.defs)
  obtain m2 e where h: "hook (shared.truncate s1) = (Inr (), (shared.truncate s1)\<lparr>mem := m2, dev := after (dev s) bs\<rparr>)"
    and l2: "queue_link m2 hq ?hc dq dc [] [untagged e]" and e: "length e = 16"
      "getf CQE_CID e = getf SQE_CID bs" "getf CQE_SQID e = 0" "getf CQE_SQHD e = ht_value m2 (head dq)" "getf CQE_SC e = sc" "getf CQE_SCT e = 0"
    and w: "\<forall>(a, d) \<in> set ds. read_bytes m2 a (length d) = d" "only (?A \<union> ?D) m1 m2"
    using serve [of "shared.truncate s1" dq dc hq ?hc bs sc ds] t1 dv q(2) m1(2) a len by auto
  let ?t = "(shared.truncate s1)\<lparr>mem := m2, dev := after (dev s) bs\<rparr>"
  define s3 where "s3 = (shared.extend ?t (shared.more s1))\<lparr>outstanding := AList.update (c_cid c', qid hq) i (outstanding s),
    cmds := (cmds s)[i := c'\<lparr>c_posted := True\<rparr>]\<rparr>"
  have "start_queues None None c s = (Inr (Some 0, Some 0), s)" using c(5) by (simp add: start_queues_def)
  from start_cmd_result [OF c(1-4) this q(1) _ c'_def m1(1) s1_def h [folded hook]] it(2)
  have st: "start_cmd pf i None None s = (Inr (Some 0, qid ?hc), s3)" by (simp add: s3_def)
  have "unposted i s" using wf(1) c(2,3) by (simp add: unposted_def)
  with start_cmd_leads [of i pf None None] st have wf3: "host_wf s3" by (metis leads_def snd_conv)
  have s3: "mem s3 = m2" "host_cqs s3 = host_cqs s" "host_queue_mgr s3 = host_queue_mgr s" "cmds s3 = (cmds s)[i := c'\<lparr>c_posted := True\<rparr>]"
    "outstanding s3 = [((c_cid c', 0), i)]" "dev s3 = after (dev s) bs" "host_int_type s3 = host_int_type s"
    "cid_mgr s3 = snd (cid_alloc (cid_mgr s))" "mem_mgr s3 = mem_mgr s" using it q(2) by (simp_all add: s3_def s1_def)
  obtain a where a: "a = get_next_completion m2 ?hc" by blast
  obtain m4 hc' where con: "consume_completion m2 ?hc = (m4, hc')" by fastforce
  note r = link_consume [OF l2 a con]
  let ?entry = "read_bytes m2 a 16"
  have f: "getf CQE_CID ?entry = c_cid c'" "getf CQE_SQID ?entry = 0" "getf CQE_SQHD ?entry = ht_value m2 (head dq)" "getf CQE_SC ?entry = sc"
    "getf CQE_SCT ?entry = 0"
    using r(1) e untagged_fields [of ?entry] untagged_fields [OF e(1)] c'(1) by (simp_all add: c_cid_def)
  let ?done = "(completed ?entry (c'\<lparr>c_posted := True\<rparr>))\<lparr>c_data_in := dd m2\<rparr>"
  let ?s4 = "advanced k hq a (settle i ?done (c_cid c', 0) s3)"
  have "cq_of 0 s3 = (Inr k, s3)" using q(1) by (intro cq_of_admin) (simp add: s3)
  note g0 = get_completion_result [OF wf3 this, of a ?entry, unfolded f(1,2)]
  have key: "map_of (outstanding s3) (c_cid c', 0) = Some i" and ci: "cmds s3 ! i = c'\<lparr>c_posted := True\<rparr>" using s3 c(1) by simp_all
  have "data_for (mem s3) (c'\<lparr>c_posted := True\<rparr>) = Inr (dd m2)"
    using d [OF w(1)] data_for_cong [of "c'\<lparr>c_posted := True\<rparr>" c m2] c' s3(1) by simp
  moreover have "a = get_next_completion (mem s3) (host_cqs s3 ! k)" "?entry = read_bytes (mem s3) a 16"
    "getf CQE_P ?entry = phase (host_cqs s3 ! k)" using r(2) by (simp_all add: s3 a)
  ultimately have g: "get_completion 0 s3 = (Inr True, ?s4)" using g0 key ci c'(7,8) by auto
  have s4: "cmds ?s4 = (cmds s)[i := ?done]" "outstanding ?s4 = []" "host_queue_mgr ?s4 = host_queue_mgr s" "dev ?s4 = after (dev s) bs"
    "host_int_type ?s4 = host_int_type s" "cid_mgr ?s4 = snd (cid_alloc (cid_mgr s))" "host_cqs ?s4 = (host_cqs s)[k := hc']" "mem_mgr ?s4 = mem_mgr s"
    "mem ?s4 = ht_set m4 (head hq) (ht_value m2 (head dq))"
    using con r(3) f(3) by (simp_all add: advanced_def settle_def s3)
  have wf4: "host_wf ?s4" by (rule get_completion_wf [OF wf3 g])
  have hc': "host_cqs ?s4 ! k = hc'" using wf(2) s4(7) by simp
  have ready': "admin_ready queues ?s4 hq k dq dc"
    unfolding admin_ready_def hc' s4 using wf4 wf(2) q dv it r(6-8) queues_after by simp
  have "sync_cmd pf i None None t check s = ((if check then sc_check status_codes (c_class (cmds ?s4 ! i)) (getf CQE_SCT (c_cqe (cmds ?s4 ! i)))
      (getf CQE_SC (c_cqe (cmds ?s4 ! i))) True else Inr ()), ?s4)"
  proof (rule sync_cmd_result [OF st])
    show "i < length (cmds s3)" "c_cq (cmds s3 ! i) = Some k" "host_int_type s3 \<noteq> MSIX" using c(1) c' s3 it by simp_all
    show "get_completion (qid (host_cqs s3 ! k)) s3 = (Inr True, ?s4)" using g l2 q(2) s3(2) by (simp add: queue_link_def)
    show "i < length (cmds ?s4)" "c_complete (cmds ?s4 ! i)" unfolding s4 using c(1) by (simp_all add: completed_def)
  qed
  moreover have "cmds ?s4 ! i = ?done" unfolding s4 using c(1) by simp
  ultimately have sync: "sync_cmd pf i None None t check s = ((if check then sc_check status_codes (c_class c) 0 sc True else Inr ()), ?s4)"
    using f(4,5) c'(2) by (simp add: completed_def)
  have o1: "only (?A \<union> ?D) (mem s) m1" by (rule only_mono [OF m1(3)]) (auto simp: link_area_def)
  have o2: "only (?A \<union> ?D) m2 (mem ?s4)" unfolding s4(9) by (rule only_mono [OF r(9)]) auto
  have o: "only (?A \<union> ?D) (mem s) (mem ?s4)" by (rule only_trans [OF only_trans [OF o1 w(2)] o2])
  show ?thesis
    using sync s4(1,4,6,8) ready' o f(4) c'(2) r(6) hc' w(1)
    by (intro exI [of _ ?s4] exI [of _ ?done] exI [of _ m2]) (simp add: completed_def)
qed

end

end
