(* ===== verification/Nvsim_Service.thy ===== *)
theory Nvsim_Service
  imports Admin_Service Nvsim_Admin
begin

text \<open>
  The driver over the simulated controller (\<open>GenericNVMeNVSimDevice\<close> in \<open>nvsim/simulators/generic.py\<close>): the hook of a
  posted command serves the queues at once, so the simulator keeps the contract of a device that serves its admin
  queue, and an identify command of the driver ends with the data and the status of the simulator.
\<close>

section \<open>The hook\<close>

definition posted_command :: "nat \<Rightarrow> (('c sim_config_scheme) shared, unit) st" where
  "posted_command fuel = check_commands fuel"

text \<open>The admin queues of the simulator while it has no others.\<close>

definition sim_admin :: "'c sim_config_scheme \<Rightarrow> (nvme_queue \<times> completion_queue) option" where
  "sim_admin c = (case qm_get (Some 0) (Some 0) (sim_queue_mgr c) of
     Inr (Queues (Some dq) (Some dc)) \<Rightarrow>
       if list_all (\<lambda>(_, (sq, _)). case sq of None \<Rightarrow> True | Some q \<Rightarrow> qid q = 0) (nvme_queues (sim_queue_mgr c)) then Some (dq, dc) else None
   | _ \<Rightarrow> None)"

text \<open>What it answers: identify data at PRP1, and no data with the status Invalid Field for an opcode it does not know.\<close>

definition sim_answers :: "'c sim_config_scheme \<Rightarrow> byte list \<Rightarrow> nat \<Rightarrow> (nat \<times> byte list) list \<Rightarrow> bool" where
  "sim_answers c bs sc ds \<longleftrightarrow>
     (if getf SQE_OPC bs = 6
      then config_mps c = 4096 \<and> id_data_ok c \<and> getf SQE_PRP1 bs \<noteq> 0 \<and>
        (case identify_answer c (cmd_field Identify ''CNS'' bs) (cmd_field Identify ''NSID'' bs) of (sc', d) \<Rightarrow>
           sc = sc' \<and> ds = (case d of None \<Rightarrow> [] | Some d \<Rightarrow> [(getf SQE_PRP1 bs, d)]))
      else getf SQE_OPC bs \<notin> {0x00, 0x01, 0x02, 0x04, 0x05, 0x09, 0x0A, 0x80} \<and> sc = 0x02 \<and> ds = [])"

lemma sim_admin_Some:
  assumes "sim_admin c = Some (dq, dc)"
  shows "qm_get (Some 0) (Some 0) (sim_queue_mgr c) = Inr (Queues (Some dq) (Some dc))"
    and "\<And>k q cq. (k, (Some q, cq)) \<in> set (nvme_queues (sim_queue_mgr c)) \<Longrightarrow> qid q = 0"
  using assms by (auto simp: sim_admin_def list_all_iff split: sum.splits got.splits option.splits if_splits)

lemma sim_not_busy: "sim_admin (dev s) = Some (dq, dc) \<Longrightarrow> busy_sqs s = []"
  using sim_admin_Some(2) [of "dev s" dq dc] by (auto simp: busy_sqs_def split: option.split)

lemma sim_answers_status: "sim_answers c bs sc ds \<Longrightarrow> sc < 256"
  by (auto simp: sim_answers_def identify_answer_def split: if_splits prod.splits)

text \<open>The handler of the command writes its data and completes.\<close>

lemma dispatch_answer:
  assumes "sim_answers (dev s) (command_bytes s command) sc ds"
  shows "dispatch admin_cmd_handlers command sq cq s = complete command sq cq (Inr sc) 0
    (case ds of [] \<Rightarrow> s | (a, d) # _ \<Rightarrow> s\<lparr>mem := write_bytes (mem s) a d\<rparr>)"
proof (cases "getf SQE_OPC (command_bytes s command) = 6")
  case True
  obtain sc' d where i: "identify_answer (dev s) (cmd_field Identify ''CNS'' (command_bytes s command))
      (cmd_field Identify ''NSID'' (command_bytes s command)) = (sc', d)" by fastforce
  have a: "config_mps (dev s) = 4096" "id_data_ok (dev s)" "getf SQE_PRP1 (command_bytes s command) \<noteq> 0"
    "sc = sc'" "ds = (case d of None \<Rightarrow> [] | Some d \<Rightarrow> [(getf SQE_PRP1 (command_bytes s command), d)])"
    using assms True i by (simp_all add: sim_answers_def)
  show ?thesis using NVSimIdentify_answer [OF a(1,3,2) i, of sq cq] a(4,5)
    by (auto simp: dispatch_table True admin_by_opcode_def split: option.split)
next
  case False
  then show ?thesis using assms
    by (simp add: sim_answers_def dispatch_table admin_by_opcode_def NVSimCommandNotSupported_def sc_int_values)
qed

lemma sim_answers_data: "sim_answers c bs sc ds \<Longrightarrow> ds = [] \<or> (\<exists>d. ds = [(getf SQE_PRP1 bs, d)])"
  by (auto simp: sim_answers_def split: if_splits option.splits prod.splits)

section \<open>The contract\<close>

lemma sim_serve:
  fixes s :: "('c sim_config_scheme) shared"
  assumes q: "sim_admin (dev s) = Some (dq, dc)" "qid hq = 0" and link: "queue_link (mem s) hq hc dq dc [bs] []"
    and a: "sim_answers (dev s) bs sc ds" and bs: "length bs = 64"
    and apart: "\<And>a d. (a, d) \<in> set ds \<Longrightarrow> region a (length d) \<inter> link_area hq hc dq dc = {}"
  shows "\<exists>m e. posted_command (Suc (Suc n)) s = (Inr (), s\<lparr>mem := m\<rparr>) \<and> queue_link m hq hc dq dc [] [untagged e] \<and> length e = 16 \<and>
    getf CQE_CID e = getf SQE_CID bs \<and> getf CQE_SQID e = 0 \<and> getf CQE_SQHD e = ht_value m (head dq) \<and>
    getf CQE_SC e = sc \<and> getf CQE_SCT e = 0 \<and> (\<forall>(a, d) \<in> set ds. read_bytes m a (length d) = d) \<and>
    only (link_area hq hc dq dc \<union> (\<Union>(a, d) \<in> set ds. region a (length d))) (mem s) m"
proof -
  let ?A = "link_area hq hc dq dc" and ?D = "\<Union>(a, d) \<in> set ds. region a (length d)"
  obtain a m1 where t: "sq_get_command (mem s) dq = (Some a, m1)" "read_bytes m1 a 64 = bs" "region a 64 \<subseteq> sq_area hq dq"
    "queue_link m1 hq hc dq dc [] []" "only (sq_area hq dq) (mem s) m1" using link_take [OF link] by blast
  let ?s1 = "s\<lparr>mem := m1\<rparr>"
  have c: "command_bytes ?s1 a = bs" using t(2) by (simp add: command_bytes_def)
  define m2 where "m2 = (case ds of [] \<Rightarrow> m1 | (a, d) # _ \<Rightarrow> write_bytes m1 a d)"
  have d: "dispatch admin_cmd_handlers a dq dc ?s1 = complete a dq dc (Inr sc) 0 (s\<lparr>mem := m2\<rparr>)"
    using dispatch_answer [of ?s1 a sc ds dq dc] assms(4) c by (auto simp: m2_def split: list.split)
  have o2: "only ?D m1 m2" and r2: "\<forall>(a, d) \<in> set ds. read_bytes m2 a (length d) = d"
    using sim_answers_data [OF assms(4)] by (auto simp: m2_def intro!: only_write)
  have D: "?D \<inter> ?A = {}" using apart by auto
  have l2: "queue_link m2 hq hc dq dc [] []" by (rule link_write(1) [OF t(4) o2 D])
  have "read_bytes m2 a 64 = bs" using only_read [OF o2, of a 64] t(2,3) D by (auto simp: link_area_def)
  moreover define e where "e = completion_entry (getf SQE_CID bs) sc 0 (ht_value m2 (head dq)) 0"
  moreover obtain m3 where p: "post_completion m2 dc e = Inr m3" "queue_link m3 hq hc dq dc [] [untagged e]" "only (cq_area hc dc) m2 m3"
    using link_answer [OF l2, of e] by (auto simp: e_def)
  moreover have "qid dq = 0" using link q(2) by (simp add: queue_link_def)
  ultimately have "complete a dq dc (Inr sc) 0 (s\<lparr>mem := m2\<rparr>) = (Inr (), s\<lparr>mem := m3\<rparr>)"
    by (simp add: complete_def bindS_apply command_bytes_def)
  with d link_idle [OF p(2)] t(1) have "serve_admin (Suc (Suc n)) dq dc s = (Inr (), s\<lparr>mem := m3\<rparr>)"
    by (simp add: get_command_def thenS_def bindS_apply)
  moreover have "busy_sqs (s\<lparr>mem := m3\<rparr>) = []" by (rule sim_not_busy) (use q in simp)
  ultimately have "posted_command (Suc (Suc n)) s = (Inr (), s\<lparr>mem := m3\<rparr>)"
    using sim_admin_Some(1) [OF q(1)] by (simp add: posted_command_def check_commands_def thenS_def bindS_apply del: serve_admin.simps qm_get.simps)
  moreover have head: "ht_value m3 (head dq) = ht_value m2 (head dq)"
    by (rule only_ht_value [OF p(3)]) (use l2 in \<open>auto simp: queue_link_def sq_area_def\<close>)
  moreover have "ht_value m2 (head dq) < 2 ^ 16" using l2 by (simp add: queue_link_def sq_inv_def queue_ok_def sq_linked_def)
  moreover have "getf SQE_CID bs < 2 ^ 16" using getf_less [of SQE_CID bs] by (simp add: SQE_pos_defs)
  moreover have "\<forall>(x, d) \<in> set ds. read_bytes m3 x (length d) = d"
    using r2 only_read [OF p(3)] apart by (fastforce simp: link_area_def)
  moreover have "only (?A \<union> ?D) (mem s) m3"
    by (rule only_trans [OF only_trans [OF only_mono [OF t(5)] only_mono [OF o2]] only_mono [OF p(3)]]) (auto simp: link_area_def)
  ultimately show ?thesis
    using p(2) sim_answers_status [OF assms(4)] by (intro exI [of _ m3] exI [of _ e]) (simp add: e_def completion_entry_fields)
qed

interpretation nvsim: admin_device "posted_command (Suc (Suc n))" sim_admin sim_answers "\<lambda>c _. c"
proof
  fix s :: "('c sim_config_scheme) shared" and dq dc hq hc bs sc ds
  assume "sim_admin (dev s) = Some (dq, dc)" "qid hq = 0" "queue_link (mem s) hq hc dq dc [bs] []" "sim_answers (dev s) bs sc ds"
    "length bs = 64" "\<And>a d. (a, d) \<in> set ds \<Longrightarrow> region a (length d) \<inter> link_area hq hc dq dc = {}"
  from sim_serve [OF this] show "\<exists>m e. posted_command (Suc (Suc n)) s = (Inr (), s\<lparr>mem := m, dev := dev s\<rparr>) \<and>
    queue_link m hq hc dq dc [] [untagged e] \<and> length e = 16 \<and>
    getf CQE_CID e = getf SQE_CID bs \<and> getf CQE_SQID e = 0 \<and> getf CQE_SQHD e = ht_value m (head dq) \<and>
    getf CQE_SC e = sc \<and> getf CQE_SCT e = 0 \<and> (\<forall>(a, d) \<in> set ds. read_bytes m a (length d) = d) \<and>
    only (link_area hq hc dq dc \<union> (\<Union>(a, d) \<in> set ds. region a (length d))) (mem s) m" by simp
qed simp

end
