(* ===== verification/Host_Identify.thy ===== *)
theory Host_Identify
  imports Host_Driver "HOL-Library.Log_Nat"
begin

text \<open>
  The identify data of a device (\<open>NVMeDeviceIdentifyData\<close> in \<open>lone/nvme/device/identify.py\<close>): the identify commands
  that the driver sends, the table of namespaces made from the answers, and the sizes shown to the user.
\<close>

section \<open>Rounded sizes\<close>

text \<open>
  The quotient of two integers as a double, and \<open>round\<close> of a double to two digits. A double is a fraction here: an integer of at most 53 bits
  over a power of two, nearest to the quotient, with ties to even. The exponents stay far inside the range of a double. A rounded size is given in
  hundredths, the decimal number that \<open>round\<close> produces.
\<close>

definition half_even :: "nat \<Rightarrow> nat \<Rightarrow> nat" where
  "half_even n d = (let q = n div d; r = n mod d in if 2 * r < d \<or> 2 * r = d \<and> even q then q else q + 1)"

definition numerator :: "nat \<Rightarrow> int \<Rightarrow> nat" where
  "numerator n k = n * 2 ^ nat k"

definition denominator :: "nat \<Rightarrow> int \<Rightarrow> nat" where
  "denominator d k = d * 2 ^ nat (- k)"

definition double_shift :: "nat \<Rightarrow> nat \<Rightarrow> int" where
  "double_shift n d =
     (let k = 53 + int (floorlog 2 d) - int (floorlog 2 n)
      in if numerator n k < 2 ^ 53 * denominator d k then k else k - 1)"

definition double_quotient :: "nat \<Rightarrow> nat \<Rightarrow> nat \<times> nat" where
  "double_quotient n d =
     (let k = double_shift n d
      in (half_even (numerator n k) (denominator d k) * 2 ^ nat (- k), 2 ^ nat k))"

definition round_hundredths :: "nat \<Rightarrow> nat \<Rightarrow> nat" where
  "round_hundredths n d = (case double_quotient n d of (p, q) \<Rightarrow> half_even (100 * p) q)"

definition size_unit :: "nat \<Rightarrow> string \<times> nat" where
  "size_unit bytes =
     (if bytes < 10 ^ 3 then (''B'', 1)
      else if bytes < 10 ^ 6 then (''KB'', 10 ^ 3)
      else if bytes < 10 ^ 9 then (''MB'', 10 ^ 6)
      else if bytes < 10 ^ 12 then (''GB'', 10 ^ 9)
      else (''TB'', 10 ^ 12))"

definition id_ns_size :: "nat \<Rightarrow> nat \<Rightarrow> nat \<Rightarrow> nat \<times> nat \<times> string" where
  "id_ns_size lba_ds_bytes' nsze' nuse' =
     (case size_unit (lba_ds_bytes' * nsze') of (unit, divisor) \<Rightarrow>
        (round_hundredths (lba_ds_bytes' * nuse') divisor, round_hundredths (lba_ds_bytes' * nsze') divisor, unit))"

definition lba_ds_size :: "nat \<Rightarrow> nat \<times> string" where
  "lba_ds_size lba_ds_bytes' = (if lba_ds_bytes' > 1024 then (lba_ds_bytes' div 1024, ''KiB'') else (lba_ds_bytes' div 1, ''B''))"

section \<open>The identify commands\<close>

text \<open>A command is made, gets its buffer, is sent and waited for with the default timeout.\<close>

definition identify_cmd :: "('d, 'm) platform \<Rightarrow> cmd_class \<Rightarrow> (string \<times> int) list \<Rightarrow> ('d, 'm, nat) host_op" where
  "identify_cmd pf c kwargs =
     bindS (make_command c kwargs) (\<lambda>i.
     thenS (alloc pf i None) (
     thenS (sync_cmd pf i None None 10 True) (retS i)))"

definition data_inS :: "nat \<Rightarrow> ('d, 'm, byte list) host_op" where
  "data_inS i = bindS (commandS i) (\<lambda>c. the_attr (c_data_in c))"

definition identify_controller :: "('d, 'm) platform \<Rightarrow> ('d, 'm, byte list) host_op" where
  "identify_controller pf = bindS (identify_cmd pf IdentifyController []) data_inS"

text \<open>\<open>try\<close> and \<open>except NVMeStatusCodeException\<close>, which only logs.\<close>

definition ignore_status :: "('s, unit) st \<Rightarrow> ('s, unit) st" where
  "ignore_status f = (\<lambda>s. case f s of (Inl (NVMeStatusCodeException v n), s') \<Rightarrow> (Inr (), s') | r \<Rightarrow> r)"

definition identify_uuid_list :: "('d, 'm) platform \<Rightarrow> ('d, 'm, byte list) host_op" where
  "identify_uuid_list pf =
     bindS (make_command IdentifyUUIDList []) (\<lambda>i.
     thenS (alloc pf i None) (
     thenS (ignore_status (sync_cmd pf i None None 10 True)) (data_inS i)))"

record ns_info =
  ns_id :: nat
  ns_data :: "byte list"
  nsze :: nat
  nuse :: nat
  flbas :: nat
  lba_ds :: nat
  ms_bytes :: nat
  lba_ds_bytes :: nat
  ns_usage :: nat
  ns_total :: nat
  ns_unit :: string
  lba_size :: nat
  lba_unit :: string

text \<open>A field of the data; an index outside an array raises.\<close>

definition data_field :: "step list \<Rightarrow> byte list \<Rightarrow> nat res" where
  "data_field path data = (case get_at IdentifyNamespaceData path data of None \<Rightarrow> Inl IndexError | Some v \<Rightarrow> Inr v)"

definition ns_from_data :: "nat \<Rightarrow> byte list \<Rightarrow> ns_info res" where
  "ns_from_data nsid data =
     bindR (data_field [Fld ''NSZE''] data) (\<lambda>sz.
     bindR (data_field [Fld ''NUSE''] data) (\<lambda>us.
     bindR (data_field [Fld ''FLBAS''] data) (\<lambda>f.
     bindR (data_field [Fld ''LBAF_TBL'', Idx f, Fld ''LBADS''] data) (\<lambda>ds.
     bindR (data_field [Fld ''LBAF_TBL'', Idx f, Fld ''MS''] data) (\<lambda>ms.
     if ds = 0 then Inl AssertionError
     else (case (id_ns_size (2 ^ ds) sz us, lba_ds_size (2 ^ ds)) of ((usage, whole, unit), (lsize, lunit)) \<Rightarrow>
       Inr \<lparr>ns_id = nsid, ns_data = data, nsze = sz, nuse = us, flbas = f, lba_ds = ds, ms_bytes = ms, lba_ds_bytes = 2 ^ ds,
         ns_usage = usage, ns_total = whole, ns_unit = unit, lba_size = lsize, lba_unit = lunit\<rparr>))))))"

definition list_set :: "'a list \<Rightarrow> nat \<Rightarrow> 'a \<Rightarrow> 'a list res" where
  "list_set xs i x = (if i < length xs then Inr (xs[i := x]) else Inl IndexError)"

text \<open>The identifiers that are not zero, and the loop over them.\<close>

definition listed_ids :: "byte list \<Rightarrow> nat list" where
  "listed_ids data = filter (\<lambda>x. x \<noteq> 0) (map (\<lambda>i. getf (32 * i, 32) data) [0..<1024])"

fun identify_each :: "('d, 'm) platform \<Rightarrow> nat list \<Rightarrow> ns_info option list \<Rightarrow> ('d, 'm, ns_info option list) host_op" where
  "identify_each pf [] nss = retS nss"
| "identify_each pf (nsid # ids) nss =
     bindS (identify_cmd pf IdentifyNamespace [(''NSID'', int nsid)]) (\<lambda>i.
     bindS (data_inS i) (\<lambda>data.
     bindS (liftS (ns_from_data nsid data)) (\<lambda>ns.
     bindS (liftS (list_set nss nsid (Some ns))) (identify_each pf ids))))"

definition identify_namespaces :: "('d, 'm) platform \<Rightarrow> ('d, 'm, byte list \<times> ns_info option list) host_op" where
  "identify_namespaces pf =
     bindS (identify_cmd pf IdentifyNamespaceList []) (\<lambda>i.
     bindS (data_inS i) (\<lambda>list_data'.
     bindS (identify_each pf (listed_ids list_data') (replicate 1024 None)) (\<lambda>nss.
     retS (list_data', nss))))"

record id_data =
  id_controller :: "byte list"
  id_namespace :: "byte list"
  id_namespaces :: "ns_info option list"
  id_uuid_list :: "byte list"

definition id_initialize :: "('d, 'm) platform \<Rightarrow> ('d, 'm, id_data) host_op" where
  "id_initialize pf =
     bindS (identify_controller pf) (\<lambda>c.
     bindS (identify_namespaces pf) (\<lambda>(l, nss).
     bindS (identify_uuid_list pf) (\<lambda>u.
     retS \<lparr>id_controller = c, id_namespace = l, id_namespaces = nss, id_uuid_list = u\<rparr>)))"

section \<open>How exact a size is\<close>

lemma half_even_le: "0 < d \<Longrightarrow> 2 * \<bar>int (half_even n d) * int d - int n\<bar> \<le> int d"
proof -
  assume d: "0 < d"
  have n: "int n = int (n div d) * int d + int (n mod d)" by (metis div_mult_mod_eq of_nat_add of_nat_mult)
  have "n mod d < d" using d by simp
  then show ?thesis unfolding half_even_def Let_def by (auto simp: n algebra_simps)
qed

lemma half_even_exact: "0 < d \<Longrightarrow> half_even (k * d) d = k"
  by (simp add: half_even_def)

lemma floorlog_bounds: "0 < n \<Longrightarrow> 2 ^ (floorlog 2 n - 1) \<le> n \<and> n < 2 ^ floorlog 2 n \<and> 0 < floorlog 2 n"
  using floorlog_bounds [of n 2] floorlog_eq_zero_iff [of 2 n] by auto

lemma floorlog_value: "2 ^ (w - 1) \<le> x \<Longrightarrow> x < 2 ^ w \<Longrightarrow> floorlog 2 x = w"
  by (intro antisym floorlog_leI floorlog_geI) auto

text \<open>The scaled numerator has 53 bits more than the scaled denominator, after the correction by one.\<close>

lemma scale_bounds:
  assumes "0 < n" "0 < d"
  shows "2 ^ 52 * denominator d (double_shift n d) \<le> numerator n (double_shift n d)"
proof -
  let ?a = "floorlog 2 n" and ?b = "floorlog 2 d"
  define k where "k = 53 + int ?b - int ?a"
  have n: "2 ^ (?a - 1) \<le> n" "0 < ?a" and d: "d < 2 ^ ?b" using floorlog_bounds assms(1,2) by blast+
  have "2 ^ 52 * denominator d k \<le> 2 ^ (52 + ?b + nat (- k))" using d by (simp add: denominator_def power_add)
  also have "52 + ?b + nat (- k) = (?a - 1) + nat k" using n(2) k_def by (cases "0 \<le> k") auto
  also have "2 ^ ((?a - 1) + nat k) \<le> numerator n k" using n(1) by (simp add: numerator_def power_add)
  finally have 1: "2 ^ 52 * denominator d k \<le> numerator n k" .
  have 2: "2 ^ 52 * denominator d (k - 1) \<le> numerator n (k - 1)" if "2 ^ 53 * denominator d k \<le> numerator n k"
  proof (cases "1 \<le> k")
    case True
    then have "nat k = Suc (nat (k - 1))" "nat (- k) = 0" "nat (- (k - 1)) = 0" by auto
    with that show ?thesis by (simp add: numerator_def denominator_def)
  next
    case False
    then have "nat (- (k - 1)) = Suc (nat (- k))" "nat k = 0" "nat (k - 1) = 0" by auto
    with that show ?thesis by (simp add: numerator_def denominator_def)
  qed
  show ?thesis unfolding double_shift_def Let_def k_def [symmetric] using 1 2 by (cases "numerator n k < 2 ^ 53 * denominator d k") auto
qed

lemma double_quotient_error:
  assumes "0 < d" "double_quotient n d = (p, q)"
  shows "0 < q" "2 ^ 53 * \<bar>int p * int d - int n * int q\<bar> \<le> int n * int q"
proof -
  let ?N = "numerator n (double_shift n d)" and ?D = "denominator d (double_shift n d)"
  have p: "p = half_even ?N ?D * 2 ^ nat (- double_shift n d)" and q: "q = 2 ^ nat (double_shift n d)"
    using assms(2) by (simp_all add: double_quotient_def Let_def)
  then show "0 < q" by simp
  show "2 ^ 53 * \<bar>int p * int d - int n * int q\<bar> \<le> int n * int q"
  proof (cases "n = 0")
    case True
    then show ?thesis by (simp add: p q half_even_def numerator_def denominator_def assms(1))
  next
    case False
    then have "2 ^ 52 * ?D \<le> ?N" using scale_bounds [OF _ assms(1)] by blast
    then have "2 ^ 52 * int ?D \<le> int ?N" by (metis of_nat_le_iff of_nat_mult of_nat_numeral of_nat_power)
    moreover have "2 * \<bar>int (half_even ?N ?D) * int ?D - int ?N\<bar> \<le> int ?D"
      by (rule half_even_le) (simp add: denominator_def assms(1))
    moreover have "int p * int d - int n * int q = int (half_even ?N ?D) * int ?D - int ?N" "int n * int q = int ?N"
      unfolding p q by (simp_all add: numerator_def denominator_def algebra_simps)
    moreover have "2 ^ 53 * x \<le> b" if "2 ^ 52 * c \<le> b" "2 * x \<le> c" for x b c :: int using that by simp
    ultimately show ?thesis by metis
  qed
qed

lemma round_hundredths_error:
  assumes "0 < d"
  shows "2 ^ 53 * \<bar>int (round_hundredths n d) * int d - 100 * int n\<bar> \<le> 2 ^ 52 * int d + 100 * int n"
proof -
  obtain p q where pq: "double_quotient n d = (p, q)" by fastforce
  note e = double_quotient_error [OF assms pq]
  let ?h = "int (half_even (100 * p) q)"
  have h: "2 * \<bar>?h * int q - 100 * int p\<bar> \<le> int q" using half_even_le [OF e(1), of "100 * p"] by simp
  have "int q * \<bar>?h * int d - 100 * int n\<bar> = \<bar>int q * (?h * int d - 100 * int n)\<bar>" by (simp add: abs_mult)
  also have "int q * (?h * int d - 100 * int n) = int d * (?h * int q - 100 * int p) + 100 * (int p * int d - int n * int q)"
    by (simp add: algebra_simps)
  also have "\<bar>int d * (?h * int q - 100 * int p) + 100 * (int p * int d - int n * int q)\<bar> \<le> int d * \<bar>?h * int q - 100 * int p\<bar> + 100 * \<bar>int p * int d - int n * int q\<bar>"
    by (rule order_trans [OF abs_triangle_ineq]) (simp only: abs_mult abs_of_nat abs_numeral order_refl)
  finally have "2 ^ 53 * (int q * \<bar>?h * int d - 100 * int n\<bar>) \<le>
      2 ^ 52 * (int d * (2 * \<bar>?h * int q - 100 * int p\<bar>)) + 100 * (2 ^ 53 * \<bar>int p * int d - int n * int q\<bar>)" by simp
  also have "\<dots> \<le> 2 ^ 52 * (int d * int q) + 100 * (int n * int q)"
    using mult_left_mono [OF h, of "int d"] e(2) by simp
  finally have "int q * (2 ^ 53 * \<bar>?h * int d - 100 * int n\<bar>) \<le> int q * (2 ^ 52 * int d + 100 * int n)"
    by (simp add: algebra_simps)
  then show ?thesis using e(1) by (simp add: round_hundredths_def pq)
qed

text \<open>
  Property C39. The sizes shown for a namespace: the unit is the one of the total, in powers of a thousand, and a size in hundredths of the
  unit is off by at most half a hundredth and the rounding of a double.
\<close>

theorem namespace_sizes:
  assumes "id_ns_size lba sz us = (usage, whole, unit)"
  shows "\<exists>u. size_unit (lba * sz) = (unit, u) \<and> 0 < u \<and> (unit \<noteq> ''B'' \<longrightarrow> u \<le> lba * sz) \<and> (unit \<noteq> ''TB'' \<longrightarrow> lba * sz < 1000 * u) \<and>
    2 ^ 53 * \<bar>int usage * int u - 100 * int (lba * us)\<bar> \<le> 2 ^ 52 * int u + 100 * int (lba * us) \<and>
    2 ^ 53 * \<bar>int whole * int u - 100 * int (lba * sz)\<bar> \<le> 2 ^ 52 * int u + 100 * int (lba * sz)"
proof -
  obtain u where u: "size_unit (lba * sz) = (unit, u)" "usage = round_hundredths (lba * us) u" "whole = round_hundredths (lba * sz) u"
    using assms by (auto simp: id_ns_size_def split: prod.splits)
  then have "0 < u" "unit \<noteq> ''B'' \<longrightarrow> u \<le> lba * sz" "unit \<noteq> ''TB'' \<longrightarrow> lba * sz < 1000 * u"
    by (auto simp: size_unit_def split: if_splits)
  then show ?thesis using u round_hundredths_error [of u "lba * us"] round_hundredths_error [of u "lba * sz"] by blast
qed

lemma namespace_sizes_witness:
  "\<exists>u. size_unit (512 * 2000000000) = (''TB'', u) \<and>
    2 ^ 53 * \<bar>102 * int u - 100 * (512 * 2000000000)\<bar> \<le> 2 ^ 52 * int u + 100 * (512 * 2000000000)"
proof -
  have fl: "floorlog 2 512000 = 19" "floorlog 2 1024000000000 = 40" "floorlog 2 1000000000000 = 40" by (auto intro!: floorlog_value)
  have "double_shift 512000 1000000000000 = 73" by (simp add: double_shift_def numerator_def denominator_def fl)
  then have "double_quotient 512000 1000000000000 = (half_even 4835703278458516698824704000 1000000000000 * 1, 9444732965739290427392)"
    by (simp add: double_quotient_def numerator_def denominator_def)
  also have "half_even 4835703278458516698824704000 1000000000000 = 4835703278458517" by (simp add: half_even_def)
  finally have a: "round_hundredths 512000 1000000000000 = 0" by (simp add: round_hundredths_def half_even_def)
  have "double_shift 1024000000000 1000000000000 = 52" by (simp add: double_shift_def numerator_def denominator_def fl)
  then have "double_quotient 1024000000000 1000000000000 = (half_even 4611686018427387904000000000 1000000000000 * 1, 4503599627370496)"
    by (simp add: double_quotient_def numerator_def denominator_def)
  also have "half_even 4611686018427387904000000000 1000000000000 = 4611686018427388" by (simp add: half_even_def)
  finally have b: "round_hundredths 1024000000000 1000000000000 = 102" by (simp add: round_hundredths_def half_even_def)
  have "id_ns_size 512 2000000000 1000 = (0, 102, ''TB'')" using a b by (simp add: id_ns_size_def size_unit_def)
  from namespace_sizes [OF this] show ?thesis by auto
qed

end
