(* ===== verification/Host_Sim.thy ===== *)
theory Host_Sim
  imports Nvsim_Service Host_Identify
begin

text \<open>
  The identify commands of the driver over the simulated controller: what \<open>NVMeDeviceIdentifyData\<close> holds is the identify data of
  the simulator.
\<close>

section \<open>One command\<close>

lemma make_command_result:
  assumes "new_command c kw = Inr bs"
  shows "make_command c kw s = (Inr (length (cmds s)),
    s\<lparr>cmds := cmds s @ [\<lparr>c_class = c, c_bytes = bs, c_sq = None, c_cq = None, c_posted = False, c_complete = False,
      c_cqe = zeros 16, c_data_in = map_option (\<lambda>t. zeros (csize t)) (cc_data_in c), c_prp = None\<rparr>]\<rparr>)"
  using assms by (simp add: make_command_def bindS_apply)

lemma new_prp_page:
  assumes "malloc m g 4096 dir = Inr (l, m', g')" "iova l \<noteq> 0" "msize l = 4096"
  obtains p where "new_prp malloc 4096 4096 dir m g = Inr (p, m', g')" "prp1 p = iova l" "prp2 p = 0"
    "\<And>m. get_data_buffer m p = Inr (read_bytes m (vaddr l) 4096)"
proof -
  obtain q where q: "prp_init 4096 4096 dir = Inr q" "pages_needed q = 1" "mem_list q = []" "mps q = 4096" "prp2 q = 0" "direction q = dir"
    by (simp add: prp_init_def ceil_div_def Let_def)
  let ?p = "q\<lparr>mem_list := [l], prp1_mem := Some l, prp1 := iova l\<rparr>"
  have "new_prp malloc 4096 4096 dir m g = Inr (?p, m', g')"
    using q assms(1) by (simp add: new_prp_def prp_alloc_def malloc_page_def)
  moreover have "prp_describes m ?p [l]" for m using q assms(2,3) by (simp add: prp_describes_def)
  note prp_describes_get [OF this]
  ultimately show ?thesis using that [of ?p] q by simp
qed

text \<open>The memory that a buffer gets: one page, apart from the queues.\<close>

definition gets_page :: "('d, 'm) platform \<Rightarrow> nat set \<Rightarrow> memory \<Rightarrow> 'm \<Rightarrow> mem_loc \<Rightarrow> memory \<Rightarrow> 'm \<Rightarrow> bool" where
  "gets_page pf A m g l m' g' \<longleftrightarrow> pf_malloc pf m g 4096 DEVICE_TO_HOST = Inr (l, m', g') \<and> iova l \<noteq> 0 \<and> iova l < 2 ^ 64 \<and>
     vaddr l = iova l \<and> msize l = 4096 \<and> only (region (vaddr l) 4096) m m' \<and> region (vaddr l) 4096 \<inter> A = {}"

lemma gets_pageD:
  assumes "gets_page pf A m g l m' g'"
  shows "pf_malloc pf m g 4096 DEVICE_TO_HOST = Inr (l, m', g')" "0 < iova l" "iova l < 2 ^ 64" "vaddr l = iova l" "msize l = 4096"
    "only (region (vaddr l) 4096) m m'" "region (vaddr l) 4096 \<inter> A = {}"
  using assms unfolding gets_page_def by blast+

lemma alloc_page_result:
  assumes g: "gets_page pf A (mem s) (mem_mgr s) l m' g'" and i: "i < length (cmds s)" "c = cmds s ! i"
    and c: "cc_name (c_class c) \<noteq> ''Write''" "cc_name (c_class c) \<noteq> ''Read''" "cc_data_in (c_class c) = Some t" "c_data_in c = Some d"
      "length d = 4096" and pf: "pf_page_size pf = 4096"
  obtains p where "alloc pf i None s = (Inr (), s\<lparr>mem := m', mem_mgr := g', cmds := (cmds s)[i :=
      c_bytes_update (setf SQE_PRP2 0 \<circ> setf SQE_PRP1 (iova l)) (c\<lparr>c_prp := Some p\<rparr>)]\<rparr>)"
    "\<And>m. get_data_buffer m p = Inr (read_bytes m (vaddr l) 4096)"
proof -
  obtain p where p: "new_prp (pf_malloc pf) 4096 4096 DEVICE_TO_HOST (mem s) (mem_mgr s) = Inr (p, m', g')" "prp1 p = iova l" "prp2 p = 0"
    "\<And>m. get_data_buffer m p = Inr (read_bytes m (vaddr l) 4096)"
    using new_prp_page [of "pf_malloc pf"] g unfolding gets_page_def by metis
  have "alloc pf i None s = (Inr (), s\<lparr>mem := m', mem_mgr := g', cmds := (cmds s)[i :=
      c_bytes_update (setf SQE_PRP2 0 \<circ> setf SQE_PRP1 (iova l)) (c\<lparr>c_prp := Some p\<rparr>)]\<rparr>)"
    using i c pf p(1-3)
    by (simp add: o_def alloc_def bindS_apply thenS_def commandS_apply buffer_size_def Let_def new_prpS_def update_command_def set_cmd_prp_def)
  with p(4) that show ?thesis by blast
qed

lemma identify_fields:
  "attr_kind (cc_layout Identify) ''CNS'' = IntField (320, 8)" "attr_kind (cc_layout Identify) ''NSID'' = IntField (32, 32)"
  by code_simp+

lemma identify_fields_kept [simp]:
  assumes "length bs = 64"
  shows "cmd_field Identify ''CNS'' (setf SQE_CID a (setf SQE_PRP2 b (setf SQE_PRP1 c bs))) = cmd_field Identify ''CNS'' bs"
    "cmd_field Identify ''NSID'' (setf SQE_CID a (setf SQE_PRP2 b (setf SQE_PRP1 c bs))) = cmd_field Identify ''NSID'' bs"
    "getf SQE_OPC (setf SQE_CID a (setf SQE_PRP2 b (setf SQE_PRP1 c bs))) = getf SQE_OPC bs"
    "getf SQE_PRP1 (setf SQE_CID a (setf SQE_PRP2 b (setf SQE_PRP1 c bs))) = c mod 2 ^ 64"
  unfolding cmd_field_def identify_fields attr_kind.case
  using assms by (simp_all add: getf_setf_apart SQE_pos_defs fits_def apart_def)


text \<open>
  An identify command over the simulator: it completes, with the status of the simulator; then its data is the data of the
  simulator, and driver and simulator are ready for the next command.
\<close>

lemma identify_cmd_served:
  fixes s :: "('c sim_config_scheme, 'm) host"
  assumes ready: "admin_ready sim_admin s hq k dq dc" and pf: "pf_posted_command pf = posted_command (Suc (Suc n))" "pf_page_size pf = 4096"
    and cfg: "config_mps (dev s) = 4096" "id_data_ok (dev s)"
    and new: "new_command c kw = Inr bs" "length bs = 64" "getf SQE_OPC bs = 6"
    and c: "cc_admin c" "cc_data_in c = Some t" "csize t = 4096" "cc_name c \<noteq> ''Write''" "cc_name c \<noteq> ''Read''"
    and page: "gets_page pf (link_area hq (host_cqs s ! k) dq dc) (mem s) (mem_mgr s) l m' g'"
    and ans: "identify_answer (dev s) (cmd_field Identify ''CNS'' bs) (cmd_field Identify ''NSID'' bs) = (sc, d)"
  obtains s1 s' data where "make_command c kw s = (Inr (length (cmds s)), s1)" 
    "thenS (alloc pf (length (cmds s)) None) (sync_cmd pf (length (cmds s)) None None 10 True) s1 = (sc_check status_codes c 0 sc True, s')"
    "data_inS (length (cmds s)) s' = (Inr data, s')" "\<And>x. d = Some x \<Longrightarrow> data = x" "dev s' = dev s"
    "admin_ready sim_admin s' hq k dq dc" "link_area hq (host_cqs s' ! k) dq dc = link_area hq (host_cqs s ! k) dq dc" "mem_mgr s' = g'"
proof -
  let ?i = "length (cmds s)" and ?A = "link_area hq (host_cqs s ! k) dq dc"
  define c0 where "c0 = \<lparr>c_class = c, c_bytes = bs, c_sq = None, c_cq = None, c_posted = False, c_complete = False,
      c_cqe = zeros 16, c_data_in = map_option (\<lambda>t. zeros (csize t)) (cc_data_in c), c_prp = None\<rparr>"
  define s1 where "s1 = s\<lparr>cmds := cmds s @ [c0]\<rparr>"
  have make: "make_command c kw s = (Inr ?i, s1)" using make_command_result [OF new(1)] by (simp add: s1_def c0_def)
  have s1: "mem s1 = mem s" "mem_mgr s1 = mem_mgr s" "?i < length (cmds s1)" "c0 = cmds s1 ! ?i" by (simp_all add: s1_def)
  have c0: "cc_name (c_class c0) \<noteq> ''Write''" "cc_name (c_class c0) \<noteq> ''Read''" "cc_data_in (c_class c0) = Some t"
    "c_data_in c0 = Some (zeros 4096)" "length (zeros 4096) = 4096" using c by (simp_all add: c0_def)
  obtain p where p: "alloc pf ?i None s1 = (Inr (), s1\<lparr>mem := m', mem_mgr := g', cmds := (cmds s1)[?i :=
      c_bytes_update (setf SQE_PRP2 0 \<circ> setf SQE_PRP1 (iova l)) (c0\<lparr>c_prp := Some p\<rparr>)]\<rparr>)" (is "_ = (_, ?s2)")
    "\<And>m. get_data_buffer m p = Inr (read_bytes m (vaddr l) 4096)"
    using alloc_page_result [OF page [folded s1(1,2)] s1(3,4) c0 pf(2)] by blast
  define s2 where "s2 = ?s2"
  define c2 where "c2 = c_bytes_update (setf SQE_PRP2 0 \<circ> setf SQE_PRP1 (iova l)) (c0\<lparr>c_prp := Some p\<rparr>)"
  have wf: "host_wf s2" 
  proof -
    have "host_wf s" using ready by (simp add: admin_ready_def)
    then have "unposted ?i s1" using make_command_unposted [OF _ make] by simp
    from keepsD [OF keeps_unposted_alloc this p(1)] show ?thesis by (simp add: unposted_def s2_def)
  qed
  have s2: "mem s2 = m'" "dev s2 = dev s" "host_cqs s2 = host_cqs s" "host_queue_mgr s2 = host_queue_mgr s" "outstanding s2 = outstanding s"
    "host_int_type s2 = host_int_type s" "mem_mgr s2 = g'" "cmds s2 ! ?i = c2" "?i < length (cmds s2)"
    by (simp_all add: s2_def s1_def c2_def)
  have o: "only (region (vaddr l) 4096) (mem s) m'" "region (vaddr l) 4096 \<inter> ?A = {}"
    by (rule gets_pageD [OF page])+
  have ready2: "admin_ready sim_admin s2 hq k dq dc"
    using ready wf link_write [OF _ o] unfolding admin_ready_def s2 by auto
  define b where "b = setf SQE_CID (cid_value (cid_mgr s2)) (c_bytes c2)"
  have l: "0 < iova l" "iova l < 2 ^ 64" "vaddr l = iova l" using page by (simp_all add: gets_page_def)
  have b: "cmd_field Identify ''CNS'' b = cmd_field Identify ''CNS'' bs" "cmd_field Identify ''NSID'' b = cmd_field Identify ''NSID'' bs"
    "getf SQE_OPC b = 6" "getf SQE_PRP1 b = iova l" using new(2,3) l(2) by (simp_all add: b_def c2_def c0_def)
  define ds where "ds = (case d of None \<Rightarrow> [] | Some x \<Rightarrow> [(iova l, x)])"
  have len: "d = Some x \<Longrightarrow> length x = 4096" for x using identify_answer_data [OF cfg(2)] ans by blast
  have a: "sim_answers (dev s2) b sc ds" using cfg ans b l(1) by (simp add: sim_answers_def s2 ds_def split: option.split)
  have apart: "region x (length y) \<inter> link_area hq (host_cqs s2 ! k) dq dc = {}" if "(x, y) \<in> set ds" for x y
    using that o(2) len l(3) by (auto simp: ds_def s2(3) split: option.splits)
  have cc: "\<not> c_posted (cmds s2 ! ?i)" "\<not> c_complete (cmds s2 ! ?i)" "cc_admin (c_class (cmds s2 ! ?i))" "length (c_bytes (cmds s2 ! ?i)) = 64"
    using c new(2) by (simp_all add: s2 c2_def c0_def)
  define dd where "dd = (\<lambda>m. Some (read_bytes m (vaddr l) 4096))"
  have d2: "data_for m (cmds s2 ! ?i) = Inr (dd m)" for m
    using c p(2) by (simp add: s2 c2_def c0_def data_for_def buffer_copy_def dd_def)
  obtain s' c' m where r: "sync_cmd pf ?i None None 10 True s2 = (sc_check status_codes (c_class c2) 0 sc True, s')"
    "cmds s' = (cmds s2)[?i := c']" "\<forall>(a, d) \<in> set ds. read_bytes m a (length d) = d" "c_data_in c' = dd m" "dev s' = dev s2"
    "admin_ready sim_admin s' hq k dq dc" "link_area hq (host_cqs s' ! k) dq dc = link_area hq (host_cqs s2 ! k) dq dc" "mem_mgr s' = mem_mgr s2"
    using nvsim.sync_cmd_served [OF ready2 pf(1) s2(9) refl cc b_def [folded s2(8)] a apart, of dd 10 True] d2 unfolding s2(8) by auto
  have "thenS (alloc pf ?i None) (sync_cmd pf ?i None None 10 True) s1 = (sc_check status_codes c 0 sc True, s')"
    using p(1) [folded s2_def] r(1) by (simp add: thenS_def bindS_apply c2_def c0_def)
  moreover have "data_inS ?i s' = (Inr (read_bytes m (vaddr l) 4096), s')"
    using r(2,4) s2(9) by (simp add: data_inS_def bindS_apply commandS_apply the_attr_def dd_def)
  moreover have "read_bytes m (vaddr l) 4096 = x" if "d = Some x" for x
    using r(3) len [OF that] that l(3) by (simp add: ds_def)
  ultimately show ?thesis using that make r(5-8) unfolding s2 by blast
qed

section \<open>All identify data\<close>

text \<open>A memory manager in a state \<open>good (Suc k)\<close> has a page for the next buffer, apart from the queues, and \<open>k\<close> more.\<close>

definition page_source :: "('d, 'm) platform \<Rightarrow> nat set \<Rightarrow> (nat \<Rightarrow> 'm \<Rightarrow> bool) \<Rightarrow> bool" where
  "page_source pf A good \<longleftrightarrow> (\<forall>k m g. good (Suc k) g \<longrightarrow> (\<exists>l m' g'. gets_page pf A m g l m' g' \<and> good k g'))"

text \<open>Driver and simulator between two identify commands, and what the commands leave of it.\<close>

definition identify_ready :: "('c sim_config_scheme, 'm) platform \<Rightarrow> (nat \<Rightarrow> 'm \<Rightarrow> bool) \<Rightarrow> nat \<Rightarrow> 'c sim_config_scheme \<Rightarrow> ('c sim_config_scheme, 'm) host \<Rightarrow> bool" where
  "identify_ready pf good pages c s \<longleftrightarrow> dev s = c \<and> config_mps c = 4096 \<and> id_data_ok c \<and> pf_page_size pf = 4096 \<and> good pages (mem_mgr s) \<and>
     (\<exists>n. pf_posted_command pf = posted_command (Suc (Suc n))) \<and>
     (\<exists>hq k dq dc. admin_ready sim_admin s hq k dq dc \<and> page_source pf (link_area hq (host_cqs s ! k) dq dc) good)"

definition identify_class :: "cmd_class \<Rightarrow> bool" where
  "identify_class c \<longleftrightarrow> cc_admin c \<and> (case cc_data_in c of None \<Rightarrow> False | Some t \<Rightarrow> csize t = 4096) \<and> cc_name c \<noteq> ''Write'' \<and> cc_name c \<noteq> ''Read''"

lemma identify_served:
  assumes "identify_ready pf good (Suc pages) c s" "identify_class cl" "new_command cl kw = Inr bs" "length bs = 64" "getf SQE_OPC bs = 6"
    and "identify_answer c (cmd_field Identify ''CNS'' bs) (cmd_field Identify ''NSID'' bs) = (sc, d)"
  obtains i s1 s' data where "make_command cl kw s = (Inr i, s1)" 
    "thenS (alloc pf i None) (sync_cmd pf i None None 10 True) s1 = (sc_check status_codes cl 0 sc True, s')"
    "data_inS i s' = (Inr data, s')" "\<And>x. d = Some x \<Longrightarrow> data = x" "identify_ready pf good pages c s'"
proof -
  obtain n hq k dq dc where r: "dev s = c" "config_mps c = 4096" "id_data_ok c" "pf_page_size pf = 4096" "good (Suc pages) (mem_mgr s)"
    "pf_posted_command pf = posted_command (Suc (Suc n))" "admin_ready sim_admin s hq k dq dc"
    "page_source pf (link_area hq (host_cqs s ! k) dq dc) good" using assms(1) by (auto simp: identify_ready_def)
  obtain t where t: "cc_admin cl" "cc_data_in cl = Some t" "csize t = 4096" "cc_name cl \<noteq> ''Write''" "cc_name cl \<noteq> ''Read''"
    using assms(2) by (auto simp: identify_class_def split: option.splits)
  obtain l m' g' where g: "gets_page pf (link_area hq (host_cqs s ! k) dq dc) (mem s) (mem_mgr s) l m' g'" "good pages g'"
    using r(5,8) unfolding page_source_def by blast
  note c = r(2,3) [folded r(1)]
  from identify_cmd_served [OF r(7,6,4) c assms(3-5) t g(1) assms(6) [folded r(1)]]
  obtain s1 s' data where s': "make_command cl kw s = (Inr (length (cmds s)), s1)" 
    "thenS (alloc pf (length (cmds s)) None) (sync_cmd pf (length (cmds s)) None None 10 True) s1 = (sc_check status_codes cl 0 sc True, s')"
    "data_inS (length (cmds s)) s' = (Inr data, s')" "\<And>x. d = Some x \<Longrightarrow> data = x" "dev s' = dev s"
    "admin_ready sim_admin s' hq k dq dc" "link_area hq (host_cqs s' ! k) dq dc = link_area hq (host_cqs s ! k) dq dc" "mem_mgr s' = g'"
    by blast
  have "identify_ready pf good pages c s'"
    using r(1-4,6,8) s'(5-8) g(2) unfolding identify_ready_def by metis
  with s'(1-4) that show ?thesis by blast
qed

lemma thenS_assoc: "thenS f (thenS g h) = thenS (thenS f g) h"
  by (rule ext) (simp add: thenS_def bindS_apply split: prod.split sum.split)

lemma identify_cmd_data:
  assumes "identify_ready pf good (Suc pages) c s" "identify_class cl" "new_command cl kw = Inr bs" "length bs = 64" "getf SQE_OPC bs = 6"
    and "identify_answer c (cmd_field Identify ''CNS'' bs) (cmd_field Identify ''NSID'' bs) = (0, Some x)"
  obtains i s' where "identify_cmd pf cl kw s = (Inr i, s')" "data_inS i s' = (Inr x, s')" "identify_ready pf good pages c s'"
proof -
  have ok: "sc_check status_codes cl 0 0 True = Inr ()" by (simp add: sc_check_def)
  show thesis
  proof (rule identify_served [OF assms])
    fix i s1 s' data
    assume s: "make_command cl kw s = (Inr i, s1)"
      "thenS (alloc pf i None) (sync_cmd pf i None None 10 True) s1 = (sc_check status_codes cl 0 0 True, s')"
      "data_inS i s' = (Inr data, s')" "identify_ready pf good pages c s'" and d: "\<And>y. Some x = Some y \<Longrightarrow> data = y"
    have "thenS (thenS (alloc pf i None) (sync_cmd pf i None None 10 True)) (retS i) s1 = (Inr i, s')"
      using s(2) ok by (simp add: thenS_def [of "thenS _ _"] bindS_apply)
    with s(1) have "identify_cmd pf cl kw s = (Inr i, s')" by (simp add: identify_cmd_def thenS_assoc bindS_apply)
    moreover have "data_inS i s' = (Inr x, s')" using s(3) d [OF refl] by simp
    ultimately show thesis using s(4) by (rule that)
  qed
qed

section \<open>The commands of the identify data\<close>

lemma identify_classes:
  "identify_class IdentifyController" "identify_class IdentifyNamespaceList" "identify_class IdentifyUUIDList" "identify_class IdentifyNamespace"
  by (simp_all add: identify_class_def IdentifyController_def IdentifyNamespaceList_def IdentifyUUIDList_def IdentifyNamespace_def)

lemma identify_new:
  assumes "cl \<in> {IdentifyController, IdentifyNamespaceList, IdentifyUUIDList, IdentifyNamespace}" "kw = [] \<or> kw = [(''NSID'', int nsid)]"
  obtains bs where "new_command cl kw = Inr bs" "length bs = 64" "getf SQE_OPC bs = 6"
    "cmd_field Identify ''CNS'' bs = (case last_match ''CNS'' (cc_defaults cl) of None \<Rightarrow> 0 | Some v \<Rightarrow> nat v)"
    "cmd_field Identify ''NSID'' bs = (if kw = [] then 0 else nsid mod 2 ^ 32)"
proof -
  have cl: "cl \<in> set all_commands" "cc_layout cl = cc_layout Identify" using assms(1) by (auto simp: all_commands_def)
  have f: "attr_kind (cc_layout Identify) ''OPC'' = IntField SQE_OPC" by code_simp
  have "list_all (\<lambda>(m, v). attr_kind (cc_layout cl) m \<noteq> OtherField) kw" using assms(2) identify_fields by (auto simp: cl(2))
  with cl(1) all_headers all_defaults have *: "header_ok (cc_layout cl)" "defaults_ok cl" "list_all (\<lambda>(m, v). attr_kind (cc_layout cl) m \<noteq> OtherField) kw"
    by (auto simp: list_all_iff)
  from new_command_class [OF this] obtain bs where bs: "new_command cl kw = Inr bs" "length bs = 64"
    and v: "\<And>n f. attr_kind (cc_layout Identify) n = IntField f \<Longrightarrow>
      getf f bs = (case last_match n (cc_defaults cl @ kw) of None \<Rightarrow> 0 | Some v \<Rightarrow> nat (v mod 2 ^ snd f))" unfolding cl(2) by blast
  show thesis
    using that [OF bs] v [OF f] v [OF identify_fields(1)] v [OF identify_fields(2)] assms
    unfolding cmd_field_def identify_fields attr_kind.case
    by (auto simp: last_match_def nat_mod_distrib)
qed

text \<open>The table of namespaces that the data of the simulator stands for.\<close>

fun expected_namespaces :: "'c sim_config_scheme \<Rightarrow> nat list \<Rightarrow> ns_info option list \<Rightarrow> ns_info option list res" where
  "expected_namespaces c [] nss = Inr nss"
| "expected_namespaces c (nsid # ids) nss =
     bindR (ns_from_data nsid (case id_ns_data c ! nsid of None \<Rightarrow> [] | Some d \<Rightarrow> d)) (\<lambda>ns.
     bindR (list_set nss nsid (Some ns)) (expected_namespaces c ids))"

definition expected_id_data :: "'c sim_config_scheme \<Rightarrow> id_data res" where
  "expected_id_data c =
     bindR (expected_namespaces c (listed_ids (id_ns_list_data c)) (replicate 1024 None)) (\<lambda>nss.
       Inr \<lparr>id_controller = id_ctrl_data c, id_namespace = id_ns_list_data c, id_namespaces = nss, id_uuid_list = id_uuid_list_data c\<rparr>)"

lemma identify_each_served:
  assumes "identify_ready pf good (pages + length ids) c s" "list_all (\<lambda>i. 0 < i \<and> i < length (namespaces c)) ids" "length (namespaces c) \<le> 2 ^ 32"
  shows "\<exists>s'. identify_each pf ids nss s = (expected_namespaces c ids nss, s') \<and>
    (\<exists>j. identify_ready pf good j c s' \<and> (\<forall>r. expected_namespaces c ids nss = Inr r \<longrightarrow> j = pages))"
  using assms(1,2)
proof (induction ids arbitrary: nss s)
  case Nil
  then show ?case by auto
next
  case (Cons nsid ids)
  obtain bs where bs: "new_command IdentifyNamespace [(''NSID'', int nsid)] = Inr bs" "length bs = 64" "getf SQE_OPC bs = 6"
    "cmd_field Identify ''CNS'' bs = 0" "cmd_field Identify ''NSID'' bs = nsid mod 2 ^ 32"
    by (rule identify_new [of IdentifyNamespace "[(''NSID'', int nsid)]" nsid]) (auto simp: last_match_def)
  have ready: "identify_ready pf good (Suc (pages + length ids)) c s" using Cons.prems(1) by simp
  have i: "0 < nsid" "nsid < length (namespaces c)" using Cons.prems(2) by simp_all
  then obtain d where d: "id_ns_data c ! nsid = Some d"
    using Cons.prems(1) by (auto simp: identify_ready_def id_data_ok_def)
  have "identify_answer c (cmd_field Identify ''CNS'' bs) (cmd_field Identify ''NSID'' bs) = (0, Some d)"
    using bs(4,5) i assms(3) d by (simp add: identify_answer_def)
  from identify_cmd_data [OF ready identify_classes(4) bs(1-3) this]
  obtain j s' where s': "identify_cmd pf IdentifyNamespace [(''NSID'', int nsid)] s = (Inr j, s')" "data_inS j s' = (Inr d, s')"
    "identify_ready pf good (pages + length ids) c s'" by blast
  have ids: "list_all (\<lambda>i. 0 < i \<and> i < length (namespaces c)) ids" using Cons.prems(2) by simp
  show ?case
  proof (cases "bindR (ns_from_data nsid d) (\<lambda>ns. list_set nss nsid (Some ns))")
    case (Inl e)
    then show ?thesis using s' d by (intro exI [of _ s']) (auto simp: bindS_apply bindR_def split: sum.splits)
  next
    case (Inr nss')
    with Cons.IH [OF s'(3) ids, of nss'] show ?thesis using s' d by (auto simp: bindS_apply bindR_def split: sum.splits)
  qed
qed

lemma identify_list_data:
  assumes "identify_ready pf good (Suc pages) c s" "(cl, cns :: nat, x) \<in> {(IdentifyController, 1, id_ctrl_data c), (IdentifyNamespaceList, 2, id_ns_list_data c),
      (IdentifyUUIDList, 0x17, id_uuid_list_data c)}"
  obtains i s' where "identify_cmd pf cl [] s = (Inr i, s')" "data_inS i s' = (Inr x, s')" "identify_ready pf good pages c s'"
proof -
  obtain bs where bs: "new_command cl [] = Inr bs" "length bs = 64" "getf SQE_OPC bs = 6" "cmd_field Identify ''CNS'' bs = cns"
    "cmd_field Identify ''NSID'' bs = 0"
    by (rule identify_new [of cl "[]" 0]) (use assms(2) in \<open>auto simp: last_match_def\<close>)
  have "identify_answer c (cmd_field Identify ''CNS'' bs) (cmd_field Identify ''NSID'' bs) = (0, Some x)"
    using assms(2) bs(4) by (auto simp: identify_answer_def)
  moreover have "identify_class cl" using assms(2) identify_classes by auto
  ultimately show ?thesis using identify_cmd_data [OF assms(1) _ bs(1-3)] that by blast
qed

text \<open>A failing command would be ignored; this one does not fail.\<close>

lemma identify_uuid_of_cmd:
  assumes "identify_cmd pf IdentifyUUIDList [] s = (Inr i, s')"
  shows "identify_uuid_list pf s = data_inS i s'"
proof -
  obtain j s1 where 1: "make_command IdentifyUUIDList [] s = (Inr j, s1)"
    using assms by (cases "make_command IdentifyUUIDList [] s"; cases "fst (make_command IdentifyUUIDList [] s)") (auto simp: identify_cmd_def bindS_apply)
  obtain r s2 where 2: "alloc pf j None s1 = (r, s2)" by fastforce
  with assms 1 obtain u where u: "r = Inr u" by (cases r) (auto simp: identify_cmd_def bindS_apply thenS_def)
  obtain r' s3 where 3: "sync_cmd pf j None None 10 True s2 = (r', s3)" by fastforce
  with assms 1 2 u have "r' = Inr ()" "i = j" "s3 = s'" by (cases r'; auto simp: identify_cmd_def bindS_apply thenS_def)+
  with 1 2 3 u show ?thesis by (simp add: identify_uuid_list_def bindS_apply thenS_def ignore_status_def)
qed

text \<open>
  What the driver learns about the simulated controller is exactly what the simulator holds: with a memory manager that has a page for
  every buffer, the identify commands complete one after the other, and the object they fill has the controller data,
  the namespace list, the UUID list, and for every listed namespace the entry made from its data; if
  that data makes an entry impossible, the error of that entry.
\<close>

lemma identify_from_simulator:
  assumes "identify_ready pf good (length (listed_ids (id_ns_list_data c)) + 3) c s"
    and "list_all (\<lambda>i. 0 < i \<and> i < length (namespaces c)) (listed_ids (id_ns_list_data c))"
    and "length (namespaces c) \<le> 2 ^ 32"
  shows "\<exists>s'. id_initialize pf s = (expected_id_data c, s') \<and> (\<exists>j. identify_ready pf good j c s')"
proof -
  let ?n = "length (listed_ids (id_ns_list_data c))"
  have 0: "identify_ready pf good (Suc (Suc (1 + ?n))) c s" using assms(1) by (simp add: numeral_3_eq_3)
  obtain i1 s1 where 1: "identify_cmd pf IdentifyController [] s = (Inr i1, s1)" "data_inS i1 s1 = (Inr (id_ctrl_data c), s1)"
    "identify_ready pf good (Suc (1 + ?n)) c s1" using identify_list_data [OF 0, of IdentifyController] by blast
  obtain i2 s2 where 2: "identify_cmd pf IdentifyNamespaceList [] s1 = (Inr i2, s2)" "data_inS i2 s2 = (Inr (id_ns_list_data c), s2)"
    "identify_ready pf good (1 + ?n) c s2" using identify_list_data [OF 1(3), of IdentifyNamespaceList] by blast
  let ?ns = "expected_namespaces c (listed_ids (id_ns_list_data c)) (replicate 1024 None)"
  obtain s3 where 3: "identify_each pf (listed_ids (id_ns_list_data c)) (replicate 1024 None) s2 = (?ns, s3)"
    "\<exists>j. identify_ready pf good j c s3 \<and> (\<forall>r. ?ns = Inr r \<longrightarrow> j = 1)" using identify_each_served [OF 2(3) assms(2,3)] by blast
  note run = id_initialize_def identify_controller_def identify_namespaces_def bindS_apply 1 2 3(1)
  show ?thesis
  proof (cases ?ns)
    case (Inl e)
    then show ?thesis using 3(2) by (intro exI [of _ s3]) (simp add: run expected_id_data_def)
  next
    case (Inr nss)
    then have ready: "identify_ready pf good (Suc 0) c s3" using 3(2) by auto
    obtain i4 s4 where 4: "identify_cmd pf IdentifyUUIDList [] s3 = (Inr i4, s4)" "data_inS i4 s4 = (Inr (id_uuid_list_data c), s4)"
      "identify_ready pf good 0 c s4" using identify_list_data [OF ready, of IdentifyUUIDList] by blast
    with Inr show ?thesis using identify_uuid_of_cmd [OF 4(1)] 4(2,3)
      by (intro exI [of _ s4]) (auto simp: run expected_id_data_def)
  qed
qed

section \<open>The configuration of the simulator\<close>

lemma sim_shared_fields:
  "getf (128, 64) (sim_id_ns_data ns) = 0" "getf (1056, 16) (sim_id_ns_data ns) = 0" "getf (1024, 16) (sim_id_ns_data ns) = 0"
  by (simp_all add: sim_id_ns_data_def set_at_def ns_positions getf_setf_apart fits_def apart_def)

lemma round_hundredths_0: "0 < d \<Longrightarrow> round_hundredths 0 d = 0"
  using double_quotient_error [of d 0] half_even_exact [of _ 0]
  by (auto simp: round_hundredths_def double_quotient_def numerator_def half_even_def Let_def denominator_def)

lemma round_sim_sizes: "round_hundredths 512110190592 1000000000 = 51211" "round_hundredths 960197124096 1000000000 = 96020"
proof -
  have fl: "floorlog 2 512110190592 = 39" "floorlog 2 960197124096 = 40" "floorlog 2 1000000000 = 30" by (auto intro!: floorlog_value)
  have "double_shift 512110190592 1000000000 = 43" "double_shift 960197124096 1000000000 = 43"
    by (simp_all add: double_shift_def numerator_def denominator_def fl)
  then have q: "double_quotient 512110190592 1000000000 = (half_even 4504568874067900168667136 1000000000 * 1, 8796093022208)"
    "double_quotient 960197124096 1000000000 = (half_even 8445983223205014659923968 1000000000 * 1, 8796093022208)"
    by (simp_all add: double_quotient_def numerator_def denominator_def)
  have "half_even 4504568874067900168667136 1000000000 = 4504568874067900" "half_even 8445983223205014659923968 1000000000 = 8445983223205015"
    by (simp_all add: half_even_def)
  with q show "round_hundredths 512110190592 1000000000 = 51211" "round_hundredths 960197124096 1000000000 = 96020"
    by (simp_all add: round_hundredths_def half_even_def)
qed

definition sim_ns_info :: "nat \<Rightarrow> nat \<Rightarrow> nat \<Rightarrow> ns_info" where
  "sim_ns_info nsid num_gbs shown =
     \<lparr>ns_id = nsid, ns_data = sim_id_ns_data (blank_namespace num_gbs), nsze = ns_num_lbas (blank_namespace num_gbs), nuse = 0, flbas = 1,
       lba_ds = 12, ms_bytes = 0, lba_ds_bytes = 4096, ns_usage = 0, ns_total = shown, ns_unit = ''GB'', lba_size = 4, lba_unit = ''KiB''\<rparr>"

lemma sim_ns_from_data:
  "ns_from_data i (sim_id_ns_data (blank_namespace 512)) = Inr (sim_ns_info i 512 51211)"
  "ns_from_data i (sim_id_ns_data (blank_namespace 960)) = Inr (sim_ns_info i 960 96020)"
proof -
  have n: "ns_num_lbas (blank_namespace 512) = 125026902" "ns_num_lbas (blank_namespace 960) = 234423126" "ns_block_size (blank_namespace k) = 4096" for k
    by (simp_all add: blank_namespace_def idema_size_4096_def)
  show "ns_from_data i (sim_id_ns_data (blank_namespace 512)) = Inr (sim_ns_info i 512 51211)"
    by (simp add: ns_from_data_def data_field_def get_at_def ns_positions id_ns_fields sim_shared_fields n id_ns_size_def size_unit_def
        lba_ds_size_def round_sim_sizes round_hundredths_0 sim_ns_info_def)
  show "ns_from_data i (sim_id_ns_data (blank_namespace 960)) = Inr (sim_ns_info i 960 96020)"
    by (simp add: ns_from_data_def data_field_def get_at_def ns_positions id_ns_fields sim_shared_fields n id_ns_size_def size_unit_def
        lba_ds_size_def round_sim_sizes round_hundredths_0 sim_ns_info_def)
qed

lemma sim_listed: "listed_ids (sim_id_ns_list_data 2) = [1, 2]"
proof -
  let ?f = "\<lambda>i. if i < 2 then i + 1 else (0 :: nat)"
  have m: "map (\<lambda>i. getf (32 * i, 32) (sim_id_ns_list_data 2)) [0..<1024] = map ?f [0..<1024]"
    by (rule map_cong [OF refl]) (rule id_ns_list_fields, subst (asm) set_upt, simp only: atLeastLessThan_iff)
  have none: "filter (\<lambda>x. x \<noteq> 0) (map ?f [2..<n]) = []" for n by (auto simp: filter_empty_conv)
  have "[0..<1024] = [0..<2] @ [2..<2 + 1022 :: nat]" using upt_add_eq_append [of 0 2 1022] by simp
  then have "filter (\<lambda>x. x \<noteq> 0) (map ?f [0..<1024]) = filter (\<lambda>x. x \<noteq> 0) (map ?f [0..<2]) @ filter (\<lambda>x. x \<noteq> 0) (map ?f [2..<2 + 1022])"
    by (simp only: map_append filter_append)
  also have "\<dots> = filter (\<lambda>x. x \<noteq> 0) (map ?f [0..<2])" unfolding none by (rule append_Nil2)
  finally show ?thesis unfolding listed_ids_def m by (simp add: numeral_2_eq_2)
qed

end
