(* ===== verification/Host_Bringup.thy ===== *)
theory Host_Bringup
  imports Host_Sim Nvsim_Thread
begin

text \<open>
  Bringing the simulated controller up: \<open>init_admin_queues\<close> and \<open>cc_enable\<close> of the driver, with the simulator's thread looking at the
  registers while the driver sleeps, leave the two ends of the admin queues linked, so that commands are served from then on.
\<close>

section \<open>Fresh queues\<close>

definition apart_regions :: "(nat \<times> nat) list \<Rightarrow> bool" where
  "apart_regions rs \<longleftrightarrow> sorted_wrt (\<lambda>(a, n) (b, k). separate a n b k) rs"

lemma completion_phase_byte: "getf CQE_P (read_bytes m a 16) = unat (m (a + 14)) mod 2"
proof -
  have "getf CQE_P (read_bytes m a 16) = getf (8 * 14 + 0, 1) (read_bytes m a 16)" by (simp add: CQE_pos_defs)
  also have "\<dots> = getf (0, 1) (take 1 (drop 14 (read_bytes m a 16)))" by (rule getf_within) simp
  also have "take 1 (drop 14 (read_bytes m a 16)) = [m (a + 14)]" by (rule nth_equalityI) simp_all
  finally show ?thesis by (simp add: getf_def get_bits_def)
qed

lemma separate_part: "separate a n b k \<Longrightarrow> b \<le> c \<Longrightarrow> c + j \<le> b + k \<Longrightarrow> separate a n c j"
  by (auto simp: separate_def)

lemma region_apart: "separate x i y j \<Longrightarrow> region x i \<inter> region y j = {}"
  by (auto simp: region_def separate_def disjoint_iff)

lemma link_fresh:
  assumes hq: "base_address hq = a" "entries hq = n" "entry_size hq = 64" "qid hq = q" "head hq = \<lparr>ht_entries = n, ht_address = h1\<rparr>"
      "tail hq = \<lparr>ht_entries = n, ht_address = db\<rparr>"
    and dq: "base_address dq = a" "entries dq = n" "entry_size dq = 64" "qid dq = q" "head dq = \<lparr>ht_entries = n, ht_address = d1\<rparr>"
      "tail dq = \<lparr>ht_entries = n, ht_address = db\<rparr>"
    and hc: "base_address hc = b" "entries hc = k" "entry_size hc = 16" "qid hc = q" "head hc = \<lparr>ht_entries = k, ht_address = db + 4\<rparr>" "phase hc = 1"
    and dc: "base_address dc = b" "entries dc = k" "entry_size dc = 16" "head dc = \<lparr>ht_entries = k, ht_address = db + 4\<rparr>"
      "tail dc = \<lparr>ht_entries = k, ht_address = d2\<rparr>"
    and apart: "apart_regions [(a, 64 * n), (b, 16 * k), (db, 8), (h1, 4), (d1, 4), (d2, 4)]"
    and zero: "read32 m db = 0" "read32 m (db + 4) = 0" "read32 m h1 = 0" "read32 m d1 = 0" "read32 m d2 = 0"
    and phases: "\<And>i. i < k \<Longrightarrow> slot_phase m hc i = 0" and len: "1 < n" "n \<le> 2 ^ 16" "1 < k" "k \<le> 2 ^ 32"
  shows "queue_link m hq hc dq dc [] []" "acknowledged m hq dq"
proof -
  have s: "separate a (64 * n) b (16 * k)" "separate a (64 * n) db 8" "separate a (64 * n) h1 4" "separate a (64 * n) d1 4" "separate a (64 * n) d2 4"
    "separate b (16 * k) db 8" "separate b (16 * k) h1 4" "separate b (16 * k) d1 4" "separate b (16 * k) d2 4"
    "separate db 8 h1 4" "separate db 8 d1 4" "separate db 8 d2 4" "separate h1 4 d1 4" "separate h1 4 d2 4" "separate d1 4 d2 4"
    using apart by (simp_all add: apart_regions_def)
  have db: "separate a (64 * n) db 4" "separate h1 4 db 4" "separate d1 4 db 4"
    using separate_part [OF s(2), of db 4] separate_part [of h1 4 db 8 db 4] separate_part [of d1 4 db 8 db 4] s(10,11) by (simp_all add: separate_sym)
  have sq: "sq_linked hq dq"
    using s(3,4,13) db by (simp add: sq_linked_def outside_def hq dq mult.commute separate_sym)
  have dh: "separate b (16 * k) (db + 4) 4" "separate d2 4 (db + 4) 4"
    using separate_part [OF s(6), of "db + 4" 4] separate_part [of d2 4 db 8 "db + 4" 4] s(12) by (simp_all add: separate_sym)
  have cq: "cq_linked hc dc" using s(9) dh len(4) by (simp add: cq_linked_def outside_def hc dc mult.commute separate_sym)
  have "sq_inv (m, hq, dq)" "sq_contents (m, hq, dq) = []" "acknowledged m hq dq"
    using sq zero len by (simp_all add: sq_inv_def queue_ok_def hq dq ht_value_def ring_dist_def sq_contents_def acknowledged_def)
  moreover have "cq_inv (m, hc, dc)" "cq_contents (m, hc, dc) = []"
    using cq zero len phases by (simp_all add: cq_inv_def hc dc ht_value_def expected_phase_def cq_contents_def)
  moreover have "sq_area hq dq \<inter> cq_area hc dc = {}"
  proof -
    have "separate a (64 * n) (db + 4) 4" "separate db 4 b (16 * k)" "separate db 4 (db + 4) 4" "separate db 4 d2 4" "separate h1 4 b (16 * k)"
      "separate h1 4 (db + 4) 4" "separate d1 4 b (16 * k)" "separate d1 4 (db + 4) 4"
      using separate_part [OF s(2), of "db + 4" 4] separate_part [OF s(6), of db 4] separate_part [of d2 4 db 8 db 4] s(7,8,10-12)
        separate_part [of h1 4 db 8 "db + 4" 4] separate_part [of d1 4 db 8 "db + 4" 4]
      by (simp_all add: separate_sym) (simp_all add: separate_def)
    note r = s(1,5,14,15) this
    show ?thesis by (simp add: sq_area_def cq_area_def hq dq hc dc Int_Un_distrib Int_Un_distrib2 r [THEN region_apart])
  qed
  ultimately show "queue_link m hq hc dq dc [] []" "acknowledged m hq dq"
    using len by (simp_all add: queue_link_def hq dq hc)
qed

section \<open>The thread of the simulator\<close>

text \<open>What the thread does while the driver sleeps: it looks at the NVMe registers once and handles the change.\<close>

definition nvme_turn :: "nat \<Rightarrow> ('a, 'b) device \<Rightarrow> ('a, 'b) device" where
  "nvme_turn fuel s = (if nvme_event s then (snd (nvsim_nvme_regs_changed fuel s))\<lparr>nvme_event := False\<rparr> else s)"

lemma nvme_turn_steps:
  assumes "pc t = CheckNvme" "nvme_event (shared_state t) \<Longrightarrow> fst (nvsim_nvme_regs_changed fuel (shared_state t)) = Inr ()"
  shows "(thread_step fuel)\<^sup>*\<^sup>* t (t\<lparr>pc := CheckStop, shared_state := nvme_turn fuel (shared_state t)\<rparr>)"
proof (cases "nvme_event (shared_state t)")
  case True
  then obtain s' where s': "nvsim_nvme_regs_changed fuel (shared_state t) = (Inr (), s')" using assms(2) by (metis prod.collapse)
  let ?t1 = "t\<lparr>pc := ClearNvme, shared_state := s'\<rparr>"
  have "thread_step fuel t ?t1" by (rule thread_step.nvme_changed [OF assms(1) True s'])
  moreover have "thread_step fuel ?t1 (?t1\<lparr>pc := CheckStop, shared_state := (shared_state ?t1)\<lparr>nvme_event := False\<rparr>\<rparr>)"
    by (rule thread_step.nvme_clear) simp
  ultimately show ?thesis using True s' by (auto simp: nvme_turn_def intro: rtranclp.rtrancl_into_rtrancl [OF r_into_rtranclp])
next
  case False
  then have "thread_step fuel t (t\<lparr>pc := CheckStop\<rparr>)" by (intro thread_step.nvme_quiet assms(1))
  then show ?thesis using False by (simp add: nvme_turn_def)
qed

lemma nvme_turn_enables:
  assumes "old_CC_EN (dev s) = 0" "CC_EN (regs s) = 1" "sim_queue_mgr (dev s) = new_queue_mgr" "nvme_event s" "0 < fuel"
    and "sq_get_command (enabled_memory s) (sim_asq s) = (None, enabled_memory s)"
  shows "nvme_turn fuel s = s\<lparr>mem := enabled_memory s, cells := cells s @ [new_cell s (cells s), new_cell s (cells s @ [new_cell s (cells s)])],
      dev := (dev s)\<lparr>sim_queue_mgr := qm_add 0 (sim_asq s) 0 (sim_acq s) new_queue_mgr, old_CC_EN := 1\<rparr>, regs := (regs s)\<lparr>CSTS_RDY := 1\<rparr>,
      nvme_event := False\<rparr>"
proof -
  let ?s1 = "s\<lparr>mem := enabled_memory s, cells := cells s @ [new_cell s (cells s), new_cell s (cells s @ [new_cell s (cells s)])],
      dev := (dev s)\<lparr>sim_queue_mgr := qm_add 0 (sim_asq s) 0 (sim_acq s) new_queue_mgr\<rparr>, regs := (regs s)\<lparr>CSTS_RDY := 1\<rparr>, nvme_event := True\<rparr>"
  have "nvme_queues (sim_queue_mgr (dev ?s1)) = [((0, 0), (Some (sim_asq s), Some (sim_acq s)))]" by (simp add: qm_add_def new_queue_mgr_def Let_def)
  then have "check_commands fuel ?s1 = (Inr (), ?s1)"
    by (rule check_commands_idle) (use assms(5,6) in \<open>simp_all add: sim_asq_def\<close>)
  then show ?thesis
    using assms(1-4) enable_state [OF assms(3)]
    by (simp add: nvme_turn_def nvsim_nvme_regs_changed_def thenS_def bindS_apply)
qed

section \<open>The memory of the queues after enabling\<close>

lemma only_checked: "0 < n \<Longrightarrow> only (region a n) m (checked_memory m a n)"
  by (auto simp: checked_memory_def only_def region_def write_bytes_def)

lemma read32_only: "only A m m' \<Longrightarrow> region a 4 \<inter> A = {} \<Longrightarrow> read32 m' a = read32 m a"
  by (simp add: read32_def only_read)

lemma le_nat_zeros [simp]: "le_nat (zeros n) = 0"
  by (induction n) (simp_all add: zeros_def)

lemma read32_zeros:
  assumes "read_bytes m a n = zeros n" "a \<le> b" "b + 4 \<le> a + n"
  shows "read32 m b = 0"
proof -
  have "m (a + i) = 0" if "i < n" for i
    using arg_cong [OF assms(1), of "\<lambda>xs. xs ! i"] that by (simp add: zeros_def)
  from this [of "b - a + _"] have "read_bytes m b 4 = zeros 4"
    using assms(2,3) by (intro nth_equalityI) (auto simp: zeros_def)
  then show ?thesis by (simp add: read32_def)
qed

lemma enabled_memory_fresh:
  fixes d :: "('a, 'b) device"
  assumes d: "unat (ASQ_ASQB (regs d)) = a" "unat (AQA_ASQS (regs d)) + 1 = n" "unat (ACQ_ACQB (regs d)) = b" "unat (AQA_ACQS (regs d)) + 1 = k"
    and apart: "apart_regions [(a, 64 * n), (b, 16 * k), (db, 8), (h1, 4), (h2, 4), (new_cell d (cells d), 4), (new_cell d (cells d @ [new_cell d (cells d)]), 4)]"
    and m: "mem d = write32 (write32 m0 h1 0) h2 0" "read_bytes m0 b (16 * k) = zeros (16 * k)" "read32 m0 db = 0" "read32 m0 (db + 4) = 0"
    and len: "0 < n" "0 < k"
  shows "read32 (enabled_memory d) db = 0" "read32 (enabled_memory d) (db + 4) = 0" "read32 (enabled_memory d) h1 = 0"
    "read32 (enabled_memory d) (new_cell d (cells d)) = 0" "read32 (enabled_memory d) (new_cell d (cells d @ [new_cell d (cells d)])) = 0"
    "i < k \<Longrightarrow> getf CQE_P (read_bytes (enabled_memory d) (b + 16 * i) 16) = 0"
proof -
  define d1 d2 where "d1 = new_cell d (cells d)" and "d2 = new_cell d (cells d @ [new_cell d (cells d)])"
  define m1 where "m1 = write32 m0 h1 0"
  define m2 where "m2 = write32 m1 h2 0"
  define m3 where "m3 = checked_memory m2 a (64 * n)"
  define m4 where "m4 = checked_memory m3 b (16 * k)"
  define m5 where "m5 = write32 m4 d1 0"
  have m6: "enabled_memory d = write32 m5 d2 0"
    using d len by (simp add: enabled_memory_def m(1) m1_def m2_def m3_def m4_def m5_def d1_def d2_def mult.commute)
  have s: "separate a (64 * n) b (16 * k)" "separate a (64 * n) db 8" "separate a (64 * n) h1 4" "separate b (16 * k) db 8" "separate b (16 * k) h1 4"
    "separate b (16 * k) h2 4" "separate b (16 * k) d1 4" "separate b (16 * k) d2 4"
    "separate db 8 h1 4" "separate db 8 h2 4" "separate db 8 d1 4" "separate db 8 d2 4" "separate h1 4 h2 4" "separate h1 4 d1 4"
    "separate h1 4 d2 4" "separate d1 4 d2 4"
    using apart by (simp_all add: apart_regions_def d1_def d2_def)
  have o: "only (region h1 4) m0 m1" "only (region h2 4) m1 m2" "only (region a (64 * n)) m2 m3" "only (region b (16 * k)) m3 m4"
    "only (region d1 4) m4 m5" "only (region d2 4) m5 (enabled_memory d)"
    unfolding m1_def m2_def m3_def m4_def m5_def m6 using len by (auto intro!: only_write32 only_checked)
  have r: "region x 4 \<inter> region y j = {}" if "separate y j x 4" for x y j using region_apart [OF that] by blast
  have keep: "read32 (enabled_memory d) x = read32 m0 x" if "separate a (64 * n) x 4" "separate b (16 * k) x 4" "separate h1 4 x 4" "separate h2 4 x 4"
    "separate d1 4 x 4" "separate d2 4 x 4" for x
    using o [THEN read32_only, OF r] that by metis
  have db: "separate db 8 x 4 \<Longrightarrow> separate x 4 db 4 \<and> separate x 4 (db + 4) 4" for x by (auto simp: separate_def)
  have "separate a (64 * n) db 4" "separate a (64 * n) (db + 4) 4" "separate b (16 * k) db 4" "separate b (16 * k) (db + 4) 4"
    by (rule separate_part [OF s(2)] separate_part [OF s(4)]; simp)+
  then show "read32 (enabled_memory d) db = 0" "read32 (enabled_memory d) (db + 4) = 0"
    using keep [of db] keep [of "db + 4"] m(3,4) db [OF s(9)] db [OF s(10)] db [OF s(11)] db [OF s(12)] by simp_all
  have "read32 m1 h1 = 0" by (simp add: m1_def)
  then show "read32 (enabled_memory d) h1 = 0"
    using o(2-6) [THEN read32_only, OF r] s(3,5,13-15) by (metis separate_sym)
  have "read32 m5 d1 = 0" by (simp add: m5_def)
  then show "read32 (enabled_memory d) (new_cell d (cells d)) = 0"
    using read32_only [OF o(6) r] s(16) unfolding d1_def by (metis separate_sym d1_def)
  show "read32 (enabled_memory d) (new_cell d (cells d @ [new_cell d (cells d)])) = 0" unfolding m6 d2_def by simp
  assume i: "i < k"
  let ?x = "b + 16 * i + 14"
  have x: "?x < b + 16 * k" "?x \<noteq> b" "?x \<noteq> b + 16 * k - 1" using i by auto
  have out: "?x \<notin> region y j" if "separate b (16 * k) y j" for y j
    using that x(1) by (auto simp: separate_def region_def)
  have "m4 ?x = m3 ?x" using x len by (auto simp: m4_def checked_memory_def write_bytes_def)
  moreover have "separate b (16 * k) a (64 * n)" using s(1) by (simp add: separate_sym)
  ultimately have "enabled_memory d ?x = m0 ?x" using o out s(5-8) unfolding only_def by metis
  also have "m0 ?x = 0" using arg_cong [OF m(2), of "\<lambda>xs. xs ! (16 * i + 14)"] i by (simp add: zeros_def add.assoc)
  finally show "getf CQE_P (read_bytes (enabled_memory d) (b + 16 * i) 16) = 0" by (simp add: completion_phase_byte)
qed

section \<open>Enabling the controller from the driver\<close>

lemma cc_enable_result:
  fixes s :: "('d, 'm) host"
  assumes "CSTS_CFS (regs s) = 0" "CSTS_RDY (regs s) = 0" "1 < pf_rounds pf t"
    and "d = (shared.truncate s)\<lparr>regs := (regs s)\<lparr>CC_EN := 1\<rparr>, nvme_event := True\<rparr>"
    and "CSTS_CFS (regs (pf_others pf d)) = 0" "CSTS_RDY (regs (pf_others pf d)) = 1"
  shows "cc_enable pf t s = (Inr (), shared.extend (pf_others pf d) (shared.more s))"
proof -
  obtain n where n: "pf_rounds pf t = Suc (Suc n)" using assms(3) by (cases "pf_rounds pf t"; cases "pf_rounds pf t - 1") auto
  let ?s = "s\<lparr>regs := (regs s)\<lparr>CC_EN := 1\<rparr>, nvme_event := True\<rparr>"
  have "shared.truncate ?s = d" "shared.more ?s = shared.more s" by (simp_all add: assms(4) shared.defs)
  then have "sleepS pf ?s = (Inr (), shared.extend (pf_others pf d) (shared.more s))" by (simp add: sleepS_def sharedS_def)
  then show ?thesis using assms(1,2,5,6) by (simp add: cc_enable_def thenS_def bindS_apply n)
qed

lemma unat_less_one [simp]: "0 < a \<Longrightarrow> a \<le> 4096 \<Longrightarrow> unat (word_of_nat a - 1 :: 12 word) = a - 1"
  by (cases a) (simp_all add: unat_of_nat)

text \<open>
  What bringing up needs: an idle simulator, memory for the two rings that lies apart from the doorbells and from the cells of
  the queue objects, and a driver that looks at the registers again after sleeping once.
\<close>

definition bringup_memory :: "('d, 'm) platform \<Rightarrow> ('d, 'm) host \<Rightarrow> nat \<Rightarrow> nat \<Rightarrow> mem_loc \<Rightarrow> mem_loc \<Rightarrow> 'm \<Rightarrow> bool" where
  "bringup_memory pf s a b l1 l2 g2 \<longleftrightarrow>
     (let m = write_bytes (mem s) (sqndbs s) (zeros (8 * 1024)); c1 = new_cell s (cells s); c2 = new_cell s (cells s @ [c1]);
          c3 = new_cell s (cells s @ [c1, c2]); c4 = new_cell s (cells s @ [c1, c2, c3]) in
      (\<exists>m1 g1 m2. pf_malloc pf m (mem_mgr s) (64 * a) HOST_TO_DEVICE = Inr (l1, m1, g1) \<and>
         pf_malloc pf m1 g1 (16 * b) DEVICE_TO_HOST = Inr (l2, m2, g2) \<and>
         only (region (vaddr l1) (64 * a)) m m1 \<and> only (region (vaddr l2) (16 * b)) m1 m2 \<and>
         read_bytes m2 (vaddr l2) (16 * b) = zeros (16 * b)) \<and>
      iova l1 = vaddr l1 \<and> iova l2 = vaddr l2 \<and> vaddr l1 < 2 ^ 52 \<and> vaddr l2 < 2 ^ 52 \<and>
      apart_regions [(vaddr l1, 64 * a), (vaddr l2, 16 * b), (sqndbs s, 8), (c1, 4), (c2, 4), (c3, 4), (c4, 4)])"

definition queue_memory :: "('d, 'm) host \<Rightarrow> nat \<Rightarrow> nat \<Rightarrow> mem_loc \<Rightarrow> mem_loc \<Rightarrow> nat set" where
  "queue_memory s a b l1 l2 =
     (let c1 = new_cell s (cells s); c2 = new_cell s (cells s @ [c1]); c3 = new_cell s (cells s @ [c1, c2]);
          c4 = new_cell s (cells s @ [c1, c2, c3]) in
      region (vaddr l1) (64 * a) \<union> region (vaddr l2) (16 * b) \<union> region (sqndbs s) 8 \<union> region c1 4 \<union> region c3 4 \<union> region c4 4)"

lemma bring_up:
  fixes s :: "('c nvsim_scheme, 'm) host"
  assumes wf: "host_wf s" "host_int_type s \<noteq> MSIX" and off: "CSTS_RDY (regs s) = 0" "CSTS_CFS (regs s) = 0" "old_CC_EN (dev s) = 0"
      "sim_queue_mgr (dev s) = new_queue_mgr"
    and pf: "pf_others pf = nvme_turn (Suc fuel)" "0 < pf_rounds pf 10" "1 < pf_rounds pf t"
    and memory: "bringup_memory pf s a b l1 l2 g" and len: "1 < a" "a \<le> 4096" "1 < b" "b \<le> 4096"
  shows "\<exists>s' hq dq dc. thenS (init_admin_queues pf a b) (cc_enable pf t) s = (Inr (), s') \<and> CSTS_RDY (regs s') = 1 \<and>
    admin_ready sim_admin s' hq (length (host_cqs s)) dq dc \<and>
    dev s' = (dev s)\<lparr>sim_queue_mgr := qm_add 0 dq 0 dc new_queue_mgr, old_CC_EN := 1\<rparr> \<and> mem_mgr s' = g \<and>
    link_area hq (host_cqs s' ! length (host_cqs s)) dq dc \<subseteq> queue_memory s a b l1 l2"
proof -
  define c1 c2 c3 c4 where "c1 = new_cell s (cells s)" and "c2 = new_cell s (cells s @ [c1])" and "c3 = new_cell s (cells s @ [c1, c2])"
    and "c4 = new_cell s (cells s @ [c1, c2, c3])"
  note cell = c1_def c2_def c3_def c4_def
  define m where "m = write_bytes (mem s) (sqndbs s) (zeros (8 * 1024))"
  obtain m1 g1 m2 where mal: "pf_malloc pf m (mem_mgr s) (64 * a) HOST_TO_DEVICE = Inr (l1, m1, g1)"
      "pf_malloc pf m1 g1 (16 * b) DEVICE_TO_HOST = Inr (l2, m2, g)" "only (region (vaddr l1) (64 * a)) m m1"
      "only (region (vaddr l2) (16 * b)) m1 m2" "read_bytes m2 (vaddr l2) (16 * b) = zeros (16 * b)"
    and l: "iova l1 = vaddr l1" "iova l2 = vaddr l2" "vaddr l1 < 2 ^ 52" "vaddr l2 < 2 ^ 52"
    and apart: "apart_regions [(vaddr l1, 64 * a), (vaddr l2, 16 * b), (sqndbs s, 8), (c1, 4), (c2, 4), (c3, 4), (c4, 4)]"
    using memory unfolding bringup_memory_def Let_def m_def [symmetric] cell [symmetric] by blast
  obtain s1 where s1: "init_admin_queues pf a b s = (Inr (), s1)" "host_cqs s1 = host_cqs s @ [admin_cq (vaddr l2) b c2 (sqndbs s) (Some 0)]"
    "host_queue_mgr s1 = qm_add 0 (admin_sq (vaddr l1) a c1 (sqndbs s)) 0 (length (host_cqs s)) new_queue_mgr"
    "mem s1 = write32 (write32 m2 c1 0) c2 0" "cells s1 = cells s @ [c1, c2]" "outstanding s1 = []"
    "regs s1 = admin_regs a (iova l1) b (iova l2) ((regs s)\<lparr>CC_EN := 0\<rparr>)" "new_cell s1 = new_cell s" "sqndbs s1 = sqndbs s"
    "dev s1 = dev s" "mem_mgr s1 = g" "host_int_type s1 = host_int_type s"
    by (rule init_admin_result [OF _ pf(2) mal(1) [unfolded m_def] mal(2) c1_def c2_def]) (use off in auto)
  define d where "d = (shared.truncate s1)\<lparr>regs := (regs s1)\<lparr>CC_EN := 1\<rparr>, nvme_event := True\<rparr>"
  have d: "regs d = (regs s1)\<lparr>CC_EN := 1\<rparr>" "dev d = dev s" "mem d = mem s1" "cells d = cells s @ [c1, c2]" "new_cell d = new_cell s"
    "sqndbs d = sqndbs s" "nvme_event d" using s1 by (simp_all add: d_def shared.defs)
  have dc: "new_cell d (cells d) = c3" "new_cell d (cells d @ [c3]) = c4" by (simp_all add: d cell)
  have r: "unat (ASQ_ASQB (regs d)) = vaddr l1" "unat (AQA_ASQS (regs d)) + 1 = a" "unat (ACQ_ACQB (regs d)) = vaddr l2"
    "unat (AQA_ACQS (regs d)) + 1 = b" "CC_EN (regs d) = 1" "CSTS_CFS (regs d) = 0"
    using l len off(2) by (simp_all add: d s1(7) admin_regs_def unat_of_nat)
  have pb: "read32 m2 (sqndbs s) = 0" "read32 m2 (sqndbs s + 4) = 0"
  proof -
    have "read_bytes m (sqndbs s) (8 * 1024) = zeros (8 * 1024)" unfolding m_def by (rule read_write_same [OF length_zeros])
    note zeros = this
    have sep: "separate (vaddr l1) (64 * a) (sqndbs s) 8" "separate (vaddr l2) (16 * b) (sqndbs s) 8" using apart by (simp_all add: apart_regions_def)
    have "read32 m x = 0" if "x \<in> {sqndbs s, sqndbs s + 4}" for x
      by (rule read32_zeros [OF zeros]) (use that in auto)
    moreover have "region x 4 \<inter> region (vaddr l1) (64 * a) = {}" "region x 4 \<inter> region (vaddr l2) (16 * b) = {}" if "x \<in> {sqndbs s, sqndbs s + 4}" for x
      using region_apart [OF separate_part [OF sep(1), of x 4]] region_apart [OF separate_part [OF sep(2), of x 4]] that by (auto simp: Int_commute)
    ultimately show "read32 m2 (sqndbs s) = 0" "read32 m2 (sqndbs s + 4) = 0"
      using mal(3,4) [THEN read32_only] by auto
  qed
  have apart': "apart_regions [(vaddr l1, 64 * a), (vaddr l2, 16 * b), (sqndbs s, 8), (c1, 4), (c2, 4), (new_cell d (cells d), 4),
      (new_cell d (cells d @ [new_cell d (cells d)]), 4)]" using apart by (simp add: dc)
  have pos: "0 < a" "0 < b" using len by simp_all
  note fresh = enabled_memory_fresh [OF r(1-4) apart' _ mal(5) pb pos, unfolded dc]
  have md: "mem d = write32 (write32 m2 c1 0) c2 0" by (simp add: d s1)
  let ?asq = "sim_asq d" and ?acq = "sim_acq d"
  have dbt: "sqtail_addr d 0 = sqndbs s" "cqhead_addr d 0 = sqndbs s + 4" by (simp_all add: sqtail_addr_def cqhead_addr_def d)
  have q: "?asq = \<lparr>base_address = vaddr l1, entries = a, entry_size = 64, qid = 0, head = \<lparr>ht_entries = a, ht_address = c3\<rparr>,
      tail = \<lparr>ht_entries = a, ht_address = sqndbs s\<rparr>\<rparr>"
    "?acq = \<lparr>base_address = vaddr l2, entries = b, entry_size = 16, qid = 0, head = \<lparr>ht_entries = b, ht_address = sqndbs s + 4\<rparr>,
      tail = \<lparr>ht_entries = b, ht_address = c4\<rparr>, int_vector = None, phase = 1\<rparr>"
    unfolding sim_asq_def sim_acq_def r dbt dc by (rule refl)+
  have "sq_get_command (enabled_memory d) ?asq = (None, enabled_memory d)"
    by (rule num_entries_idle) (use fresh [OF md] in \<open>simp_all add: q ht_value_def\<close>)
  note turn = nvme_turn_enables [OF _ r(5) _ d(7) _ this, of "Suc fuel"]
  define d' where "d' = nvme_turn (Suc fuel) d"
  have d': "mem d' = enabled_memory d" "CSTS_RDY (regs d') = 1" "CSTS_CFS (regs d') = 0"
    "dev d' = (dev s)\<lparr>sim_queue_mgr := qm_add 0 ?asq 0 ?acq new_queue_mgr, old_CC_EN := 1\<rparr>"
    using turn off(3,4) r(6) by (simp_all add: d'_def d(2))
  define s' where "s' = shared.extend d' (shared.more s1)"
  have en: "cc_enable pf t s1 = (Inr (), s')"
    unfolding s'_def d'_def pf(1) [symmetric]
    by (rule cc_enable_result [OF _ _ pf(3) d_def]) (use d'(2,3) off in \<open>simp_all add: d'_def pf(1) s1(7) admin_regs_def\<close>)
  have run: "thenS (init_admin_queues pf a b) (cc_enable pf t) s = (Inr (), s')" using s1(1) en by (simp add: thenS_def bindS_apply)
  have wf': "host_wf s'"
    by (rule keepsD [where P = host_wf and f = "thenS (init_admin_queues pf a b) (cc_enable pf t)", OF _ wf(1) run]) (intro keeps_intros)
  let ?hq = "admin_sq (vaddr l1) a c1 (sqndbs s)" and ?hc = "admin_cq (vaddr l2) b c2 (sqndbs s) (Some 0)"
  have "queue_link (enabled_memory d) ?hq ?hc ?asq ?acq [] []" "acknowledged (enabled_memory d) ?hq ?asq"
  proof -
    have rs: "apart_regions [(vaddr l1, 64 * a), (vaddr l2, 16 * b), (sqndbs s, 8), (c1, 4), (c3, 4), (c4, 4)]"
      using apart by (simp add: apart_regions_def)
    have ph: "slot_phase (enabled_memory d) ?hc i = 0" if "i < b" for i
      using fresh(6) [OF md that] by (simp add: slot_phase_def slot_def admin_cq_def new_completion_queue_def mult.commute)
    have sizes: "1 < a" "a \<le> 2 ^ 16" "1 < b" "b \<le> 2 ^ 32" using len by simp_all
    note new = admin_sq_def admin_cq_def new_submission_queue_def new_completion_queue_def
    note l = link_fresh [where hq = ?hq and hc = ?hc and dq = ?asq and dc = ?acq, OF _ _ _ _ _ _ _ _ _ _ _ _ _ _ _ _ _ _ _ _ _ _ _ rs
      fresh(1-5) [OF md] ph sizes]
    show "queue_link (enabled_memory d) ?hq ?hc ?asq ?acq [] []" by (rule l(1); simp add: q new)
    show "acknowledged (enabled_memory d) ?hq ?asq" by (rule l(2); simp add: q new)
  qed
  then have "admin_ready sim_admin s' ?hq (length (host_cqs s)) ?asq ?acq"
    unfolding admin_ready_def using wf' s1 wf(2) d' by (simp add: s'_def sim_admin_def qm_add_def new_queue_mgr_def Let_def q admin_sq_def new_submission_queue_def)
  moreover have "link_area ?hq (host_cqs s' ! length (host_cqs s)) ?asq ?acq \<subseteq> queue_memory s a b l1 l2"
    by (auto simp: s'_def s1 link_area_def sq_area_def cq_area_def q admin_sq_def admin_cq_def new_submission_queue_def
        new_completion_queue_def queue_memory_def cell [symmetric] Let_def region_def)
  moreover have "mem_mgr s' = g" by (simp add: s'_def s1)
  ultimately show ?thesis using run d' by (intro exI conjI) (assumption | simp add: s'_def)+
qed

text \<open>
  Property C9. Bringing up: from a disabled simulator, \<open>init_admin_queues\<close> and \<open>cc_enable\<close> succeed if the simulator's thread handles
  the change once while the driver sleeps; then the controller is ready and the two ends of both admin queues are
  linked, so that the driver's next admin command will be served.
\<close>

theorem simulator_comes_up:
  fixes s :: "('c nvsim_scheme, 'm) host"
  assumes "host_wf s" "host_int_type s \<noteq> MSIX" "CSTS_RDY (regs s) = 0" "CSTS_CFS (regs s) = 0" "old_CC_EN (dev s) = 0"
      "sim_queue_mgr (dev s) = new_queue_mgr" "pf_others pf = nvme_turn (Suc fuel)" "0 < pf_rounds pf 10" "1 < pf_rounds pf t"
      "bringup_memory pf s a b l1 l2 g" "1 < a" "a \<le> 4096" "1 < b" "b \<le> 4096"
  shows "\<exists>s' hq dq dc. thenS (init_admin_queues pf a b) (cc_enable pf t) s = (Inr (), s') \<and> CSTS_RDY (regs s') = 1 \<and>
    admin_ready sim_admin s' hq (length (host_cqs s)) dq dc"
  using bring_up [OF assms] by blast

section \<open>From power on to the identify data\<close>

lemma expected_id_data_cong:
  assumes "id_ns_data c' = id_ns_data c" "id_ns_list_data c' = id_ns_list_data c" "id_ctrl_data c' = id_ctrl_data c"
    "id_uuid_list_data c' = id_uuid_list_data c"
  shows "expected_id_data c' = expected_id_data c"
proof -
  have "expected_namespaces c' ids = expected_namespaces c ids" for ids
    by (induction ids) (rule ext, simp add: assms)+
  then show ?thesis by (simp add: expected_id_data_def assms)
qed

text \<open>
  Property C3. The whole way: the driver brings the simulated controller up and asks for the identify data, and what it gets is
  exactly what the simulator was configured with.
\<close>

theorem identify_end_to_end:
  fixes s :: "('c nvsim_scheme, 'm) host"
  assumes "host_wf s" "host_int_type s \<noteq> MSIX" "CSTS_RDY (regs s) = 0" "CSTS_CFS (regs s) = 0" "old_CC_EN (dev s) = 0"
      "sim_queue_mgr (dev s) = new_queue_mgr" "pf_others pf = nvme_turn (Suc fuel)" "0 < pf_rounds pf 10" "1 < pf_rounds pf t"
      "bringup_memory pf s a b l1 l2 g" "1 < a" "a \<le> 4096" "1 < b" "b \<le> 4096"
    and hook: "pf_posted_command pf = posted_command (Suc (Suc n))" "pf_page_size pf = 4096"
    and config: "config_mps (dev s) = 4096" "id_data_ok (dev s)" "length (namespaces (dev s)) \<le> 2 ^ 32"
      "list_all (\<lambda>i. 0 < i \<and> i < length (namespaces (dev s))) (listed_ids (id_ns_list_data (dev s)))"
    and pages: "page_source pf (queue_memory s a b l1 l2) good" "good (length (listed_ids (id_ns_list_data (dev s))) + 3) g"
  shows "fst (thenS (init_admin_queues pf a b) (thenS (cc_enable pf t) (id_initialize pf)) s) = expected_id_data (dev s)"
proof -
  obtain s' hq dq dc where up: "thenS (init_admin_queues pf a b) (cc_enable pf t) s = (Inr (), s')"
    "admin_ready sim_admin s' hq (length (host_cqs s)) dq dc"
    "dev s' = (dev s)\<lparr>sim_queue_mgr := qm_add 0 dq 0 dc new_queue_mgr, old_CC_EN := 1\<rparr>" "mem_mgr s' = g"
    "link_area hq (host_cqs s' ! length (host_cqs s)) dq dc \<subseteq> queue_memory s a b l1 l2"
    using bring_up [OF assms(1-14)] by blast
  have same: "id_ns_data (dev s') = id_ns_data (dev s)" "id_ns_list_data (dev s') = id_ns_list_data (dev s)"
    "id_ctrl_data (dev s') = id_ctrl_data (dev s)" "id_uuid_list_data (dev s') = id_uuid_list_data (dev s)"
    "config_mps (dev s') = config_mps (dev s)" "namespaces (dev s') = namespaces (dev s)" by (simp_all add: up(3))
  have "gets_page pf (link_area hq (host_cqs s' ! length (host_cqs s)) dq dc) m g l m' g'"
    if "gets_page pf (queue_memory s a b l1 l2) m g l m' g'" for m g l m' g'
    using that up(5) unfolding gets_page_def by blast
  then have "page_source pf (link_area hq (host_cqs s' ! length (host_cqs s)) dq dc) good"
    using pages(1) unfolding page_source_def by blast
  moreover have "id_data_ok (dev s')" using config(2) by (simp add: id_data_ok_def same)
  ultimately have "identify_ready pf good (length (listed_ids (id_ns_list_data (dev s'))) + 3) (dev s') s'"
    unfolding identify_ready_def using hook config(1) pages(2) up(2,4) same by auto
  from identify_from_simulator [OF this] config(3,4) obtain s2 where "id_initialize pf s' = (expected_id_data (dev s'), s2)"
    by (auto simp: same)
  moreover have "expected_id_data (dev s') = expected_id_data (dev s)" by (rule expected_id_data_cong [OF same(1-4)])
  ultimately show ?thesis using up(1) by (simp add: thenS_assoc thenS_def [of "thenS _ _"] bindS_apply)
qed

section \<open>Instances\<close>

text \<open>
  The simulator in its own configuration, cells of queues from 0x100000 on, and a memory manager that gives out memory from
  0x200000 on.
\<close>

definition example_sim_shared :: "unit nvsim_scheme shared" where
  "example_sim_shared = \<lparr>mem = \<lambda>_. 0, regs = zero_regs, pcie = \<lambda>_. 0, nvme_event = False, pcie_event = False, sqndbs = 0x8000, cells = [],
     new_cell = (\<lambda>cs. 0x100000 + 4 * length cs), dev = (started example_dev)\<lparr>old_CC_EN := 0\<rparr>\<rparr>"

definition example_sim_host :: "(unit nvsim_scheme, nat) host" where
  "example_sim_host = new_device example_sim_shared 0x200000 []"

definition example_sim_pf :: "(unit nvsim_scheme, nat) platform" where
  "example_sim_pf = \<lparr>pf_malloc = (\<lambda>m g n dir. Inr (\<lparr>vaddr = g, iova = g, msize = n\<rparr>, write_bytes m g (zeros n), g + n)),
     pf_page_size = 4096, pf_posted_command = posted_command 2, pf_others = nvme_turn 1, pf_rounds = (\<lambda>_. 2),
     pf_pending_count = (\<lambda>_. retS 0)\<rparr>"

lemma example_sim_host: "host_wf example_sim_host" "host_int_type example_sim_host \<noteq> MSIX" "mem example_sim_host = (\<lambda>_. 0)"
  "regs example_sim_host = zero_regs" "sqndbs example_sim_host = 0x8000" "cells example_sim_host = []" "mem_mgr example_sim_host = 0x200000"
  "new_cell example_sim_host = (\<lambda>cs. 0x100000 + 4 * length cs)" "dev example_sim_host = (started example_dev)\<lparr>old_CC_EN := 0\<rparr>"
  by (simp_all add: example_sim_host_def example_sim_shared_def new_device_def shared.defs host_wf_def refs_wf_def outstanding_wf_def
      cid_wf_def new_cid_mgr_def new_queue_mgr_def)

lemma example_sim_memory:
  "bringup_memory example_sim_pf example_sim_host 16 16 \<lparr>vaddr = 0x200000, iova = 0x200000, msize = 1024\<rparr>
     \<lparr>vaddr = 0x200400, iova = 0x200400, msize = 256\<rparr> 0x200500"
  by (simp add: bringup_memory_def example_sim_host example_sim_pf_def only_write apart_regions_def separate_def)

lemmas example_sim = example_sim_host(1,2) example_sim_memory

lemma simulator_comes_up_witness:
  "\<exists>s' hq dq dc. thenS (init_admin_queues example_sim_pf 16 16) (cc_enable example_sim_pf 5) example_sim_host = (Inr (), s') \<and>
    CSTS_RDY (regs s') = 1 \<and> admin_ready sim_admin s' hq (length (host_cqs example_sim_host)) dq dc"
  by (rule simulator_comes_up [OF example_sim(1,2) _ _ _ _ _ _ _ example_sim(3)])
    (simp_all add: example_sim_host example_sim_pf_def zero_regs_def started_def)

lemma sim_id_data:
  assumes "id_ns_data c = id_ns_data (started example_dev)" "id_ns_list_data c = sim_id_ns_list_data 2"
    "id_ctrl_data c = sim_id_ctrl_data" "id_uuid_list_data c = sim_id_uuid_list_data"
  shows "expected_id_data c = Inr \<lparr>id_controller = sim_id_ctrl_data, id_namespace = sim_id_ns_list_data 2,
    id_namespaces = (replicate 1024 None)[1 := Some (sim_ns_info 1 512 51211), 2 := Some (sim_ns_info 2 960 96020)],
    id_uuid_list = sim_id_uuid_list_data\<rparr>"
proof -
  define none where "none = replicate 1024 (None :: ns_info option)"
  have n: "length none = 1024" by (simp add: none_def)
  have "id_ns_data c = [None, Some (sim_id_ns_data (blank_namespace 512)), Some (sim_id_ns_data (blank_namespace 960))]"
    using assms(1) by (simp add: started_def)
  then have "expected_namespaces c [1, 2] none = Inr (none[1 := Some (sim_ns_info 1 512 51211), 2 := Some (sim_ns_info 2 960 96020)])"
    using n sim_ns_from_data by (simp add: list_set_def)
  then show ?thesis by (simp add: expected_id_data_def assms(2-4) sim_listed none_def [symmetric])
qed

lemma fold_set_at_length: "length (fold (\<lambda>(p, v). set_at t p v) xs bs) = length bs"
  by (induction xs arbitrary: bs) (auto simp: set_at_def split: option.split)

lemma sim_id_lengths: "length sim_id_ctrl_data = 4096" "length (sim_id_ns_list_data n) = 4096" "length sim_id_uuid_list_data = 4096"
proof -
  have "length (fold (\<lambda>i. set_at t (p i) (v i)) js bs) = length bs" for t :: cty and p and v and js :: "nat list" and bs
    by (induction js arbitrary: bs) (auto simp: set_at_def split: option.split)
  then show "length (sim_id_ns_list_data n) = 4096" "length sim_id_uuid_list_data = 4096"
    unfolding sim_id_ns_list_data_def sim_id_uuid_list_data_def by (simp_all only: length_zeros)
  show "length sim_id_ctrl_data = 4096" unfolding sim_id_ctrl_data_def by (simp only: fold_set_at_length length_zeros)
qed

definition example_pages :: "nat \<Rightarrow> nat \<Rightarrow> bool" where
  "example_pages k g \<longleftrightarrow> 0x200500 \<le> g \<and> g + 4096 * k \<le> 0x300000"

lemma example_page_source:
  "page_source example_sim_pf (queue_memory example_sim_host 16 16 \<lparr>vaddr = 0x200000, iova = 0x200000, msize = 1024\<rparr>
     \<lparr>vaddr = 0x200400, iova = 0x200400, msize = 256\<rparr>) example_pages"
proof -
  let ?A = "queue_memory example_sim_host 16 16 \<lparr>vaddr = 0x200000, iova = 0x200000, msize = 1024\<rparr> \<lparr>vaddr = 0x200400, iova = 0x200400, msize = 256\<rparr>"
  have A: "x < 0x200500" if "x \<in> ?A" for x
    using that by (auto simp: queue_memory_def region_def example_sim_host)
  have "gets_page example_sim_pf ?A m g \<lparr>vaddr = g, iova = g, msize = 4096\<rparr> (write_bytes m g (zeros 4096)) (g + 4096)"
    if "0x200500 \<le> g" "g < 0x300000" for m g
    using that A by (auto simp: gets_page_def example_sim_pf_def only_write region_def dest!: A)
  then show ?thesis unfolding page_source_def by (fastforce simp: example_pages_def)
qed

lemma posted_command_two: "posted_command (Suc (Suc 0)) = posted_command 2"
  by (simp only: numeral_2_eq_2)

lemma identify_end_to_end_witness:
  "fst (thenS (init_admin_queues example_sim_pf 16 16) (thenS (cc_enable example_sim_pf 5) (id_initialize example_sim_pf)) example_sim_host) =
    Inr \<lparr>id_controller = sim_id_ctrl_data, id_namespace = sim_id_ns_list_data 2,
      id_namespaces = (replicate 1024 None)[1 := Some (sim_ns_info 1 512 51211), 2 := Some (sim_ns_info 2 960 96020)],
      id_uuid_list = sim_id_uuid_list_data\<rparr>"
proof -
  let ?c = "dev example_sim_host"
  have c: "id_ns_data ?c = id_ns_data (started example_dev)" "id_ns_list_data ?c = sim_id_ns_list_data 2"
    "id_ctrl_data ?c = sim_id_ctrl_data" "id_uuid_list_data ?c = sim_id_uuid_list_data"
    by (simp_all add: example_sim_host started_def)
  have ok: "id_data_ok ?c" using sim_id_lengths id_ns_fields(5)
    by (auto simp: id_data_ok_def example_sim_host started_def less_Suc_eq numeral_3_eq_3)
  have "fst (thenS (init_admin_queues example_sim_pf 16 16) (thenS (cc_enable example_sim_pf 5) (id_initialize example_sim_pf)) example_sim_host) =
      expected_id_data ?c"
    by (rule identify_end_to_end [where n = 0, OF example_sim(1,2) _ _ _ _ _ _ _ example_sim(3) _ _ _ _ _ _ _ ok _ _ example_page_source])
      (simp_all add: example_sim_host example_sim_pf_def zero_regs_def started_def sim_listed example_pages_def posted_command_two)
  then show ?thesis unfolding sim_id_data [OF c] .
qed

end
