(* ===== verification/Command_Memory.thy ===== *)
theory Command_Memory
  imports Host_Examples PRP_Transfer
begin

text \<open>
  The end of a command's buffer: \<open>SQECommon.free_prps\<close> (\<open>lone/nvme/spec/structures/__init__.py\<close>) gives the pages of the command back
  to the memory manager through \<open>PRP.free_all_memory\<close>.
\<close>

section \<open>\<open>free_prps\<close>\<close>

type_synonym 'm dma_free = "memory \<Rightarrow> 'm \<Rightarrow> mem_loc \<Rightarrow> (memory \<times> 'm) res"

text \<open>
  The loop of \<open>free_all_memory\<close> with the calls of the manager: a page is given back and then removed from the list that is iterated over.
\<close>

function free_mems :: "'m dma_free \<Rightarrow> nat \<Rightarrow> mem_loc list \<Rightarrow> memory \<Rightarrow> 'm \<Rightarrow> unit res \<times> mem_loc list \<times> memory \<times> 'm" where
  "free_mems fr i xs m g =
     (if i < length xs
      then (case fr m g (xs ! i) of
              Inl e \<Rightarrow> (Inl e, xs, m, g)
            | Inr (m', g') \<Rightarrow> free_mems fr (i + 1) (remove1 (xs ! i) xs) m' g')
      else (Inr (), xs, m, g))"
  by pat_completeness auto

termination
  by (relation "measure (\<lambda>(fr, i, xs, m, g). length xs - i)") (auto simp: length_remove1)

declare free_mems.simps [simp del]

definition free_prps :: "'m dma_free \<Rightarrow> nat \<Rightarrow> ('d, 'm, unit) host_op" where
  "free_prps fr i =
     bindS (commandS i) (\<lambda>c.
     case c_prp c of
       None \<Rightarrow> retS ()
     | Some p \<Rightarrow> (\<lambda>s. case free_mems fr 0 (mem_list p) (mem s) (mem_mgr s) of
         (r, rest, m, g) \<Rightarrow> (r, s\<lparr>mem := m, mem_mgr := g, cmds := (cmds s)[i := c\<lparr>c_prp := Some (p\<lparr>mem_list := rest\<rparr>)\<rparr>]\<rparr>)))"

section \<open>What is given back\<close>

lemma free_mems_sim:
  assumes "sim_inv g" "distinct xs" "set xs \<subseteq> set (allocated_mem_list g)"
  shows "free_mems sim_free_at i xs m g =
    (Inr (), fst (free_loop i xs), m, g\<lparr>allocated_mem_list := filter (\<lambda>l. l \<notin> set (snd (free_loop i xs))) (allocated_mem_list g)\<rparr>)"
  using assms
proof (induction i xs arbitrary: g rule: free_loop.induct)
  case (1 i xs)
  show ?case
  proof (cases "i < length xs")
    case False
    then show ?thesis by (simp add: free_mems.simps [of _ i] free_loop.simps [of i])
  next
    case True
    let ?l = "xs ! i" and ?live = "allocated_mem_list g"
    let ?ys = "remove1 ?l xs" and ?g = "g\<lparr>allocated_mem_list := remove1 ?l ?live\<rparr>"
    have live: "distinct ?live" using 1(2) by (simp add: sim_inv_def separate_distinct)
    have l: "?l \<in> set ?live" using 1(4) True by auto
    have f: "sim_free_at m g ?l = Inr (m, ?g)"
      using sim_free_loop_remove1 [OF live, of ?l 0] l by (simp add: sim_free_at_def sim_free_def)
    have "sim_inv ?g" using sim.free_live [OF 1(2) l, of m] f by auto
    moreover have "distinct ?ys" "set ?ys \<subseteq> set (allocated_mem_list ?g)"
      using 1(3,4) live by (auto simp: distinct_remove1)
    ultimately have "free_mems sim_free_at (i + 1) ?ys m ?g =
        (Inr (), fst (free_loop (i + 1) ?ys), m, ?g\<lparr>allocated_mem_list := filter (\<lambda>l. l \<notin> set (snd (free_loop (i + 1) ?ys))) (remove1 ?l ?live)\<rparr>)"
      using 1(1) [OF True] by simp
    moreover have "filter P (remove1 ?l ?live) = filter (\<lambda>x. x \<noteq> ?l \<and> P x) ?live" for P
      using live by (simp add: distinct_remove1_removeAll removeAll_filter_not_eq filter_filter) (rule filter_cong; auto)
    ultimately show ?thesis
      using True f by (simp add: free_mems.simps [of _ i xs] free_loop.simps [of i xs] case_prod_unfold Let_def)
  qed
qed

lemma odds_evens: "set xs = set (odds xs) \<union> set (evens xs)" "distinct xs \<Longrightarrow> set (odds xs) \<inter> set (evens xs) = {}"
proof -
  have all: "set xs = set (odds xs) \<union> set (evens xs)" for xs :: "'a list"
    by (induction xs rule: evens.induct) auto
  then show "set xs = set (odds xs) \<union> set (evens xs)" .
  show "distinct xs \<Longrightarrow> set (odds xs) \<inter> set (evens xs) = {}"
  proof (induction xs rule: evens.induct)
    case (1 x y xs)
    with all [of xs] show ?case by auto
  qed auto
qed

text \<open>
  Giving back the memory of a command with the manager of the simulator keeps every other page: of the pages of the command, in their order, those at odd positions are still given out, and are still
  in the list of the command's buffer.
\<close>

theorem free_prps_leaks:
  fixes s :: "('d, sim_mem_mgr) host"
  assumes "i < length (cmds s)" "c_prp (cmds s ! i) = Some p"
    and "sim_inv (mem_mgr s)" "distinct (mem_list p)" "set (mem_list p) \<subseteq> set (allocated_mem_list (mem_mgr s))"
  shows "\<exists>s'. free_prps sim_free_at i s = (Inr (), s') \<and> mem s' = mem s \<and>
    map_option mem_list (c_prp (cmds s' ! i)) = Some (odds (mem_list p)) \<and>
    allocated_mem_list (mem_mgr s') = filter (\<lambda>l. l \<notin> set (evens (mem_list p))) (allocated_mem_list (mem_mgr s)) \<and>
    set (odds (mem_list p)) \<subseteq> set (allocated_mem_list (mem_mgr s'))"
proof -
  have half: "free_loop 0 (mem_list p) = (odds (mem_list p), evens (mem_list p))"
    using free_loop_distinct [of "[]" "mem_list p"] assms(4) by simp
  note sets = odds_evens [of "mem_list p"]
  then show ?thesis
    using assms sets free_mems_sim [OF assms(3-5), of 0 "mem s"]
    by (auto simp: free_prps_def commandS_def bindS_apply list_get_def half)
qed

text \<open>A command whose buffer has three pages, of which the second stays.\<close>

definition page_at :: "nat \<Rightarrow> mem_loc" where
  "page_at a = \<lparr>vaddr = a, iova = a, msize = 4096\<rparr>"

definition example_buffer :: prp where
  "example_buffer = \<lparr>num_bytes = 8192, mps = 4096, direction = DEVICE_TO_HOST, prp1 = 0x1000, prp1_mem = None, prp2 = 0x2000, prp2_mem = None,
     mem_list = [page_at 0x1000, page_at 0x2000, page_at 0x3000], prps_per_page = 511, pages_needed = 2, lists_needed = 0\<rparr>"

definition example_holder :: "(unit, sim_mem_mgr) host" where
  "example_holder = shared.extend example_shared
     \<lparr>host_cqs = [], host_queue_mgr = example_queues, cmds = [example_command\<lparr>c_prp := Some example_buffer\<rparr>], outstanding = [],
      cid_mgr = \<lparr>init_value = 0x1000, max_value = 0xFFFE, cid_value = 0x1001\<rparr>,
      mem_mgr = \<lparr>page_size = 4096, allocated_mem_list = [page_at 0x1000, page_at 0x2000, page_at 0x3000], c_uint8_array = bump_heap\<rparr>,
      host_int_type = POLLING, num_msix_vectors = 0, host_capabilities = []\<rparr>"

theorem free_prps_leaks_witness:
  "\<exists>s'. free_prps sim_free_at 0 example_holder = (Inr (), s') \<and> allocated_mem_list (mem_mgr s') = [page_at 0x2000]"
proof -
  have h: "cmds example_holder = [example_command\<lparr>c_prp := Some example_buffer\<rparr>]"
    "mem_mgr example_holder = \<lparr>page_size = 4096, allocated_mem_list = [page_at 0x1000, page_at 0x2000, page_at 0x3000], c_uint8_array = bump_heap\<rparr>"
    by (simp_all add: example_holder_def shared.defs)
  have p: "page_at 0x1000 \<noteq> page_at 0x2000" "page_at 0x1000 \<noteq> page_at 0x3000" "page_at 0x2000 \<noteq> page_at 0x3000" by (simp_all add: page_at_def)
  have "sim_inv (mem_mgr example_holder)"
    by (simp add: h sim_inv_def ctypes_heap_bump loc_separate_def separate_def page_at_def)
  then show ?thesis
    using free_prps_leaks [of 0 example_holder example_buffer] p by (fastforce simp: h example_buffer_def)
qed

end
