(* ===== verification/Py_Strings.thy ===== *)
theory Py_Strings
  imports Prelude "HOL-Library.Sublist"
begin

text \<open>
  The string operations of Python that the system tools use: \<open>split\<close>, \<open>splitlines\<close>, \<open>in\<close>, \<open>basename\<close> of a path, and numbers in
  decimal and hexadecimal.
\<close>

section \<open>Parts of a string\<close>

text \<open>\<open>split\<close> with a separator that is not empty; \<open>acc\<close> is the part read so far, backwards.\<close>

fun split_go :: "string \<Rightarrow> string \<Rightarrow> string \<Rightarrow> string list" where
  "split_go sep acc [] = [rev acc]"
| "split_go sep acc (c # cs) =
     (if prefix sep (c # cs) then rev acc # split_go sep [] (drop (length sep - 1) cs) else split_go sep (c # acc) cs)"

definition split_str :: "string \<Rightarrow> string \<Rightarrow> string list" where
  "split_str sep s = split_go sep [] s"

text \<open>The line boundaries of \<open>str.splitlines\<close> among the characters below 256; a carriage return and a line feed are one boundary.\<close>

definition line_end :: "char \<Rightarrow> bool" where
  "line_end c \<longleftrightarrow> of_char c \<in> {10, 11, 12, 13, 28, 29, 30, 133 :: nat}"

fun lines_go :: "string \<Rightarrow> string \<Rightarrow> string list" where
  "lines_go acc [] = (if acc = [] then [] else [rev acc])"
| "lines_go acc (c # cs) =
     (if line_end c
      then rev acc # lines_go [] (if of_char c = (13 :: nat) \<and> cs \<noteq> [] \<and> of_char (hd cs) = (10 :: nat) then tl cs else cs)
      else lines_go (c # acc) cs)"

definition splitlines :: "string \<Rightarrow> string list" where
  "splitlines s = lines_go [] s"

text \<open>\<open>bytes.split()\<close>: the words between runs of white space.\<close>

definition white :: "char \<Rightarrow> bool" where
  "white c \<longleftrightarrow> of_char c \<in> {9, 10, 11, 12, 13, 32 :: nat}"

definition words_of :: "string \<Rightarrow> string list" where
  "words_of s = filter (\<lambda>w. w \<noteq> []) (foldr (\<lambda>c ws. if white c then [] # ws else (c # hd ws) # tl ws) s [[]])"

definition contains :: "string \<Rightarrow> string \<Rightarrow> bool" where
  "contains x s \<longleftrightarrow> sublist x s"

definition basename :: "string \<Rightarrow> string" where
  "basename p = rev (takeWhile (\<lambda>c. c \<noteq> CHR ''/'') (rev p))"

definition replace_char :: "char \<Rightarrow> char \<Rightarrow> string \<Rightarrow> string" where
  "replace_char a b s = map (\<lambda>c. if c = a then b else c) s"

section \<open>Numbers\<close>

definition digit_char :: "nat \<Rightarrow> char" where
  "digit_char n = ''0123456789abcdef'' ! n"

fun digits_in :: "nat \<Rightarrow> nat \<Rightarrow> string" where
  "digits_in b n = (if n < b \<or> b < 2 then [digit_char (n mod 16)] else digits_in b (n div b) @ [digit_char (n mod b mod 16)])"

declare digits_in.simps [simp del]

definition dec :: "nat \<Rightarrow> string" where
  "dec n = digits_in 10 n"

definition hex_padded :: "nat \<Rightarrow> nat \<Rightarrow> string" where
  "hex_padded w n = (let s = digits_in 16 n in replicate (w - length s) CHR ''0'' @ s)"

definition digit_value :: "char \<Rightarrow> nat option" where
  "digit_value c = (let k = of_char c :: nat in
     if 48 \<le> k \<and> k \<le> 57 then Some (k - 48) else if 97 \<le> k \<and> k \<le> 102 then Some (k - 87) else None)"

lemma digit_round [simp]:
  assumes "n < 16"
  shows "digit_value (digit_char n) = Some n"
proof -
  have "list_all (\<lambda>n. digit_value (digit_char n) = Some n) [0..<16]"
    by (simp add: upt_rec digit_value_def digit_char_def)
  then show ?thesis using assms by (simp add: list_all_iff)
qed

text \<open>\<open>str.isnumeric\<close> and \<open>int\<close> for the decimal digits.\<close>

definition is_numeric :: "string \<Rightarrow> bool" where
  "is_numeric s \<longleftrightarrow> s \<noteq> [] \<and> list_all (\<lambda>c. (case digit_value c of Some d \<Rightarrow> d < 10 | None \<Rightarrow> False)) s"

definition dec_value :: "string \<Rightarrow> nat" where
  "dec_value s = fold (\<lambda>c n. 10 * n + (case digit_value c of Some d \<Rightarrow> d | None \<Rightarrow> 0)) s 0"

end
