(* ===== verification/Linux_Vfio.thy ===== *)
theory Linux_Vfio
  imports Nvsim_Config NvmeRegs Py_Strings
begin

text \<open>
  Access to a device through VFIO (\<open>lone/system/linux/vfio.py\<close>): the structures of the requests, the steps of
  \<open>SysVfioIfc.initialize\<close>, the walk through the capabilities of the IOMMU, registers, interrupts and DMA mappings. The kernel
  is a parameter: functions on a state of its own, one for each system call that the code makes.
\<close>

section \<open>The kernel\<close>

text \<open>
  The third argument of \<open>ioctl\<close> is a number or a buffer that the kernel may change; \<open>io_number\<close> is \<open>IO\<close> of the package \<open>ioctl_opt\<close>,
  and \<open>k_load\<close> reads bytes of memory that \<open>mmap\<close> gave out.
\<close>

datatype ioctl_arg = IntArg nat | BufArg "byte list"

record 'k kernel =
  k_readlink :: "string \<Rightarrow> ('k, string) st"
  k_exists :: "string \<Rightarrow> ('k, bool) st"
  k_open :: "string \<Rightarrow> ('k, nat) st"
  k_close :: "nat \<Rightarrow> ('k, unit) st"
  k_ioctl :: "nat \<Rightarrow> nat \<Rightarrow> ioctl_arg \<Rightarrow> ('k, nat \<times> byte list) st"
  k_eventfd :: "('k, nat) st"
  k_read :: "nat \<Rightarrow> nat \<Rightarrow> ('k, byte list) st"
  k_pread :: "nat \<Rightarrow> nat \<Rightarrow> nat \<Rightarrow> ('k, byte list) st"
  k_pwrite :: "nat \<Rightarrow> byte list \<Rightarrow> nat \<Rightarrow> ('k, nat) st"
  k_mmap :: "nat \<Rightarrow> nat \<Rightarrow> nat \<Rightarrow> ('k, nat) st"
  k_munmap :: "nat \<Rightarrow> ('k, unit) st"
  k_load :: "nat \<Rightarrow> nat \<Rightarrow> ('k, byte list) st"
  io_number :: "nat \<Rightarrow> nat \<Rightarrow> nat"

section \<open>The requests\<close>

record ioctl_class =
  io_nr :: nat
  io_layout :: cty

definition VFIO_IOCTL_TYPE :: nat where "VFIO_IOCTL_TYPE = of_char CHR '';''"
definition VFIO_IOCTL_BASE :: nat where "VFIO_IOCTL_BASE = 100"
definition VFIO_API_VERSION :: nat where "VFIO_API_VERSION = 0"
definition VFIO_TYPE1_IOMMU :: nat where "VFIO_TYPE1_IOMMU = 1"
definition VFIO_GROUP_FLAGS_VIABLE :: nat where "VFIO_GROUP_FLAGS_VIABLE = 2 ^ 0"
definition VFIO_GROUP_FLAGS_CONTAINER_SET :: nat where "VFIO_GROUP_FLAGS_CONTAINER_SET = 2 ^ 1"
definition VFIO_PCI_CONFIG_REGION :: nat where "VFIO_PCI_CONFIG_REGION = 7"
definition VFIO_PCI_ROM_REGION_INDEX :: nat where "VFIO_PCI_ROM_REGION_INDEX = 6"
definition VFIO_PCI_MSIX_IRQ_INDEX :: nat where "VFIO_PCI_MSIX_IRQ_INDEX = 2"
definition VFIO_IRQ_SET_DATA_EVENTFD :: nat where "VFIO_IRQ_SET_DATA_EVENTFD = 2 ^ 2"
definition VFIO_IRQ_SET_ACTION_TRIGGER :: nat where "VFIO_IRQ_SET_ACTION_TRIGGER = 2 ^ 5"

definition VfioGetApiVersion :: ioctl_class where
  "VfioGetApiVersion = \<lparr>io_nr = 0, io_layout = Struct []\<rparr>"

definition VfioCheckExtension :: ioctl_class where
  "VfioCheckExtension = \<lparr>io_nr = 1, io_layout = Struct []\<rparr>"

definition VfioSetIoMmu :: ioctl_class where
  "VfioSetIoMmu = \<lparr>io_nr = 2, io_layout = Struct []\<rparr>"

definition VfioGroupGetStatus :: ioctl_class where
  "VfioGroupGetStatus = \<lparr>io_nr = 3, io_layout = Struct [(''argsz'', UInt 4, None), (''flags'', UInt 4, None)]\<rparr>"

definition VfioGroupSetContainer :: ioctl_class where
  "VfioGroupSetContainer = \<lparr>io_nr = 4, io_layout = Struct [(''cont_fd'', UInt 4, None)]\<rparr>"

definition VfioGroupUnsetContainer :: ioctl_class where
  "VfioGroupUnsetContainer = \<lparr>io_nr = 5, io_layout = Struct []\<rparr>"

definition VfioGetDeviceFd :: ioctl_class where
  "VfioGetDeviceFd = \<lparr>io_nr = 6, io_layout = Struct [(''string'', Arr (UInt 1) 12, None)]\<rparr>"

definition VfioDeviceGetInfo :: ioctl_class where
  "VfioDeviceGetInfo = \<lparr>io_nr = 7, io_layout = Struct [(''argsz'', UInt 4, None), (''flags'', UInt 4, None),
     (''num_regions'', UInt 4, None), (''num_irqs'', UInt 4, None)]\<rparr>"

definition vfioGetRegionInfo :: ioctl_class where
  "vfioGetRegionInfo = \<lparr>io_nr = 8, io_layout = Struct [(''argsz'', UInt 4, None), (''flags'', UInt 4, None),
     (''index'', UInt 4, None), (''resv'', UInt 4, None), (''size'', UInt 8, None), (''offset'', UInt 8, None)]\<rparr>"

definition vfioDeviceReset :: ioctl_class where
  "vfioDeviceReset = \<lparr>io_nr = 11, io_layout = Struct []\<rparr>"

definition VfioCapHeader :: cty where
  "VfioCapHeader = Struct [(''id'', UInt 2, None), (''version'', UInt 2, None), (''next'', UInt 4, None)]"

definition VfioIovaRange :: cty where
  "VfioIovaRange = Struct [(''start'', UInt 8, None), (''end'', UInt 8, None)]"

definition VfioCapIovaRanges :: cty where
  "VfioCapIovaRanges = Struct [(''header'', VfioCapHeader, None), (''nr_iovas'', UInt 4, None), (''reserved'', UInt 4, None),
     (''ranges'', Arr VfioIovaRange 5, None)]"

definition VfioIommuGetInfo :: ioctl_class where
  "VfioIommuGetInfo = \<lparr>io_nr = 12, io_layout = Struct [(''argsz'', UInt 4, None), (''flags'', UInt 4, None),
     (''iova_pgsizes'', UInt 8, None), (''cap_offset'', UInt 4, None), (''pad'', UInt 4, None), (''caps'', Arr (UInt 1) 1024, None)]\<rparr>"

definition caps_offset :: nat where "caps_offset = 24"

definition vfioMmuMapDma :: ioctl_class where
  "vfioMmuMapDma = \<lparr>io_nr = 13, io_layout = Struct [(''argsz'', UInt 4, None), (''flags'', UInt 4, None),
     (''vaddr'', UInt 8, None), (''iova'', UInt 8, None), (''size'', UInt 8, None)]\<rparr>"

definition DMA_MAP_FLAG_READ :: nat where "DMA_MAP_FLAG_READ = 2 ^ 0"
definition DMA_MAP_FLAG_WRITE :: nat where "DMA_MAP_FLAG_WRITE = 2 ^ 1"
definition DMA_MAP_FLAG_RW :: nat where "DMA_MAP_FLAG_RW = or DMA_MAP_FLAG_READ DMA_MAP_FLAG_WRITE"

definition vfioMmuUnmapDma :: ioctl_class where
  "vfioMmuUnmapDma = \<lparr>io_nr = 14, io_layout = Struct [(''argsz'', UInt 4, None), (''flags'', UInt 4, None),
     (''iova'', UInt 8, None), (''size'', UInt 8, None)]\<rparr>"

definition vfioGetIRQInfo :: ioctl_class where
  "vfioGetIRQInfo = \<lparr>io_nr = 9, io_layout = Struct [(''argsz'', UInt 4, None), (''flags'', UInt 4, None),
     (''index'', UInt 4, None), (''count'', UInt 4, None)]\<rparr>"

definition vfioSetIRQs :: ioctl_class where
  "vfioSetIRQs = \<lparr>io_nr = 10, io_layout = Struct [(''argsz'', UInt 4, None), (''flags'', UInt 4, None),
     (''index'', UInt 4, None), (''start'', UInt 4, None), (''count'', UInt 4, None), (''data'', Arr (UInt 4) 4096, None)]\<rparr>"

text \<open>A request object with fields set, its fields, and the fields of a structure.\<close>

definition field_of :: "cty \<Rightarrow> step list \<Rightarrow> byte list \<Rightarrow> nat" where
  "field_of t path bs = (case get_at t path bs of None \<Rightarrow> 0 | Some v \<Rightarrow> v)"

definition request :: "ioctl_class \<Rightarrow> (string \<times> nat) list \<Rightarrow> byte list" where
  "request c fs = fold (\<lambda>(n, v). set_at (io_layout c) [Fld n] v) fs (zeros (csize (io_layout c)))"

section \<open>The object\<close>

record region_info =
  r_size :: nat
  r_offset :: nat
  r_flags :: nat

text \<open>\<open>SysVfioIfc\<close>; the attributes that \<open>initialize\<close> sets are None before.\<close>

record 'k vfio =
  v_kernel :: 'k
  v_pci_slot :: string
  v_iommu_group :: "string option"
  v_device_path :: "string option"
  eventfds :: "nat list"
  container_fd :: "nat option"
  group_fd :: "nat option"
  v_device_fd :: "nat option"
  iova_pgsizes :: nat
  v_iova_ranges :: "(nat \<times> nat) list"
  bars :: "region_info list option"
  pci_region :: "region_info option"
  rom_region :: "region_info option"
  nvme_mmap :: "nat option"
  nvme_registers :: "nat option"

type_synonym ('k, 'a) vfio_op = "('k vfio, 'a) st"

definition kernelS :: "('k, 'a) st \<Rightarrow> ('k, 'a) vfio_op" where
  "kernelS f = (\<lambda>s. case f (v_kernel s) of (r, k) \<Rightarrow> (r, s\<lparr>v_kernel := k\<rparr>))"

definition attrS :: "('k vfio \<Rightarrow> 'a option) \<Rightarrow> ('k, 'a) vfio_op" where
  "attrS f = bindS (getS f) (\<lambda>x. liftS (case x of None \<Rightarrow> Inl AttributeError | Some y \<Rightarrow> Inr y))"

text \<open>\<open>VfioIoctl.ioctl\<close>: the value of the call, and the object as the kernel left it.\<close>

definition ioctl_buffer :: "ioctl_class \<Rightarrow> byte list \<Rightarrow> byte list" where
  "ioctl_buffer c bs = set_at (io_layout c) [Fld ''argsz''] (csize (io_layout c)) bs"

definition ioctlS :: "'k kernel \<Rightarrow> ioctl_class \<Rightarrow> nat \<Rightarrow> byte list \<Rightarrow> nat option \<Rightarrow> ('k, nat \<times> byte list) vfio_op" where
  "ioctlS K c fd bs arg =
     kernelS (k_ioctl K fd (io_number K VFIO_IOCTL_TYPE (VFIO_IOCTL_BASE + io_nr c))
       (case arg of None \<Rightarrow> BufArg (ioctl_buffer c bs) | Some n \<Rightarrow> IntArg n))"

section \<open>The capabilities of the IOMMU\<close>

text \<open>A slice of a list from a position, which counts from the end when it is negative.\<close>

definition py_from :: "int \<Rightarrow> 'a list \<Rightarrow> 'a list" where
  "py_from i xs = (if 0 \<le> i then drop (nat i) xs else drop (nat (int (length xs) + i)) xs)"

definition range_at :: "byte list \<Rightarrow> nat \<Rightarrow> (nat \<times> nat) res" where
  "range_at cap i = (if i < 5 then Inr (field_of VfioCapIovaRanges [Fld ''ranges'', Idx i, Fld ''start''] cap,
     field_of VfioCapIovaRanges [Fld ''ranges'', Idx i, Fld ''end''] cap) else Inl IndexError)"

definition add_range :: "byte list \<Rightarrow> nat \<Rightarrow> ('k, unit) vfio_op" where
  "add_range cap i = bindS (liftS (range_at cap i)) (\<lambda>r. modifyS (\<lambda>s. s\<lparr>v_iova_ranges := v_iova_ranges s @ [r]\<rparr>))"

text \<open>\<open>from_buffer\<close> of a buffer that is too small raises. The result is the offset of the next capability.\<close>

definition read_cap :: "byte list \<Rightarrow> ('k, nat) vfio_op" where
  "read_cap cap =
     thenS (if length cap < csize VfioCapHeader then raiseS ValueError else retS ()) (
     thenS (if field_of VfioCapHeader [Fld ''id''] cap \<noteq> 1 then retS ()
            else if length cap < csize VfioCapIovaRanges then raiseS ValueError
            else forS [0..<field_of VfioCapIovaRanges [Fld ''nr_iovas''] cap] (add_range cap))
       (retS (field_of VfioCapHeader [Fld ''next''] cap)))"

text \<open>The loop, with the number of capabilities that may still be read; the check comes after each.\<close>

fun walk_caps :: "nat \<Rightarrow> byte list \<Rightarrow> nat \<Rightarrow> ('k, unit) vfio_op" where
  "walk_caps n caps 0 = retS ()"
| "walk_caps 0 caps (Suc off) = raiseS AssertionError"
| "walk_caps (Suc n) caps (Suc off) =
     bindS (read_cap (py_from (int (Suc off) - int caps_offset) caps)) (\<lambda>next.
     thenS (assertS (n \<noteq> 0)) (walk_caps n caps next))"

section \<open>\<open>initialize\<close>\<close>

definition open_group :: "'k kernel \<Rightarrow> ('k, unit) vfio_op" where
  "open_group K =
     bindS (getS v_pci_slot) (\<lambda>name.
     bindS (kernelS (k_readlink K (''/sys/bus/pci/devices/'' @ name @ ''/iommu_group''))) (\<lambda>link.
     thenS (modifyS (\<lambda>s. s\<lparr>v_iommu_group := Some (basename link)\<rparr>)) (
     bindS (kernelS (k_open K ''/dev/vfio/vfio'')) (\<lambda>fd.
     thenS (modifyS (\<lambda>s. s\<lparr>container_fd := Some fd\<rparr>)) (
     bindS (kernelS (k_exists K (''/dev/vfio/'' @ basename link))) (\<lambda>there.
     thenS (if \<not> there then raiseS PlainException else retS ()) (
     bindS (kernelS (k_open K (''/dev/vfio/'' @ basename link))) (\<lambda>fd.
       modifyS (\<lambda>s. s\<lparr>group_fd := Some fd\<rparr>)))))))))"

definition check_api :: "'k kernel \<Rightarrow> ('k, unit) vfio_op" where
  "check_api K =
     bindS (attrS container_fd) (\<lambda>fd.
     bindS (ioctlS K VfioGetApiVersion fd (request VfioGetApiVersion []) None) (\<lambda>(version, _).
     thenS (assertS (version = VFIO_API_VERSION)) (
     bindS (ioctlS K VfioCheckExtension fd (request VfioCheckExtension []) (Some VFIO_TYPE1_IOMMU)) (\<lambda>(ext, _).
       assertS (ext \<noteq> 0)))))"

definition group_flags :: "'k kernel \<Rightarrow> nat \<Rightarrow> ('k, nat) vfio_op" where
  "group_flags K fd =
     bindS (ioctlS K VfioGroupGetStatus fd (request VfioGroupGetStatus []) None) (\<lambda>(_, bs).
       retS (field_of (io_layout VfioGroupGetStatus) [Fld ''flags''] bs))"

definition join_container :: "'k kernel \<Rightarrow> ('k, unit) vfio_op" where
  "join_container K =
     bindS (attrS container_fd) (\<lambda>cfd.
     bindS (attrS group_fd) (\<lambda>fd.
     bindS (group_flags K fd) (\<lambda>flags.
     thenS (assertS (and flags VFIO_GROUP_FLAGS_VIABLE \<noteq> 0)) (
     bindS (ioctlS K VfioGroupSetContainer fd (request VfioGroupSetContainer [(''cont_fd'', cfd)]) None) (\<lambda>_.
     bindS (group_flags K fd) (\<lambda>flags.
     thenS (assertS (and flags VFIO_GROUP_FLAGS_VIABLE \<noteq> 0)) (
     thenS (assertS (and flags VFIO_GROUP_FLAGS_CONTAINER_SET \<noteq> 0))
       (bindS (ioctlS K VfioSetIoMmu cfd (request VfioSetIoMmu []) (Some VFIO_TYPE1_IOMMU)) (\<lambda>_. retS ())))))))))"

definition caps_of :: "byte list \<Rightarrow> byte list" where
  "caps_of bs = take 1024 (drop caps_offset bs)"

definition read_iommu :: "'k kernel \<Rightarrow> ('k, unit) vfio_op" where
  "read_iommu K =
     bindS (attrS container_fd) (\<lambda>cfd.
     bindS (ioctlS K VfioIommuGetInfo cfd (request VfioIommuGetInfo []) None) (\<lambda>(_, bs).
     thenS (modifyS (\<lambda>s. s\<lparr>iova_pgsizes := field_of (io_layout VfioIommuGetInfo) [Fld ''iova_pgsizes''] bs\<rparr>)) (
     thenS (modifyS (\<lambda>s. s\<lparr>v_iova_ranges := []\<rparr>))
       (walk_caps 1000 (caps_of bs) (field_of (io_layout VfioIommuGetInfo) [Fld ''cap_offset''] bs)))))"

definition region_of :: "'k kernel \<Rightarrow> nat \<Rightarrow> nat \<Rightarrow> ('k, region_info) vfio_op" where
  "region_of K fd i =
     bindS (ioctlS K vfioGetRegionInfo fd (request vfioGetRegionInfo [(''index'', i)]) None) (\<lambda>(_, bs).
       let f = (\<lambda>n. field_of (io_layout vfioGetRegionInfo) [Fld n] bs) in
       retS \<lparr>r_size = f ''size'', r_offset = f ''offset'', r_flags = f ''flags''\<rparr>)"

definition set_bar :: "'k kernel \<Rightarrow> nat \<Rightarrow> nat \<Rightarrow> ('k, unit) vfio_op" where
  "set_bar K fd i = bindS (region_of K fd i) (\<lambda>r. modifyS (\<lambda>s. s\<lparr>bars := map_option (\<lambda>bs. bs[i := r]) (bars s)\<rparr>))"

text \<open>The name of the device must fit the twelve characters of the field.\<close>

definition slot_string :: "string \<Rightarrow> byte list res" where
  "slot_string name = (if 12 < length name then Inl ValueError
     else Inr (map (\<lambda>c. of_nat (of_char c)) name @ zeros (12 - length name)))"

definition open_device :: "'k kernel \<Rightarrow> ('k, unit) vfio_op" where
  "open_device K =
     bindS (attrS group_fd) (\<lambda>gfd.
     bindS (getS v_pci_slot) (\<lambda>name.
     bindS (liftS (slot_string name)) (\<lambda>bs.
     bindS (ioctlS K VfioGetDeviceFd gfd bs None) (\<lambda>(fd, _).
     thenS (modifyS (\<lambda>s. s\<lparr>v_device_fd := Some fd\<rparr>)) (
     thenS (assertS (fd \<noteq> 0)) (
     bindS (ioctlS K VfioDeviceGetInfo fd (request VfioDeviceGetInfo []) None) (\<lambda>(_, bs).
     thenS (assertS (field_of (io_layout VfioDeviceGetInfo) [Fld ''num_regions''] bs \<ge> 8)) (
     thenS (modifyS (\<lambda>s. s\<lparr>bars := Some (replicate 6 \<lparr>r_size = 0, r_offset = 0, r_flags = 0\<rparr>)\<rparr>)) (
     thenS (forS [0..<6] (set_bar K fd)) (
     bindS (region_of K fd VFIO_PCI_CONFIG_REGION) (\<lambda>r.
     thenS (modifyS (\<lambda>s. s\<lparr>pci_region := Some r\<rparr>)) (
     bindS (region_of K fd VFIO_PCI_ROM_REGION_INDEX) (\<lambda>r.
       modifyS (\<lambda>s. s\<lparr>rom_region := Some r\<rparr>))))))))))))))"

definition vfio_initialize :: "'k kernel \<Rightarrow> ('k, unit) vfio_op" where
  "vfio_initialize K =
     thenS (open_group K) (thenS (check_api K) (thenS (join_container K) (thenS (read_iommu K) (open_device K))))"

definition new_vfio :: "'k \<Rightarrow> string \<Rightarrow> string option \<Rightarrow> string option \<Rightarrow> 'k vfio" where
  "new_vfio k name grp path = \<lparr>v_kernel = k, v_pci_slot = name, v_iommu_group = grp, v_device_path = path, eventfds = [],
     container_fd = None, group_fd = None, v_device_fd = None, iova_pgsizes = 0, v_iova_ranges = [], bars = None, pci_region = None,
     rom_region = None, nvme_mmap = None, nvme_registers = None\<rparr>"

section \<open>Interrupts\<close>

definition get_irq_info :: "'k kernel \<Rightarrow> nat \<Rightarrow> ('k, byte list) vfio_op" where
  "get_irq_info K index =
     bindS (attrS v_device_fd) (\<lambda>fd.
     bindS (ioctlS K vfioGetIRQInfo fd (request vfioGetIRQInfo [(''index'', index)]) None) (\<lambda>(_, bs). retS bs))"

text \<open>One event descriptor per vector; the array of the request holds 4096 of them.\<close>

fun msix_fds :: "'k kernel \<Rightarrow> nat \<Rightarrow> nat \<Rightarrow> byte list \<Rightarrow> ('k, byte list) vfio_op" where
  "msix_fds K i 0 bs = retS bs"
| "msix_fds K i (Suc n) bs =
     bindS (kernelS (k_eventfd K)) (\<lambda>fd.
     if i \<ge> 4096 then raiseS IndexError
     else thenS (modifyS (\<lambda>s. s\<lparr>eventfds := eventfds s @ [fd]\<rparr>))
            (msix_fds K (i + 1) n (set_at (io_layout vfioSetIRQs) [Fld ''data'', Idx i] fd bs)))"

definition enable_msix :: "'k kernel \<Rightarrow> nat \<Rightarrow> nat \<Rightarrow> ('k, unit) vfio_op" where
  "enable_msix K num_vectors start_vector =
     bindS (msix_fds K 0 num_vectors (request vfioSetIRQs [(''count'', num_vectors),
       (''flags'', or VFIO_IRQ_SET_DATA_EVENTFD VFIO_IRQ_SET_ACTION_TRIGGER), (''index'', VFIO_PCI_MSIX_IRQ_INDEX),
       (''start'', start_vector)])) (\<lambda>bs.
     bindS (attrS v_device_fd) (\<lambda>fd.
     bindS (ioctlS K vfioSetIRQs fd bs None) (\<lambda>_. retS ())))"

definition get_msix_vector_pending_count :: "'k kernel \<Rightarrow> nat \<Rightarrow> ('k, nat) vfio_op" where
  "get_msix_vector_pending_count K vector =
     bindS (getS eventfds) (\<lambda>fds.
     bindS (liftS (list_get fds vector)) (\<lambda>fd s.
       case kernelS (k_read K fd 8) s of
         (Inr bs, s') \<Rightarrow> (Inr (le_nat bs), s')
       | (Inl e, s') \<Rightarrow> (if e = BlockingIOError then Inr 0 else Inl e, s')))"

section \<open>Registers\<close>

text \<open>The configuration space is read and written one byte at a time; the controller registers are mapped.\<close>

definition vfio_pcie_get :: "'k kernel \<Rightarrow> nat \<Rightarrow> ('k, nat) vfio_op" where
  "vfio_pcie_get K offset =
     bindS (attrS v_device_fd) (\<lambda>fd.
     bindS (attrS pci_region) (\<lambda>r.
     bindS (kernelS (k_pread K fd 1 (r_offset r + offset))) (\<lambda>bs. retS (le_nat bs))))"

definition vfio_pcie_set :: "'k kernel \<Rightarrow> nat \<Rightarrow> byte \<Rightarrow> ('k, unit) vfio_op" where
  "vfio_pcie_set K offset value =
     bindS (attrS v_device_fd) (\<lambda>fd.
     bindS (attrS pci_region) (\<lambda>r.
     bindS (kernelS (k_pwrite K fd [value] (r_offset r + offset))) (\<lambda>n. assertS (n \<noteq> 0))))"

definition map_nvme_regs :: "'k kernel \<Rightarrow> ('k, nat) vfio_op" where
  "map_nvme_regs K =
     bindS (attrS v_device_fd) (\<lambda>fd.
     bindS (attrS bars) (\<lambda>bs.
     bindS (liftS (list_get bs 0)) (\<lambda>b.
     bindS (kernelS (k_mmap K fd (r_size b) (r_offset b))) (\<lambda>a.
     thenS (modifyS (\<lambda>s. s\<lparr>nvme_mmap := Some a\<rparr>)) (
     thenS (if r_size b < csize (rc_layout NVMe_Registers) then raiseS ValueError else retS ()) (
     thenS (modifyS (\<lambda>s. s\<lparr>nvme_registers := Some a\<rparr>)) (retS a)))))))"

section \<open>DMA mappings\<close>

definition map_dma_region :: "'k kernel \<Rightarrow> nat \<Rightarrow> nat \<Rightarrow> nat \<Rightarrow> nat \<Rightarrow> ('k, unit) vfio_op" where
  "map_dma_region K vaddr' iova' size' flags =
     bindS (attrS container_fd) (\<lambda>fd.
     bindS (ioctlS K vfioMmuMapDma fd
       (request vfioMmuMapDma [(''flags'', flags), (''vaddr'', vaddr'), (''iova'', iova'), (''size'', size')]) None) (\<lambda>_. retS ()))"

definition map_dma_region_read :: "'k kernel \<Rightarrow> nat \<Rightarrow> nat \<Rightarrow> nat \<Rightarrow> ('k, unit) vfio_op" where
  "map_dma_region_read K vaddr' iova' size' = map_dma_region K vaddr' iova' size' DMA_MAP_FLAG_READ"

definition map_dma_region_write :: "'k kernel \<Rightarrow> nat \<Rightarrow> nat \<Rightarrow> nat \<Rightarrow> ('k, unit) vfio_op" where
  "map_dma_region_write K vaddr' iova' size' = map_dma_region K vaddr' iova' size' DMA_MAP_FLAG_WRITE"

definition map_dma_region_rw :: "'k kernel \<Rightarrow> nat \<Rightarrow> nat \<Rightarrow> nat \<Rightarrow> ('k, unit) vfio_op" where
  "map_dma_region_rw K vaddr' iova' size' = map_dma_region K vaddr' iova' size' DMA_MAP_FLAG_RW"

definition unmap_dma_region :: "'k kernel \<Rightarrow> nat \<Rightarrow> nat \<Rightarrow> ('k, unit) vfio_op" where
  "unmap_dma_region K iova' size' =
     bindS (attrS container_fd) (\<lambda>fd.
     bindS (ioctlS K vfioMmuUnmapDma fd (request vfioMmuUnmapDma [(''iova'', iova'), (''size'', size')]) None) (\<lambda>_. retS ()))"

section \<open>Reset and cleaning up\<close>

definition vfio_reset :: "'k kernel \<Rightarrow> ('k, unit) vfio_op" where
  "vfio_reset K = bindS (attrS v_device_fd) (\<lambda>fd. bindS (ioctlS K vfioDeviceReset fd (request vfioDeviceReset []) None) (\<lambda>_. retS ()))"

definition vfio_clean :: "'k kernel \<Rightarrow> ('k, unit) vfio_op" where
  "vfio_clean K =
     bindS (attrS nvme_registers) (\<lambda>_.
     thenS (modifyS (\<lambda>s. s\<lparr>nvme_registers := None\<rparr>)) (
     bindS (attrS nvme_mmap) (\<lambda>a.
     thenS (kernelS (k_munmap K a)) (
     bindS (attrS v_device_fd) (\<lambda>dfd.
     thenS (kernelS (k_close K dfd)) (
     bindS (attrS group_fd) (\<lambda>gfd.
     bindS (ioctlS K VfioGroupUnsetContainer gfd (request VfioGroupUnsetContainer []) None) (\<lambda>_.
     bindS (attrS container_fd) (\<lambda>cfd.
     thenS (kernelS (k_close K cfd)) (kernelS (k_close K gfd)))))))))))"

end
