(* ===== verification/Vfio_Facts.thy ===== *)
theory Vfio_Facts
  imports Linux_Vfio
begin

text \<open>
  What the VFIO requests carry, what the walk through the capabilities of the IOMMU collects, which interrupts the event
  descriptors belong to, and what a successful \<open>initialize\<close> leaves behind.
\<close>

section \<open>Requests\<close>

definition ioctl_classes :: "ioctl_class list" where
  "ioctl_classes = [VfioGetApiVersion, VfioCheckExtension, VfioSetIoMmu, VfioGroupGetStatus, VfioGroupSetContainer,
     VfioGroupUnsetContainer, VfioGetDeviceFd, VfioDeviceGetInfo, vfioGetRegionInfo, vfioDeviceReset, VfioIommuGetInfo,
     vfioMmuMapDma, vfioMmuUnmapDma, vfioGetIRQInfo, vfioSetIRQs]"

lemmas ioctl_class_defs = VfioGetApiVersion_def VfioCheckExtension_def VfioSetIoMmu_def VfioGroupGetStatus_def VfioGroupSetContainer_def
  VfioGroupUnsetContainer_def VfioGetDeviceFd_def VfioDeviceGetInfo_def vfioGetRegionInfo_def vfioDeviceReset_def VfioIommuGetInfo_def
  vfioMmuMapDma_def vfioMmuUnmapDma_def vfioGetIRQInfo_def vfioSetIRQs_def

lemma ioctl_class_struct:
  "c \<in> set ioctl_classes \<Longrightarrow> \<exists>fs. io_layout c = Struct fs \<and> wf_fields fs"
  unfolding ioctl_classes_def by (auto simp: ioctl_class_defs wf_fields_def wf_field_def)

lemma length_set_at [simp]: "length (set_at t p v bs) = length bs"
  by (simp add: set_at_def split: option.split)

lemma length_request [simp]: "length (request c fs) = csize (io_layout c)"
proof -
  have "length (fold (\<lambda>(n, v). set_at (io_layout c) [Fld n] v) fs bs) = length bs" for bs
    by (induction fs arbitrary: bs) auto
  then show ?thesis by (simp add: request_def)
qed

lemma length_ioctl_buffer [simp]: "length (ioctl_buffer c bs) = length bs"
  by (simp add: ioctl_buffer_def)

lemma getf_set_at:
  assumes "wf_fields fs" "length bs = csize (Struct fs)" "field_pos (Struct fs) [Fld n] = Some f"
  shows "getf f (set_at (Struct fs) [Fld m] v bs) = (if m = n then v mod 2 ^ snd f else getf f bs)"
proof (cases "field_pos (Struct fs) [Fld m]")
  case None
  then show ?thesis using assms(3) by (auto simp: set_at_def)
next
  case (Some g)
  have g: "fits g bs" and f: "fits f bs"
    using field_pos_struct_sound(1) [OF assms(1)] Some assms(2,3) by (auto simp: fits_def)
  show ?thesis
  proof (cases "m = n")
    case True
    then show ?thesis using Some assms(3) f by (simp add: set_at_def)
  next
    case False
    then have "apart g f" using field_pos_struct_sound(2) [OF assms(1) Some assms(3)] by blast
    then show ?thesis using Some False g by (simp add: set_at_def getf_setf_apart)
  qed
qed

lemma getf_fold_set_at:
  assumes "wf_fields fs" "length bs = csize (Struct fs)" "field_pos (Struct fs) [Fld n] = Some f" "distinct (map fst nvs)"
  shows "getf f (fold (\<lambda>(n, v). set_at (Struct fs) [Fld n] v) nvs bs) =
    (case map_of nvs n of None \<Rightarrow> getf f bs | Some v \<Rightarrow> v mod 2 ^ snd f)"
  using assms(2,4)
proof (induction nvs arbitrary: bs)
  case (Cons x nvs)
  obtain m v where x: "x = (m, v)" by fastforce
  have "n \<notin> fst ` set nvs" if "m = n" using Cons.prems(2) that by (auto simp: x)
  then have "m = n \<Longrightarrow> map_of nvs n = None" by (simp add: map_of_eq_None_iff)
  then show ?case using Cons.IH [of "set_at (Struct fs) [Fld m] v bs"] Cons.prems getf_set_at [OF assms(1) Cons.prems(1) assms(3)]
    by (auto simp: x split: option.split)
qed simp

lemma request_field:
  assumes "c \<in> set ioctl_classes" "distinct (map fst nvs)" "field_pos (io_layout c) [Fld n] = Some f"
  shows "getf f (ioctl_buffer c (request c nvs)) =
    (if n = ''argsz'' then csize (io_layout c) else case map_of nvs n of None \<Rightarrow> 0 | Some v \<Rightarrow> v) mod 2 ^ snd f"
proof -
  obtain fs where c: "io_layout c = Struct fs" and fs: "wf_fields fs" using ioctl_class_struct [OF assms(1)] by blast
  have "length (request c nvs) = csize (Struct fs)" by (simp add: c)
  note a = getf_set_at [OF fs this assms(3) [unfolded c], of "''argsz''" "csize (Struct fs)"]
  have "getf f (request c nvs) = (case map_of nvs n of None \<Rightarrow> 0 | Some v \<Rightarrow> v mod 2 ^ snd f)"
    using getf_fold_set_at [OF fs _ assms(3) [unfolded c] assms(2), of "zeros (csize (Struct fs))"] by (simp add: request_def c del: csize.simps split: option.split)
  with a show ?thesis by (auto simp: ioctl_buffer_def c split: option.split)
qed

text \<open>
  Every field that a caller sets reaches the kernel, cut to the width of the field; the size is filled in where the structure has a field
  for it, and everything else is zero.
\<close>

theorem ioctl_requests:
  assumes "c \<in> set ioctl_classes" "distinct (map fst nvs)" "field_pos (io_layout c) [Fld n] = Some f"
  shows "ioctlS K c fd (request c nvs) None =
      kernelS (k_ioctl K fd (io_number K 59 (100 + io_nr c)) (BufArg (ioctl_buffer c (request c nvs)))) \<and>
    get_at (io_layout c) [Fld n] (ioctl_buffer c (request c nvs)) =
      Some ((if n = ''argsz'' then csize (io_layout c) else case map_of nvs n of None \<Rightarrow> 0 | Some v \<Rightarrow> v) mod 2 ^ snd f)"
  using request_field [OF assms] assms(3) by (simp add: ioctlS_def get_at_def VFIO_IOCTL_TYPE_def VFIO_IOCTL_BASE_def)

lemma ioctl_requests_witness:
  "get_at (io_layout vfioMmuMapDma) [Fld ''iova''] (ioctl_buffer vfioMmuMapDma (request vfioMmuMapDma
     [(''flags'', 1), (''vaddr'', 0x7000), (''iova'', 0x1000), (''size'', 4096)])) = Some 0x1000"
proof -
  have "field_pos (io_layout vfioMmuMapDma) [Fld ''iova''] = Some (128, 64)"
    by (simp add: vfioMmuMapDma_def field_pos_def last_match_def struct_places_def)
  from ioctl_requests [OF _ _ this, THEN conjunct2, of "[(''flags'', 1), (''vaddr'', 0x7000), (''iova'', 0x1000), (''size'', 4096)]"]
  show ?thesis by (simp add: ioctl_classes_def del: One_nat_def)
qed

section \<open>The capabilities of the IOMMU\<close>

lemma vfio_cap_sizes: "csize VfioCapHeader = 8" "csize VfioCapIovaRanges = 96"
  by (simp_all add: VfioCapHeader_def VfioCapIovaRanges_def VfioIovaRange_def)

lemma cap_fields:
  "field_of VfioCapHeader [Fld ''id''] bs = le_nat (take 2 bs)"
  "field_of VfioCapHeader [Fld ''next''] bs = le_nat (take 4 (drop 4 bs))"
  "field_of VfioCapIovaRanges [Fld ''nr_iovas''] bs = le_nat (take 4 (drop 8 bs))"
  using getf_bytes [of 0 2 bs] getf_bytes [of 4 4 bs] getf_bytes [of 8 4 bs]
  by (simp_all add: field_of_def get_at_def field_pos_def VfioCapHeader_def VfioCapIovaRanges_def VfioIovaRange_def last_match_def struct_places_def)

lemma range_fields:
  assumes "i < 5"
  shows "range_at bs i = Inr (le_nat (take 8 (drop (16 + 16 * i) bs)), le_nat (take 8 (drop (24 + 16 * i) bs)))"
proof -
  have p: "field_pos VfioCapIovaRanges [Fld ''ranges'', Idx i, Fld ''start''] = Some (8 * (16 + 16 * i), 8 * 8)"
    "field_pos VfioCapIovaRanges [Fld ''ranges'', Idx i, Fld ''end''] = Some (8 * (24 + 16 * i), 8 * 8)"
    using assms by (simp_all add: field_pos_def VfioCapHeader_def VfioCapIovaRanges_def VfioIovaRange_def last_match_def struct_places_def)
  then show ?thesis using assms by (simp only: range_at_def field_of_def get_at_def p option.map option.case getf_bytes if_True)
qed

lemma add_ranges:
  assumes "n \<le> 5"
  shows "forS [i..<n] (add_range cap) s =
    (Inr (), s\<lparr>v_iova_ranges := v_iova_ranges s @
       map (\<lambda>i. (le_nat (take 8 (drop (16 + 16 * i) cap)), le_nat (take 8 (drop (24 + 16 * i) cap)))) [i..<n]\<rparr>)"
proof (induction "n - i" arbitrary: i s)
  case (Suc k)
  then have i: "[i..<n] = i # [Suc i..<n]" "i < 5" using assms by (simp_all add: upt_conv_Cons)
  have "add_range cap i s = (Inr (), s\<lparr>v_iova_ranges := v_iova_ranges s @
      [(le_nat (take 8 (drop (16 + 16 * i) cap)), le_nat (take 8 (drop (24 + 16 * i) cap)))]\<rparr>)"
    by (simp only: add_range_def range_fields [OF i(2)] bindS_apply st_simps sum.case prod.case)
  then show ?case using Suc(1) [of "Suc i"] Suc(2) by (simp only: i(1) forS.simps thenS_Inr) simp
qed simp


text \<open>
  Capabilities as the kernel lays them out, one behind the other from byte 24 of the structure: the ranges of addresses that
  may be mapped, or another capability with an identifier of its own.
\<close>

datatype iommu_cap = RangesCap "(nat \<times> nat) list" | OtherCap nat "byte list"

fun cap_ranges :: "iommu_cap \<Rightarrow> (nat \<times> nat) list" where
  "cap_ranges (RangesCap rs) = rs"
| "cap_ranges (OtherCap i body) = []"

fun valid_cap :: "iommu_cap \<Rightarrow> bool" where
  "valid_cap (RangesCap rs) \<longleftrightarrow> length rs \<le> 5 \<and> list_all (\<lambda>(a, b). a < 2 ^ 64 \<and> b < 2 ^ 64) rs"
| "valid_cap (OtherCap i body) \<longleftrightarrow> i \<noteq> 1 \<and> i < 2 ^ 16"

fun cap_body :: "iommu_cap \<Rightarrow> byte list" where
  "cap_body (RangesCap rs) = to_le 4 (length rs) @ to_le 4 0 @ concat (map (\<lambda>(a, b). to_le 8 a @ to_le 8 b) rs)"
| "cap_body (OtherCap i body) = body"

fun vfio_cap_id :: "iommu_cap \<Rightarrow> nat" where
  "vfio_cap_id (RangesCap rs) = 1"
| "vfio_cap_id (OtherCap i body) = i"

definition encode_cap :: "iommu_cap \<Rightarrow> nat \<Rightarrow> byte list" where
  "encode_cap c next = to_le 2 (vfio_cap_id c) @ to_le 2 1 @ to_le 4 next @ cap_body c"

fun encode_caps :: "nat \<Rightarrow> iommu_cap list \<Rightarrow> byte list" where
  "encode_caps pos [] = []"
| "encode_caps pos (c # cs) =
     (let pos' = pos + 8 + length (cap_body c) in encode_cap c (if cs = [] then 0 else pos') @ encode_caps pos' cs)"

lemma drop_pairs:
  assumes "i < length rs"
  shows "\<exists>t. drop (16 * i) (concat (map (\<lambda>(a, b). to_le 8 a @ to_le 8 b) rs) @ rest) = to_le 8 (fst (rs ! i)) @ to_le 8 (snd (rs ! i)) @ t"
  using assms
proof (induction rs arbitrary: i)
  case (Cons r rs)
  then show ?case by (cases i; cases r) auto
qed simp

lemma encoded_header:
  assumes "next < 2 ^ 32" "vfio_cap_id c < 2 ^ 16"
  shows "field_of VfioCapHeader [Fld ''id''] (encode_cap c next @ rest) = vfio_cap_id c"
    "field_of VfioCapHeader [Fld ''next''] (encode_cap c next @ rest) = next"
    "8 \<le> length (encode_cap c next @ rest)"
  unfolding cap_fields encode_cap_def using assms by simp_all

lemma encoded_ranges:
  fixes rs :: "(nat \<times> nat) list" and nx :: nat and rest :: "byte list"
  assumes "list_all (\<lambda>(a, b). a < 2 ^ 64 \<and> b < 2 ^ 64) rs" "i < length rs"
  defines "bs \<equiv> encode_cap (RangesCap rs) nx @ rest"
  shows "(le_nat (take 8 (drop (16 + 16 * i) bs)), le_nat (take 8 (drop (24 + 16 * i) bs))) = rs ! i"
proof -
  obtain t where t: "drop (16 * i) (concat (map (\<lambda>(a, b). to_le 8 a @ to_le 8 b) rs) @ rest) = to_le 8 (fst (rs ! i)) @ to_le 8 (snd (rs ! i)) @ t"
    using drop_pairs [OF assms(2)] by blast
  have d: "drop (16 + 16 * i) bs = to_le 8 (fst (rs ! i)) @ to_le 8 (snd (rs ! i)) @ t"
    unfolding t [symmetric] bs_def encode_cap_def by (simp add: drop_append)
  have "drop (24 + 16 * i) bs = drop 8 (drop (16 + 16 * i) bs)" by (simp add: add.commute add.left_commute)
  then have d': "drop (24 + 16 * i) bs = to_le 8 (snd (rs ! i)) @ t" by (simp add: d)
  have "fst (rs ! i) < 2 ^ 64" "snd (rs ! i) < 2 ^ 64" using assms(1,2) by (auto simp: list_all_length case_prod_beta)
  then show ?thesis unfolding d d' by (simp add: prod_eq_iff)
qed

lemma read_encoded_cap:
  assumes "valid_cap c" "next < 2 ^ 32" "80 \<le> length rest"
  shows "read_cap (encode_cap c next @ rest) s = (Inr next, s\<lparr>v_iova_ranges := v_iova_ranges s @ cap_ranges c\<rparr>)"
proof -
  have id: "vfio_cap_id c < 2 ^ 16" using assms(1) by (cases c) auto
  note h = encoded_header [OF assms(2) id, of rest]
  show ?thesis
  proof (cases c)
    case (OtherCap i body)
    then have "vfio_cap_id c \<noteq> 1" using assms(1) by simp
    then show ?thesis unfolding read_cap_def vfio_cap_sizes h(1,2) using h(3) OtherCap by (simp add: thenS_def bindS_def)
  next
    case (RangesCap rs)
    let ?bs = "encode_cap c next @ rest"
    have rs: "length rs \<le> 5" "list_all (\<lambda>(a, b). a < 2 ^ 64 \<and> b < 2 ^ 64) rs" using assms(1) RangesCap by simp_all
    have n: "field_of VfioCapIovaRanges [Fld ''nr_iovas''] ?bs = length rs"
      using rs(1) unfolding cap_fields by (simp add: encode_cap_def RangesCap)
    have l: "96 \<le> length ?bs" using assms(3) by (simp add: encode_cap_def RangesCap)
    have "map (\<lambda>i. (le_nat (take 8 (drop (16 + 16 * i) ?bs)), le_nat (take 8 (drop (24 + 16 * i) ?bs)))) [0..<length rs] = map ((!) rs) [0..<length rs]"
      using encoded_ranges [OF rs(2)] by (intro map_cong) (auto simp: RangesCap)
    then have a: "forS [0..<length rs] (add_range ?bs) s = (Inr (), s\<lparr>v_iova_ranges := v_iova_ranges s @ rs\<rparr>)"
      unfolding add_ranges [OF rs(1)] by (simp add: map_nth)
    show ?thesis unfolding read_cap_def vfio_cap_sizes h(1,2) n using h(3) l a RangesCap by (simp add: thenS_def bindS_def)
  qed
qed

lemma py_from_pos: "py_from (int off - int caps_offset) caps = drop (off - 24) caps" if "24 \<le> off"
proof -
  have "nat (int off - 24) = off - 24" by arith
  then show ?thesis using that by (simp add: py_from_def caps_offset_def)
qed

lemma walk_encoded_caps:
  assumes "list_all valid_cap cs" "cs \<noteq> []" "length cs \<le> n" "24 \<le> pos" "drop (pos - 24) caps = encode_caps pos cs @ rest"
    and "80 \<le> length rest" "pos + length (encode_caps pos cs) < 2 ^ 32"
  shows "walk_caps (Suc n) caps pos s = (Inr (), s\<lparr>v_iova_ranges := v_iova_ranges s @ concat (map cap_ranges cs)\<rparr>)"
  using assms
proof (induction cs arbitrary: n pos s)
  case (Cons c cs)
  let ?pos' = "pos + 8 + length (cap_body c)" and ?s = "s\<lparr>v_iova_ranges := v_iova_ranges s @ cap_ranges c\<rparr>"
  define nx where "nx = (if cs = [] then 0 else ?pos')"
  have e: "encode_caps pos (c # cs) = encode_cap c nx @ encode_caps ?pos' cs" by (simp add: nx_def Let_def)
  have len: "length (encode_cap c nx) = 8 + length (cap_body c)" by (simp add: encode_cap_def)
  have nx: "nx < 2 ^ 32" using Cons.prems(7) unfolding e length_append len by (simp add: nx_def)
  obtain off where off: "pos = Suc off" using Cons.prems(4) by (cases pos) auto
  have d: "drop (pos - 24) caps = encode_cap c nx @ (encode_caps ?pos' cs @ rest)" using Cons.prems(5) by (simp only: e append_assoc)
  have "read_cap (py_from (int (Suc off) - int caps_offset) caps) s = (Inr nx, ?s)"
    unfolding py_from_pos [OF Cons.prems(4), unfolded off] d [unfolded off]
    using Cons.prems(1,6) by (intro read_encoded_cap nx) auto
  moreover have "0 < n" using Cons.prems(3) by simp
  ultimately have w: "walk_caps (Suc n) caps pos s = walk_caps n caps nx ?s" by (simp add: off)
  obtain n' where n': "n = Suc n'" using \<open>0 < n\<close> by (cases n) auto
  show ?case
  proof (cases "cs = []")
    case True
    then show ?thesis using w by (simp add: nx_def n')
  next
    case False
    have "drop (?pos' - 24) caps = drop (8 + length (cap_body c)) (drop (pos - 24) caps)"
      using Cons.prems(4) by (simp add: algebra_simps)
    then have d': "drop (?pos' - 24) caps = encode_caps ?pos' cs @ rest" unfolding d by (simp add: len [symmetric])
    have "walk_caps (Suc n') caps ?pos' ?s = (Inr (), ?s\<lparr>v_iova_ranges := v_iova_ranges ?s @ concat (map cap_ranges cs)\<rparr>)"
      using Cons.prems(1,3,4,6,7) False unfolding e n' by (intro Cons.IH d') (auto simp: len)
    then show ?thesis using w False by (simp add: nx_def n')
  qed
qed simp

text \<open>
  Property C26. Whatever capabilities the kernel lays out, \<open>initialize\<close> collects the ranges of all of them, in order, provided that none has more than five
  and that the buffer goes on for 80 bytes behind the last one.
\<close>

theorem iommu_ranges_roundtrip:
  assumes "list_all valid_cap cs" "length caps \<le> 1024" "caps = encode_caps 24 cs @ rest" "80 \<le> length rest"
  shows "walk_caps 1000 caps (if cs = [] then 0 else 24) s =
    (Inr (), s\<lparr>v_iova_ranges := v_iova_ranges s @ concat (map cap_ranges cs)\<rparr>)"
proof (cases "cs = []")
  case False
  have n: "8 * length cs \<le> length (encode_caps pos cs)" for pos
  proof (induction cs arbitrary: pos)
    case (Cons c cs)
    from Cons.IH [of "pos + 8 + length (cap_body c)"] show ?case by (simp add: encode_cap_def Let_def)
  qed simp
  have "length cs \<le> 999" "24 + length (encode_caps 24 cs) < 2 ^ 32" using n [of 24] assms(2,3) by simp_all
  from walk_encoded_caps [OF assms(1) False this(1) _ _ assms(4) this(2), of caps] assms(3)
  show ?thesis using False by simp
qed simp

lemma iommu_ranges_roundtrip_witness:
  "v_iova_ranges (snd (walk_caps 1000 (encode_caps 24 [OtherCap 2 [0, 0, 0, 0], RangesCap [(0, 0xFEDFFFFF), (0xFEF00000, 2 ^ 48 - 1)]] @ zeros 80) 24
     (new_vfio () ''0000:01:00.0'' None None))) = [(0, 0xFEDFFFFF), (0xFEF00000, 2 ^ 48 - 1)]"
proof -
  let ?cs = "[OtherCap 2 [0, 0, 0, 0], RangesCap [(0, 0xFEDFFFFF), (0xFEF00000, 2 ^ 48 - 1)]]"
  have "length (encode_caps 24 ?cs @ zeros 80) \<le> 1024" by (simp add: encode_cap_def Let_def)
  from iommu_ranges_roundtrip [OF _ this refl, of "new_vfio () ''0000:01:00.0'' None None"]
  show ?thesis by (simp add: new_vfio_def)
qed

text \<open>Six ranges in one capability are more than the structure has room for: the loop raises after the first five.\<close>

lemma too_many_ranges:
  fixes s :: "'k vfio"
  assumes "96 \<le> length cap" "le_nat (take 2 cap) = 1" "5 < le_nat (take 4 (drop 8 cap))"
  shows "read_cap cap s = (Inl IndexError, s\<lparr>v_iova_ranges := v_iova_ranges s @
    map (\<lambda>i. (le_nat (take 8 (drop (16 + 16 * i) cap)), le_nat (take 8 (drop (24 + 16 * i) cap)))) [0..<5]\<rparr>)"
proof -
  have f: "forS (xs @ y # ys) (add_range cap) s = (Inl e, t)"
    if "forS xs (add_range cap) s = (Inr (), t)" "\<And>t :: 'k vfio. add_range cap y t = (Inl e, t)" for xs y ys e and s t :: "'k vfio"
    using that(1) by (induction xs arbitrary: s) (auto simp: that(2) thenS_def bindS_def split: prod.splits sum.splits)
  have "[0..<le_nat (take 4 (drop 8 cap))] = [0..<5] @ 5 # [6..<le_nat (take 4 (drop 8 cap))]"
    using assms(3) upt_add_eq_append [of 0 5 "le_nat (take 4 (drop 8 cap)) - 5"] by (simp add: upt_conv_Cons)
  moreover have five: "add_range cap 5 t = (Inl IndexError, t)" for t :: "'k vfio" by (simp add: add_range_def range_at_def bindS_apply)
  moreover note f [OF add_ranges [OF order_refl] five]
  ultimately have "forS [0..<le_nat (take 4 (drop 8 cap))] (add_range cap) s = (Inl IndexError, s\<lparr>v_iova_ranges := v_iova_ranges s @
      map (\<lambda>i. (le_nat (take 8 (drop (16 + 16 * i) cap)), le_nat (take 8 (drop (24 + 16 * i) cap)))) [0..<5]\<rparr>)"
    by (simp only:)
  then show ?thesis unfolding read_cap_def cap_fields vfio_cap_sizes using assms(1,2) by (simp add: thenS_def bindS_def)
qed

text \<open>A capability whose next pointer leads back to itself is read a thousand times, then the assertion stops the loop.\<close>

lemma walk_cycle:
  fixes s :: "'k vfio"
  assumes "\<And>s :: 'k vfio. \<exists>s'. read_cap (py_from (int (Suc off) - int caps_offset) caps) s = (Inr (Suc off), s')"
  shows "fst (walk_caps n caps (Suc off) s) = Inl AssertionError"
proof (induction n arbitrary: s)
  case (Suc n)
  obtain s' where "read_cap (py_from (int (Suc off) - int caps_offset) caps) s = (Inr (Suc off), s')" using assms by blast
  then show ?case using Suc [of s'] by (cases "n = 0") simp_all
qed simp

section \<open>Interrupts\<close>

definition calls_return :: "'k kernel \<Rightarrow> bool" where
  "calls_return K \<longleftrightarrow> (\<forall>k. ok (fst (k_eventfd K k)) \<and> (\<forall>fd nr arg. ok (fst (k_ioctl K fd nr arg k))))"

text \<open>What a \<open>VFIO_DEVICE_SET_IRQS\<close> request asks for: a descriptor for each vector.\<close>

definition irq_bindings :: "byte list \<Rightarrow> (nat \<times> nat) list" where
  "irq_bindings bs = (let f = (\<lambda>path. field_of (io_layout vfioSetIRQs) path bs) in
     map (\<lambda>j. (f [Fld ''start''] + j, f [Fld ''data'', Idx j])) [0..<f [Fld ''count'']])"

lemma kernelS_Inr_iff: "kernelS f s = (Inr x, s') \<longleftrightarrow> (\<exists>k. f (v_kernel s) = (Inr x, k) \<and> s' = s\<lparr>v_kernel := k\<rparr>)"
  by (auto simp: kernelS_def split: prod.split)

lemma set_irqs_pos:
  "j < 4096 \<Longrightarrow> field_pos (io_layout vfioSetIRQs) [Fld ''data'', Idx j] = Some (160 + 32 * j, 32)"
  "field_pos (io_layout vfioSetIRQs) [Fld ''argsz''] = Some (0, 32)"
  "field_pos (io_layout vfioSetIRQs) [Fld ''flags''] = Some (32, 32)"
  "field_pos (io_layout vfioSetIRQs) [Fld ''index''] = Some (64, 32)"
  "field_pos (io_layout vfioSetIRQs) [Fld ''start''] = Some (96, 32)"
  "field_pos (io_layout vfioSetIRQs) [Fld ''count''] = Some (128, 32)"
  by (simp_all add: vfioSetIRQs_def field_pos_def last_match_def struct_places_def)

lemma msix_fds_result:
  assumes "msix_fds K i n bs s = (Inr bs', s')" "length bs = 16404" "i \<le> 4096"
  shows "\<exists>fds. length fds = n \<and> i + n \<le> 4096 \<and> s' = s\<lparr>eventfds := eventfds s @ fds, v_kernel := v_kernel s'\<rparr> \<and> length bs' = 16404 \<and>
    (\<forall>j < n. getf (160 + 32 * (i + j), 32) bs' = fds ! j mod 2 ^ 32) \<and> (\<forall>f. fst f + snd f \<le> 160 + 32 * i \<longrightarrow> getf f bs' = getf f bs)"
  using assms
proof (induction n arbitrary: i bs s)
  case (Suc n)
  then obtain fd k where fd: "k_eventfd K (v_kernel s) = (Inr fd, k)" and i: "i < 4096"
    and r: "msix_fds K (i + 1) n (set_at (io_layout vfioSetIRQs) [Fld ''data'', Idx i] fd bs)
      (s\<lparr>v_kernel := k, eventfds := eventfds s @ [fd]\<rparr>) = (Inr bs', s')"
    by (auto simp: bindS_eq_Inr_iff thenS_eq_Inr_iff kernelS_Inr_iff split: if_splits)
  let ?bs = "setf (160 + 32 * i, 32) fd bs"
  have fits: "fits (160 + 32 * i, 32) bs" using i Suc.prems(2) by (simp add: fits_def)
  obtain fds where fds: "length fds = n" "(i + 1) + n \<le> 4096"
    "s' = s\<lparr>v_kernel := k, eventfds := eventfds s @ [fd]\<rparr>\<lparr>eventfds := (eventfds s @ [fd]) @ fds, v_kernel := v_kernel s'\<rparr>" "length bs' = 16404"
    "\<And>j. j < n \<Longrightarrow> getf (160 + 32 * (i + 1 + j), 32) bs' = fds ! j mod 2 ^ 32"
    "\<And>f. fst f + snd f \<le> 160 + 32 * (i + 1) \<Longrightarrow> getf f bs' = getf f ?bs"
    using Suc.IH [OF r] Suc.prems(2) i by (auto simp: set_at_def set_irqs_pos)
  have "getf (160 + 32 * (i + j), 32) bs' = (fd # fds) ! j mod 2 ^ 32" if "j < Suc n" for j
  proof (cases j)
    case 0
    then show ?thesis using fds(6) [of "(160 + 32 * i, 32)"] fits by simp
  next
    case (Suc j')
    then show ?thesis using fds(5) [of j'] that by (simp add: algebra_simps)
  qed
  moreover have "getf f bs' = getf f bs" if "fst f + snd f \<le> 160 + 32 * i" for f
    using fds(6) [of f] getf_setf_apart [OF fits, of f fd] that by (simp add: apart_def)
  moreover have "s' = s\<lparr>eventfds := eventfds s @ fd # fds, v_kernel := v_kernel s'\<rparr>" using fds(3) by (cases s; cases s') simp
  ultimately show ?case using fds(1,2,4) by (intro exI [of _ "fd # fds"]) auto
qed auto

lemma enable_msix_result:
  assumes "enable_msix K n start s = (Inr (), s')"
  shows "\<exists>fds dfd bs k r. n \<le> 4096 \<and> length fds = n \<and> v_device_fd s = Some dfd \<and>
    s' = s\<lparr>eventfds := eventfds s @ fds, v_kernel := v_kernel s'\<rparr> \<and>
    k_ioctl K dfd (io_number K 59 110) (BufArg bs) k = (Inr r, v_kernel s') \<and>
    get_at (io_layout vfioSetIRQs) [Fld ''index''] bs = Some 2 \<and> get_at (io_layout vfioSetIRQs) [Fld ''flags''] bs = Some 36 \<and>
    irq_bindings bs = map (\<lambda>j. (start mod 2 ^ 32 + j, fds ! j mod 2 ^ 32)) [0..<n]"
proof -
  let ?bs0 = "request vfioSetIRQs [(''count'', n), (''flags'', or VFIO_IRQ_SET_DATA_EVENTFD VFIO_IRQ_SET_ACTION_TRIGGER),
     (''index'', VFIO_PCI_MSIX_IRQ_INDEX), (''start'', start)]"
  obtain bs1 t dfd r where m: "msix_fds K 0 n ?bs0 s = (Inr bs1, t)" and d: "v_device_fd t = Some dfd"
    and io: "ioctlS K vfioSetIRQs dfd bs1 None t = (Inr r, s')"
    using assms unfolding enable_msix_def by (auto simp: st_iffs attrS_def split: option.splits)
  have len: "length ?bs0 = 16404" unfolding length_request by (simp add: vfioSetIRQs_def)
  obtain fds where fds: "length fds = n" "n \<le> 4096" "t = s\<lparr>eventfds := eventfds s @ fds, v_kernel := v_kernel t\<rparr>" "length bs1 = 16404"
    "\<And>j. j < n \<Longrightarrow> getf (160 + 32 * j, 32) bs1 = fds ! j mod 2 ^ 32" "\<And>f. fst f + snd f \<le> 160 \<Longrightarrow> getf f bs1 = getf f ?bs0"
    using msix_fds_result [OF m len] by auto
  define bs where "bs = ioctl_buffer vfioSetIRQs bs1"
  have buf: "bs = setf (0, 32) 16404 bs1" by (simp add: bs_def ioctl_buffer_def set_at_def set_irqs_pos) (simp add: vfioSetIRQs_def)
  have keep: "getf f bs = getf f bs1" if "32 \<le> fst f" for f
    unfolding buf using that fds(4) by (intro getf_setf_apart) (auto simp: fits_def apart_def)
  have c: "vfioSetIRQs \<in> set ioctl_classes" by (simp add: ioctl_classes_def)
  have same: "getf f (ioctl_buffer vfioSetIRQs ?bs0) = getf f ?bs0" if "32 \<le> fst f" for f
  proof -
    have "ioctl_buffer vfioSetIRQs ?bs0 = setf (0, 32) (csize (io_layout vfioSetIRQs)) ?bs0" by (simp add: ioctl_buffer_def set_at_def set_irqs_pos)
    then show ?thesis using getf_setf_apart [of "(0, 32)" ?bs0 f] that len by (simp add: fits_def apart_def)
  qed
  note rf = request_field [OF c, where nvs = "[(''count'', n), (''flags'', or VFIO_IRQ_SET_DATA_EVENTFD VFIO_IRQ_SET_ACTION_TRIGGER),
     (''index'', VFIO_PCI_MSIX_IRQ_INDEX), (''start'', start)]"]
  have e: "getf f bs = getf f (ioctl_buffer vfioSetIRQs ?bs0)" if "32 \<le> fst f" "fst f + snd f \<le> 160" for f
    using keep [OF that(1)] fds(6) [OF that(2)] same [OF that(1)] by simp
  have f: "getf (32, 32) bs = 36" "getf (64, 32) bs = 2" "getf (96, 32) bs = start mod 2 ^ 32" "getf (128, 32) bs = n"
    using rf [OF _ set_irqs_pos(3)] rf [OF _ set_irqs_pos(4)] rf [OF _ set_irqs_pos(5)] rf [OF _ set_irqs_pos(6)] fds(2)
    by (simp_all add: e VFIO_IRQ_SET_DATA_EVENTFD_def VFIO_IRQ_SET_ACTION_TRIGGER_def VFIO_PCI_MSIX_IRQ_INDEX_def)
  have data: "getf (160 + 32 * j, 32) bs = fds ! j mod 2 ^ 32" if "j < n" for j using that by (simp add: keep fds(5))
  have "irq_bindings bs = map (\<lambda>j. (start mod 2 ^ 32 + j, fds ! j mod 2 ^ 32)) [0..<n]"
    using fds(2) data by (auto simp: irq_bindings_def field_of_def get_at_def set_irqs_pos f Let_def)
  moreover have "k_ioctl K dfd (io_number K 59 110) (BufArg bs) (v_kernel t) = (Inr r, v_kernel s')" "s' = t\<lparr>v_kernel := v_kernel s'\<rparr>"
  proof -
    have nr: "io_number K VFIO_IOCTL_TYPE (VFIO_IOCTL_BASE + io_nr vfioSetIRQs) = io_number K 59 110"
      by (simp add: VFIO_IOCTL_TYPE_def VFIO_IOCTL_BASE_def vfioSetIRQs_def)
    from io obtain k where "k_ioctl K dfd (io_number K 59 110) (BufArg bs) (v_kernel t) = (Inr r, k)" "s' = t\<lparr>v_kernel := k\<rparr>"
      unfolding ioctlS_def kernelS_Inr_iff nr bs_def option.case by blast
    then show "k_ioctl K dfd (io_number K 59 110) (BufArg bs) (v_kernel t) = (Inr r, v_kernel s')" "s' = t\<lparr>v_kernel := v_kernel s'\<rparr>" by simp_all
  qed
  moreover have "v_device_fd s = Some dfd" using arg_cong [OF fds(3), of v_device_fd] d by simp
  moreover have "s' = s\<lparr>eventfds := eventfds s @ fds, v_kernel := v_kernel s'\<rparr>" using fds(3) calculation(3) by (cases s; cases t; cases s') simp
  moreover have "get_at (io_layout vfioSetIRQs) [Fld ''index''] bs = Some 2" "get_at (io_layout vfioSetIRQs) [Fld ''flags''] bs = Some 36"
    using f(1,2) by (simp_all add: get_at_def set_irqs_pos)
  ultimately show ?thesis using fds(1,2) by blast
qed

lemma ok_fst_iff: "ok (fst p) \<longleftrightarrow> (\<exists>x t. p = (Inr x, t))"
  by (cases p) (auto simp: ok_def split: sum.split)

lemma calls_returnD:
  assumes "calls_return K"
  shows "\<exists>fd k'. k_eventfd K k = (Inr fd, k')" "\<exists>x k'. k_ioctl K d nr arg k = (Inr x, k')"
  using assms unfolding calls_return_def ok_fst_iff by blast+

lemma msix_fds_outcome:
  assumes "calls_return K" "i \<le> 4096"
  shows "\<exists>s'. v_device_fd s' = v_device_fd s \<and> (if i + n \<le> 4096 then \<exists>bs'. msix_fds K i n bs s = (Inr bs', s')
    else msix_fds K i n bs s = (Inl IndexError, s') \<and> length (eventfds s') = length (eventfds s) + (4096 - i))"
  using assms(2)
proof (induction n arbitrary: i bs s)
  case (Suc n)
  obtain fd k where e: "k_eventfd K (v_kernel s) = (Inr fd, k)" using calls_returnD(1) [OF assms(1)] by blast
  show ?case
  proof (cases "i = 4096")
    case True
    then show ?thesis using e by (intro exI [of _ "s\<lparr>v_kernel := k\<rparr>"]) (simp add: bindS_def kernelS_def)
  next
    case False
    then have i: "i < 4096" using Suc.prems by simp
    then have r: "msix_fds K i (Suc n) bs s = msix_fds K (i + 1) n (set_at (io_layout vfioSetIRQs) [Fld ''data'', Idx i] fd bs)
        (s\<lparr>v_kernel := k, eventfds := eventfds s @ [fd]\<rparr>)"
      using e by (simp add: bindS_def thenS_def kernelS_def)
    show ?thesis unfolding r
      using Suc.IH [of "i + 1" "s\<lparr>v_kernel := k, eventfds := eventfds s @ [fd]\<rparr>" "set_at (io_layout vfioSetIRQs) [Fld ''data'', Idx i] fd bs"] i
      by (auto split: if_splits)
  qed
qed auto

lemma enable_msix_outcome:
  assumes "calls_return K" "v_device_fd s = Some dfd"
  shows "if n \<le> 4096 then \<exists>s'. enable_msix K n start s = (Inr (), s')
    else \<exists>s'. enable_msix K n start s = (Inl IndexError, s') \<and> length (eventfds s') = length (eventfds s) + 4096"
proof -
  let ?bs0 = "request vfioSetIRQs [(''count'', n), (''flags'', or VFIO_IRQ_SET_DATA_EVENTFD VFIO_IRQ_SET_ACTION_TRIGGER),
     (''index'', VFIO_PCI_MSIX_IRQ_INDEX), (''start'', start)]"
  obtain t where t: "v_device_fd t = Some dfd" "if n \<le> 4096 then \<exists>bs'. msix_fds K 0 n ?bs0 s = (Inr bs', t)
      else msix_fds K 0 n ?bs0 s = (Inl IndexError, t) \<and> length (eventfds t) = length (eventfds s) + 4096"
    using msix_fds_outcome [OF assms(1), of 0 s n ?bs0] assms(2) by auto
  show ?thesis
  proof (cases "n \<le> 4096")
    case True
    then obtain bs' where m: "msix_fds K 0 n ?bs0 s = (Inr bs', t)" using t(2) by auto
    obtain x k where io: "k_ioctl K dfd (io_number K VFIO_IOCTL_TYPE (VFIO_IOCTL_BASE + io_nr vfioSetIRQs)) (BufArg (ioctl_buffer vfioSetIRQs bs')) (v_kernel t) = (Inr x, k)"
      using calls_returnD(2) [OF assms(1)] by blast
    then show ?thesis using True m t(1) by (simp add: enable_msix_def bindS_def attrS_def ioctlS_def kernelS_def)
  next
    case False
    then show ?thesis using t(2) by (auto simp: enable_msix_def bindS_def)
  qed
qed

text \<open>
  Property C27. After \<open>enable_msix\<close> of \<open>n\<close> vectors from \<open>start\<close> on a new object, the descriptor that the kernel binds to vector \<open>start + j\<close> is the one that
  \<open>get_msix_vector_pending_count j\<close> reads: a vector number is taken for a position, so unless \<open>start\<close> is 0 every count is that of another vector, and that of the
  last vectors raises.
\<close>

theorem msix_descriptor_offset:
  assumes "enable_msix K n start s = (Inr (), s')" "eventfds s = []"
  shows "\<exists>dfd bs k r. k_ioctl K dfd (io_number K 59 110) (BufArg bs) k = (Inr r, v_kernel s') \<and>
    irq_bindings bs = map (\<lambda>j. (start mod 2 ^ 32 + j, eventfds s' ! j mod 2 ^ 32)) [0..<n] \<and> length (eventfds s') = n \<and>
    (\<forall>v. fst (get_msix_vector_pending_count K v s') =
      (if n \<le> v then Inl IndexError
       else case fst (k_read K (eventfds s' ! v) 8 (v_kernel s')) of
         Inr data \<Rightarrow> Inr (le_nat data) | Inl e \<Rightarrow> if e = BlockingIOError then Inr 0 else Inl e))"
proof -
  obtain fds dfd bs k r where fds: "length fds = n" "s' = s\<lparr>eventfds := eventfds s @ fds, v_kernel := v_kernel s'\<rparr>"
    and io: "k_ioctl K dfd (io_number K 59 110) (BufArg bs) k = (Inr r, v_kernel s')"
    and b: "irq_bindings bs = map (\<lambda>j. (start mod 2 ^ 32 + j, fds ! j mod 2 ^ 32)) [0..<n]"
    using enable_msix_result [OF assms(1)] by blast
  have e: "eventfds s' = fds" using arg_cong [OF fds(2), of eventfds] assms(2) by simp
  have "fst (get_msix_vector_pending_count K v s') = (if n \<le> v then Inl IndexError
       else case fst (k_read K (fds ! v) 8 (v_kernel s')) of
         Inr data \<Rightarrow> Inr (le_nat data) | Inl e \<Rightarrow> if e = BlockingIOError then Inr 0 else Inl e)" for v
    by (cases "k_read K (fds ! v) 8 (v_kernel s')"; cases "fst (k_read K (fds ! v) 8 (v_kernel s'))")
      (auto simp: get_msix_vector_pending_count_def bindS_apply e list_get_def fds(1) kernelS_def)
  with io b show ?thesis unfolding e using fds(1) by blast
qed

text \<open>
  A kernel for examples, whose state is the list of the requests it got: it answers as for a device with a first region of 16 KiB and an IOMMU
  with one range of addresses.
\<close>

definition quiet_caps :: "byte list" where
  "quiet_caps = encode_caps 24 [RangesCap [(0x1000, 2 ^ 40)]] @ zeros 80"

definition quiet_answer :: "nat \<Rightarrow> nat \<times> byte list" where
  "quiet_answer nr = (if nr = 1 then (1, []) else if nr = 3 then (0, to_le 8 12884901888) else if nr = 6 then (5, [])
     else if nr = 7 then (0, to_le 16 166020696663385964544) else if nr = 8 then (0, to_le 32 5575186299632655785383929568162090376495104)
     else if nr = 12 then (0, zeros 16 @ to_le 4 24 @ to_le 4 0 @ quiet_caps) else (0, []))"

definition quiet_kernel :: "(nat \<times> nat \<times> ioctl_arg) list kernel" where
  "quiet_kernel = \<lparr>k_readlink = (\<lambda>p. retS ''../../26''), k_exists = (\<lambda>p. retS True), k_open = (\<lambda>p. retS 3), k_close = (\<lambda>fd. retS ()),
     k_ioctl = (\<lambda>fd nr arg k. (Inr (quiet_answer (nr - 100)), k @ [(fd, nr, arg)])),
     k_eventfd = (\<lambda>k. (Inr (length k), k)), k_read = (\<lambda>fd n. retS (to_le 8 fd)), k_pread = (\<lambda>fd n off. retS (zeros n)),
     k_pwrite = (\<lambda>fd bs off. retS (length bs)), k_mmap = (\<lambda>fd n off. retS 0x10000), k_munmap = (\<lambda>a. retS ()),
     k_load = (\<lambda>a n. retS (zeros n)), io_number = (\<lambda>t nr. nr)\<rparr>"

lemma quiet_kernel_returns: "calls_return quiet_kernel"
  by (simp add: calls_return_def quiet_kernel_def)

lemma msix_descriptor_offset_witness:
  "\<exists>s'. enable_msix quiet_kernel 2 1 ((new_vfio [] ''0000:01:00.0'' None None)\<lparr>v_device_fd := Some 5\<rparr>) = (Inr (), s') \<and>
    fst (get_msix_vector_pending_count quiet_kernel 2 s') = Inl IndexError"
proof -
  let ?s = "(new_vfio [] ''0000:01:00.0'' None None)\<lparr>v_device_fd := Some 5\<rparr>"
  obtain s' where s': "enable_msix quiet_kernel 2 1 ?s = (Inr (), s')"
    using enable_msix_outcome [OF quiet_kernel_returns, of ?s 5 2 1] by auto
  from msix_descriptor_offset [OF this] have "fst (get_msix_vector_pending_count quiet_kernel 2 s') = Inl IndexError"
    by (auto simp: new_vfio_def)
  then show ?thesis using s' by blast
qed

section \<open>What \<open>initialize\<close> leaves behind\<close>

definition opened :: "'k vfio \<Rightarrow> bool" where
  "opened s \<longleftrightarrow> container_fd s \<noteq> None \<and> group_fd s \<noteq> None \<and> v_device_fd s \<noteq> None \<and> v_device_fd s \<noteq> Some 0 \<and>
     map_option length (bars s) = Some 6 \<and> pci_region s \<noteq> None \<and> rom_region s \<noteq> None"

lemma keeps_kernel [keeps_intros]: "(\<And>s k. P s \<Longrightarrow> P (s\<lparr>v_kernel := k\<rparr>)) \<Longrightarrow> keeps P (kernelS f)"
  by (auto simp: keeps_def kernelS_def split: prod.split)

lemma keeps_ioctl [keeps_intros]: "(\<And>s k. P s \<Longrightarrow> P (s\<lparr>v_kernel := k\<rparr>)) \<Longrightarrow> keeps P (ioctlS K c fd bs arg)"
  by (simp add: ioctlS_def keeps_kernel)

lemma keeps_attr [keeps_intros]: "keeps P (attrS f)"
  by (simp add: attrS_def keeps_intros)

lemma keeps_set_bars:
  assumes "forS is (set_bar K fd) s = (r, s')"
  shows "container_fd s' = container_fd s \<and> group_fd s' = group_fd s \<and> v_device_fd s' = v_device_fd s \<and>
    map_option length (bars s') = map_option length (bars s)"
proof -
  let ?P = "\<lambda>t. container_fd t = container_fd s \<and> group_fd t = group_fd s \<and> v_device_fd t = v_device_fd s \<and>
    map_option length (bars t) = map_option length (bars s)"
  have "keeps ?P (forS is (set_bar K fd))"
    by (auto simp: set_bar_def region_of_def Let_def option.map_comp comp_def intro!: keeps_intros keeps_modify)
  from keepsD [OF this _ assms] show ?thesis by simp
qed

lemma attrS_Inr_iff: "attrS f s = (Inr x, s') \<longleftrightarrow> f s = Some x \<and> s' = s"
  by (auto simp: attrS_def split: option.split)

lemma ioctl_attrs:
  "ioctlS K c fd bs arg s = (Inr x, s') \<Longrightarrow> container_fd s' = container_fd s \<and> group_fd s' = group_fd s \<and> v_device_fd s' = v_device_fd s \<and>
     bars s' = bars s \<and> pci_region s' = pci_region s"
  by (auto simp: ioctlS_def kernelS_Inr_iff)

lemma region_attrs:
  "region_of K fd i s = (Inr x, s') \<Longrightarrow> container_fd s' = container_fd s \<and> group_fd s' = group_fd s \<and> v_device_fd s' = v_device_fd s \<and>
     bars s' = bars s \<and> pci_region s' = pci_region s"
  by (auto simp: region_of_def bindS_eq_Inr_iff Let_def dest: ioctl_attrs)

lemma open_device_opens:
  assumes "open_device K s = (Inr (), s')" "container_fd s \<noteq> None"
  shows "opened s' \<and> length (v_pci_slot s) \<le> 12"
proof -
  have "length name \<le> 12" if "slot_string name = Inr bs" for name bs
    using that by (auto simp: slot_string_def split: if_splits)
  then show ?thesis using assms unfolding open_device_def opened_def
    by (auto simp only: st_iffs attrS_Inr_iff st_simps assertS_apply prod.case prod.inject sum.inject split: if_splits)
      (auto dest!: ioctl_attrs region_attrs keeps_set_bars)
qed

lemma keeps_walk:
  assumes "\<And>s k. P s \<Longrightarrow> P (s\<lparr>v_iova_ranges := k\<rparr>)"
  shows "keeps P (walk_caps n caps off)"
proof (induction n caps off rule: walk_caps.induct)
  case (3 n caps off)
  show ?case unfolding walk_caps.simps read_cap_def add_range_def by (intro keeps_intros keeps_modify assms 3)
qed (simp_all add: keeps_def)

lemma vfio_initialize_result:
  assumes "vfio_initialize K s = (Inr (), s')"
  shows "opened s'" "length (v_pci_slot s) \<le> 12"
proof -
  obtain s1 s2 s3 s4 where o1: "open_group K s = (Inr (), s1)" and o2: "check_api K s1 = (Inr (), s2)" and o3: "join_container K s2 = (Inr (), s3)"
    and o4: "read_iommu K s3 = (Inr (), s4)" and o5: "open_device K s4 = (Inr (), s')"
    using assms by (auto simp: vfio_initialize_def thenS_eq_Inr_iff)
  let ?P = "\<lambda>t. v_pci_slot t = v_pci_slot s"
  have slots: "keeps ?P (open_group K)" "keeps ?P (check_api K)" "keeps ?P (join_container K)"
    by (auto simp: open_group_def check_api_def join_container_def group_flags_def intro!: keeps_intros keeps_modify)
  have slot4: "keeps ?P (read_iommu K)"
    by (auto simp: read_iommu_def intro!: keeps_intros keeps_modify keeps_walk)
  have slot: "v_pci_slot s4 = v_pci_slot s"
    using keepsD [OF slot4 _ o4] keepsD [OF slots(3) _ o3] keepsD [OF slots(2) _ o2] keepsD [OF slots(1) _ o1] by simp
  have c2: "container_fd s2 \<noteq> None" using o3 by (auto simp: join_container_def bindS_eq_Inr_iff attrS_Inr_iff)
  let ?Q = "\<lambda>t. container_fd t \<noteq> None"
  have "keeps ?Q (join_container K)" "keeps ?Q (read_iommu K)"
    by (auto simp: join_container_def group_flags_def read_iommu_def intro!: keeps_intros keeps_modify keeps_walk)
  from keepsD [OF this(2) _ o4] keepsD [OF this(1) c2 o3] have "container_fd s4 \<noteq> None" by simp
  from open_device_opens [OF o5 this] show "opened s'" "length (v_pci_slot s) \<le> 12" by (simp_all add: slot)
qed

lemmas vfio_initialize_opened = vfio_initialize_result(1)

text \<open>
  Property C25. Once \<open>initialize\<close> has returned, every attribute that the other operations read is there: as long as the kernel answers, mapping, unmapping, reset
  and the interrupt requests return, \<open>enable_msix\<close> exactly for at most 4096 vectors, and the registers can be mapped exactly when the first base address region has
  room for all of them.
\<close>

theorem vfio_opened:
  assumes "vfio_initialize K s = (Inr (), s')"
  shows "opened s' \<and> length (v_pci_slot s) \<le> 12 \<and>
    (calls_return K \<longrightarrow>
      (\<forall>v i n f. ok (fst (map_dma_region K v i n f s')) \<and> ok (fst (unmap_dma_region K i n s'))) \<and> ok (fst (vfio_reset K s')) \<and>
      (\<forall>i. ok (fst (get_irq_info K i s'))) \<and> (\<forall>n start. ok (fst (enable_msix K n start s')) \<longleftrightarrow> n \<le> 4096) \<and>
      ((\<forall>fd n off k. ok (fst (k_mmap K fd n off k))) \<longrightarrow> ok (fst (map_nvme_regs K s')) = (0x3000 \<le> r_size (hd (the (bars s'))))))"
proof -
  note op = vfio_initialize_result(1) [OF assms] and len = vfio_initialize_result(2) [OF assms]
  obtain cfd dfd bs where f: "container_fd s' = Some cfd" "v_device_fd s' = Some dfd" "bars s' = Some bs" "length bs = 6"
    using op by (auto simp: opened_def)
  then obtain b0 bs' where b0: "bs = b0 # bs'" by (cases bs) auto
  have io: "\<exists>x k. ioctlS K c fd b a t = (Inr x, t\<lparr>v_kernel := k\<rparr>)" if "calls_return K" for c fd b a t
    using calls_returnD(2) [OF that] by (simp add: ioctlS_def kernelS_def) (metis old.prod.case)
  have dma: "ok (fst (map_dma_region K v i n fl s'))" "ok (fst (unmap_dma_region K i n s'))" "ok (fst (vfio_reset K s'))" "ok (fst (get_irq_info K j s'))"
    if "calls_return K" for v i n fl j
    unfolding map_dma_region_def unmap_dma_region_def vfio_reset_def get_irq_info_def bindS_apply attrS_def
    using io [OF that] by (simp_all add: f split: prod.split sum.split) (metis prod.inject sum.distinct(1))+
  have msix: "ok (fst (enable_msix K n start s')) \<longleftrightarrow> n \<le> 4096" if "calls_return K" for n start
    using enable_msix_outcome [OF that f(2), of n start] by (auto split: if_splits)
  have regs: "ok (fst (map_nvme_regs K s')) = (0x3000 \<le> r_size (hd (the (bars s'))))" if m: "\<forall>fd n off k. ok (fst (k_mmap K fd n off k))"
  proof -
    obtain a k where "k_mmap K dfd (r_size b0) (r_offset b0) (v_kernel s') = (Inr a, k)" using m unfolding ok_fst_iff by blast
    then show ?thesis by (simp add: map_nvme_regs_def bindS_apply thenS_def attrS_def f b0 kernelS_def NVMe_Registers_size)
  qed
  show ?thesis using op len dma msix regs by blast
qed

definition quiet_call :: "ioctl_class \<Rightarrow> nat \<Rightarrow> byte list \<Rightarrow> nat option \<Rightarrow> nat \<times> nat \<times> ioctl_arg" where
  "quiet_call c fd bs arg = (fd, 100 + io_nr c, case arg of None \<Rightarrow> BufArg (ioctl_buffer c bs) | Some n \<Rightarrow> IntArg n)"

lemma quiet_ioctl:
  "ioctlS quiet_kernel c fd bs arg s = (Inr (quiet_answer (io_nr c)), s\<lparr>v_kernel := v_kernel s @ [quiet_call c fd bs arg]\<rparr>)"
  by (simp add: ioctlS_def kernelS_def quiet_kernel_def VFIO_IOCTL_BASE_def quiet_call_def)

lemma quiet_fields:
  "field_of (io_layout VfioGroupGetStatus) [Fld ''flags''] (to_le 8 12884901888) = 3"
  "field_of (io_layout VfioDeviceGetInfo) [Fld ''num_regions''] (to_le 16 166020696663385964544) = 9"
  "field_of (io_layout vfioGetRegionInfo) [Fld ''size''] (to_le 32 5575186299632655785383929568162090376495104) = 0x4000"
  by (simp_all add: field_of_def get_at_def field_pos_def last_match_def struct_places_def VfioGroupGetStatus_def VfioDeviceGetInfo_def vfioGetRegionInfo_def
      getf_def get_bits_def drop_bit_eq_div take_bit_eq_mod split: option.split)

lemma quiet_offset:
  "field_of (io_layout VfioIommuGetInfo) [Fld ''cap_offset''] (zeros 16 @ to_le 4 24 @ to_le 4 0 @ quiet_caps) = 24"
  "caps_of (zeros 16 @ to_le 4 24 @ to_le 4 0 @ quiet_caps) = quiet_caps"
proof -
  have p: "field_pos (io_layout VfioIommuGetInfo) [Fld ''cap_offset''] = Some (8 * 16, 8 * 4)"
    by (simp add: VfioIommuGetInfo_def field_pos_def last_match_def struct_places_def)
  show "field_of (io_layout VfioIommuGetInfo) [Fld ''cap_offset''] (zeros 16 @ to_le 4 24 @ to_le 4 0 @ quiet_caps) = 24"
    by (simp only: field_of_def get_at_def p option.map option.case getf_bytes) simp
  show "caps_of (zeros 16 @ to_le 4 24 @ to_le 4 0 @ quiet_caps) = quiet_caps"
    by (simp add: caps_of_def caps_offset_def quiet_caps_def encode_cap_def Let_def)
qed

lemma quiet_walk: "walk_caps 1000 quiet_caps 24 s = (Inr (), s\<lparr>v_iova_ranges := v_iova_ranges s @ [(0x1000, 2 ^ 40)]\<rparr>)"
  using walk_encoded_caps [of "[RangesCap [(0x1000, 2 ^ 40)]]" 999 24 quiet_caps "zeros 80" s]
  by (simp add: quiet_caps_def encode_cap_def Let_def)

lemma field_of_zeros: "field_of t path (zeros n) = 0"
  by (simp add: field_of_def get_at_def split: option.split)

lemma quiet_nrs [simp]: "io_nr VfioGetApiVersion = 0" "io_nr VfioCheckExtension = 1" "io_nr VfioSetIoMmu = 2" "io_nr VfioGroupGetStatus = 3"
  "io_nr VfioGroupSetContainer = 4" "io_nr VfioGetDeviceFd = 6" "io_nr VfioDeviceGetInfo = 7" "io_nr vfioGetRegionInfo = 8" "io_nr VfioIommuGetInfo = 12"
  by (simp_all add: ioctl_class_defs)

lemma quiet_answers: "quiet_answer 0 = (0, [])" "quiet_answer (Suc 0) = (1, [])" "quiet_answer 2 = (0, [])" "quiet_answer 3 = (0, to_le 8 12884901888)"
  "quiet_answer 4 = (0, [])" "quiet_answer 6 = (5, [])" "quiet_answer 7 = (0, to_le 16 166020696663385964544)"
  "quiet_answer 8 = (0, to_le 32 5575186299632655785383929568162090376495104)" "quiet_answer 12 = (0, zeros 16 @ to_le 4 24 @ to_le 4 0 @ quiet_caps)"
  by (simp_all add: quiet_answer_def)

lemma quiet_kernel_opens:
  "\<exists>s'. vfio_initialize quiet_kernel (new_vfio [] ''0000:01:00.0'' None None) = (Inr (), s') \<and> 0x4000 = r_size (hd (the (bars s'))) \<and>
    v_iova_ranges s' = [(0x1000, 2 ^ 40)]"
proof -
  let ?s0 = "new_vfio [] ''0000:01:00.0'' None None"
  have six: "replicate 6 y = [y, y, y, y, y, y]" for y :: region_info by (simp add: numeral_eq_Suc)
  have op: "open_group quiet_kernel ?s0 = (Inr (), ?s0\<lparr>v_iommu_group := Some ''26'', container_fd := Some 3, group_fd := Some 3\<rparr>)"
    by (simp add: open_group_def bindS_apply thenS_def kernelS_def quiet_kernel_def new_vfio_def basename_def)
  note op = op [unfolded new_vfio_def, simplified]
  show ?thesis unfolding new_vfio_def
    by (simp add: vfio_initialize_def op check_api_def join_container_def group_flags_def read_iommu_def open_device_def bindS_apply thenS_def
        attrS_def quiet_ioctl quiet_answers quiet_fields quiet_offset quiet_walk VFIO_API_VERSION_def VFIO_GROUP_FLAGS_VIABLE_def
        VFIO_GROUP_FLAGS_CONTAINER_SET_def slot_string_def region_of_def set_bar_def Let_def upt_rec six)
qed

lemma vfio_opened_witness:
  "\<exists>s'. vfio_initialize quiet_kernel (new_vfio [] ''0000:01:00.0'' None None) = (Inr (), s') \<and> opened s' \<and>
    ok (fst (enable_msix quiet_kernel 4096 0 s')) \<and> ok (fst (map_nvme_regs quiet_kernel s'))"
proof -
  obtain s' where s': "vfio_initialize quiet_kernel (new_vfio [] ''0000:01:00.0'' None None) = (Inr (), s')"
    "0x4000 = r_size (hd (the (bars s')))" using quiet_kernel_opens by blast
  have "ok (fst (k_mmap quiet_kernel fd n off k))" for fd n off k by (simp add: quiet_kernel_def)
  with vfio_opened [OF s'(1)] s' quiet_kernel_returns show ?thesis by auto
qed

end
