(* ===== verification/Vfio_Config.thy ===== *)
theory Vfio_Config
  imports Vfio_Facts
begin

text \<open>
  The configuration space of a device that has been opened: \<open>SysVfioIfc.pcie_get\<close> and \<open>pcie_set\<close>, as they call the kernel, implement the
  accessors over which register structures are read and written.
\<close>

text \<open>The descriptor \<open>fd\<close> as plain bytes: what a state of the kernel holds, and that one byte is read and written at a position.\<close>

definition plain_file :: "'k kernel \<Rightarrow> nat \<Rightarrow> ('k \<Rightarrow> memory) \<Rightarrow> bool" where
  "plain_file K fd content \<longleftrightarrow> (\<forall>off k. k_pread K fd 1 off k = (Inr [content k off], k) \<and>
     (\<forall>b. \<exists>k'. k_pwrite K fd [b] off k = (Inr 1, k') \<and> content k' = (content k)(off := b)))"

definition config_file :: "('k \<Rightarrow> memory) \<Rightarrow> region_info \<Rightarrow> 'k vfio \<Rightarrow> vfio_file" where
  "config_file content r s = \<lparr>device_fd = content (v_kernel s), pci_region_offset = r_offset r\<rparr>"

lemma vfio_accessors:
  assumes "plain_file K fd content" "v_device_fd s = Some fd" "pci_region s = Some r"
  shows "vfio_pcie_get K a s = (Inr (unat (pcie_get (config_file content r s) a)), s)"
    and "\<exists>k. vfio_pcie_set K a b s = (Inr (), s\<lparr>v_kernel := k\<rparr>) \<and>
      config_file content r (s\<lparr>v_kernel := k\<rparr>) = pcie_set (config_file content r s) a b"
proof -
  have "k_pread K fd 1 (r_offset r + a) (v_kernel s) = (Inr [content (v_kernel s) (r_offset r + a)], v_kernel s)"
    using assms(1) by (simp add: plain_file_def)
  then show "vfio_pcie_get K a s = (Inr (unat (pcie_get (config_file content r s) a)), s)"
    by (simp add: vfio_pcie_get_def bindS_apply attrS_def assms(2,3) kernelS_def pcie_get_def config_file_def)
  obtain k' where "k_pwrite K fd [b] (r_offset r + a) (v_kernel s) = (Inr 1, k')"
    "content k' = (content (v_kernel s))(r_offset r + a := b)"
    using assms(1) unfolding plain_file_def by blast
  then show "\<exists>k. vfio_pcie_set K a b s = (Inr (), s\<lparr>v_kernel := k\<rparr>) \<and>
      config_file content r (s\<lparr>v_kernel := k\<rparr>) = pcie_set (config_file content r s) a b"
    by (intro exI [of _ k']) (simp add: vfio_pcie_set_def bindS_apply attrS_def assms(2,3) kernelS_def pcie_set_def config_file_def)
qed

text \<open>Assigning a field of a register byte by byte through the kernel.\<close>

fun pread_all :: "'k kernel \<Rightarrow> nat \<Rightarrow> nat \<Rightarrow> ('k, byte list) vfio_op" where
  "pread_all K a 0 = retS []"
| "pread_all K a (Suc n) = bindS (vfio_pcie_get K a) (\<lambda>v. bindS (pread_all K (a + 1) n) (\<lambda>bs. retS (of_nat v # bs)))"

fun pwrite_all :: "'k kernel \<Rightarrow> nat \<Rightarrow> byte list \<Rightarrow> ('k, unit) vfio_op" where
  "pwrite_all K a [] = retS ()"
| "pwrite_all K a (b # bs) = thenS (vfio_pcie_set K a b) (pwrite_all K (a + 1) bs)"

lemma pread_all_file:
  assumes "plain_file K fd content" "v_device_fd s = Some fd" "pci_region s = Some r"
  shows "pread_all K a n s = (Inr (read_data pcie_get (config_file content r s) a n), s)"
  by (induction n arbitrary: a) (simp_all add: bindS_apply vfio_accessors(1) [OF assms])

lemma pwrite_all_file:
  assumes "plain_file K fd content" "v_device_fd s = Some fd" "pci_region s = Some r"
  shows "\<exists>k. pwrite_all K a bs s = (Inr (), s\<lparr>v_kernel := k\<rparr>) \<and>
    config_file content r (s\<lparr>v_kernel := k\<rparr>) = write_data pcie_set (config_file content r s) a bs"
  using assms(2,3)
proof (induction bs arbitrary: a s)
  case Nil
  then show ?case by (intro exI [of _ "v_kernel s"]) simp
next
  case (Cons b bs)
  obtain k where k: "vfio_pcie_set K a b s = (Inr (), s\<lparr>v_kernel := k\<rparr>)"
    "config_file content r (s\<lparr>v_kernel := k\<rparr>) = pcie_set (config_file content r s) a b"
    using vfio_accessors(2) [OF assms(1) Cons.prems] by blast
  obtain k' where "pwrite_all K (a + 1) bs (s\<lparr>v_kernel := k\<rparr>) = (Inr (), s\<lparr>v_kernel := k, v_kernel := k'\<rparr>)"
    "config_file content r (s\<lparr>v_kernel := k, v_kernel := k'\<rparr>) = write_data pcie_set (config_file content r (s\<lparr>v_kernel := k\<rparr>)) (a + 1) bs"
    using Cons.IH [of "s\<lparr>v_kernel := k\<rparr>" "a + 1"] Cons.prems by auto
  then show ?case using k by (intro exI [of _ k']) (simp add: thenS_def bindS_apply)
qed

definition vfio_setattr :: "'k kernel \<Rightarrow> reg_class \<Rightarrow> string \<Rightarrow> nat \<Rightarrow> ('k, unit) vfio_op" where
  "vfio_setattr K rc name value =
     (case field_pos (rc_layout rc) [Fld name] of
        None \<Rightarrow> retS ()
      | Some f \<Rightarrow> (case rc_base rc of
          None \<Rightarrow> raiseS PlainException
        | Some offset \<Rightarrow> bindS (pread_all K offset (csize (rc_layout rc))) (\<lambda>obj. pwrite_all K offset (setf f value obj))))"


text \<open>A kernel whose state is the content of the device file.\<close>

definition file_kernel :: "memory kernel" where
  "file_kernel = \<lparr>k_readlink = (\<lambda>p. retS []), k_exists = (\<lambda>p. retS True), k_open = (\<lambda>p. retS 3), k_close = (\<lambda>fd. retS ()),
     k_ioctl = (\<lambda>fd nr arg. retS (0, [])), k_eventfd = retS 4, k_read = (\<lambda>fd n. retS []), k_pread = (\<lambda>fd n off m. (Inr (read_bytes m off n), m)),
     k_pwrite = (\<lambda>fd bs off m. (Inr (length bs), write_bytes m off bs)), k_mmap = (\<lambda>fd n off. retS 0), k_munmap = (\<lambda>a. retS ()), k_load = (\<lambda>a n. retS []),
     io_number = (\<lambda>t nr. nr)\<rparr>"

lemma file_kernel_plain: "plain_file file_kernel fd id"
proof -
  have "write_bytes m a [b] = m(a := b)" for m a b by (rule ext) (auto simp: write_bytes_def)
  then show ?thesis by (simp add: plain_file_def file_kernel_def read_bytes_def)
qed

definition example_config :: "memory vfio" where
  "example_config = (new_vfio (\<lambda>_. 255) ''0000:01:00.0'' None None)\<lparr>v_device_fd := Some 5, pci_region := Some \<lparr>r_size = 4096, r_offset = 0x70000, r_flags = 3\<rparr>\<rparr>"


end
