(* ===== verification/Vfio_Devices.thy ===== *)
theory Vfio_Devices
  imports Linux_Vfio
begin

text \<open>
  The devices that can be used through VFIO (\<open>SysVfio\<close> in \<open>lone/system/linux/vfio.py\<close>): the NVMe devices among those of \<open>udev\<close>, with what
  \<open>lspci\<close>, the groups of the IOMMU and the file system say about them. The outputs of the commands and the properties of the devices are parameters.
\<close>

record udev =
  u_props :: "(string \<times> string) list"

definition u_get :: "udev \<Rightarrow> string \<Rightarrow> string option" where
  "u_get d n = map_of (u_props d) n"

text \<open>The listing of the groups fails on a system without them.\<close>

record listings =
  l_groups :: "string option"
  l_mount :: string
  l_lspci :: string
  l_udevs :: "udev list"
  l_owner :: "string \<Rightarrow> string res"

record found_device =
  f_slot :: string
  f_group :: "string option"
  f_path :: string
  f_vid :: string
  f_did :: string
  f_driver :: string
  f_owner :: string
  f_info :: string

definition is_nvme :: "udev \<Rightarrow> bool" where
  "is_nvme d \<longleftrightarrow> u_get d ''SUBSYSTEM'' = Some ''pci'' \<and> u_get d ''PCI_CLASS'' = Some ''10802''"

definition pci_ids :: "udev \<Rightarrow> (string \<times> string) res" where
  "pci_ids d = (case u_get d ''PCI_ID'' of
       None \<Rightarrow> Inl AttributeError
     | Some i \<Rightarrow> (case split_str '':'' i of [v, p] \<Rightarrow> Inr (v, p) | _ \<Rightarrow> Inl ValueError))"

text \<open>A device without a slot has None for the name, which is no string to look for.\<close>

definition lspci_info :: "listings \<Rightarrow> string option \<Rightarrow> (string \<times> string) res" where
  "lspci_info L slot' = (case slot' of
       None \<Rightarrow> Inl (if splitlines (l_lspci L) = [] then IndexError else TypeError)
     | Some name \<Rightarrow>
         bindR (list_get (filter (contains name) (splitlines (l_lspci L))) 0) (\<lambda>line.
         bindR (list_get (split_str '': '' line) 1) (\<lambda>info. Inr (name, info))))"

fun group_loop :: "string \<Rightarrow> string list \<Rightarrow> string option \<Rightarrow> string option res" where
  "group_loop name [] grp = Inr grp"
| "group_loop name (g # gs) grp =
     (if contains name g
      then (case split_str ''/'' g of [_, _, _, _, n, _, _] \<Rightarrow> group_loop name gs (Some n) | _ \<Rightarrow> Inl ValueError)
      else group_loop name gs grp)"

definition is_mounted :: "listings \<Rightarrow> udev \<Rightarrow> bool" where
  "is_mounted L d = (case u_get d ''DEVNAME'' of
       None \<Rightarrow> False
     | Some n \<Rightarrow> n \<noteq> [] \<and> contains n (l_mount L))"

definition driver_of :: "'k kernel \<Rightarrow> string \<Rightarrow> ('k, string) st" where
  "driver_of K name =
     (let module_path = ''/sys/bus/pci/devices/'' @ name @ ''/driver/module'' in
      bindS (k_exists K module_path) (\<lambda>there.
      if there then bindS (k_readlink K module_path) (\<lambda>link. retS (basename link)) else retS ''none''))"

text \<open>The group is formatted into the path, also when there is none.\<close>

definition vfio_path :: "string option \<Rightarrow> string" where
  "vfio_path grp = ''/dev/vfio/'' @ (case grp of None \<Rightarrow> ''None'' | Some g \<Rightarrow> g)"

definition path_and_owner :: "listings \<Rightarrow> string \<Rightarrow> string option \<Rightarrow> (string \<times> string) res" where
  "path_and_owner L driver grp =
     (if driver = ''vfio_pci'' then bindR (l_owner L (vfio_path grp)) (\<lambda>owner. Inr (vfio_path grp, owner)) else Inr ('''', ''''))"

definition look_at :: "'k kernel \<Rightarrow> listings \<Rightarrow> string list \<Rightarrow> udev \<Rightarrow> ('k, found_device option) st" where
  "look_at K L groups d =
     bindS (liftS (pci_ids d)) (\<lambda>(vid, did).
     bindS (liftS (lspci_info L (u_get d ''PCI_SLOT_NAME''))) (\<lambda>(name, info).
     bindS (liftS (group_loop name groups None)) (\<lambda>grp.
     bindS (driver_of K name) (\<lambda>driver.
     bindS (liftS (path_and_owner L driver grp)) (\<lambda>(path, owner).
       retS (if is_mounted L d then None
         else Some \<lparr>f_slot = name, f_group = grp, f_path = path, f_vid = vid, f_did = did, f_driver = driver, f_owner = owner, f_info = info\<rparr>))))))"

fun devices_loop :: "'k kernel \<Rightarrow> listings \<Rightarrow> string list \<Rightarrow> udev list \<Rightarrow> found_device list \<Rightarrow> ('k, found_device list) st" where
  "devices_loop K L groups [] acc = retS acc"
| "devices_loop K L groups (d # ds) acc =
     (if is_nvme d
      then bindS (look_at K L groups d) (\<lambda>found. devices_loop K L groups ds (acc @ (case found of None \<Rightarrow> [] | Some f \<Rightarrow> [f])))
      else devices_loop K L groups ds acc)"

definition vfio_devices :: "'k kernel \<Rightarrow> listings \<Rightarrow> ('k, found_device list) st" where
  "vfio_devices K L = (case l_groups L of
       None \<Rightarrow> retS []
     | Some out \<Rightarrow> devices_loop K L (splitlines out) (l_udevs L) [])"

definition exposed_devices :: "'k kernel \<Rightarrow> listings \<Rightarrow> ('k, found_device list) st" where
  "exposed_devices K L = bindS (vfio_devices K L) (\<lambda>ds. retS (filter (\<lambda>d. f_driver d = ''vfio_pci'') ds))"

section \<open>What is listed\<close>

lemma look_at_Inr:
  assumes "look_at K L groups d k = (Inr found, k')"
  shows "\<exists>name. u_get d ''PCI_SLOT_NAME'' = Some name \<and> (if is_mounted L d then found = None else \<exists>f. found = Some f \<and> f_slot f = name \<and>
    (f_driver f = ''vfio_pci'' \<longrightarrow> f_path f = vfio_path (f_group f)))"
  using assms
  by (auto simp: look_at_def st_iffs lspci_info_def path_and_owner_def bindR_eq_Inr_iff split: option.splits if_splits)

lemma devices_loop_Inr:
  assumes "devices_loop K L groups ds acc k = (Inr fs, k')"
  shows "\<exists>gs. fs = acc @ gs \<and> map (\<lambda>f. Some (f_slot f)) gs = map (\<lambda>d. u_get d ''PCI_SLOT_NAME'') (filter (\<lambda>d. is_nvme d \<and> \<not> is_mounted L d) ds) \<and>
    (\<forall>f \<in> set gs. f_driver f = ''vfio_pci'' \<longrightarrow> f_path f = vfio_path (f_group f))"
  using assms
proof (induction K L groups ds acc arbitrary: k rule: devices_loop.induct)
  case (2 K L groups d ds acc)
  show ?case
  proof (cases "is_nvme d")
    case True
    then obtain found k1 where f: "look_at K L groups d k = (Inr found, k1)"
      and r: "devices_loop K L groups ds (acc @ (case found of None \<Rightarrow> [] | Some f \<Rightarrow> [f])) k1 = (Inr fs, k')"
      using 2(3) by (auto simp: bindS_eq_Inr_iff)
    from look_at_Inr [OF f] 2(1) [OF True r] True show ?thesis by (auto split: if_splits)
  next
    case False
    then show ?thesis using 2 by simp
  qed
qed simp

text \<open>
  Property C37. When the list can be made, it has the NVMe devices of \<open>udev\<close> that are not mounted, in that order, and those bound to VFIO with the path of
  their group. A device is taken to be mounted only by its \<open>DEVNAME\<close>: when no NVMe device on the PCI bus has one, nothing that is mounted keeps a device out of the list.
\<close>

theorem vfio_devices_listed:
  shows "(\<forall>fs k'. vfio_devices K L k = (Inr fs, k') \<and> l_groups L \<noteq> None \<longrightarrow>
      map (\<lambda>f. Some (f_slot f)) fs = map (\<lambda>d. u_get d ''PCI_SLOT_NAME'') (filter (\<lambda>d. is_nvme d \<and> \<not> is_mounted L d) (l_udevs L)) \<and>
      (\<forall>f \<in> set fs. f_driver f = ''vfio_pci'' \<longrightarrow> f_path f = vfio_path (f_group f))) \<and>
    ((\<forall>d \<in> set (l_udevs L). is_nvme d \<longrightarrow> u_get d ''DEVNAME'' = None) \<longrightarrow> vfio_devices K (L\<lparr>l_mount := m\<rparr>) = vfio_devices K L)"
proof (intro conjI impI allI)
  fix fs k' assume a: "vfio_devices K L k = (Inr fs, k') \<and> l_groups L \<noteq> None"
  then obtain out where "devices_loop K L (splitlines out) (l_udevs L) [] k = (Inr fs, k')" by (auto simp: vfio_devices_def)
  from devices_loop_Inr [OF this]
  show "map (\<lambda>f. Some (f_slot f)) fs = map (\<lambda>d. u_get d ''PCI_SLOT_NAME'') (filter (\<lambda>d. is_nvme d \<and> \<not> is_mounted L d) (l_udevs L))"
    "\<forall>f \<in> set fs. f_driver f = ''vfio_pci'' \<longrightarrow> f_path f = vfio_path (f_group f)" by auto
next
  assume d: "\<forall>d \<in> set (l_udevs L). is_nvme d \<longrightarrow> u_get d ''DEVNAME'' = None"
  have "look_at K (L\<lparr>l_mount := m\<rparr>) groups d = look_at K L groups d" if "u_get d ''DEVNAME'' = None" for groups d
  proof -
    have "lspci_info (L\<lparr>l_mount := m\<rparr>) = lspci_info L" "path_and_owner (L\<lparr>l_mount := m\<rparr>) = path_and_owner L"
      by (intro ext; simp add: lspci_info_def path_and_owner_def split: option.split)+
    then show ?thesis by (simp add: look_at_def is_mounted_def that)
  qed
  then have "devices_loop K (L\<lparr>l_mount := m\<rparr>) groups ds acc = devices_loop K L groups ds acc"
    if "\<forall>d \<in> set ds. is_nvme d \<longrightarrow> u_get d ''DEVNAME'' = None" for groups ds acc
    using that by (induction ds arbitrary: acc) auto
  with d show "vfio_devices K (L\<lparr>l_mount := m\<rparr>) = vfio_devices K L" by (simp add: vfio_devices_def split: option.split)
qed

definition quiet_sys :: "unit kernel" where
  "quiet_sys = \<lparr>k_readlink = (\<lambda>p. retS ''../../../../module/vfio_pci''), k_exists = (\<lambda>p. retS True), k_open = (\<lambda>p. retS 3), k_close = (\<lambda>fd. retS ()),
     k_ioctl = (\<lambda>fd nr arg. retS (0, [])), k_eventfd = retS 4, k_read = (\<lambda>fd n. retS []), k_pread = (\<lambda>fd n off. retS []),
     k_pwrite = (\<lambda>fd bs off. retS 0), k_mmap = (\<lambda>fd n off. retS 0), k_munmap = (\<lambda>a. retS ()), k_load = (\<lambda>a n. retS []),
     io_number = (\<lambda>t nr. nr)\<rparr>"

definition example_listings :: listings where
  "example_listings = \<lparr>l_groups = Some (''/sys/kernel/iommu_groups/26/devices/0000:01:00.0'' @ [CHR 10]),
     l_mount = ''/dev/nvme0n1p1 on / type ext4 (rw)'', l_lspci = ''0000:01:00.0 Non-Volatile memory controller: Samsung SM981'',
     l_udevs = [\<lparr>u_props = [(''SUBSYSTEM'', ''pci''), (''PCI_CLASS'', ''10601''), (''PCI_SLOT_NAME'', ''0000:00:17.0'')]\<rparr>,
       \<lparr>u_props = [(''SUBSYSTEM'', ''pci''), (''PCI_CLASS'', ''10802''), (''PCI_SLOT_NAME'', ''0000:01:00.0''), (''PCI_ID'', ''144D:A808'')]\<rparr>],
     l_owner = (\<lambda>p. Inr ''user'')\<rparr>"

lemma example_devices:
  "fst (vfio_devices quiet_sys example_listings ()) = Inr [\<lparr>f_slot = ''0000:01:00.0'', f_group = Some ''26'', f_path = ''/dev/vfio/26'', f_vid = ''144D'',
     f_did = ''A808'', f_driver = ''vfio_pci'', f_owner = ''user'', f_info = ''Samsung SM981''\<rparr>]"
  by code_simp

lemma vfio_devices_listed_witness:
  "\<exists>fs. fst (vfio_devices quiet_sys example_listings ()) = Inr fs \<and> map (\<lambda>f. Some (f_slot f)) fs = [Some ''0000:01:00.0''] \<and>
    vfio_devices quiet_sys (example_listings\<lparr>l_mount := []\<rparr>) = vfio_devices quiet_sys example_listings"
proof -
  obtain fs k' where fs: "vfio_devices quiet_sys example_listings () = (Inr fs, k')" using example_devices by (cases "vfio_devices quiet_sys example_listings ()") auto
  have "l_groups example_listings \<noteq> None" by (simp add: example_listings_def)
  moreover have "filter (\<lambda>d. is_nvme d \<and> \<not> is_mounted example_listings d) (l_udevs example_listings) = [l_udevs example_listings ! 1]"
    "u_get (l_udevs example_listings ! 1) ''PCI_SLOT_NAME'' = Some ''0000:01:00.0''"
    "\<forall>d \<in> set (l_udevs example_listings). is_nvme d \<longrightarrow> u_get d ''DEVNAME'' = None"
    by (simp_all add: example_listings_def is_nvme_def u_get_def is_mounted_def)
  ultimately show ?thesis using vfio_devices_listed [of quiet_sys example_listings "()" "[]"] fs by auto
qed

end
