(* ===== verification/Vfio_Dma.thy ===== *)
theory Vfio_Dma
  imports Vfio_Facts Hugepages_Contract
begin

text \<open>
  The huge page manager over the VFIO object of a physical device, as \<open>NVMeDevicePhysical\<close> connects them: its functions that map and unmap are
  methods of the object. The mappings that the kernel has been asked for, and not asked to drop, are compared with the locations in use.
\<close>

section \<open>Methods of an open object\<close>

text \<open>A method of the object \<open>vf\<close> that changes nothing of it but the kernel behind it.\<close>

definition on_object :: "'k vfio \<Rightarrow> ('k, 'a) vfio_op \<Rightarrow> ('k, 'a) st" where
  "on_object vf f = (\<lambda>k. case f (vf\<lparr>v_kernel := k\<rparr>) of (r, vf') \<Rightarrow> (r, v_kernel vf'))"

definition connected :: "'k kernel \<Rightarrow> 'k vfio \<Rightarrow> 'k hp_mgr \<Rightarrow> bool" where
  "connected K vf s \<longleftrightarrow> map_read_func s = (\<lambda>v a n. on_object vf (map_dma_region_read K v a n)) \<and>
     map_write_func s = (\<lambda>v a n. on_object vf (map_dma_region_write K v a n)) \<and>
     unmap_func s = (\<lambda>a n. on_object vf (unmap_dma_region K a n))"

text \<open>A kernel that answers every request, with \<open>log\<close> the requests it has got so far.\<close>

definition traced :: "'k kernel \<Rightarrow> ('k \<Rightarrow> (nat \<times> nat \<times> ioctl_arg) list) \<Rightarrow> bool" where
  "traced K log \<longleftrightarrow> (\<forall>fd nr arg k. \<exists>x k'. k_ioctl K fd nr arg k = (Inr x, k') \<and> log k' = log k @ [(fd, nr, arg)])"

definition map_request :: "nat \<Rightarrow> nat \<Rightarrow> nat \<Rightarrow> nat \<Rightarrow> byte list" where
  "map_request v a n f = ioctl_buffer vfioMmuMapDma (request vfioMmuMapDma [(''flags'', f), (''vaddr'', v), (''iova'', a), (''size'', n)])"

definition unmap_request :: "nat \<Rightarrow> nat \<Rightarrow> byte list" where
  "unmap_request a n = ioctl_buffer vfioMmuUnmapDma (request vfioMmuUnmapDma [(''iova'', a), (''size'', n)])"

lemma vfio_calls:
  assumes "traced K log" "container_fd vf = Some fd"
  shows "\<exists>k'. on_object vf (map_dma_region K v a n f) k = (Inr (), k') \<and> log k' = log k @ [(fd, io_number K 59 113, BufArg (map_request v a n f))]"
    and "\<exists>k'. on_object vf (unmap_dma_region K a n) k = (Inr (), k') \<and> log k' = log k @ [(fd, io_number K 59 114, BufArg (unmap_request a n))]"
proof -
  have nr: "VFIO_IOCTL_TYPE = 59" "VFIO_IOCTL_BASE + io_nr vfioMmuMapDma = 113" "VFIO_IOCTL_BASE + io_nr vfioMmuUnmapDma = 114"
    by (simp_all add: VFIO_IOCTL_TYPE_def VFIO_IOCTL_BASE_def vfioMmuMapDma_def vfioMmuUnmapDma_def)
  have t: "\<exists>x k'. k_ioctl K fd nr arg k = (Inr x, k') \<and> log k' = log k @ [(fd, nr, arg)]" for nr arg
    using assms(1) by (simp add: traced_def)
  obtain x k' where "k_ioctl K fd (io_number K 59 113) (BufArg (map_request v a n f)) k = (Inr x, k')"
    "log k' = log k @ [(fd, io_number K 59 113, BufArg (map_request v a n f))]" using t by blast
  then show "\<exists>k'. on_object vf (map_dma_region K v a n f) k = (Inr (), k') \<and> log k' = log k @ [(fd, io_number K 59 113, BufArg (map_request v a n f))]"
    by (simp add: on_object_def map_dma_region_def bindS_apply attrS_def assms(2) ioctlS_def kernelS_def nr map_request_def split: prod.split)
  obtain x k' where "k_ioctl K fd (io_number K 59 114) (BufArg (unmap_request a n)) k = (Inr x, k')"
    "log k' = log k @ [(fd, io_number K 59 114, BufArg (unmap_request a n))]" using t by blast
  then show "\<exists>k'. on_object vf (unmap_dma_region K a n) k = (Inr (), k') \<and> log k' = log k @ [(fd, io_number K 59 114, BufArg (unmap_request a n))]"
    by (simp add: on_object_def unmap_dma_region_def bindS_apply attrS_def assms(2) ioctlS_def kernelS_def nr unmap_request_def split: prod.split)
qed

section \<open>The mappings asked for\<close>

type_synonym mapping = "nat \<times> nat \<times> nat \<times> nat"

text \<open>Bus address, virtual address, size and flags of the mappings that a list of requests leaves.\<close>

definition dma_step :: "'k kernel \<Rightarrow> nat \<Rightarrow> nat \<times> nat \<times> ioctl_arg \<Rightarrow> mapping list \<Rightarrow> mapping list" where
  "dma_step K fd req tab = (case req of (fd', nr, BufArg bs) \<Rightarrow>
       if fd' = fd \<and> nr = io_number K 59 113
       then tab @ [(field_of (io_layout vfioMmuMapDma) [Fld ''iova''] bs, field_of (io_layout vfioMmuMapDma) [Fld ''vaddr''] bs,
         field_of (io_layout vfioMmuMapDma) [Fld ''size''] bs, field_of (io_layout vfioMmuMapDma) [Fld ''flags''] bs)]
       else if fd' = fd \<and> nr = io_number K 59 114
       then filter (\<lambda>e. fst e \<noteq> field_of (io_layout vfioMmuUnmapDma) [Fld ''iova''] bs) tab
       else tab
     | _ \<Rightarrow> tab)"

definition dma_table :: "'k kernel \<Rightarrow> nat \<Rightarrow> (nat \<times> nat \<times> ioctl_arg) list \<Rightarrow> mapping list" where
  "dma_table K fd reqs = fold (dma_step K fd) reqs []"

fun dma_flags :: "dma_direction option \<Rightarrow> nat" where
  "dma_flags (Some HOST_TO_DEVICE) = 1"
| "dma_flags (Some DEVICE_TO_HOST) = 2"
| "dma_flags _ = 0"

text \<open>The directions are finitely many, so that statements about all of them evaluate: the flags tell the two that can be mapped apart.\<close>

lemma UNIV_dma_direction: "UNIV = {HOST_TO_DEVICE, DEVICE_TO_HOST, BIDIRECTIONAL}"
  using dma_direction.exhaust by auto

instantiation dma_direction :: enum
begin

definition enum_dma_direction :: "dma_direction list" where
  "enum_dma_direction = [HOST_TO_DEVICE, DEVICE_TO_HOST, BIDIRECTIONAL]"

definition enum_all_dma_direction :: "(dma_direction \<Rightarrow> bool) \<Rightarrow> bool" where
  "enum_all_dma_direction P \<longleftrightarrow> P HOST_TO_DEVICE \<and> P DEVICE_TO_HOST \<and> P BIDIRECTIONAL"

definition enum_ex_dma_direction :: "(dma_direction \<Rightarrow> bool) \<Rightarrow> bool" where
  "enum_ex_dma_direction P \<longleftrightarrow> P HOST_TO_DEVICE \<or> P DEVICE_TO_HOST \<or> P BIDIRECTIONAL"

instance
  by standard (simp_all add: UNIV_dma_direction enum_dma_direction_def enum_all_dma_direction_def enum_ex_dma_direction_def)

end

lemma dma_flags_separate: "\<forall>d e. d = e \<or> d = BIDIRECTIONAL \<or> e = BIDIRECTIONAL \<or> dma_flags (Some d) \<noteq> dma_flags (Some e)"
  by code_simp

definition dma_entry :: "location \<Rightarrow> mapping" where
  "dma_entry l = (iova l, vaddr l mod 2 ^ 64, msize l mod 2 ^ 64, dma_flags (iova_direction l))"

lemma map_request_fields:
  "field_of (io_layout vfioMmuMapDma) [Fld ''iova''] (map_request v a n f) = a mod 2 ^ 64"
  "field_of (io_layout vfioMmuMapDma) [Fld ''vaddr''] (map_request v a n f) = v mod 2 ^ 64"
  "field_of (io_layout vfioMmuMapDma) [Fld ''size''] (map_request v a n f) = n mod 2 ^ 64"
  "field_of (io_layout vfioMmuMapDma) [Fld ''flags''] (map_request v a n f) = f mod 2 ^ 32"
  "field_of (io_layout vfioMmuUnmapDma) [Fld ''iova''] (unmap_request a n) = a mod 2 ^ 64"
  "field_of (io_layout vfioMmuUnmapDma) [Fld ''size''] (unmap_request a n) = n mod 2 ^ 64"
proof -
  have p: "field_pos (io_layout vfioMmuMapDma) [Fld ''iova''] = Some (128, 64)" "field_pos (io_layout vfioMmuMapDma) [Fld ''vaddr''] = Some (64, 64)"
    "field_pos (io_layout vfioMmuMapDma) [Fld ''size''] = Some (192, 64)" "field_pos (io_layout vfioMmuMapDma) [Fld ''flags''] = Some (32, 32)"
    by (simp_all add: vfioMmuMapDma_def field_pos_def last_match_def struct_places_def)
  have q: "field_pos (io_layout vfioMmuUnmapDma) [Fld ''iova''] = Some (64, 64)" "field_pos (io_layout vfioMmuUnmapDma) [Fld ''size''] = Some (128, 64)"
    by (simp_all add: vfioMmuUnmapDma_def field_pos_def last_match_def struct_places_def)
  have c: "vfioMmuMapDma \<in> set ioctl_classes" "vfioMmuUnmapDma \<in> set ioctl_classes" by (simp_all add: ioctl_classes_def)
  note m = request_field [OF c(1), of "[(''flags'', f), (''vaddr'', v), (''iova'', a), (''size'', n)]"]
  note u = request_field [OF c(2), of "[(''iova'', a), (''size'', n)]"]
  show "field_of (io_layout vfioMmuMapDma) [Fld ''iova''] (map_request v a n f) = a mod 2 ^ 64"
    using m [OF _ p(1)] by (simp add: field_of_def get_at_def p map_request_def)
  show "field_of (io_layout vfioMmuMapDma) [Fld ''vaddr''] (map_request v a n f) = v mod 2 ^ 64"
    using m [OF _ p(2)] by (simp add: field_of_def get_at_def p map_request_def)
  show "field_of (io_layout vfioMmuMapDma) [Fld ''size''] (map_request v a n f) = n mod 2 ^ 64"
    using m [OF _ p(3)] by (simp add: field_of_def get_at_def p map_request_def)
  show "field_of (io_layout vfioMmuMapDma) [Fld ''flags''] (map_request v a n f) = f mod 2 ^ 32"
    using m [OF _ p(4)] by (simp add: field_of_def get_at_def p map_request_def)
  show "field_of (io_layout vfioMmuUnmapDma) [Fld ''iova''] (unmap_request a n) = a mod 2 ^ 64"
    using u [OF _ q(1)] by (simp add: field_of_def get_at_def q unmap_request_def)
  show "field_of (io_layout vfioMmuUnmapDma) [Fld ''size''] (unmap_request a n) = n mod 2 ^ 64"
    using u [OF _ q(2)] by (simp add: field_of_def get_at_def q unmap_request_def)
qed

lemma dma_table_map: "dma_table K fd (reqs @ [(fd, io_number K 59 113, BufArg (map_request v a n f))]) =
    dma_table K fd reqs @ [(a mod 2 ^ 64, v mod 2 ^ 64, n mod 2 ^ 64, f mod 2 ^ 32)]"
  by (simp only: dma_table_def dma_step_def fold_append fold.simps comp_def id_apply prod.case ioctl_arg.case map_request_fields simp_thms if_True)

lemma dma_table_unmap: "io_number K 59 113 \<noteq> io_number K 59 114 \<Longrightarrow>
    dma_table K fd (reqs @ [(fd, io_number K 59 114, BufArg (unmap_request a n))]) = filter (\<lambda>e. fst e \<noteq> a mod 2 ^ 64) (dma_table K fd reqs)"
  by (simp add: dma_table_def dma_step_def map_request_fields)

section \<open>What the operations of the manager do to the mappings\<close>

text \<open>No call has been made, and the locations that are there keep their directions.\<close>

definition silent :: "'v hp_mgr \<Rightarrow> 'v hp_mgr \<Rightarrow> bool" where
  "silent s t \<longleftrightarrow> bus t = bus s \<and> map_read_func t = map_read_func s \<and> map_write_func t = map_write_func s \<and> unmap_func t = unmap_func s \<and>
     malloc_mem t = malloc_mem s \<and> length (locs s) \<le> length (locs t) \<and> (\<forall>i < length (locs s). iova_direction (locs t ! i) = iova_direction (locs s ! i))"

lemma silent_refl: "silent s s"
  by (simp add: silent_def)

lemma keeps_silent_malloc_hps: "keeps (silent s) (malloc_hps n)"
proof -
  have "keeps (silent s) malloc_hp"
    unfolding malloc_hp_def hp_memory_malloc_def Let_def
    by (intro keeps_intros keeps_modify) (auto simp: silent_def divS_def nth_append split: option.split intro!: keeps_intros keeps_modify)
  then show ?thesis unfolding malloc_hps_def by (intro keeps_intros)
qed

lemma keeps_silent_pages:
  "keeps (silent s) (more_pages k)" "keeps (silent s) (malloc_pages k)"
proof -
  have d: "keeps (silent s) (divS a b)" for a b by (simp add: divS_def keeps_intros)
  have u: "keeps (silent s) (update_loc p (\<lambda>l. l\<lparr>in_use := True\<rparr>))" for p
  proof -
    have "iova_direction (xs[p := (xs ! p)\<lparr>in_use := True\<rparr>] ! i) = iova_direction (xs ! i)" for xs :: "location list" and i
      by (cases "p < length xs"; cases "i = p") (simp_all add: not_less list_update_beyond)
    then show ?thesis unfolding update_loc_def by (intro keeps_modify) (simp add: silent_def)
  qed
  show "keeps (silent s) (more_pages k)"
    unfolding more_pages_def by (intro keeps_intros keeps_silent_malloc_hps d)
  show "keeps (silent s) (malloc_pages k)"
    unfolding malloc_pages_def by (intro keeps_intros keeps_silent_malloc_hps d u)
qed

definition dma_entries :: "'v hp_mgr \<Rightarrow> mapping list" where
  "dma_entries s = map (\<lambda>i. dma_entry (locs s ! i)) (malloc_mem s)"

lemma dma_entries_silent:
  assumes "silent s t" "hp_live t = hp_live s" "hp_inv s"
  shows "dma_entries t = dma_entries s"
proof -
  have "dma_entry (locs t ! i) = dma_entry (locs s ! i)" if "i \<in> set (malloc_mem s)" for i
  proof -
    have "mem_loc.truncate (locs t ! i) = mem_loc.truncate (locs s ! i)"
      using assms(1,2) that by (auto simp: hp_live_def silent_def)
    then have "iova (locs t ! i) = iova (locs s ! i)" "vaddr (locs t ! i) = vaddr (locs s ! i)" "msize (locs t ! i) = msize (locs s ! i)"
      by (simp_all add: mem_loc.defs)
    moreover have "i \<in> set (hp_pages s)" using assms(3) that by (auto simp: hp_inv_def blocks_wf_def block_ok_def block_of_def)
    then have "i < length (locs s)" using assms(3) by (auto simp: hp_inv_def pages_wf_def)
    ultimately show ?thesis using assms(1) by (simp add: dma_entry_def silent_def)
  qed
  then show ?thesis using assms(1) by (auto simp: dma_entries_def silent_def)
qed

lemma hp_malloc_dma:
  assumes "hp_inv s" "hp_fits s n" "hp_malloc n dir c s = (Inr i, s')" "connected K vf s" "traced K log" "container_fd vf = Some fd"
  shows "connected K vf s'" "dma_entries s' = dma_entries s @ [dma_entry (locs s' ! i)]" "iova_direction (locs s' ! i) = Some dir"
    "log (bus s') = log (bus s) @ [(fd, io_number K 59 113,
       BufArg (map_request (vaddr (locs s' ! i)) (iova (locs s' ! i)) (msize (locs s' ! i)) (dma_flags (Some dir))))]"
    "hp_page_size s' = hp_page_size s"
proof -
  have conf: "0 < sc_page_size s" "sc_page_size s \<le> hp_page_size s" using assms(1) by (auto simp: hp_inv_def hp_config_def)
  obtain r0 s0 where p: "pages_for n s = (r0, s0)" by fastforce
  then have "r0 \<noteq> Inl e" for e using assms(3) by (auto simp: hp_malloc_def)
  then obtain n' k where r0: "r0 = Inr (n', k)" by (cases r0) auto
  with pages_for_result [OF p] have n: "s0 = s" "n' = max n (sc_page_size s)" "k = max 1 (n' div hp_page_size s)" by blast+
  obtain r1 t where m: "more_pages k s = (r1, t)" by fastforce
  have gr: "grown s t" using keepsD [OF keeps_more_pages grown_refl [OF assms(1)] m] .
  have si: "silent s t" using keepsD [OF keeps_silent_pages(1) silent_refl m] .
  have "hp_malloc n dir c s = (case r1 of Inl e \<Rightarrow> (Inl e, t) | Inr u \<Rightarrow> (case find_group (locs t) (free_pages t) k of
      None \<Rightarrow> (Inl MemoryError, t) | Some g \<Rightarrow> take_group g n' dir c t))"
    unfolding hp_malloc_def bindS_apply p r0 n(1) thenS_def by (simp add: m bindS_apply split: sum.split option.split)
  then obtain g where f: "find_group (locs t) (free_pages t) k = Some g" "take_group g n' dir c t = (Inr i, s')"
    using assms(3) by (auto split: sum.splits option.splits)
  have inv: "hp_inv t" using gr by (simp add: grown_def)
  have "distinct (free_pages t)" using inv by (simp add: free_pages_def pages_wf_def hp_inv_def)
  note grp = find_group_Some [OF f(1) this hp_fits_pages(3) [OF assms(2) conf n(2,3)]]
  then obtain r ms where g: "g = r # ms" by (cases g) auto
  note fp = free_pages_wf [OF inv]
  have len: "r < length (locs t)" "\<forall>m \<in> set ms. m < length (locs t)" "distinct (r # ms)" using grp(3,4) fp(7) g by auto
  obtain a as v where res: "i = r" "dir \<noteq> BIDIRECTIONAL"
    "dir = HOST_TO_DEVICE \<longrightarrow> map_read_func t (vaddr (locs t ! r)) a n' (bus t) = (Inr (), v)"
    "dir = DEVICE_TO_HOST \<longrightarrow> map_write_func t (vaddr (locs t ! r)) a n' (bus t) = (Inr (), v)"
    "s' = t\<lparr>locs := locs s', malloc_mem := malloc_mem t @ [r], hp_iovas := (hp_iovas t)\<lparr>free_iovas := as\<rparr>, bus := v\<rparr>"
    and nth: "\<And>k. k < length (locs t) \<Longrightarrow> locs s' ! k = (if k = r then taken r a n' c dir ms (locs t ! r)
       else if k \<in> set ms then (locs t ! k)\<lparr>in_use := True\<rparr> else locs t ! k)"
    using take_group_result [OF f(2) [unfolded g] len(3,1,2)] by blast
  have same: "map_read_func s' = map_read_func s" "map_write_func s' = map_write_func s" "unmap_func s' = unmap_func s"
    "malloc_mem s' = malloc_mem t @ [r]" "bus s' = v" "bus t = bus s" "map_read_func t = map_read_func s" "map_write_func t = map_write_func s"
    using arg_cong [OF res(5), of map_read_func] arg_cong [OF res(5), of map_write_func] arg_cong [OF res(5), of unmap_func]
      arg_cong [OF res(5), of malloc_mem] arg_cong [OF res(5), of bus] si by (simp_all add: silent_def)
  show "connected K vf s'" using assms(4) same by (simp add: connected_def)
  have l: "vaddr (locs s' ! i) = vaddr (locs t ! r)" "iova (locs s' ! i) = a" "msize (locs s' ! i) = n'" "iova_direction (locs s' ! i) = Some dir"
    using nth [OF len(1)] by (simp_all add: res(1) taken_def)
  then show "iova_direction (locs s' ! i) = Some dir" by simp
  have "dma_entry (locs s' ! j) = dma_entry (locs t ! j)" if "j \<in> set (malloc_mem t)" for j
  proof -
    have "j \<in> set (hp_pages t)" using inv that by (auto simp: hp_inv_def blocks_wf_def block_ok_def block_of_def)
    then have "j < length (locs t)" using inv by (auto simp: hp_inv_def pages_wf_def)
    moreover have "j \<noteq> r" using fp(4) [of r] grp(3) g that by auto
    ultimately show ?thesis using nth [of j] by (simp add: dma_entry_def)
  qed
  then have "dma_entries s' = dma_entries t @ [dma_entry (locs s' ! i)]" by (simp add: dma_entries_def same res(1))
  moreover have "hp_live t = hp_live s" using grown_live [OF assms(1) gr] by simp
  ultimately show "dma_entries s' = dma_entries s @ [dma_entry (locs s' ! i)]" using dma_entries_silent [OF si _ assms(1)] by simp
  note call = vfio_calls(1) [OF assms(5,6), of "vaddr (locs t ! r)" a n' _ "bus s"]
  have "log v = log (bus s) @ [(fd, io_number K 59 113, BufArg (map_request (vaddr (locs t ! r)) a n' (dma_flags (Some dir))))]"
  proof (cases dir)
    case HOST_TO_DEVICE
    then show ?thesis using res(3) call [of 1] assms(4) same by (auto simp: connected_def map_dma_region_read_def DMA_MAP_FLAG_READ_def)
  next
    case DEVICE_TO_HOST
    then show ?thesis using res(4) call [of 2] assms(4) same by (auto simp: connected_def map_dma_region_write_def DMA_MAP_FLAG_WRITE_def)
  qed (use res(2) in simp)
  then show "log (bus s') = log (bus s) @ [(fd, io_number K 59 113,
       BufArg (map_request (vaddr (locs s' ! i)) (iova (locs s' ! i)) (msize (locs s' ! i)) (dma_flags (Some dir))))]"
    unfolding l same .
  show "hp_page_size s' = hp_page_size s" using arg_cong [OF res(5), of hp_page_size] gr by (simp add: grown_def)
qed

lemma hp_free_dma:
  assumes "hp_inv s" "i \<in> set (malloc_mem s)" "connected K vf s" "traced K log" "container_fd vf = Some fd"
  shows "\<exists>s'. hp_free i s = (Inr (), s') \<and> connected K vf s' \<and> dma_entries s' = filter (\<lambda>e. fst e \<noteq> iova (locs s ! i)) (dma_entries s) \<and>
    log (bus s') = log (bus s) @ [(fd, io_number K 59 114, BufArg (unmap_request (iova (locs s ! i)) (hp_page_size s)))]"
proof -
  let ?a = "iova (locs s ! i)" and ?P = "hp_page_size s"
  obtain v where v: "unmap_func s ?a ?P (bus s) = (Inr (), v)" "log v = log (bus s) @ [(fd, io_number K 59 114, BufArg (unmap_request ?a ?P))]"
    using vfio_calls(2) [OF assms(4,5), of ?a ?P "bus s"] assms(3) by (auto simp: connected_def)
  obtain s' where s': "hp_free i s = (Inr (), s')" "s' = s\<lparr>locs := locs s', bus := v, malloc_mem := remove1 i (malloc_mem s),
      hp_iovas := iova_free ?a (hp_iovas s), hp_mem := write_bytes (hp_mem s) (vaddr (locs s ! i)) (zeros ?P)\<rparr>"
    and nth: "\<And>k. k < length (locs s) \<Longrightarrow> locs s' ! k =
      (if k = i then (released ?P (locs s ! k))\<lparr>linked_mem := [], iova_mapped := False\<rparr>
       else if k \<in> set (linked_mem (locs s ! i)) then released ?P (locs s ! k) else locs s ! k)"
    using hp_free_result [OF assms(1,2) v(1)] by blast
  have same: "map_read_func s' = map_read_func s" "map_write_func s' = map_write_func s" "unmap_func s' = unmap_func s"
    "malloc_mem s' = remove1 i (malloc_mem s)" "bus s' = v" by (subst s'(2); simp)+
  have wf: "blocks_wf s" "pages_wf s" "iovas_wf s" using assms(1) by (auto simp: hp_inv_def)
  have dist: "distinct (map (\<lambda>i. iova (locs s ! i)) (malloc_mem s))" using wf(3) by (simp add: iovas_wf_def)
  then have d: "distinct (malloc_mem s)" by (simp add: distinct_map)
  have other: "dma_entry (locs s' ! j) = dma_entry (locs s ! j) \<and> iova (locs s ! j) \<noteq> ?a" if "j \<in> set (malloc_mem s)" "j \<noteq> i" for j
  proof -
    have "j \<in> set (hp_pages s)" using wf(1) that by (auto simp: blocks_wf_def block_ok_def block_of_def)
    then have "j < length (locs s)" using wf(2) by (auto simp: pages_wf_def)
    moreover have "set (block_of (locs s) i) \<inter> set (block_of (locs s) j) = {}"
    proof -
      have "\<forall>ys zs. ys \<in> set (map (block_of (locs s)) (malloc_mem s)) \<and> zs \<in> set (map (block_of (locs s)) (malloc_mem s)) \<and> ys \<noteq> zs \<longrightarrow>
          set ys \<inter> set zs = {}" using wf(1) unfolding blocks_wf_def distinct_concat_iff by blast
      moreover have "block_of (locs s) i \<noteq> block_of (locs s) j" using that(2) by (simp add: block_of_def)
      ultimately show ?thesis using assms(2) that(1) by (metis image_eqI list.set_map)
    qed
    then have "j \<notin> set (linked_mem (locs s ! i))" by (auto simp: block_of_def)
    moreover have "iova (locs s ! j) \<noteq> ?a" using dist that assms(2) by (auto simp: distinct_map inj_on_def)
    ultimately show ?thesis using nth [of j] that(2) by simp
  qed
  have "map (\<lambda>j. dma_entry (locs s' ! j)) (filter (\<lambda>j. j \<noteq> i) (malloc_mem s)) = map (\<lambda>j. dma_entry (locs s ! j)) (filter (\<lambda>j. iova (locs s ! j) \<noteq> ?a) (malloc_mem s))"
  proof -
    have "filter (\<lambda>j. j \<noteq> i) (malloc_mem s) = filter (\<lambda>j. iova (locs s ! j) \<noteq> ?a) (malloc_mem s)" using other by (intro filter_cong) auto
    then show ?thesis using other by auto
  qed
  then have "dma_entries s' = filter (\<lambda>e. fst e \<noteq> ?a) (dma_entries s)"
    by (simp add: dma_entries_def same distinct_remove1_removeAll [OF d] removeAll_filter_not_eq filter_map comp_def dma_entry_def eq_commute)
  then show ?thesis using s'(1) assms(3) same v(2) by (auto simp: connected_def)
qed

section \<open>Every use of the manager\<close>

inductive dma_reach :: "'k kernel \<Rightarrow> 'k vfio \<Rightarrow> 'k \<Rightarrow> (nat \<times> nat) list \<Rightarrow> 'k hp_mgr \<Rightarrow> bool"
  for K :: "'k kernel" and vf :: "'k vfio" and k0 :: 'k and ranges :: "(nat \<times> nat) list" where
  create: "hp_blank s0 \<Longrightarrow> connected K vf s0 \<Longrightarrow> bus s0 = k0 \<Longrightarrow> new_hp_mgr ranges s0 = (Inr (), s) \<Longrightarrow> dma_reach K vf k0 ranges s"
| malloc: "dma_reach K vf k0 ranges s \<Longrightarrow> hp_fits s n \<Longrightarrow> hp_malloc n dir c s = (Inr i, s') \<Longrightarrow> dma_reach K vf k0 ranges s'"
| pages: "dma_reach K vf k0 ranges s \<Longrightarrow> malloc_pages n s = (r, s') \<Longrightarrow> dma_reach K vf k0 ranges s'"
| free: "dma_reach K vf k0 ranges s \<Longrightarrow> i \<in> set (malloc_mem s) \<Longrightarrow> hp_free i s = (r, s') \<Longrightarrow> dma_reach K vf k0 ranges s'"
| memory: "dma_reach K vf k0 ranges s \<Longrightarrow> dma_reach K vf k0 ranges (s\<lparr>hp_mem := m\<rparr>)"

lemma dma_reach_reach: "dma_reach K vf k0 ranges s \<Longrightarrow> hp_reach ranges s"
  by (induction rule: dma_reach.induct) (auto intro: hp_reach.intros)

lemma new_hp_mgr_silent:
  assumes "new_hp_mgr ranges s0 = (Inr (), s)" "malloc_mem s0 = []"
  shows "silent s0 s"
proof -
  have "keeps (\<lambda>t. silent s0 t) (new_hp_mgr ranges)"
    unfolding new_hp_mgr_def by (intro keeps_intros keeps_silent_malloc_hps keeps_modify) (simp_all add: silent_def assms(2))
  from keepsD [OF this silent_refl assms(1)] show ?thesis .
qed

lemma dma_reach_table:
  assumes "dma_reach K vf k0 ranges s" "ranges_ok (2 * 1024 * 1024) ranges" "sorted_wrt (\<lambda>r r'. snd r \<le> fst r') ranges"
    and "\<forall>r \<in> set ranges. snd r \<le> 2 ^ 64" "traced K log" "container_fd vf = Some fd" "io_number K 59 113 \<noteq> io_number K 59 114"
  shows "connected K vf s \<and> (\<exists>reqs. log (bus s) = log k0 @ reqs \<and> dma_table K fd reqs = dma_entries s)"
  using assms(1)
proof (induction rule: dma_reach.induct)
  case (create s0 s)
  have "silent s0 s" using new_hp_mgr_silent [OF create(4)] create(1) by (simp add: hp_blank_def)
  then show ?case using create(1-3) by (auto simp: silent_def connected_def hp_blank_def dma_entries_def dma_table_def)
next
  case (malloc s n dir c i s')
  have inv: "hp_inv s" by (rule hp_reach_inv [OF dma_reach_reach [OF malloc(1)] assms(2-4)])
  from malloc.IH obtain reqs where c: "connected K vf s" and r: "log (bus s) = log k0 @ reqs" "dma_table K fd reqs = dma_entries s" by blast
  note d = hp_malloc_dma [OF inv malloc(2,3) c assms(5,6)]
  have "i \<in> set (malloc_mem s')" "hp_inv s'" using hp_malloc_inv [OF inv malloc(2,3)] by blast+
  then have "iova (locs s' ! i) < 2 ^ 64" by (auto simp: hp_inv_def iovas_wf_def)
  moreover have "dma_flags (Some dir) < 2 ^ 32" by (cases dir) simp_all
  ultimately show ?case using d r by (auto simp: dma_table_map dma_entry_def)
next
  case (pages s n r s')
  have inv: "hp_inv s" by (rule hp_reach_inv [OF dma_reach_reach [OF pages(1)] assms(2-4)])
  have "silent s s'" using keepsD [OF keeps_silent_pages(2) silent_refl pages(2)] .
  with dma_entries_silent [OF this malloc_pages_inv(2) [OF inv pages(2)] inv] pages.IH show ?case by (auto simp: silent_def connected_def)
next
  case (free s i r s')
  have inv: "hp_inv s" by (rule hp_reach_inv [OF dma_reach_reach [OF free(1)] assms(2-4)])
  from free.IH obtain reqs where c: "connected K vf s" and r: "log (bus s) = log k0 @ reqs" "dma_table K fd reqs = dma_entries s" by blast
  have "iova (locs s ! i) < 2 ^ 64" using inv free(2) by (auto simp: hp_inv_def iovas_wf_def)
  then show ?case using hp_free_dma [OF inv free(2) c assms(5,6)] r free(3) dma_table_unmap [OF assms(7)] by auto
next
  case (memory s m)
  then show ?case by (simp add: connected_def dma_entries_def)
qed


text \<open>
  Property C29. A location of several pages is mapped with its whole size, but what is asked for when it is freed is the removal of one page at its bus address.
\<close>

theorem dma_unmap_size:
  assumes "hp_inv s" "hp_fits s n" "hp_malloc n dir c s = (Inr i, s')" "connected K vf s" "traced K log" "container_fd vf = Some fd"
  shows "\<exists>s'' m u. hp_free i s' = (Inr (), s'') \<and> log (bus s'') = log (bus s) @ [(fd, io_number K 59 113, BufArg m), (fd, io_number K 59 114, BufArg u)] \<and>
    field_of (io_layout vfioMmuMapDma) [Fld ''iova''] m = field_of (io_layout vfioMmuUnmapDma) [Fld ''iova''] u \<and>
    field_of (io_layout vfioMmuMapDma) [Fld ''size''] m = max n (sc_page_size s) mod 2 ^ 64 \<and>
    field_of (io_layout vfioMmuUnmapDma) [Fld ''size''] u = hp_page_size s mod 2 ^ 64"
proof -
  note inv = hp_malloc_inv [OF assms(1-3)] and d = hp_malloc_dma [OF assms]
  obtain s'' where f: "hp_free i s' = (Inr (), s'')"
    "log (bus s'') = log (bus s') @ [(fd, io_number K 59 114, BufArg (unmap_request (iova (locs s' ! i)) (hp_page_size s')))]"
    using hp_free_dma [OF inv(1,2) d(1) assms(5,6)] by blast
  then show ?thesis using d(4) by (intro exI [of _ s''] exI conjI) (auto simp: map_request_fields inv(4) d(5))
qed

section \<open>An example\<close>

definition example_vfio :: "(nat \<times> nat \<times> ioctl_arg) list vfio" where
  "example_vfio = (new_vfio [] ''0000:01:00.0'' None None)\<lparr>container_fd := Some 3\<rparr>"

definition example_dma_blank :: "(nat \<times> nat \<times> ioctl_arg) list hp_mgr" where
  "example_dma_blank = \<lparr>hp_mem = (\<lambda>_. 0), locs = [], hp_page_size = 0x1000, sc_page_size = 0x1000, hugepages_size = 0x4000,
     allocated_memory = [], hugepages_freed = [], hp_pages = [], malloc_mem = [],
     hp_iovas = \<lparr>iova_ranges = [], max_iovas = 0, increment = 0, free_iovas = []\<rparr>, bus = [], hugepages_malloc = hp_bump,
     map_read_func = (\<lambda>v a n. on_object example_vfio (map_dma_region_read quiet_kernel v a n)),
     map_write_func = (\<lambda>v a n. on_object example_vfio (map_dma_region_write quiet_kernel v a n)),
     unmap_func = (\<lambda>a n. on_object example_vfio (unmap_dma_region quiet_kernel a n))\<rparr>"

definition example_dma_new :: "nat list \<Rightarrow> (nat \<times> nat \<times> ioctl_arg) list hp_mgr" where
  "example_dma_new xs = example_dma_blank\<lparr>allocated_memory := [(0x1000, 0x4000)], locs := split_page 0x1000 0x1000 4, hp_pages := [0..<4],
     malloc_mem := [], hp_iovas := \<lparr>iova_ranges = [(0x1000, 2 ^ 40)], max_iovas = 1000, increment = 2 * 1024 * 1024, free_iovas = xs\<rparr>\<rparr>"

lemma example_traced: "traced quiet_kernel id" "container_fd example_vfio = Some 3" "io_number quiet_kernel 59 113 \<noteq> io_number quiet_kernel 59 114"
  by (simp_all add: traced_def quiet_kernel_def example_vfio_def)

lemma example_connected: "connected quiet_kernel example_vfio example_dma_blank" "connected quiet_kernel example_vfio (example_dma_new xs)"
  by (simp_all add: connected_def example_dma_blank_def example_dma_new_def)

lemma example_dma_config: "hp_config example_dma_blank" "maps_ok (example_dma_new xs)"
proof -
  have "fst (on_object example_vfio (unmap_dma_region quiet_kernel a n) k) = Inr ()"
    "fst (on_object example_vfio (map_dma_region quiet_kernel v a n f) k) = Inr ()" for v a n f k
    using vfio_calls(1) [OF example_traced(1,2), of v a n f k] vfio_calls(2) [OF example_traced(1,2), of a n k] by auto
  then show "hp_config example_dma_blank" "maps_ok (example_dma_new xs)" using hugepages_heap_bump
    by (auto simp: hp_config_def maps_ok_def example_dma_blank_def example_dma_new_def hp_bump_def map_dma_region_read_def map_dma_region_write_def)
qed

lemma example_iovas:
  "\<exists>xs. new_iova_mgr [(0x1000, 2 ^ 40)] = Inr \<lparr>iova_ranges = [(0x1000, 2 ^ 40)], max_iovas = 1000, increment = 2 * 1024 * 1024, free_iovas = 0x1000 # xs\<rparr>"
proof -
  let ?r = "[(0x1000, 2 ^ 40)] :: (nat \<times> nat) list" and ?f = "\<lambda>i. 0x1000 + i * (2 * 1024 * 1024) :: nat"
  have "int (0x1000 + 1000 * (2 * 1024 * 1024)) \<le> max_range (2 * 1024 * 1024) (0x1000, 2 ^ 40)"
    "int 0x1000 \<le> max_range (2 * 1024 * 1024) (0x1000, 2 ^ 40)" by (simp_all add: max_range_def)
  with reset_loop_single [of "0x1000" "2 * 1024 * 1024" "(0x1000, 2 ^ 40)" 1000 "[]"]
  have im: "new_iova_mgr ?r = Inr \<lparr>iova_ranges = ?r, max_iovas = 1000, increment = 2 * 1024 * 1024, free_iovas = map ?f [0..<1000]\<rparr>"
    by (simp add: new_iova_mgr_def iova_reset_def)
  have "map ?f [0..<1000] = ?f 0 # map ?f [Suc 0..<1000]" by (simp only: upt_conv_Cons [OF zero_less_numeral] list.map)
  then obtain xs where xs: "map ?f [0..<1000] = 0x1000 # xs" by (simp only: mult_zero_left add_0_right)
  show ?thesis using im unfolding xs by blast
qed

lemma example_dma:
  "\<exists>s s'. dma_reach quiet_kernel example_vfio [] [(0x1000, 2 ^ 40)] s \<and> hp_malloc 0x2000 HOST_TO_DEVICE ''queue'' s = (Inr 0, s') \<and>
    ranges_ok (2 * 1024 * 1024) [(0x1000, 2 ^ 40)] \<and> hp_page_size s = 0x1000 \<and> sc_page_size s = 0x1000 \<and>
    malloc_mem s = [] \<and> bus s = [] \<and> connected quiet_kernel example_vfio s \<and> hp_inv s"
proof -
  let ?r = "[(0x1000, 2 ^ 40)] :: (nat \<times> nat) list"
  obtain xs where im: "new_iova_mgr ?r = Inr \<lparr>iova_ranges = ?r, max_iovas = 1000, increment = 2 * 1024 * 1024, free_iovas = 0x1000 # xs\<rparr>"
    using example_iovas by blast
  let ?s = "example_dma_new (0x1000 # xs)"
  have "new_hp_mgr ?r example_dma_blank = (Inr (), ?s)"
    by (simp add: new_hp_mgr_def im [simplified] malloc_hps_def malloc_hp_def hp_memory_malloc_def divS_def thenS_def bindS_apply
        example_dma_blank_def example_dma_new_def hp_bump_def)
  moreover have "hp_blank example_dma_blank" using example_dma_config(1) by (simp add: hp_blank_def example_dma_blank_def)
  moreover have "bus example_dma_blank = []" by (simp add: example_dma_blank_def)
  ultimately have reach: "dma_reach quiet_kernel example_vfio [] ?r ?s" by (intro dma_reach.create [OF _ example_connected(1)])
  have ok: "ranges_ok (2 * 1024 * 1024) ?r" "sorted_wrt (\<lambda>r r'. snd r \<le> fst r') ?r" "\<forall>r \<in> set ?r. snd r \<le> 2 ^ 64"
    by (simp_all add: ranges_ok_def)
  note inv = hp_reach_inv [OF dma_reach_reach [OF reach] ok]
  have "free_pages ?s = [0..<4]" by (auto simp: free_pages_def example_dma_new_def intro!: filter_True)
  then have free: "free_pages ?s = [0, 1, 2, 3]" by (simp add: upt_conv_Cons)
  have locs: "locs ?s = split_page 0x1000 0x1000 4" by (simp add: example_dma_new_def)
  have f: "find_group (locs ?s) (free_pages ?s) 2 = Some [0, 1]"
    unfolding free locs by (simp add: find_group_def grouper_def adjacent_def upt_conv_Cons)
  have p: "maps_ok ?s" "HOST_TO_DEVICE \<noteq> BIDIRECTIONAL" "free_iovas (hp_iovas ?s) = 0x1000 # xs" "0x2000 = max 0x2000 (sc_page_size ?s)"
    "0x2000 \<le> increment (hp_iovas ?s)" "2 = max 1 (0x2000 div hp_page_size ?s)" "2 \<le> length (free_pages ?s)"
    by (simp_all add: free example_dma_config(2)) (simp_all add: example_dma_new_def example_dma_blank_def)
  obtain s' where s': "hp_malloc 0x2000 HOST_TO_DEVICE ''queue'' ?s = (Inr 0, s')"
    using malloc_first_run [OF inv p f, of "''queue''"] unfolding list.sel by blast
  have size: "hp_page_size ?s = 0x1000" "sc_page_size ?s = 0x1000" "malloc_mem ?s = []" "bus ?s = []" by (simp_all add: example_dma_new_def example_dma_blank_def)
  show ?thesis using reach s' ok(1) size example_connected(2) inv by blast
qed


lemma dma_unmap_size_witness:
  "\<exists>(s' :: (nat \<times> nat \<times> ioctl_arg) list hp_mgr) s'' m u. hp_free 0 s' = (Inr (), s'') \<and> bus s'' = [(3, io_number quiet_kernel 59 113, BufArg m), (3, io_number quiet_kernel 59 114, BufArg u)] \<and>
    field_of (io_layout vfioMmuMapDma) [Fld ''size''] m = 0x2000 \<and> field_of (io_layout vfioMmuUnmapDma) [Fld ''size''] u = 0x1000"
proof -
  obtain s s' where s: "dma_reach quiet_kernel example_vfio [] [(0x1000, 2 ^ 40)] s" "hp_malloc 0x2000 HOST_TO_DEVICE ''queue'' s = (Inr 0, s')"
    "ranges_ok (2 * 1024 * 1024) [(0x1000, 2 ^ 40)]" "hp_page_size s = 0x1000" "sc_page_size s = 0x1000" "malloc_mem s = []"
    "connected quiet_kernel example_vfio s" "hp_inv s" "bus s = []" using example_dma by blast
  have fit: "hp_fits s 0x2000" by (simp add: hp_fits_def s(4))
  show ?thesis using dma_unmap_size [OF s(8) fit s(2,7) example_traced(1,2)] s(4,5,9) by (simp add: id_def) metis
qed

end
