(* ===== verification/Physical_Device.thy ===== *)
theory Physical_Device
  imports Vfio_Dma Host_State
begin

text \<open>
  A device on the PCI bus (\<open>NVMeDevicePhysical\<close> in \<open>lone/nvme/device/__init__.py\<close>): how it is put together from the VFIO object, the mapped controller
  registers and the huge page manager, and its interrupts.
\<close>

text \<open>
  There is one kernel behind the object and the memory manager; it is kept as the state of the bus mappings of the manager.
\<close>

record 'k physical =
  ph_obj :: "'k vfio"
  ph_regs :: nat
  ph_mps :: nat
  ph_mgr :: "'k hp_mgr"
  ph_num_msix_vectors :: nat
  ph_int_type :: int_type

definition methodS :: "('k, 'a) vfio_op \<Rightarrow> ('k physical, 'a) st" where
  "methodS f = (\<lambda>p. case f ((ph_obj p)\<lparr>v_kernel := bus (ph_mgr p)\<rparr>) of
     (r, vf) \<Rightarrow> (r, p\<lparr>ph_obj := vf, ph_mgr := (ph_mgr p)\<lparr>bus := v_kernel vf\<rparr>\<rparr>))"

text \<open>\<open>nvme_regs.CC.MPS\<close> of the registers mapped at \<open>a\<close>.\<close>

definition read_mps :: "'k kernel \<Rightarrow> nat \<Rightarrow> ('k, nat) vfio_op" where
  "read_mps K a = bindS (kernelS (k_load K (a + 0x14) 4)) (\<lambda>bs. retS (2 ^ (12 + field_of (rc_layout NVMe_Cc) [Fld ''MPS''] bs)))"

definition manager_for :: "'k kernel \<Rightarrow> 'k vfio \<Rightarrow> nat \<Rightarrow> 'k hp_mgr \<Rightarrow> 'k hp_mgr" where
  "manager_for K vf page m = m\<lparr>hp_page_size := page, bus := v_kernel vf,
     map_read_func := (\<lambda>v a n. on_object vf (map_dma_region_read K v a n)),
     map_write_func := (\<lambda>v a n. on_object vf (map_dma_region_write K v a n)),
     unmap_func := (\<lambda>a n. on_object vf (unmap_dma_region K a n))\<rparr>"

text \<open>
  The constructor. \<open>caps\<close> is \<open>init_capabilities\<close> of the registers that \<open>pci_regs\<close> returns, and \<open>m\<close> the manager object before its constructor, with what the
  system says of its pages. Any exception of the VFIO object becomes one that says that the device was not found.
\<close>

definition open_registers :: "'k kernel \<Rightarrow> ('k, unit) vfio_op \<Rightarrow> ('k, nat \<times> nat) vfio_op" where
  "open_registers K caps = thenS caps (bindS (map_nvme_regs K) (\<lambda>a. bindS (read_mps K a) (\<lambda>page. retS (a, page))))"

definition physical_init :: "'k kernel \<Rightarrow> ('k, unit) vfio_op \<Rightarrow> string \<Rightarrow> 'k hp_mgr \<Rightarrow> ('k, 'k physical) st" where
  "physical_init K caps name m k =
     (case vfio_initialize K (new_vfio k name None None) of
        (Inl e, vf) \<Rightarrow> (Inl NVMeDevicePhysicalNotFoundError, v_kernel vf)
      | (Inr _, vf) \<Rightarrow>
         (case open_registers K caps vf of
            (Inl e, vf) \<Rightarrow> (Inl e, v_kernel vf)
          | (Inr (a, page), vf) \<Rightarrow>
             (case new_hp_mgr (v_iova_ranges vf) (manager_for K vf page m) of
                (Inl e, m) \<Rightarrow> (Inl e, bus m)
              | (Inr _, m) \<Rightarrow> (Inr \<lparr>ph_obj = vf, ph_regs = a, ph_mps = page, ph_mgr = m, ph_num_msix_vectors = 0, ph_int_type = POLLING\<rparr>, bus m))))"

definition init_msix_interrupts :: "'k kernel \<Rightarrow> nat \<Rightarrow> nat \<Rightarrow> ('k physical, unit) st" where
  "init_msix_interrupts K num_vectors start =
     thenS (modifyS (\<lambda>p. p\<lparr>ph_num_msix_vectors := start + num_vectors\<rparr>)) (
     thenS (methodS (enable_msix K num_vectors start)) (modifyS (\<lambda>p. p\<lparr>ph_int_type := MSIX\<rparr>)))"

definition physical_pending_count :: "'k kernel \<Rightarrow> nat \<Rightarrow> ('k physical, nat) st" where
  "physical_pending_count K vector = methodS (get_msix_vector_pending_count K vector)"

section \<open>A device that has been opened\<close>

text \<open>What the constructor needs of the system: its pages, and areas that do not overlap from the allocator of huge pages.\<close>

definition system_ok :: "'k hp_mgr \<Rightarrow> bool" where
  "system_ok m \<longleftrightarrow> 0 < sc_page_size m \<and> sc_page_size m \<le> 4096 \<and> hugepages_heap (hugepages_malloc m) \<and>
     (\<forall>areas n align v. hugepages_malloc m areas n align = Some v \<longrightarrow> v \<noteq> 0 \<longrightarrow> v \<noteq> -1 \<longrightarrow> 0 < v) \<and>
     malloc_mem m = [] \<and> free_iovas (hp_iovas m) = []"

lemma manager_for_blank:
  assumes "system_ok m" "traced K log" "container_fd vf = Some fd" "4096 \<le> page"
  shows "hp_blank (manager_for K vf page m)" "connected K vf (manager_for K vf page m)" "bus (manager_for K vf page m) = v_kernel vf"
proof -
  have "fst (on_object vf (unmap_dma_region K a n) k) = Inr ()" for a n k using vfio_calls(2) [OF assms(2,3), of a n k] by auto
  then show "hp_blank (manager_for K vf page m)" using assms(1,4) by (auto simp: hp_blank_def hp_config_def system_ok_def manager_for_def)
qed (simp_all add: connected_def manager_for_def)

lemma read_mps_value:
  assumes "read_mps K a s = (Inr page, s')"
  shows "\<exists>e \<le> 15. page = 2 ^ (12 + e)" "container_fd s' = container_fd s"
proof -
  obtain bs where "page = 2 ^ (12 + field_of (rc_layout NVMe_Cc) [Fld ''MPS''] bs)" using assms by (auto simp: read_mps_def bindS_eq_Inr_iff)
  moreover have "field_of (rc_layout NVMe_Cc) [Fld ''MPS''] bs < 2 ^ 4"
  proof -
    have p: "field_pos (rc_layout NVMe_Cc) [Fld ''MPS''] = Some (7, 4)"
      by (simp add: NVMe_Cc_def field_pos_def last_match_def struct_places_def)
    show ?thesis using getf_less [of "(7, 4)" bs] by (simp add: field_of_def get_at_def p)
  qed
  ultimately show "\<exists>e \<le> 15. page = 2 ^ (12 + e)" by (intro exI [of _ "field_of (rc_layout NVMe_Cc) [Fld ''MPS''] bs"]) auto
  show "container_fd s' = container_fd s" using assms by (auto simp: read_mps_def bindS_eq_Inr_iff kernelS_Inr_iff)
qed


lemma example_physical:
  "\<exists>p k'. physical_init quiet_kernel (retS ()) ''0000:01:00.0'' example_dma_blank [] = (Inr p, k')"
proof -
  obtain vf where vf: "vfio_initialize quiet_kernel (new_vfio [] ''0000:01:00.0'' None None) = (Inr (), vf)" "0x4000 = r_size (hd (the (bars vf)))"
    "v_iova_ranges vf = [(0x1000, 2 ^ 40)]" using quiet_kernel_opens by blast
  obtain fd b bs where f: "v_device_fd vf = Some fd" "bars vf = Some (b # bs)"
  proof -
    from vfio_initialize_opened [OF vf(1)] obtain fd bs where "v_device_fd vf = Some fd" "bars vf = Some bs" "length bs = 6" by (auto simp: opened_def)
    then show thesis using that by (cases bs) auto
  qed
  have mps: "read_mps quiet_kernel a s = (Inr 4096, s)" for a s
    by (simp add: read_mps_def quiet_kernel_def kernelS_def field_of_zeros)
  have "map_nvme_regs quiet_kernel vf = (Inr 0x10000, vf\<lparr>nvme_mmap := Some 0x10000, nvme_registers := Some 0x10000\<rparr>)"
    using vf(2) by (simp add: map_nvme_regs_def bindS_apply thenS_def attrS_def f kernelS_def quiet_kernel_def NVMe_Registers_size)
  then have o: "open_registers quiet_kernel (retS ()) vf = (Inr (0x10000, 4096), vf\<lparr>nvme_mmap := Some 0x10000, nvme_registers := Some 0x10000\<rparr>)"
    by (simp add: open_registers_def mps thenS_def)
  obtain xs where im: "new_iova_mgr [(0x1000, 2 ^ 40)] =
      Inr \<lparr>iova_ranges = [(0x1000, 2 ^ 40)], max_iovas = 1000, increment = 2 * 1024 * 1024, free_iovas = 0x1000 # xs\<rparr>" using example_iovas by blast
  have "\<exists>m. new_hp_mgr [(0x1000, 2 ^ 40)] (manager_for quiet_kernel vf' 4096 example_dma_blank) = (Inr (), m)" for vf'
    by (simp add: new_hp_mgr_def im [simplified] malloc_hps_def malloc_hp_def hp_memory_malloc_def divS_def thenS_def bindS_apply
        example_dma_blank_def manager_for_def hp_bump_def)
  then obtain m where "new_hp_mgr [(0x1000, 2 ^ 40)] (manager_for quiet_kernel (vf\<lparr>nvme_mmap := Some 0x10000, nvme_registers := Some 0x10000\<rparr>) 4096 example_dma_blank) =
      (Inr (), m)" by blast
  then show ?thesis using vf(1,3) by (simp add: physical_init_def o)
qed


end
