(* ===== verification/Linux_Pci.thy ===== *)
theory Linux_Pci
  imports Effects Py_Strings
begin

text \<open>
  PCI devices through \<open>sysfs\<close> (\<open>lone/system/linux/pci.py\<close>): giving a device to a user through VFIO and back to a driver of the kernel.
  The file system, \<open>lspci\<close>, the users and the owners of files are parameters, functions on a state of their own.
\<close>

section \<open>The system\<close>

datatype user = UserName string | UserId nat | OtherUser

record 'k sysfs =
  p_exists :: "string \<Rightarrow> ('k, bool) st"
  p_readlink :: "string \<Rightarrow> ('k, string) st"
  p_write :: "string \<Rightarrow> string \<Rightarrow> ('k, unit) st"
  p_lspci :: "string \<Rightarrow> ('k, string) st"
  p_getpwnam :: "string \<Rightarrow> ('k, nat \<times> nat) st"
  p_getpwuid :: "nat \<Rightarrow> ('k, nat \<times> nat) st"
  p_chown :: "string \<Rightarrow> nat \<Rightarrow> nat \<Rightarrow> ('k, unit) st"
  p_owner :: "string \<Rightarrow> ('k, nat \<times> nat) st"

record 'k pci_device =
  d_kernel :: 'k
  d_slot :: string
  d_group :: string
  exposed_device_path :: "string option"

definition sysS :: "('k, 'a) st \<Rightarrow> ('k pci_device, 'a) st" where
  "sysS f = (\<lambda>d. case f (d_kernel d) of (r, k) \<Rightarrow> (r, d\<lparr>d_kernel := k\<rparr>))"

definition device_dir :: "string \<Rightarrow> string" where
  "device_dir name = ''/sys/bus/pci/devices/'' @ name @ ''/''"

definition driver_dir :: "string \<Rightarrow> string" where
  "driver_dir driver = ''/sys/bus/pci/drivers/'' @ driver @ ''/''"

definition pci_rescan :: "'k sysfs \<Rightarrow> ('k, unit) st" where
  "pci_rescan K = p_write K ''/sys/bus/pci/rescan'' (''1'' @ [CHR 10])"

section \<open>The device\<close>

definition new_pci_device :: "'k sysfs \<Rightarrow> string \<Rightarrow> 'k \<Rightarrow> 'k pci_device res \<times> 'k" where
  "new_pci_device K name =
     bindS (p_readlink K (device_dir name @ ''iommu_group'')) (\<lambda>link k.
       (Inr \<lparr>d_kernel = k, d_slot = name, d_group = basename link, exposed_device_path = None\<rparr>, k))"

definition pci_exists :: "'k sysfs \<Rightarrow> ('k pci_device, bool) st" where
  "pci_exists K = bindS (getS d_slot) (\<lambda>name. sysS (p_exists K (device_dir name)))"

definition pci_remove :: "'k sysfs \<Rightarrow> ('k pci_device, unit) st" where
  "pci_remove K =
     bindS (getS d_slot) (\<lambda>name.
     bindS (sysS (p_exists K (device_dir name @ ''remove''))) (\<lambda>there.
     if there then sysS (p_write K (device_dir name @ ''remove'') (''1'' @ [CHR 10])) else retS ()))"

text \<open>The third word of the line of \<open>lspci -n\<close>, vendor and device.\<close>

definition ids_of :: "string \<Rightarrow> string res" where
  "ids_of out = bindR (list_get (words_of out) 2) (\<lambda>w. Inr (replace_char CHR '':'' CHR '' '' w))"

definition unbind_current_driver :: "'k sysfs \<Rightarrow> ('k pci_device, unit) st" where
  "unbind_current_driver K =
     bindS (getS d_slot) (\<lambda>name.
     bindS (sysS (p_exists K (device_dir name @ ''driver/module''))) (\<lambda>bound.
     if bound then
       bindS (sysS (p_readlink K (device_dir name @ ''driver/module''))) (\<lambda>link.
       let driver = basename link; unbind_name = (if driver = ''vfio_pci'' then ''vfio-pci'' else driver) in
       thenS (sysS (p_write K (driver_dir unbind_name @ ''unbind'') name)) (
       if driver = ''vfio_pci'' then
         bindS (sysS (p_lspci K name)) (\<lambda>out.
         bindS (liftS (ids_of out)) (\<lambda>ids.
           sysS (p_write K (driver_dir ''vfio-pci'' @ ''remove_id'') ids)))
       else retS ()))
     else retS ()))"

definition bind_to_driver :: "'k sysfs \<Rightarrow> string \<Rightarrow> ('k pci_device, unit) st" where
  "bind_to_driver K driver =
     bindS (getS d_slot) (\<lambda>name.
     bindS (sysS (p_exists K (driver_dir driver @ ''bind''))) (\<lambda>there.
     if there then sysS (p_write K (driver_dir driver @ ''bind'') name) else retS ()))"

definition create_device :: "'k sysfs \<Rightarrow> ('k pci_device, string option) st" where
  "create_device K =
     bindS (getS d_slot) (\<lambda>name.
     bindS (sysS (p_lspci K name)) (\<lambda>out.
     bindS (liftS (ids_of out)) (\<lambda>ids.
     bindS (getS d_group) (\<lambda>grp.
     thenS (sysS (p_write K (driver_dir ''vfio-pci'' @ ''new_id'') ids)) (
     bindS (sysS (p_exists K (''/dev/vfio/'' @ grp))) (\<lambda>there.
       retS (if there then Some (''/dev/vfio/'' @ grp) else None)))))))"

definition user_info :: "'k sysfs \<Rightarrow> user \<Rightarrow> ('k, nat \<times> nat) st" where
  "user_info K u = (case u of
       UserName n \<Rightarrow> p_getpwnam K n
     | UserId i \<Rightarrow> p_getpwuid K i
     | OtherUser \<Rightarrow> raiseS PlainException)"

text \<open>\<open>os.chown\<close> of None raises.\<close>

definition change_device_ownership :: "'k sysfs \<Rightarrow> string option \<Rightarrow> user \<Rightarrow> ('k pci_device, unit) st" where
  "change_device_ownership K path' u =
     bindS (sysS (user_info K u)) (\<lambda>(uid, gid).
     (case path' of
        None \<Rightarrow> raiseS TypeError
      | Some p \<Rightarrow>
          thenS (sysS (p_chown K p uid gid)) (
          bindS (sysS (p_owner K p)) (\<lambda>o1.
          thenS (assertS (fst o1 = uid)) (
          bindS (sysS (p_owner K p)) (\<lambda>o2. assertS (snd o2 = gid)))))))"

definition as_user :: "user \<Rightarrow> user" where
  "as_user u = (case u of UserName n \<Rightarrow> if is_numeric n then UserId (dec_value n) else UserName n | _ \<Rightarrow> u)"

definition pci_expose :: "'k sysfs \<Rightarrow> user \<Rightarrow> ('k pci_device, unit) st" where
  "pci_expose K u =
     thenS (unbind_current_driver K) (
     bindS (create_device K) (\<lambda>path'.
     thenS (modifyS (\<lambda>d. d\<lparr>exposed_device_path := path'\<rparr>))
       (change_device_ownership K path' (as_user u))))"

definition pci_reclaim :: "'k sysfs \<Rightarrow> string \<Rightarrow> ('k pci_device, unit) st" where
  "pci_reclaim K driver = thenS (unbind_current_driver K) (bind_to_driver K driver)"

section \<open>A system that keeps a record\<close>

text \<open>What was written and given away, in order; all answers may depend on it.\<close>

datatype access = Wrote string string | Owned string nat nat

record answers =
  a_exists :: "access list \<Rightarrow> string \<Rightarrow> bool"
  a_link :: "access list \<Rightarrow> string \<Rightarrow> string"
  a_lspci :: "string \<Rightarrow> string"
  a_user :: "user \<Rightarrow> (nat \<times> nat) res"
  a_owner :: "access list \<Rightarrow> string \<Rightarrow> nat \<times> nat"

definition recording :: "answers \<Rightarrow> (access list) sysfs" where
  "recording A = \<lparr>p_exists = (\<lambda>p. getS (\<lambda>l. a_exists A l p)), p_readlink = (\<lambda>p. getS (\<lambda>l. a_link A l p)),
     p_write = (\<lambda>p s. modifyS (\<lambda>l. l @ [Wrote p s])), p_lspci = (\<lambda>n. retS (a_lspci A n)),
     p_getpwnam = (\<lambda>n. liftS (a_user A (UserName n))), p_getpwuid = (\<lambda>i. liftS (a_user A (UserId i))),
     p_chown = (\<lambda>p u g. modifyS (\<lambda>l. l @ [Owned p u g])), p_owner = (\<lambda>p. getS (\<lambda>l. a_owner A l p))\<rparr>"

definition unbinding :: "answers \<Rightarrow> access list \<Rightarrow> string \<Rightarrow> string \<Rightarrow> access list" where
  "unbinding A l name ids =
     (let driver = basename (a_link A l (device_dir name @ ''driver/module'')) in
      if \<not> a_exists A l (device_dir name @ ''driver/module'') then []
      else if driver = ''vfio_pci''
        then [Wrote (driver_dir ''vfio-pci'' @ ''unbind'') name, Wrote (driver_dir ''vfio-pci'' @ ''remove_id'') ids]
        else [Wrote (driver_dir driver @ ''unbind'') name])"

definition user_entry :: "answers \<Rightarrow> user \<Rightarrow> (nat \<times> nat) res" where
  "user_entry A u = (case as_user u of OtherUser \<Rightarrow> Inl PlainException | v \<Rightarrow> a_user A v)"

lemma sysS_simps [simp]:
  "sysS (getS f) d = (Inr (f (d_kernel d)), d)"
  "sysS (modifyS g) d = (Inr (), d\<lparr>d_kernel := g (d_kernel d)\<rparr>)"
  "sysS (retS x) d = (Inr x, d)"
  "sysS (liftS r) d = (r, d)"
  "sysS (raiseS e) d = (Inl e, d)"
  by (simp_all add: sysS_def)

lemma unbinds:
  assumes "ids_of (a_lspci A (d_slot d)) = Inr ids"
  shows "unbind_current_driver (recording A) d =
    (Inr (), d\<lparr>d_kernel := d_kernel d @ unbinding A (d_kernel d) (d_slot d) ids\<rparr>)"
  using assms
  by (simp add: unbind_current_driver_def recording_def unbinding_def bindS_apply thenS_def Let_def)

lemma ownership:
  "change_device_ownership (recording A) path' (as_user u) d =
     (case user_entry A u of
        Inl e \<Rightarrow> (Inl e, d)
      | Inr (uid, gid) \<Rightarrow> (case path' of
          None \<Rightarrow> (Inl TypeError, d)
        | Some p \<Rightarrow> (if a_owner A (d_kernel d @ [Owned p uid gid]) p = (uid, gid) then Inr () else Inl AssertionError,
            d\<lparr>d_kernel := d_kernel d @ [Owned p uid gid]\<rparr>)))"
proof -
  have who: "user_info (recording A) (as_user u) l = (user_entry A u, l)" for l
    by (cases "as_user u") (simp_all add: user_info_def user_entry_def recording_def)
  have "sysS (user_info (recording A) (as_user u)) d = (user_entry A u, d)"
    by (simp add: sysS_def who)
  then show ?thesis
    by (simp add: change_device_ownership_def bindS_apply thenS_def split: sum.split option.split prod.split)
      (auto simp: recording_def)
qed

text \<open>The record when the device has no driver any more, and when VFIO has been given its identifiers.\<close>

definition freed_log :: "answers \<Rightarrow> access list pci_device \<Rightarrow> string \<Rightarrow> access list" where
  "freed_log A d ids = d_kernel d @ unbinding A (d_kernel d) (d_slot d) ids"

definition given_log :: "answers \<Rightarrow> access list pci_device \<Rightarrow> string \<Rightarrow> access list" where
  "given_log A d ids = freed_log A d ids @ [Wrote (driver_dir ''vfio-pci'' @ ''new_id'') ids]"

definition group_node :: "'k pci_device \<Rightarrow> string" where
  "group_node d = ''/dev/vfio/'' @ d_group d"

lemma exposes:
  assumes "ids_of (a_lspci A (d_slot d)) = Inr ids"
  shows "pci_expose (recording A) u d =
      (let given = given_log A d ids; node = group_node d in
       case user_entry A u of
         Inl e \<Rightarrow> (Inl e, d\<lparr>d_kernel := given, exposed_device_path := (if a_exists A given node then Some node else None)\<rparr>)
       | Inr (uid, gid) \<Rightarrow>
           if a_exists A given node
           then (if a_owner A (given @ [Owned node uid gid]) node = (uid, gid) then Inr () else Inl AssertionError,
             d\<lparr>d_kernel := given @ [Owned node uid gid], exposed_device_path := Some node\<rparr>)
           else (Inl TypeError, d\<lparr>d_kernel := given, exposed_device_path := None\<rparr>))"
proof -
  have cr: "create_device (recording A) (d\<lparr>d_kernel := freed_log A d ids\<rparr>) =
     (Inr (if a_exists A (given_log A d ids) (group_node d) then Some (group_node d) else None), d\<lparr>d_kernel := given_log A d ids\<rparr>)"
    using assms by (simp add: create_device_def bindS_apply thenS_def given_log_def group_node_def) (simp add: recording_def)
  show ?thesis
    by (simp add: pci_expose_def unbinds [OF assms, folded freed_log_def] bindS_apply thenS_def cr ownership Let_def split: sum.split)
qed

lemma reclaims:
  assumes "ids_of (a_lspci A (d_slot d)) = Inr ids"
  shows "pci_reclaim (recording A) driver d =
      (Inr (), d\<lparr>d_kernel := freed_log A d ids @
        (if a_exists A (freed_log A d ids) (driver_dir driver @ ''bind'') then [Wrote (driver_dir driver @ ''bind'') (d_slot d)] else [])\<rparr>)"
  by (simp add: pci_reclaim_def unbinds [OF assms, folded freed_log_def] thenS_def bind_to_driver_def bindS_apply) (simp add: recording_def)

text \<open>
  Property C38. The device changes hands as written: its driver is unbound (and its identifiers are taken back from VFIO when that was the driver), then for
  a user the identifiers are given to VFIO and the node of its group to the user, for a driver the slot is written to its \<open>bind\<close>, if there is one.
  Only after VFIO has the device is the user looked up and the node used: for an unknown user, or when the node has not appeared (a
  \<open>TypeError\<close>, since \<open>os.chown\<close> gets None), exposing raises and leaves the device without its driver.
\<close>

theorem pci_handover:
  assumes "ids_of (a_lspci A (d_slot d)) = Inr ids"
  shows "pci_expose (recording A) u d =
      (let given = given_log A d ids; node = group_node d in
       case user_entry A u of
         Inl e \<Rightarrow> (Inl e, d\<lparr>d_kernel := given, exposed_device_path := (if a_exists A given node then Some node else None)\<rparr>)
       | Inr (uid, gid) \<Rightarrow>
           if a_exists A given node
           then (if a_owner A (given @ [Owned node uid gid]) node = (uid, gid) then Inr () else Inl AssertionError,
             d\<lparr>d_kernel := given @ [Owned node uid gid], exposed_device_path := Some node\<rparr>)
           else (Inl TypeError, d\<lparr>d_kernel := given, exposed_device_path := None\<rparr>)) \<and>
    pci_reclaim (recording A) driver d =
      (Inr (), d\<lparr>d_kernel := freed_log A d ids @
        (if a_exists A (freed_log A d ids) (driver_dir driver @ ''bind'') then [Wrote (driver_dir driver @ ''bind'') (d_slot d)] else [])\<rparr>)"
  using exposes [OF assms] reclaims [OF assms] by blast

text \<open>A device of the kernel driver \<open>nvme\<close> whose node appears when its identifiers have been written.\<close>

definition example_answers :: answers where
  "example_answers = \<lparr>a_exists = (\<lambda>l p. p = device_dir ''0000:01:00.0'' @ ''driver/module'' \<or> l \<noteq> [] \<and> p = ''/dev/vfio/26''),
     a_link = (\<lambda>l p. ''../../module/nvme''), a_lspci = (\<lambda>n. ''01:00.0 0108: 144d:a808''),
     a_user = (\<lambda>u. if u = UserId 1000 then Inr (1000, 100) else Inl KeyError), a_owner = (\<lambda>l p. (1000, 100))\<rparr>"

definition example_pci_device :: "access list pci_device" where
  "example_pci_device = \<lparr>d_kernel = [], d_slot = ''0000:01:00.0'', d_group = ''26'', exposed_device_path = None\<rparr>"

lemma example_ids: "ids_of (a_lspci example_answers (d_slot example_pci_device)) = Inr ''144d a808''"
  by code_simp

theorem pci_handover_witness:
  "(\<exists>d. pci_expose (recording example_answers) (UserName ''1000'') example_pci_device = (Inr (), d) \<and> exposed_device_path d = Some ''/dev/vfio/26'' \<and>
     d_kernel d = [Wrote ''/sys/bus/pci/drivers/nvme/unbind'' ''0000:01:00.0'', Wrote ''/sys/bus/pci/drivers/vfio-pci/new_id'' ''144d a808'',
       Owned ''/dev/vfio/26'' 1000 100]) \<and>
   (\<exists>d. pci_expose (recording example_answers) (UserName ''nobody'') example_pci_device = (Inl KeyError, d) \<and>
     d_kernel d = [Wrote ''/sys/bus/pci/drivers/nvme/unbind'' ''0000:01:00.0'', Wrote ''/sys/bus/pci/drivers/vfio-pci/new_id'' ''144d a808''])"
proof -
  have given: "given_log example_answers example_pci_device ''144d a808'' =
      [Wrote ''/sys/bus/pci/drivers/nvme/unbind'' ''0000:01:00.0'', Wrote ''/sys/bus/pci/drivers/vfio-pci/new_id'' ''144d a808'']"
    by code_simp
  have node: "group_node example_pci_device = ''/dev/vfio/26''" by code_simp
  have users: "user_entry example_answers (UserName ''1000'') = Inr (1000, 100)" "user_entry example_answers (UserName ''nobody'') = Inl KeyError"
    by code_simp+
  have there: "a_exists example_answers (a # l) ''/dev/vfio/26''" "a_owner example_answers l p = (1000, 100)" for a l p
    by (simp_all add: example_answers_def)
  show ?thesis
    using pci_handover [OF example_ids, of "UserName ''1000''" "[]"] pci_handover [OF example_ids, of "UserName ''nobody''" "[]"]
    by (simp add: given node users there Let_def)
qed

end
