(* ===== verification/Struct_Tools.thy ===== *)
theory Struct_Tools
  imports Effects Py_Strings
begin

text \<open>
  Comparison of structures and iteration over their fields (\<open>lone/util/struct_tools.py\<close>), for layouts of integers, bit fields, arrays and
  nested structures: the values a structure prints, and when two objects of one class are equal.
\<close>

section \<open>The integer fields of a layout\<close>

text \<open>The fields of a structure with their places; an attribute name stands for the last field of that name.\<close>

definition placed :: "(string \<times> cty \<times> nat option) list \<Rightarrow> (string \<times> cty \<times> nat option \<times> (nat \<times> nat)) list" where
  "placed fs = map2 (\<lambda>(m, t, w) q. (m, t, w, q)) fs (struct_places fs)"

lemma placed_size: "(m, t, w, q) \<in> set (placed fs) \<Longrightarrow> size t < size (Struct fs)"
proof -
  assume "(m, t, w, q) \<in> set (placed fs)"
  then have "(m, t, w) \<in> set fs" by (auto simp: placed_def dest: set_zip_leftD)
  then have "size t \<le> size_list (size_prod (\<lambda>x. 0) (size_prod size (\<lambda>x. 0))) fs" by (rule size_list_estimation') simp
  then show ?thesis by simp
qed

lemma array_size: "size t < size (Arr t n)"
  by simp

lemma union_size: "(m, t) \<in> set fs \<Longrightarrow> size t < size (Union fs)"
proof -
  assume "(m, t) \<in> set fs"
  then have "size t \<le> size_list (size_prod (\<lambda>x. 0) size) fs" by (rule size_list_estimation') simp
  then show ?thesis by simp
qed

definition attr_results :: "(string \<times> 'a) list \<Rightarrow> (string \<times> 'a) list" where
  "attr_results rs = map (\<lambda>(m, r). (m, case last_match m rs of None \<Rightarrow> r | Some r' \<Rightarrow> r')) rs"

function leaves :: "cty \<Rightarrow> step list list" where
  "leaves (UInt n) = [[]]"
| "leaves (Arr t n) = concat (map (\<lambda>i. map ((#) (Idx i)) (leaves t)) [0..<n])"
| "leaves (Struct fs) = concat (map (\<lambda>(m, ls). map ((#) (Fld m)) ls)
     (attr_results (map (\<lambda>(m, t, w, q). (m, case w of None \<Rightarrow> leaves t | Some _ \<Rightarrow> [[]])) (placed fs))))"
| "leaves (Union fs) = concat (map (\<lambda>(m, ls). map ((#) (Fld m)) ls) (attr_results (map (\<lambda>(m, t). (m, leaves t)) fs)))"
  by pat_completeness auto
termination
  by (relation "measure size") (auto dest: placed_size union_size simp: array_size simp del: cty.size)

text \<open>\<open>next_value\<close>: the names are built on the way down, from the name of the class.\<close>

fun path_name :: "string \<Rightarrow> step list \<Rightarrow> string" where
  "path_name base [] = base"
| "path_name base (Idx i # p) = path_name (base @ ''['' @ dec i @ '']'') p"
| "path_name base (Fld n # p) = path_name (base @ ''.'' @ n) p"

definition value_at :: "cty \<Rightarrow> nat \<Rightarrow> byte list \<Rightarrow> step list \<Rightarrow> nat" where
  "value_at t b bs p = (case field_at t p b of None \<Rightarrow> 0 | Some f \<Rightarrow> getf f bs)"

definition struct_values :: "string \<Rightarrow> cty \<Rightarrow> byte list \<Rightarrow> (string \<times> nat) list" where
  "struct_values name t bs = map (\<lambda>p. (path_name name p, value_at t 0 bs p)) (leaves t)"

record struct_iter =
  it_values :: "(string \<times> nat) list"
  it_i :: nat

definition new_struct_iter :: "string \<Rightarrow> cty \<Rightarrow> byte list \<Rightarrow> struct_iter" where
  "new_struct_iter name t bs = \<lparr>it_values = struct_values name t bs, it_i = 0\<rparr>"

definition next_item :: "(struct_iter, string \<times> nat) st" where
  "next_item = bindS (getS id) (\<lambda>s. case list_get (it_values s) (it_i s) of
     Inl e \<Rightarrow> raiseS StopIteration
   | Inr ret \<Rightarrow> thenS (modifyS (\<lambda>s. s\<lparr>it_i := it_i s + 1\<rparr>)) (retS ret))"

section \<open>Comparison\<close>

text \<open>
  \<open>ComparableStruct.__eq__\<close>. An array is compared element by element; elements and fields that are structures compare as such, but
  arrays within arrays and unions are objects of classes without a comparison of their own, and two of them are never the same object.
\<close>

function same :: "cty \<Rightarrow> nat \<Rightarrow> byte list \<Rightarrow> byte list \<Rightarrow> bool" where
  "same (UInt n) b x y = (getf (b, 8 * n) x = getf (b, 8 * n) y)"
| "same (Arr t n) b x y = False"
| "same (Union fs) b x y = False"
| "same (Struct fs) b x y = list_all snd (attr_results (map (\<lambda>(m, t, w, q). (m, case w of
       Some _ \<Rightarrow> getf (b + fst q, snd q) x = getf (b + fst q, snd q) y
     | None \<Rightarrow> (case t of
         Arr t' n \<Rightarrow> list_all (\<lambda>i. same t' (b + fst q + 8 * i * csize t') x y) [0..<n]
       | _ \<Rightarrow> same t (b + fst q) x y))) (placed fs)))"
  by pat_completeness auto
termination
  by (relation "measure (\<lambda>(t, _). size t)") (auto dest!: placed_size)

definition struct_eq :: "cty \<Rightarrow> byte list \<Rightarrow> byte list \<Rightarrow> bool" where
  "struct_eq t x y = same t 0 x y"

text \<open>\<open>__ne__\<close> is the same loop with the answers exchanged.\<close>

definition struct_ne :: "cty \<Rightarrow> byte list \<Rightarrow> byte list \<Rightarrow> bool" where
  "struct_ne t x y \<longleftrightarrow> \<not> struct_eq t x y"

section \<open>The fields that are listed\<close>

lemma last_match_map: "last_match m (map (\<lambda>(k, v). (k, f v)) xs) = map_option f (last_match m xs)"
  by (simp add: last_match_def rev_map map_of_map)

lemma last_match_member: "last_match m xs = Some v \<Longrightarrow> (m, v) \<in> set xs"
  unfolding last_match_def by (metis map_of_SomeD set_rev)

lemma attr_results_iff: "(m, r) \<in> set (attr_results rs) \<longleftrightarrow> last_match m rs = Some r"
proof -
  have *: "last_match m rs \<noteq> None" if "(m, r') \<in> set rs" for m r'
    using that by (auto simp: last_match_def map_of_eq_None_iff rev_image_eqI)
  show ?thesis
  proof
    assume "(m, r) \<in> set (attr_results rs)"
    then obtain r' where "(m, r') \<in> set rs" "r = (case last_match m rs of None \<Rightarrow> r' | Some r'' \<Rightarrow> r'')" by (auto simp: attr_results_def)
    then show "last_match m rs = Some r" using * by (auto split: option.splits)
  next
    assume l: "last_match m rs = Some r"
    have "(m, r) \<in> (\<lambda>(m, r). (m, case last_match m rs of None \<Rightarrow> r | Some r' \<Rightarrow> r')) ` set rs"
      by (rule image_eqI [where x = "(m, r)"]) (use l last_match_member [OF l] in auto)
    then show "(m, r) \<in> set (attr_results rs)" by (simp add: attr_results_def)
  qed
qed

text \<open>An attribute path that ends at an integer.\<close>

fun int_path :: "cty \<Rightarrow> step list \<Rightarrow> bool" where
  "int_path (UInt n) [] = True"
| "int_path (Arr t n) (Idx i # p) = (i < n \<and> int_path t p)"
| "int_path (Struct fs) (Fld m # p) = (case last_match m (placed fs) of
     None \<Rightarrow> False | Some (t, None, q) \<Rightarrow> int_path t p | Some (t, Some w, q) \<Rightarrow> p = [])"
| "int_path (Union fs) (Fld m # p) = (case last_match m fs of None \<Rightarrow> False | Some t \<Rightarrow> int_path t p)"
| "int_path _ _ = False"

lemma last_match_map3: "last_match m (map (\<lambda>(k, t, w, q). (k, f t w q)) xs) = map_option (\<lambda>(t, w, q). f t w q) (last_match m xs)"
  using last_match_map [of m "\<lambda>(t, w, q). f t w q" xs] by (simp add: case_prod_unfold)

lemma struct_leaves_iff:
  "p \<in> set (leaves (Struct fs)) \<longleftrightarrow> (\<exists>m t w q p'. last_match m (placed fs) = Some (t, w, q) \<and> p = Fld m # p' \<and>
     p' \<in> set (case w of None \<Rightarrow> leaves t | Some _ \<Rightarrow> [[]]))"
proof -
  have "p \<in> set (leaves (Struct fs)) \<longleftrightarrow> (\<exists>m ls. (m, ls) \<in> set (attr_results (map (\<lambda>(m, t, w, q). (m, case w of None \<Rightarrow> leaves t | Some _ \<Rightarrow> [[]])) (placed fs))) \<and>
      p \<in> (#) (Fld m) ` set ls)" by auto
  also have "\<dots> \<longleftrightarrow> (\<exists>m v. last_match m (placed fs) = Some v \<and> p \<in> (#) (Fld m) ` set (case fst (snd v) of None \<Rightarrow> leaves (fst v) | Some _ \<Rightarrow> [[]]))"
    unfolding attr_results_iff last_match_map3 map_option_eq_Some by (simp add: case_prod_unfold) blast
  finally have *: "p \<in> set (leaves (Struct fs)) \<longleftrightarrow>
    (\<exists>m v. last_match m (placed fs) = Some v \<and> p \<in> (#) (Fld m) ` set (case fst (snd v) of None \<Rightarrow> leaves (fst v) | Some _ \<Rightarrow> [[]]))" .
  show ?thesis
  proof
    assume "p \<in> set (leaves (Struct fs))"
    then obtain m v p' where "last_match m (placed fs) = Some v" "p = Fld m # p'"
      "p' \<in> set (case fst (snd v) of None \<Rightarrow> leaves (fst v) | Some _ \<Rightarrow> [[]])" unfolding * by auto
    moreover obtain t w q where "v = (t, w, q)" by (cases v)
    ultimately show "\<exists>m t w q p'. last_match m (placed fs) = Some (t, w, q) \<and> p = Fld m # p' \<and>
        p' \<in> set (case w of None \<Rightarrow> leaves t | Some _ \<Rightarrow> [[]])" by (cases w) auto
  next
    assume "\<exists>m t w q p'. last_match m (placed fs) = Some (t, w, q) \<and> p = Fld m # p' \<and>
        p' \<in> set (case w of None \<Rightarrow> leaves t | Some _ \<Rightarrow> [[]])"
    then obtain m t w q p' where "last_match m (placed fs) = Some (t, w, q)" "p = Fld m # p'"
      "p' \<in> set (case w of None \<Rightarrow> leaves t | Some _ \<Rightarrow> [[]])" by blast
    then show "p \<in> set (leaves (Struct fs))" unfolding * by (intro exI [of _ m] exI [of _ "(t, w, q)"]) (cases w; simp)
  qed
qed

lemma union_leaves_iff: "p \<in> set (leaves (Union fs)) \<longleftrightarrow> (\<exists>m t p'. last_match m fs = Some t \<and> p = Fld m # p' \<and> p' \<in> set (leaves t))"
proof -
  have "p \<in> set (leaves (Union fs)) \<longleftrightarrow> (\<exists>m ls. (m, ls) \<in> set (attr_results (map (\<lambda>(m, t). (m, leaves t)) fs)) \<and> p \<in> (#) (Fld m) ` set ls)"
    by auto
  then show ?thesis unfolding attr_results_iff last_match_map by auto
qed

lemma leaves_iff: "p \<in> set (leaves t) \<longleftrightarrow> int_path t p"
proof (induction t arbitrary: p rule: leaves.induct)
  case (1 n)
  show ?case by (cases p) auto
next
  case (2 t n)
  show ?case by (cases p rule: list.exhaust; cases "hd p") (auto simp: 2 image_iff)
next
  case (3 fs)
  have ih: "p' \<in> set (leaves t) \<longleftrightarrow> int_path t p'" if "last_match m (placed fs) = Some (t, None, q)" for m t q p'
    using 3 [OF last_match_member [OF that]] by simp
  show ?case unfolding struct_leaves_iff
    by (cases p rule: list.exhaust; cases "hd p") (auto simp: ih split: option.splits)
next
  case (4 fs)
  have ih: "p' \<in> set (leaves t) \<longleftrightarrow> int_path t p'" if "last_match m fs = Some t" for m t p'
    using 4 [OF last_match_member [OF that]] by simp
  show ?case unfolding union_leaves_iff
    by (cases p rule: list.exhaust; cases "hd p") (auto simp: ih split: option.splits)
qed

lemma field_at_Struct: "field_at (Struct fs) (Fld m # p) b = (case last_match m (placed fs) of
     None \<Rightarrow> None | Some (t, None, q) \<Rightarrow> field_at t p (b + fst q) | Some (t, Some w, q) \<Rightarrow> if p = [] then Some (b + fst q, snd q) else None)"
  by (simp add: placed_def)

lemma int_path_resolves: "int_path t p \<Longrightarrow> \<exists>f. field_at t p b = Some f"
proof (induction t p arbitrary: b rule: int_path.induct)
  case (3 fs m p)
  then show ?case unfolding field_at_Struct by (auto split: option.splits)
qed (auto split: option.splits)

lemma leaf_value: "p \<in> set (leaves t) \<Longrightarrow> value_at t 0 z p = getf (the (field_pos t p)) z \<and> field_pos t p \<noteq> None"
  using int_path_resolves [of t p 0] unfolding leaves_iff by (auto simp: value_at_def field_pos_def)

text \<open>
  The iterator gives every integer field once, with the value and the name of the path that leads to it, and then stops for ever.
\<close>

theorem struct_iteration:
  shows "(\<forall>p. p \<in> set (leaves t) \<longleftrightarrow> int_path t p) \<and>
    struct_values name t bs = map (\<lambda>p. (path_name name p, getf (the (field_pos t p)) bs)) (leaves t) \<and>
    (\<forall>p \<in> set (leaves t). field_pos t p \<noteq> None) \<and>
    (\<forall>i. next_item ((new_struct_iter name t bs)\<lparr>it_i := i\<rparr>) =
      (if i < length (leaves t) then (Inr (struct_values name t bs ! i), (new_struct_iter name t bs)\<lparr>it_i := i + 1\<rparr>)
       else (Inl StopIteration, (new_struct_iter name t bs)\<lparr>it_i := i\<rparr>)))"
proof (intro conjI allI ballI)
  show "p \<in> set (leaves t) \<longleftrightarrow> int_path t p" for p by (rule leaves_iff)
  show "field_pos t p \<noteq> None" if "p \<in> set (leaves t)" for p using leaf_value [OF that] by blast
  show "struct_values name t bs = map (\<lambda>p. (path_name name p, getf (the (field_pos t p)) bs)) (leaves t)"
    using leaf_value by (simp add: struct_values_def)
  show "next_item ((new_struct_iter name t bs)\<lparr>it_i := i\<rparr>) =
      (if i < length (leaves t) then (Inr (struct_values name t bs ! i), (new_struct_iter name t bs)\<lparr>it_i := i + 1\<rparr>)
       else (Inl StopIteration, (new_struct_iter name t bs)\<lparr>it_i := i\<rparr>))" for i
    by (simp add: next_item_def new_struct_iter_def list_get_def struct_values_def)
qed

section \<open>When two structures are equal\<close>

text \<open>Structures of integers, structures, and arrays of these.\<close>

function comparable :: "cty \<Rightarrow> bool" where
  "comparable (UInt n) = True"
| "comparable (Arr t n) = False"
| "comparable (Union fs) = False"
| "comparable (Struct fs) = list_all (\<lambda>(m, t, w, q). w \<noteq> None \<or> (case t of Arr t' n \<Rightarrow> comparable t' | _ \<Rightarrow> comparable t)) (placed fs)"
  by pat_completeness auto
termination
  by (relation "measure size") (auto dest!: placed_size)

definition same_field :: "cty \<Rightarrow> nat option \<Rightarrow> nat \<times> nat \<Rightarrow> nat \<Rightarrow> byte list \<Rightarrow> byte list \<Rightarrow> bool" where
  "same_field t w q b x y = (case w of
       Some _ \<Rightarrow> getf (b + fst q, snd q) x = getf (b + fst q, snd q) y
     | None \<Rightarrow> (case t of
         Arr t' n \<Rightarrow> list_all (\<lambda>i. same t' (b + fst q + 8 * i * csize t') x y) [0..<n]
       | _ \<Rightarrow> same t (b + fst q) x y))"

lemma list_all_snd: "list_all snd xs \<longleftrightarrow> (\<forall>m. (m, False) \<notin> set xs)"
proof (induction xs)
  case (Cons x xs)
  then show ?case by (cases x; cases "snd x") auto
qed simp

lemma same_Struct_iff: "same (Struct fs) b x y \<longleftrightarrow> (\<forall>m t w q. last_match m (placed fs) = Some (t, w, q) \<longrightarrow> same_field t w q b x y)"
proof -
  have "same (Struct fs) b x y = list_all snd (attr_results (map (\<lambda>(m, t, w, q). (m, same_field t w q b x y)) (placed fs)))"
    unfolding same_field_def by (rule same.simps(4))
  also have "\<dots> \<longleftrightarrow> (\<forall>m v. last_match m (placed fs) = Some v \<longrightarrow> same_field (fst v) (fst (snd v)) (snd (snd v)) b x y)"
    unfolding list_all_snd attr_results_iff last_match_map3 map_option_eq_Some by (simp add: case_prod_unfold)
  finally show ?thesis by auto
qed

lemma same_iff:
  "comparable t \<Longrightarrow> same t b x y \<longleftrightarrow> (\<forall>p \<in> set (leaves t). value_at t b x p = value_at t b y p)"
proof (induction t arbitrary: b rule: measure_induct_rule [of size])
  case (less t)
  have ih: "same t' b' x y \<longleftrightarrow> (\<forall>p \<in> set (leaves t'). value_at t' b' x p = value_at t' b' y p)" if "size t' < size t" "comparable t'" for t' b'
    using less that by blast
  show ?case
  proof (cases t)
    case (Struct fs)
    have fld: "same_field t' w q b x y \<longleftrightarrow> (\<forall>p \<in> set (case w of None \<Rightarrow> leaves t' | Some _ \<Rightarrow> [[]]).
        value_at t b x (Fld m # p) = value_at t b y (Fld m # p))" if l: "last_match m (placed fs) = Some (t', w, q)" for m t' w q
    proof -
      have mem: "(m, t', w, q) \<in> set (placed fs)" using last_match_member [OF l] .
      have v: "value_at t b z (Fld m # p) = (case w of None \<Rightarrow> value_at t' (b + fst q) z p | Some _ \<Rightarrow> if p = [] then getf (b + fst q, snd q) z else 0)" for z p
        unfolding Struct value_at_def field_at_Struct l by (cases w) simp_all
      have sz: "size t' < size t" using placed_size [OF mem] Struct by simp
      show ?thesis
      proof (cases w)
        case None
        then have c: "case t' of Arr t'' n \<Rightarrow> comparable t'' | _ \<Rightarrow> comparable t'" using less.prems mem Struct by (auto simp: list_all_iff)
        show ?thesis
        proof (cases t')
          case (Arr t'' n)
          then have "same t'' b' x y \<longleftrightarrow> (\<forall>p \<in> set (leaves t''). value_at t'' b' x p = value_at t'' b' y p)" for b'
            using ih [of t''] sz c by simp
          moreover have "value_at t' c z (Idx i # p) = value_at t'' (c + 8 * i * csize t'') z p" if "i < n" for c z i p
            using that by (simp add: value_at_def Arr)
          ultimately show ?thesis unfolding v same_field_def by (auto simp: None Arr list_all_iff)
        qed (use None c ih [OF sz] in \<open>auto simp: v same_field_def\<close>)
      qed (simp add: v same_field_def)
    qed
    show ?thesis
    proof
      assume "same t b x y"
      then have s: "same_field t' w q b x y" if "last_match m (placed fs) = Some (t', w, q)" for m t' w q using that unfolding Struct same_Struct_iff by blast
      show "\<forall>p \<in> set (leaves t). value_at t b x p = value_at t b y p"
      proof
        fix p assume "p \<in> set (leaves t)"
        then obtain m t' w q p' where p: "last_match m (placed fs) = Some (t', w, q)" "p = Fld m # p'" "p' \<in> set (case w of None \<Rightarrow> leaves t' | Some _ \<Rightarrow> [[]])"
          unfolding Struct struct_leaves_iff by blast
        from s [OF p(1)] have "\<forall>p \<in> set (case w of None \<Rightarrow> leaves t' | Some _ \<Rightarrow> [[]]). value_at t b x (Fld m # p) = value_at t b y (Fld m # p)"
          unfolding fld [OF p(1)] .
        from bspec [OF this p(3)] show "value_at t b x p = value_at t b y p" unfolding p(2) .
      qed
    next
      assume a: "\<forall>p \<in> set (leaves t). value_at t b x p = value_at t b y p"
      have "same_field t' w q b x y" if l: "last_match m (placed fs) = Some (t', w, q)" for m t' w q
        unfolding fld [OF l]
      proof
        fix p assume "p \<in> set (case w of None \<Rightarrow> leaves t' | Some _ \<Rightarrow> [[]])"
        then have "Fld m # p \<in> set (leaves t)" unfolding Struct struct_leaves_iff using l by blast
        from bspec [OF a this] show "value_at t b x (Fld m # p) = value_at t b y (Fld m # p)" .
      qed
      then show "same t b x y" unfolding Struct same_Struct_iff by blast
    qed
  qed (use less.prems in \<open>simp_all add: value_at_def\<close>)
qed

text \<open>
  Two structures of integers, nested structures and arrays of them are equal exactly when all their integer fields are; a structure with an array within an array does not
  even equal itself.
\<close>

theorem struct_eq_fields:
  shows "(comparable t \<longrightarrow> struct_eq t x y = (\<forall>p \<in> set (leaves t). getf (the (field_pos t p)) x = getf (the (field_pos t p)) y)) \<and>
    struct_ne t x y = (\<not> struct_eq t x y) \<and>
    (t = Struct [(n, Arr (Arr (UInt 1) (Suc i)) (Suc j), None)] \<longrightarrow> \<not> struct_eq t x x)"
proof (intro conjI impI)
  assume c: "comparable t"
  show "struct_eq t x y = (\<forall>p \<in> set (leaves t). getf (the (field_pos t p)) x = getf (the (field_pos t p)) y)"
    using same_iff [OF c, of 0 x y] leaf_value [of _ t] by (simp add: struct_eq_def)
next
  assume t: "t = Struct [(n, Arr (Arr (UInt 1) (Suc i)) (Suc j), None)]"
  have "[0..<Suc j] = 0 # [Suc 0..<Suc j]" by (simp add: upt_conv_Cons)
  then show "\<not> struct_eq t x x"
    by (simp add: struct_eq_def t placed_def attr_results_def last_match_def struct_places_def del: upt_Suc)
qed (simp add: struct_ne_def)

lemma struct_eq_fields_witness:
  "struct_eq (Struct [(''A'', UInt 1, Some 4), (''B'', UInt 1, Some 4), (''C'', Arr (UInt 2) 2, None)]) [0x21, 1, 0, 2, 0] [0x21, 1, 0, 2, 0] \<and>
   \<not> struct_eq (Struct [(''A'', UInt 1, Some 4), (''B'', UInt 1, Some 4), (''C'', Arr (UInt 2) 2, None)]) [0x21, 1, 0, 2, 0] [0x21, 1, 0, 2, 1]"
proof -
  let ?t = "Struct [(''A'', UInt 1, Some 4), (''B'', UInt 1, Some 4), (''C'', Arr (UInt 2) 2, None)]"
  have "comparable ?t" by (simp add: placed_def struct_places_def)
  moreover have "[Fld ''C'', Idx 1] \<in> set (leaves ?t)" unfolding leaves_iff by (simp add: placed_def struct_places_def last_match_def)
  moreover have "field_pos ?t [Fld ''C'', Idx 1] = Some (24, 16)" by (simp add: field_pos_def struct_places_def last_match_def)
  moreover have "getf (24, 16) [0x21, 1, 0, 2, 0] \<noteq> getf (24, 16) [0x21, 1, 0, 2, 1 :: byte]" by (simp add: getf_def get_bits_def take_bit_eq_mod drop_bit_eq_div)
  ultimately show ?thesis
    using struct_eq_fields [of ?t "[0x21, 1, 0, 2, 0]" "[0x21, 1, 0, 2, 0]"] struct_eq_fields [of ?t "[0x21, 1, 0, 2, 0]" "[0x21, 1, 0, 2, 1]"] by fastforce
qed

end
