(* ===== verification/Inspection.thy ===== *)
theory Inspection
  imports Effects Py_Strings
begin

text \<open>
  Dumps of memory (\<open>lone/util/hexdump.py\<close>) and the injectors that tests register (\<open>lone/injection/__init__.py\<close>).
\<close>

section \<open>Dumps\<close>

definition hex_byte :: "byte \<Rightarrow> string" where
  "hex_byte b = [digit_char (unat b div 16), digit_char (unat b mod 16)]"

fun join_spaced :: "string list \<Rightarrow> string" where
  "join_spaced [] = []"
| "join_spaced [x] = x"
| "join_spaced (x # xs) = x @ CHR '' '' # join_spaced xs"

definition printable :: "byte \<Rightarrow> char" where
  "printable b = (if unat b > 31 \<and> unat b < 128 then char_of (unat b) else CHR ''.'')"

definition hexlify_with_string :: "byte list \<Rightarrow> string \<times> string" where
  "hexlify_with_string chunk = (join_spaced (map hex_byte chunk), map printable chunk)"

text \<open>Reading pieces until there is nothing more.\<close>

function chunks_of :: "nat \<Rightarrow> 'a list \<Rightarrow> 'a list list" where
  "chunks_of n xs = (if n = 0 \<or> xs = [] then [] else take n xs # chunks_of n (drop n xs))"
  by pat_completeness auto
termination
  by (relation "measure (\<lambda>(n, xs). length xs)") auto

declare chunks_of.simps [simp del]

definition dump_line :: "nat \<Rightarrow> nat \<Rightarrow> byte list \<Rightarrow> string" where
  "dump_line num_chunks address chunk = (case hexlify_with_string chunk of (h, s) \<Rightarrow>
     ''0x'' @ hex_padded 4 address @ '' '' @ h @ replicate (num_chunks * 2 + (num_chunks - 1) - length h) CHR '' '' @ ''   '' @ s)"

text \<open>A limit of no lines is no limit.\<close>

fun dump_loop :: "nat \<Rightarrow> nat \<Rightarrow> nat \<Rightarrow> byte list list \<Rightarrow> string list \<Rightarrow> string list" where
  "dump_loop num_chunks max_lines address [] ret = ret"
| "dump_loop num_chunks max_lines address (c # cs) ret =
     (let ret = ret @ [dump_line num_chunks address c] in
      if max_lines \<noteq> 0 \<and> length ret \<ge> max_lines then ret else dump_loop num_chunks max_lines (address + num_chunks) cs ret)"

definition hexdump :: "byte list \<Rightarrow> nat \<Rightarrow> nat option \<Rightarrow> string list res" where
  "hexdump data num_chunks max_bytes =
     bindR (case max_bytes of
        None \<Rightarrow> Inr 0
      | Some m \<Rightarrow> if m = 0 then Inr 0 else if num_chunks = 0 then Inl ZeroDivisionError else Inr (m div num_chunks)) (\<lambda>max_lines.
     Inr (dump_loop num_chunks max_lines 0 (chunks_of num_chunks data) []))"

subsection \<open>What a dump shows\<close>

text \<open>The bytes of a line, read back from its second column.\<close>

fun unhex :: "string \<Rightarrow> byte list" where
  "unhex (a # b # rest) = (case (digit_value a, digit_value b) of
     (Some x, Some y) \<Rightarrow> of_nat (16 * x + y) # unhex (drop 1 rest) | _ \<Rightarrow> [])"
| "unhex _ = []"

definition line_bytes :: "nat \<Rightarrow> string \<Rightarrow> byte list" where
  "line_bytes num_chunks line = unhex (take (3 * num_chunks - 1) (drop 1 (dropWhile (\<lambda>c. c \<noteq> CHR '' '') line)))"

lemma digit_char_not_space: "n < 16 \<Longrightarrow> digit_char n \<noteq> CHR '' ''"
proof -
  assume "n < 16"
  moreover have "list_all (\<lambda>n. digit_char n \<noteq> CHR '' '') [0..<16]"
    by (simp add: upt_rec digit_char_def)
  ultimately show ?thesis by (simp add: list_all_iff)
qed

lemma digits_in_no_space: "b \<le> 16 \<Longrightarrow> 2 \<le> b \<Longrightarrow> CHR '' '' \<notin> set (digits_in b n)"
proof (induction b n rule: digits_in.induct)
  case (1 b n)
  then show ?case
    using digit_char_not_space [of "n mod 16"] digit_char_not_space [of "n mod b mod 16"]
    by (subst digits_in.simps) (auto dest: sym)
qed

lemma unhex_spaces: "unhex (replicate k CHR '' '') = []"
  by (cases k; cases "k - 1") (auto simp: digit_value_def)

lemma unhex_byte: "unhex (hex_byte b @ rest) = b # unhex (drop 1 rest)"
proof -
  have "unat b div 16 < 16" using unsigned_less [of b, where 'a = nat] by (simp add: less_mult_imp_div_less)
  then show ?thesis by (simp add: hex_byte_def digit_round)
qed

lemma unhex_joined: "unhex (join_spaced (map hex_byte bs) @ replicate k CHR '' '') = bs"
proof (induction bs)
  case Nil then show ?case by (simp add: unhex_spaces)
next
  case (Cons b bs)
  then show ?case
    using unhex_spaces [of "k - 1"] by (cases bs) (simp_all add: unhex_byte)
qed

lemma join_spaced_length: "length (join_spaced (map hex_byte bs)) = 3 * length bs - 1"
proof (induction bs)
  case (Cons b bs) then show ?case by (cases bs) (simp_all add: hex_byte_def)
qed simp

lemma dropWhile_until: "c \<notin> set xs \<Longrightarrow> dropWhile (\<lambda>x. x \<noteq> c) (xs @ c # ys) = c # ys"
  by (induction xs) auto

lemma line_bytes_dump_line:
  assumes "0 < n" and "length chunk \<le> n"
  shows "line_bytes n (dump_line n a chunk) = chunk"
proof -
  let ?h = "join_spaced (map hex_byte chunk)"
  let ?pad = "n * 2 + (n - 1) - length ?h"
  have "CHR '' '' \<notin> set (''0x'' @ hex_padded 4 a)"
    using digits_in_no_space [of 16 a] by (auto simp: hex_padded_def Let_def)
  then have drop: "dropWhile (\<lambda>c. c \<noteq> CHR '' '') ((''0x'' @ hex_padded 4 a) @ CHR '' '' # rest) = CHR '' '' # rest" for rest
    by (rule dropWhile_until)
  have "length (?h @ replicate ?pad CHR '' '') = 3 * n - 1"
    using assms by (simp add: join_spaced_length)
  then have taken: "take (3 * n - 1) (?h @ replicate ?pad CHR '' '' @ rest) = ?h @ replicate ?pad CHR '' ''" for rest
    by (metis append_assoc append_eq_conv_conj)
  have "dump_line n a chunk = (''0x'' @ hex_padded 4 a) @ CHR '' '' # (?h @ replicate ?pad CHR '' '' @ ''   '' @ map printable chunk)"
    by (simp add: dump_line_def hexlify_with_string_def)
  then have "line_bytes n (dump_line n a chunk) =
      unhex (take (3 * n - 1) (?h @ replicate ?pad CHR '' '' @ ''   '' @ map printable chunk))"
    by (simp only: line_bytes_def drop list.simps drop_Suc_Cons drop_0 One_nat_def)
  then show ?thesis by (simp only: taken unhex_joined)
qed

lemma chunks_cons: "0 < n \<Longrightarrow> xs \<noteq> [] \<Longrightarrow> chunks_of n xs = take n xs # chunks_of n (drop n xs)"
  by (simp add: chunks_of.simps [of n xs])

lemma chunks_nil [simp]: "chunks_of n [] = []"
  by (simp add: chunks_of.simps)

lemma chunks_short: "0 < n \<Longrightarrow> list_all (\<lambda>c. length c \<le> n) (chunks_of n xs)"
proof (induction n xs rule: chunks_of.induct)
  case (1 n xs)
  then show ?case by (cases "xs = []") (simp_all add: chunks_cons)
qed

lemma chunks_prefix: "0 < n \<Longrightarrow> concat (take k (chunks_of n xs)) = take (n * k) xs"
proof (induction n xs arbitrary: k rule: chunks_of.induct)
  case (1 n xs)
  show ?case
  proof (cases "xs = [] \<or> k = 0")
    case True then show ?thesis by auto
  next
    case False
    then obtain j where "k = Suc j" by (cases k) auto
    then show ?thesis using 1 False by (simp add: chunks_cons take_add)
  qed
qed

lemma chunks_count: "0 < n \<Longrightarrow> length (chunks_of n xs) = (length xs + n - 1) div n"
proof (induction n xs rule: chunks_of.induct)
  case (1 n xs)
  show ?case
  proof (cases "xs = []")
    case True then show ?thesis using 1 by simp
  next
    case False
    then obtain k where "length xs = Suc k" by (cases xs) auto
    then have all: "(length xs + n - 1) div n = Suc ((length xs - 1) div n)" using 1(2) div_add_self2 [of n k] by simp
    have "(length xs - n + n - 1) div n = (length xs - 1) div n"
    proof (cases "n \<le> length xs")
      case True then show ?thesis by simp
    next
      case short: False
      then have "length xs - n + n - 1 = n - 1" and "length xs - 1 < n" by auto
      then show ?thesis using 1(2) by simp
    qed
    moreover have "length (chunks_of n (drop n xs)) = (length (drop n xs) + n - 1) div n"
      using 1(1,2) False by blast
    ultimately show ?thesis using all by (simp only: chunks_cons [OF 1(2) False] list.size length_drop)
  qed
qed

lemma dump_loop_lines:
  assumes "0 < n" and "list_all (\<lambda>c. length c \<le> n) cs" and "m = 0 \<or> length ret < m"
  shows "\<exists>more. dump_loop n m a cs ret = ret @ more \<and>
     map (line_bytes n) more = (if m = 0 then cs else take (m - length ret) cs)"
  using assms(2,3)
proof (induction cs arbitrary: a ret)
  case Nil then show ?case by simp
next
  case (Cons c cs)
  let ?l = "dump_line n a c"
  have l: "line_bytes n ?l = c" using Cons.prems(1) assms(1) by (simp add: line_bytes_dump_line)
  show ?case
  proof (cases "m \<noteq> 0 \<and> m \<le> length (ret @ [?l])")
    case True
    then have "m - length ret = 1" using Cons.prems(2) by auto
    then show ?thesis using True l by (intro exI [of _ "[?l]"]) simp
  next
    case False
    then have room: "m = 0 \<or> length (ret @ [?l]) < m" by auto
    obtain more where more: "dump_loop n m (a + n) cs (ret @ [?l]) = (ret @ [?l]) @ more"
      "map (line_bytes n) more = (if m = 0 then cs else take (m - length (ret @ [?l])) cs)"
      using Cons.IH [OF _ room] Cons.prems(1) by fastforce
    have "take (m - length ret) (c # cs) = c # take (m - length (ret @ [?l])) cs" if "m \<noteq> 0"
      using that room by (simp add: take_Cons')
    then show ?thesis using False more l by (intro exI [of _ "?l # more"]) auto
  qed
qed

text \<open>
  A dump shows the data: the bytes read back from the second columns of its lines, one after the other, are the whole of the data
  when no limit is given, and its first \<open>m div n\<close> lines of \<open>n\<close> bytes under a limit of \<open>m\<close> bytes.  A limit smaller than a line is
  no limit: the quotient is zero, and zero lines are read as all of them.
\<close>

theorem hexdump_shows:
  assumes "0 < n"
  shows "\<exists>lines. hexdump data n m = Inr lines \<and>
     concat (map (line_bytes n) lines) = (case m of None \<Rightarrow> data | Some k \<Rightarrow> if k < n then data else take (n * (k div n)) data) \<and>
     (m = None \<longrightarrow> length lines = (length data + n - 1) div n)"
proof -
  define q where "q = (case m of None \<Rightarrow> 0 | Some k \<Rightarrow> k div n)"
  have run: "hexdump data n m = Inr (dump_loop n q 0 (chunks_of n data) [])"
    using assms by (auto simp: hexdump_def q_def bindR_def split: option.split)
  obtain lines where lines: "dump_loop n q 0 (chunks_of n data) [] = lines"
    "map (line_bytes n) lines = (if q = 0 then chunks_of n data else take q (chunks_of n data))"
    using dump_loop_lines [OF assms chunks_short [OF assms], of q "[]" 0 data] by (auto cong: if_cong)
  have "length data \<le> n * max (length data) (length (chunks_of n data))"
    using assms by (cases n) auto
  then have whole: "concat (chunks_of n data) = data"
    using chunks_prefix [OF assms, of "max (length data) (length (chunks_of n data))" data] by simp
  have "length lines = length (map (line_bytes n) lines)" by simp
  then show ?thesis
    using run lines whole assms chunks_count [OF assms, of data] chunks_prefix [OF assms, of q data]
    by (auto simp: q_def div_eq_0_iff split: option.splits if_splits)
qed

theorem hexdump_shows_witness:
  "\<exists>lines. hexdump [1, 2, 3, 4, 5] 2 (Some 4) = Inr lines \<and> concat (map (line_bytes 2) lines) = [1, 2, 3, 4]"
  using hexdump_shows [of 2 "[1, 2, 3, 4, 5]" "Some 4"] by auto

section \<open>Injectors\<close>

text \<open>A registered object: its identity and the name of its class.\<close>

record injector =
  object_id :: nat
  class_name :: string

text \<open>\<open>register\<close> refuses what is no injector.\<close>

definition inj_register :: "bool \<Rightarrow> injector \<Rightarrow> injector list \<Rightarrow> injector list res" where
  "inj_register is_injector i registered = (if is_injector then Inr (registered @ [i]) else Inl AssertionError)"

definition inj_get :: "string \<Rightarrow> injector list \<Rightarrow> injector option \<times> injector list" where
  "inj_get injector_type registered =
     (case filter (\<lambda>i. class_name i = injector_type) registered of
        [] \<Rightarrow> (None, registered)
      | i # _ \<Rightarrow> (Some i, remove1 i registered))"

text \<open>\<open>wait\<close> looks at the flag once per round, \<open>rounds\<close> times, and fails when no look finds it set.\<close>

fun inj_wait :: "(nat \<Rightarrow> bool) \<Rightarrow> nat \<Rightarrow> nat \<Rightarrow> unit res" where
  "inj_wait ack i 0 = Inl AssertionError"
| "inj_wait ack i (Suc left) = (if ack i then Inr () else inj_wait ack (Suc i) left)"

fun_cases inj_wait_success: "inj_wait ack i left = Inr ()"

lemma inj_wait_seen: "inj_wait ack i left = Inr () \<Longrightarrow> \<exists>j. i \<le> j \<and> j < i + left \<and> ack j"
proof (induction left arbitrary: i)
  case 0 then show ?case by simp
next
  case (Suc k)
  show ?case
  proof (cases "ack i")
    case True then show ?thesis by (auto intro: exI [of _ i])
  next
    case False
    then have "inj_wait ack (Suc i) k = Inr ()"
      using Suc.prems by (elim inj_wait_success) simp
    from Suc.IH [OF this] obtain j where "Suc i \<le> j" "j < Suc i + k" "ack j" by auto
    then show ?thesis by (intro exI [of _ j]) simp
  qed
qed

lemma inj_wait_ack: "ack j \<Longrightarrow> i \<le> j \<Longrightarrow> j < i + left \<Longrightarrow> inj_wait ack i left = Inr ()"
proof (induction ack i left rule: inj_wait.induct)
  case (2 ack i left)
  then show ?case by (cases "i = j") auto
qed simp

text \<open>The injectors of one class that are registered, the oldest first.\<close>

definition of_class :: "string \<Rightarrow> injector list \<Rightarrow> injector list" where
  "of_class c registered = filter (\<lambda>i. class_name i = c) registered"

text \<open>
  The registry is a queue for every class of injectors: registering appends to the queue of the injector's class, and asking for a
  class takes the front of its queue, or finds it empty; the queues of all other classes stay.
\<close>

theorem injectors_fifo:
  "(case inj_get c registered of
      (None, rest) \<Rightarrow> of_class c registered = [] \<and> rest = registered
    | (Some i, rest) \<Rightarrow> of_class c registered = i # of_class c rest \<and> (\<forall>d. d = c \<or> of_class d rest = of_class d registered)) \<and>
   (\<exists>more. inj_register True i registered = Inr more \<and> of_class (class_name i) more = of_class (class_name i) registered @ [i] \<and>
     (\<forall>d. d = class_name i \<or> of_class d more = of_class d registered))"
proof -
  have remove: "of_class d (remove1 i registered) = remove1 i (of_class d registered)" for d i
    by (simp add: of_class_def filter_remove1)
  have other: "remove1 i (of_class d registered) = of_class d registered" if "d \<noteq> class_name i" for d i
    using that by (intro remove1_idem) (auto simp: of_class_def)
  have got: "of_class c registered = j # of_class c rest \<and> (\<forall>d. d = c \<or> of_class d rest = of_class d registered)"
    if "inj_get c registered = (Some j, rest)" for j rest
  proof -
    have front: "of_class c registered = j # tl (of_class c registered)" and rest: "rest = remove1 j registered"
      using that by (auto simp: inj_get_def of_class_def split: list.splits)
    moreover from front have "j \<in> set (of_class c registered)" by (metis list.set_intros(1))
    then have "class_name j = c" by (simp add: of_class_def)
    ultimately show ?thesis using remove other [of _ j] by (metis remove1.simps(2))
  qed
  have none: "of_class c registered = [] \<and> rest = registered" if "inj_get c registered = (None, rest)" for rest
    using that by (auto simp: inj_get_def of_class_def split: list.splits)
  show ?thesis
    using got none by (auto simp: inj_register_def of_class_def split: option.split prod.split)
qed

end
