(* ===== verification/Spec2Isabelle.thy ===== *)
theory Spec2Isabelle
  imports NvmeRegs PciCapabilities Queue_Contracts Queue_Manager PRP_Transfer Lba_Gen Layout_Checks Nvsim_Thread Nvsim_Admin Host_Examples Hugepages_Contract
    Host_Bringup Command_Memory Vfio_Config Vfio_Devices Physical_Device Linux_Pci Struct_Tools Inspection
begin

text \<open>
  \<open>lone\<close>, a storage development kit for NVMe devices, and its simulator \<open>nvsim\<close> (\<open>src/python3\<close>).

  The program. A test program makes commands (\<open>lone/nvme/spec/commands\<close>), gives them buffers described by physical
  region pages (\<open>spec/prp.py\<close>) and hands them to a driver (\<open>lone/nvme/device\<close>), which writes them into submission
  queues and takes completions from completion queues (\<open>spec/queues.py\<close>). The controller is a real one, reached
  through VFIO (\<open>lone/system/linux\<close>, with a memory manager over huge pages), or the simulator in the same process
  (\<open>nvsim\<close>), whose thread watches the registers and whose handlers read the queues and buffers from the memory both
  share. What all of them exchange are bytes in memory at addresses.

  The model. Memory is a function from addresses to bytes, and structures of \<open>ctypes\<close> are layouts with computed bit
  positions, so that every field access is one of the bytes at that address. Exceptions are values (\<open>py_error\<close>, \<open>'a
  res\<close>), and computations that change state and may raise are functions from a state to a result and a state (\<open>('s,
  'a) st\<close>): what was changed before an exception stays changed. Python integers are \<open>nat\<close> or \<open>int\<close>, cut to the width
  of a field where the code assigns one. Objects of the driver are positions in tables of their class; the attributes
  that the code adds as it goes are options, and reading an unset one raises.

  \<^bold>\<open>Foundations.\<close>

    \<^item> \<open>Prelude\<close>: exceptions, results, lists, collections of rules.
    \<^item> \<open>Bytes\<close>: memory, little-endian integers, bit fields.
    \<^item> \<open>Ctypes\<close>: layouts, positions of fields, unions and arrays.
    \<^item> \<open>Ring_Buffer\<close>: arithmetic of rings, and the locale \<open>bounded_fifo\<close>, the contract of a queue between two sides.
    \<^item> \<open>Effects\<close>: computations with state, the predicates they keep, the state shared by driver and device.
    \<^item> \<open>Py_Strings\<close>: the string operations of the system tools.

  \<^bold>\<open>Specification modules\<close> (\<open>lone/nvme/spec\<close>).

    \<^item> \<open>Registers\<close> (\<open>registers/__init__.py\<close>): access to registers over a pair of accessors, the locale \<open>byte_access\<close>,
      interpreted on the accessors of VFIO.
    \<^item> \<open>NvmeRegs\<close>, \<open>PcieRegs\<close>, \<open>PciCapabilities\<close>: every register class, and the walk through the two capability lists,
      which finds exactly the capabilities of lists that end and never returns on one that loops.
    \<^item> \<open>Structures\<close>, \<open>Commands\<close>, \<open>Command_Classes\<close>, \<open>Identify_Data\<close>, \<open>Log_Pages\<close>, \<open>Features\<close>, \<open>Status_Codes\<close>: entries,
      commands, data structures and the registry of status codes; \<open>Command_Set\<close> and \<open>Layout_Checks\<close>: what holds of
      all of them.
    \<^item> \<open>Queues\<close>, \<open>Queue_Contracts\<close>, \<open>Queue_Frames\<close> (\<open>queues.py\<close>): the two queue classes satisfy \<open>bounded_fifo\<close>, also
      while doorbells and phase tags wrap, and leave all other memory alone; \<open>Queue_Manager\<close>: the table of queue
      pairs.
    \<^item> \<open>PRP\<close>, \<open>PRP_Transfer\<close> (\<open>prp.py\<close>): making and walking the lists of pages; what the host allocates is what the
      device finds.

  \<^bold>\<open>Memory managers.\<close>

    \<^item> \<open>Dma_Memory\<close>: the locales \<open>dma_locations\<close> and \<open>dma_memory\<close>, what a driver relies on, and the manager of the
      simulator (\<open>nvsim/memory\<close>), which satisfies them.
    \<^item> \<open>Hugepages\<close>, \<open>Hugepages_Wf\<close>, \<open>Hugepages_Contract\<close> (\<open>lone/system/linux/hugepages_mgr.py\<close>): the manager of huge
      pages and bus addresses, its invariant, and the interpretation of \<open>dma_locations\<close> for sizes it honours.

  \<^bold>\<open>Simulator\<close> (\<open>nvsim\<close>).

    \<^item> \<open>Nvsim_Storage\<close>: namespaces.
    \<^item> \<open>Nvsim_Handlers\<close>: every command handler; \<open>Nvsim_Io\<close>: read and write refine an abstract disk, from the host's
      pages to the blocks; \<open>Nvsim_Admin\<close>: what the admin handlers answer.
    \<^item> \<open>Nvsim_Config\<close>, \<open>Nvsim_Device\<close>, \<open>Nvsim_Thread\<close>: configuration, reaction to registers, and the thread as a
      transition system (\<open>thread_step\<close>) under every interleaving with the host.

  \<^bold>\<open>Driver\<close> (\<open>lone/nvme/device/__init__.py\<close>).

    \<^item> \<open>Host_State\<close>, \<open>Host_Commands\<close>, \<open>Host_Sync\<close>, \<open>Host_Queues\<close>: enabling, the life of a command, the waiting loops,
      the I/O queues.
    \<^item> \<open>Host_Wf\<close>, \<open>Host_Driver\<close>: what every operation keeps, and the executions (\<open>driver_step\<close>) in which a device does
      what it likes in between.
    \<^item> \<open>Host_Init\<close>, \<open>Host_Examples\<close>: the admin queues, concrete drivers.
    \<^item> \<open>Command_Memory\<close>: giving the memory of a command back.
    \<^item> \<open>Host_Identify\<close> (\<open>identify.py\<close>): the identify data and the sizes shown.

  \<^bold>\<open>Driver and simulator together.\<close>

    \<^item> \<open>Admin_Service\<close>: the locale \<open>admin_device\<close>, the contract of a device that serves its admin queue, and what
      \<open>sync_cmd\<close> does over it.
    \<^item> \<open>Nvsim_Service\<close>: the simulator satisfies it.
    \<^item> \<open>Host_Sim\<close>, \<open>Host_Bringup\<close>: from power on to the identify data.

  \<^bold>\<open>System\<close> (\<open>lone/system/linux\<close>).

    \<^item> \<open>Linux_Vfio\<close>, \<open>Vfio_Facts\<close> (\<open>vfio.py\<close>, \<open>SysVfioIfc\<close>): the requests, the steps of \<open>initialize\<close>, interrupts and
      mappings.
    \<^item> \<open>Vfio_Config\<close>: registers in the configuration space of an open device.
    \<^item> \<open>Vfio_Devices\<close> (\<open>SysVfio\<close>): which devices are available.
    \<^item> \<open>Vfio_Dma\<close>: the huge page manager over the VFIO object: the kernel's mappings are the locations in use.
    \<^item> \<open>Physical_Device\<close>: how \<open>NVMeDevicePhysical\<close> puts them together.
    \<^item> \<open>Linux_Pci\<close> (\<open>pci.py\<close>): drivers and users of a device in \<open>sysfs\<close>.

  \<^bold>\<open>Tools\<close> (\<open>lone/util\<close>, \<open>lone/injection\<close>).

    \<^item> \<open>Lba_Gen\<close>: the shift register of random block addresses.
    \<^item> \<open>Struct_Tools\<close>: comparison and iteration of structures.
    \<^item> \<open>Inspection\<close>: dumps and injectors.

  The properties. Most state what the code means to do. Those of kind \<open>error\<close> state what it does where it raises, or
  does something else than the caller will expect; the statement then says so, and where it is a fault, it is listed
  with the file and the line among the findings of the development.

  Bounds and fuel. Loops that wait for time are given the number of rounds that start in the time (\<open>pf_rounds\<close>); the
  statements hold for every such number, or say which are enough. The loop over the completions of an interrupt
  (\<open>drain\<close>) needs none: it is bounded by the outstanding commands. The service loops of the simulator run until the
  queues are empty, which the host decides, and have fuel; one more than the number of posted commands is enough. The
  walk through the capabilities of the IOMMU has the limit of 1000 that the code has. The walk through the PCI
  capabilities is given fuel: any number above the length of either list is enough, and a list that loops uses up
  every number, as the code then runs on for ever.

  Parameters. \<open>mmap\<close> and the other system calls, the C extension for huge pages, the outputs of \<open>lspci\<close>, \<open>find\<close> and
  \<open>mount\<close>, the properties of \<open>udev\<close>, the database of users, the address that \<open>ctypes\<close> gives an array and the number
  that \<open>ioctl_opt\<close> gives a request are arguments of the definitions; what is assumed of them is a named predicate
  (\<open>ctypes_heap\<close>, \<open>hugepages_heap\<close>, \<open>traced\<close>, \<open>calls_return\<close>), and every property that assumes it is applied to a
  concrete instance.

  Not modelled. Printing and logging (\<open>DataDumper.dump\<close>, \<open>DevMemMgr.__str__\<close> and \<open>dump\<close>, \<open>lone/util/logging.py\<close>),
  which change no state. The time stamps of commands. The abstract classes of \<open>lone/system/__init__.py\<close>, whose
  methods only raise, and the choice of classes for the operating system. The end of the simulator's thread when its
  object is collected. The file that backs a namespace, which the code creates anew and only the simulator uses.
  \<open>scripts\<close>, \<open>examples\<close>, \<open>nvtest\<close> and the unit tests, which call the library. \<open>hugepages.c\<close>, which is not Python and
  whose functions are parameters.
\<close>

end
